(* ===== verification/Rc2_Prelude.thy ===== *)
theory Rc2_Prelude
  imports Main "HOL-Library.Word" "HOL-Library.List_Lexorder" "HOL-Library.Char_ord"
begin

text \<open>
  What every component of the development shares.

  \<^item> The C++ exceptions the program throws or lets through, as a datatype, with the
    two class tests its handlers use (\<open>catch (std::runtime_error)\<close> and
    \<open>catch (std::exception)\<close>). Undefined behaviour (a null dereference, a read past
    the end of a buffer) is a value of the same type that no handler catches.
  \<^item> Actions: state transformers that return a value or an exception and keep the state
    reached so far, with the control structures of the program (sequencing, \<open>try\<close>,
    destructors as \<open>scoped\<close>, a loop over a range).
  \<^item> Two Hoare-style judgements on actions with one rule per control structure:
    \<open>keeps\<close> (an invariant holds on every way out) and \<open>ensures\<close> (a postcondition per
    way out).
\<close>

section \<open>Exceptions\<close>

text \<open>
  \<open>DBException\<close> (common/PostgresUtils.hpp), \<open>StatException\<close> (src/FileManager.cpp) and
  boost's \<open>filesystem_error\<close> derive from \<open>std::runtime_error\<close>; \<open>FormattedException\<close>
  (common/FormattedException.hpp) derives from \<open>std::exception\<close> only, and so do the
  logic errors thrown by the JSON library, \<open>std::bad_alloc\<close> and Rcpp's exceptions.
  \<open>ArgException\<close> is TCLAP's (text, id and type description), a \<open>std::exception\<close> too, and
  \<open>ExitException\<close> is its class without a base. \<open>Abort\<close> is the end of the process (\<open>abort()\<close>,
  \<open>std::terminate\<close>) and so is \<open>Exit\<close> (\<open>exit(status)\<close>): no handler runs.
\<close>

datatype exn =
    RuntimeError string
  | DBException string
  | StatException string
  | FilesystemError string
  | FormattedException string
  | DomainError string
  | OutOfRange string
  | InvalidArgument string
  | BadAlloc
  | RcppException string
  | ArgException string string string
  | ErrnoThrown int
  | ExitException int
  | Exit int
  | Abort string
  | UB string

fun is_runtime_error :: "exn \<Rightarrow> bool" where
  "is_runtime_error (RuntimeError _) = True"
| "is_runtime_error (DBException _) = True"
| "is_runtime_error (StatException _) = True"
| "is_runtime_error (FilesystemError _) = True"
| "is_runtime_error _ = False"

fun is_std_exception :: "exn \<Rightarrow> bool" where
  "is_std_exception (ErrnoThrown _) = False"
| "is_std_exception (ExitException _) = False"
| "is_std_exception (Exit _) = False"
| "is_std_exception (Abort _) = False"
| "is_std_exception (UB _) = False"
| "is_std_exception _ = True"

fun is_ub :: "exn \<Rightarrow> bool" where
  "is_ub (UB _) = True"
| "is_ub _ = False"

fun what :: "exn \<Rightarrow> string" where
  "what (RuntimeError m) = m"
| "what (DBException m) = m"
| "what (StatException m) = m"
| "what (FilesystemError m) = m"
| "what (FormattedException m) = m"
| "what (DomainError m) = m"
| "what (OutOfRange m) = m"
| "what (InvalidArgument m) = m"
| "what BadAlloc = ''std::bad_alloc''"
| "what (RcppException m) = m"
| "what (ArgException text argId _) = argId @ '' -- '' @ text"
| "what (ErrnoThrown _) = []"
| "what (ExitException _) = []"
| "what (Exit _) = []"
| "what (Abort _) = []"
| "what (UB _) = []"

lemma runtime_error_is_std: "is_runtime_error e \<Longrightarrow> is_std_exception e"
  by (cases e) auto

lemma std_exception_not_ub: "is_std_exception e \<Longrightarrow> \<not> is_ub e"
  by (cases e) auto

section \<open>Actions\<close>

type_synonym ('s, 'a) act = "'s \<Rightarrow> (exn + 'a) \<times> 's"

definition ret :: "'a \<Rightarrow> ('s, 'a) act" where
  "ret a s = (Inr a, s)"

definition throw :: "exn \<Rightarrow> ('s, 'a) act" where
  "throw e s = (Inl e, s)"

definition bind :: "('s, 'a) act \<Rightarrow> ('a \<Rightarrow> ('s, 'b) act) \<Rightarrow> ('s, 'b) act" where
  "bind m f s = (case m s of (Inl e, s') \<Rightarrow> (Inl e, s') | (Inr a, s') \<Rightarrow> f a s')"

definition seq :: "('s, 'a) act \<Rightarrow> ('s, 'b) act \<Rightarrow> ('s, 'b) act" where
  "seq m n = bind m (\<lambda>_. n)"

definition gets :: "('s \<Rightarrow> 'a) \<Rightarrow> ('s, 'a) act" where
  "gets f s = (Inr (f s), s)"

definition modify :: "('s \<Rightarrow> 's) \<Rightarrow> ('s, unit) act" where
  "modify f s = (Inr (), f s)"

definition skip :: "('s, unit) act" where
  "skip = ret ()"

definition do_if :: "bool \<Rightarrow> ('s, unit) act \<Rightarrow> ('s, unit) act" where
  "do_if b m = (if b then m else skip)"

text \<open>\<open>try { m } catch (C& e) { h(e) }\<close>, where \<open>C\<close> decides which exceptions match.\<close>

definition try_catch :: "(exn \<Rightarrow> bool) \<Rightarrow> ('s, 'a) act \<Rightarrow> (exn \<Rightarrow> ('s, 'a) act) \<Rightarrow> ('s, 'a) act" where
  "try_catch C m h s = (case m s of
      (Inl e, s') \<Rightarrow> (if C e then h e s' else (Inl e, s'))
    | (Inr a, s') \<Rightarrow> (Inr a, s'))"

text \<open>A destructor: \<open>c\<close> runs when the scope of \<open>m\<close> is left, normally or by an exception.\<close>

definition scoped :: "('s, 'a) act \<Rightarrow> ('s \<Rightarrow> 's) \<Rightarrow> ('s, 'a) act" where
  "scoped m c s = (case m s of (r, s') \<Rightarrow> (r, c s'))"

text \<open>A range-based \<open>for\<close>: the first exception leaves the loop.\<close>

fun for_each :: "'a list \<Rightarrow> ('a \<Rightarrow> ('s, unit) act) \<Rightarrow> ('s, unit) act" where
  "for_each [] f = skip"
| "for_each (x # xs) f = seq (f x) (for_each xs f)"

text \<open>Reading out of a container, with the exception or the undefined behaviour written out.\<close>

definition unwrap :: "exn \<Rightarrow> 'a option \<Rightarrow> ('s, 'a) act" where
  "unwrap e x = (case x of None \<Rightarrow> throw e | Some a \<Rightarrow> ret a)"

text \<open>A computation without state that may fail.\<close>

definition lift :: "exn + 'a \<Rightarrow> ('s, 'a) act" where
  "lift r s = (r, s)"

section \<open>Equations of actions\<close>

named_theorems act_simps \<open>evaluation of actions\<close>

lemma ret_apply [act_simps]: "ret a s = (Inr a, s)"
  by (simp add: ret_def)

lemma throw_apply [act_simps]: "throw e s = (Inl e, s)"
  by (simp add: throw_def)

lemma gets_apply [act_simps]: "gets f s = (Inr (f s), s)"
  by (simp add: gets_def)

lemma modify_apply [act_simps]: "modify f s = (Inr (), f s)"
  by (simp add: modify_def)

lemma skip_apply [act_simps]: "skip s = (Inr (), s)"
  by (simp add: skip_def ret_def)

lemma do_if_apply [act_simps]: "do_if b m s = (if b then m s else (Inr (), s))"
  by (simp add: do_if_def skip_apply)

lemma bind_apply [act_simps]:
  "bind m f s = (case m s of (Inl e, s') \<Rightarrow> (Inl e, s') | (Inr a, s') \<Rightarrow> f a s')"
  by (simp add: bind_def)

lemma seq_apply [act_simps]:
  "seq m n s = (case m s of (Inl e, s') \<Rightarrow> (Inl e, s') | (Inr a, s') \<Rightarrow> n s')"
  by (simp add: seq_def bind_def)

lemma unwrap_None [act_simps]: "unwrap e None s = (Inl e, s)"
  by (simp add: unwrap_def throw_def)

lemma unwrap_Some [act_simps]: "unwrap e (Some a) s = (Inr a, s)"
  by (simp add: unwrap_def ret_def)

lemma unwrap_apply: "unwrap e x s = (case x of None \<Rightarrow> (Inl e, s) | Some a \<Rightarrow> (Inr a, s))"
  by (simp add: unwrap_def throw_def ret_def split: option.splits)

lemma lift_apply [act_simps]: "lift r s = (r, s)"
  by (simp add: lift_def)

lemma lift_Inr [simp]: "lift (Inr a) = ret a"
  by (rule ext) (simp add: lift_def ret_def)

lemma lift_Inl [simp]: "lift (Inl e) = throw e"
  by (rule ext) (simp add: lift_def throw_def)

lemmas act_defs = ret_def throw_def gets_def modify_def skip_apply do_if_apply bind_def seq_apply
  try_catch_def scoped_def unwrap_apply

lemma bind_ret_left [simp]: "bind (ret a) f = f a"
  by (rule ext) (simp add: bind_def ret_def)

lemma bind_ret_right [simp]: "bind m ret = m"
  by (rule ext) (auto simp: bind_def ret_def split: prod.splits sum.splits)

lemma bind_assoc: "bind (bind m f) g = bind m (\<lambda>a. bind (f a) g)"
  by (rule ext) (auto simp: bind_def split: prod.splits sum.splits)

lemma bind_throw [simp]: "bind (throw e) f = throw e"
  by (rule ext) (simp add: bind_def throw_def)

lemma bind_gets: "bind (gets f) g s = g (f s) s"
  by (simp add: bind_def gets_def)

lemma seq_modify: "seq (modify f) m s = m (f s)"
  by (simp add: seq_apply modify_def)

lemma seq_skip [simp]: "seq skip m = m"
  by (rule ext) (simp add: seq_apply skip_apply)

lemma bind_Inr: "m s = (Inr a, s') \<Longrightarrow> bind m f s = f a s'"
  by (simp add: bind_def)

lemma bind_Inl: "m s = (Inl e, s') \<Longrightarrow> bind m f s = (Inl e, s')"
  by (simp add: bind_def)

lemma seq_assoc: "seq (seq a b) c = seq a (seq b c)"
  by (simp add: seq_def bind_assoc)

lemma for_each_append: "for_each (xs @ ys) f = seq (for_each xs f) (for_each ys f)"
  by (induction xs) (simp_all add: seq_assoc)

section \<open>Invariants of actions\<close>

text \<open>\<open>keeps I m\<close>: the action keeps \<open>I\<close> whether it returns or throws.\<close>

definition keeps :: "('s \<Rightarrow> bool) \<Rightarrow> ('s, 'a) act \<Rightarrow> bool" where
  "keeps I m \<longleftrightarrow> (\<forall>s. I s \<longrightarrow> I (snd (m s)))"

named_theorems keeps_rules \<open>one rule per control structure\<close>

lemma keepsI: "(\<And>s. I s \<Longrightarrow> I (snd (m s))) \<Longrightarrow> keeps I m"
  by (simp add: keeps_def)

lemma keepsD: "keeps I m \<Longrightarrow> I s \<Longrightarrow> I (snd (m s))"
  by (simp add: keeps_def)

lemma keeps_ret [keeps_rules]: "keeps I (ret a)"
  by (simp add: keeps_def ret_def)

lemma keeps_throw [keeps_rules]: "keeps I (throw e)"
  by (simp add: keeps_def throw_def)

lemma keeps_gets [keeps_rules]: "keeps I (gets f)"
  by (simp add: keeps_def gets_def)

lemma keeps_skip [keeps_rules]: "keeps I skip"
  by (simp add: keeps_def skip_apply)

lemma keeps_unwrap [keeps_rules]: "keeps I (unwrap e x)"
  by (cases x) (simp_all add: keeps_def unwrap_def throw_def ret_def)

lemma keeps_lift [keeps_rules]: "keeps I (lift r)"
  by (simp add: keeps_def lift_def)

lemma keeps_modify: "(\<And>s. I s \<Longrightarrow> I (f s)) \<Longrightarrow> keeps I (modify f)"
  by (simp add: keeps_def modify_def)

lemma keeps_bind [keeps_rules]:
  assumes "keeps I m" and "\<And>a. keeps I (f a)"
  shows "keeps I (bind m f)"
proof (rule keepsI)
  fix s assume "I s"
  with assms(1) have "I (snd (m s))" by (rule keepsD)
  with assms(2) show "I (snd (bind m f s))"
    by (auto simp: bind_def keeps_def split: prod.splits sum.splits)
qed

lemma keeps_seq [keeps_rules]: "keeps I m \<Longrightarrow> keeps I n \<Longrightarrow> keeps I (seq m n)"
  by (simp add: seq_def keeps_bind)

lemma keeps_do_if [keeps_rules]: "(b \<Longrightarrow> keeps I m) \<Longrightarrow> keeps I (do_if b m)"
  by (simp add: do_if_def keeps_skip)

lemma keeps_if [keeps_rules]: "(b \<Longrightarrow> keeps I m) \<Longrightarrow> (\<not> b \<Longrightarrow> keeps I n) \<Longrightarrow> keeps I (if b then m else n)"
  by simp

lemma keeps_try [keeps_rules]:
  assumes "keeps I m" and "\<And>e. keeps I (h e)"
  shows "keeps I (try_catch C m h)"
proof (rule keepsI)
  fix s assume "I s"
  with assms(1) have "I (snd (m s))" by (rule keepsD)
  with assms(2) show "I (snd (try_catch C m h s))"
    by (auto simp: try_catch_def keeps_def split: prod.splits sum.splits)
qed

lemma keeps_scoped:
  assumes "keeps I m" and "\<And>s. I s \<Longrightarrow> I (c s)"
  shows "keeps I (scoped m c)"
proof (rule keepsI)
  fix s assume "I s"
  with assms(1) have "I (snd (m s))" by (rule keepsD)
  with assms(2) show "I (snd (scoped m c s))"
    by (auto simp: scoped_def split: prod.splits)
qed

lemma keeps_for_each [keeps_rules]: "(\<And>x. x \<in> set xs \<Longrightarrow> keeps I (f x)) \<Longrightarrow> keeps I (for_each xs f)"
  by (induction xs) (simp_all add: keeps_skip keeps_seq)

lemma keeps_option [keeps_rules]:
  "(x = None \<Longrightarrow> keeps I m) \<Longrightarrow> (\<And>a. x = Some a \<Longrightarrow> keeps I (f a)) \<Longrightarrow>
    keeps I (case x of None \<Rightarrow> m | Some a \<Rightarrow> f a)"
  by (cases x) simp_all

lemma keeps_conj: "keeps I m \<Longrightarrow> keeps J m \<Longrightarrow> keeps (\<lambda>s. I s \<and> J s) m"
  by (simp add: keeps_def)

section \<open>Postconditions of actions\<close>

text \<open>
  \<open>ensures P m Q E\<close>: started in a state with \<open>P\<close>, the action returns with \<open>Q\<close> or
  throws with \<open>E\<close>.
\<close>

definition ensures ::
    "('s \<Rightarrow> bool) \<Rightarrow> ('s, 'a) act \<Rightarrow> ('a \<Rightarrow> 's \<Rightarrow> bool) \<Rightarrow> (exn \<Rightarrow> 's \<Rightarrow> bool) \<Rightarrow> bool" where
  "ensures P m Q E \<longleftrightarrow> (\<forall>s. P s \<longrightarrow> (case m s of (Inr a, s') \<Rightarrow> Q a s' | (Inl e, s') \<Rightarrow> E e s'))"

named_theorems ensures_rules \<open>one rule per control structure\<close>

lemma ensuresI:
  "(\<And>s. P s \<Longrightarrow> (case m s of (Inr a, s') \<Rightarrow> Q a s' | (Inl e, s') \<Rightarrow> E e s')) \<Longrightarrow> ensures P m Q E"
  by (simp add: ensures_def)

lemma ensuresD_ok: "ensures P m Q E \<Longrightarrow> P s \<Longrightarrow> m s = (Inr a, s') \<Longrightarrow> Q a s'"
  by (fastforce simp: ensures_def)

lemma ensuresD_exn: "ensures P m Q E \<Longrightarrow> P s \<Longrightarrow> m s = (Inl e, s') \<Longrightarrow> E e s'"
  by (fastforce simp: ensures_def)

lemma ensures_ret: "(\<And>s. P s \<Longrightarrow> Q a s) \<Longrightarrow> ensures P (ret a) Q E"
  by (simp add: ensures_def ret_def)

lemma ensures_throw: "(\<And>s. P s \<Longrightarrow> E e s) \<Longrightarrow> ensures P (throw e) Q E"
  by (simp add: ensures_def throw_def)

lemma ensures_gets: "(\<And>s. P s \<Longrightarrow> Q (f s) s) \<Longrightarrow> ensures P (gets f) Q E"
  by (simp add: ensures_def gets_def)

lemma ensures_modify: "(\<And>s. P s \<Longrightarrow> Q () (f s)) \<Longrightarrow> ensures P (modify f) Q E"
  by (simp add: ensures_def modify_def)

lemma ensures_bind:
  assumes "ensures P m R E" and "\<And>a. ensures (R a) (f a) Q E"
  shows "ensures P (bind m f) Q E"
proof (rule ensuresI)
  fix s assume P: "P s"
  show "case bind m f s of (Inr a, s') \<Rightarrow> Q a s' | (Inl e, s') \<Rightarrow> E e s'"
  proof (cases "m s")
    case (Pair r s')
    show ?thesis
    proof (cases r)
      case (Inl e)
      with assms(1) P Pair show ?thesis by (simp add: bind_def ensuresD_exn)
    next
      case (Inr a)
      with assms(1) P Pair have "R a s'" by (simp add: ensuresD_ok)
      with assms(2) [of a] Pair Inr show ?thesis by (simp add: bind_def ensures_def)
    qed
  qed
qed

lemma ensures_seq:
  "ensures P m R E \<Longrightarrow> (\<And>a. ensures (R a) n Q E) \<Longrightarrow> ensures P (seq m n) Q E"
  unfolding seq_def by (rule ensures_bind)

text \<open>When only the normal return matters, a step that keeps \<open>P\<close> is passed over.\<close>

lemma keeps_yields:
  assumes "keeps I m"
  shows "ensures I m (\<lambda>_. I) (\<lambda>_ _. True)"
  using assms by (fastforce simp: keeps_def ensures_def split: prod.splits sum.splits)

lemma yields_bind:
  assumes "keeps P m" and "\<And>a. ensures P (f a) Q (\<lambda>_ _. True)"
  shows "ensures P (bind m f) Q (\<lambda>_ _. True)"
  by (rule ensures_bind [OF keeps_yields [OF assms(1)] assms(2)])

lemma yields_seq:
  "keeps P m \<Longrightarrow> ensures P n Q (\<lambda>_ _. True) \<Longrightarrow> ensures P (seq m n) Q (\<lambda>_ _. True)"
  by (simp add: seq_def yields_bind)

lemma yields_throw: "ensures P (throw e) Q (\<lambda>_ _. True)"
  by (simp add: ensures_throw)

lemma yields_option:
  "(x = None \<Longrightarrow> ensures P m Q E) \<Longrightarrow> (\<And>a. x = Some a \<Longrightarrow> ensures P (f a) Q E) \<Longrightarrow>
    ensures P (case x of None \<Rightarrow> m | Some a \<Rightarrow> f a) Q E"
  by (cases x) simp_all

lemma ensures_if:
  "(b \<Longrightarrow> ensures P m Q E) \<Longrightarrow> (\<not> b \<Longrightarrow> ensures P n Q E) \<Longrightarrow> ensures P (if b then m else n) Q E"
  by simp

lemma ensures_weaken:
  "ensures P' m Q' E' \<Longrightarrow> (\<And>s. P s \<Longrightarrow> P' s) \<Longrightarrow> (\<And>a s. Q' a s \<Longrightarrow> Q a s) \<Longrightarrow>
    (\<And>e s. E' e s \<Longrightarrow> E e s) \<Longrightarrow> ensures P m Q E"
  by (fastforce simp: ensures_def split: prod.splits sum.splits)

lemma ensures_scoped:
  assumes "ensures P m Q' E'" and "\<And>a s. Q' a s \<Longrightarrow> Q a (c s)" and "\<And>e s. E' e s \<Longrightarrow> E e (c s)"
  shows "ensures P (scoped m c) Q E"
  using assms by (fastforce simp: ensures_def scoped_def split: prod.splits sum.splits)

lemmas yields_rules = yields_bind yields_seq yields_throw yields_option ensures_if

section \<open>Invariants up to undefined behaviour\<close>

text \<open>
  \<open>safe I m\<close>: started in a state with \<open>I\<close>, the action returns or throws in a state with \<open>I\<close>,
  unless it runs into undefined behaviour, after which nothing is said.
\<close>

fun ends_ub :: "exn + 'a \<Rightarrow> bool" where
  "ends_ub (Inl e) = is_ub e"
| "ends_ub (Inr _) = False"

definition safe :: "('s \<Rightarrow> bool) \<Rightarrow> ('s, 'a) act \<Rightarrow> bool" where
  "safe I m \<longleftrightarrow> (\<forall>s. I s \<longrightarrow> ends_ub (fst (m s)) \<or> I (snd (m s)))"

named_theorems safe_rules \<open>one rule per control structure\<close>

lemma safeI: "(\<And>s. I s \<Longrightarrow> ends_ub (fst (m s)) \<or> I (snd (m s))) \<Longrightarrow> safe I m"
  by (simp add: safe_def)

lemma safeD: "safe I m \<Longrightarrow> I s \<Longrightarrow> ends_ub (fst (m s)) \<or> I (snd (m s))"
  by (simp add: safe_def)

lemma safeD_ok: "safe I m \<Longrightarrow> I s \<Longrightarrow> m s = (Inr a, s') \<Longrightarrow> I s'"
  by (drule (1) safeD) simp

lemma safeD_exn: "safe I m \<Longrightarrow> I s \<Longrightarrow> m s = (Inl e, s') \<Longrightarrow> \<not> is_ub e \<Longrightarrow> I s'"
  by (drule (1) safeD) simp

lemma safe_keeps: "keeps I m \<Longrightarrow> safe I m"
  by (simp add: safe_def keeps_def)

lemma safe_atom [safe_rules]:
  "safe I (ret a)" "safe I (throw e)" "safe I (gets f)" "safe I skip" "safe I (unwrap ex x)"
  by (simp_all add: safe_keeps keeps_rules)

lemma safe_lift [safe_rules]: "safe I (lift r)"
  by (simp add: safe_keeps keeps_lift)

lemma safe_modify: "(\<And>s. I s \<Longrightarrow> I (f s)) \<Longrightarrow> safe I (modify f)"
  by (simp add: safe_keeps keeps_modify)

lemma safe_bind [safe_rules]:
  assumes "safe I m" and "\<And>a. safe I (f a)"
  shows "safe I (bind m f)"
proof (rule safeI)
  fix s assume I: "I s"
  obtain r s' where m: "m s = (r, s')" by force
  show "ends_ub (fst (bind m f s)) \<or> I (snd (bind m f s))"
  proof (cases r)
    case (Inl e)
    with m safeD [OF assms(1) I] show ?thesis by (simp add: bind_def)
  next
    case (Inr a)
    with m safeD [OF assms(1) I] have "I s'" by simp
    with m Inr safeD [OF assms(2)] show ?thesis by (simp add: bind_def)
  qed
qed

lemma safe_seq [safe_rules]: "safe I m \<Longrightarrow> safe I n \<Longrightarrow> safe I (seq m n)"
  by (simp add: seq_def safe_bind)

lemma safe_if [safe_rules]: "(b \<Longrightarrow> safe I m) \<Longrightarrow> (\<not> b \<Longrightarrow> safe I n) \<Longrightarrow> safe I (if b then m else n)"
  by simp

lemma safe_do_if [safe_rules]: "(b \<Longrightarrow> safe I m) \<Longrightarrow> safe I (do_if b m)"
  by (simp add: do_if_def safe_atom)

lemma safe_option [safe_rules]:
  "(x = None \<Longrightarrow> safe I m) \<Longrightarrow> (\<And>a. x = Some a \<Longrightarrow> safe I (f a)) \<Longrightarrow>
    safe I (case x of None \<Rightarrow> m | Some a \<Rightarrow> f a)"
  by (cases x) simp_all

lemma safe_for_each [safe_rules]: "(\<And>x. x \<in> set xs \<Longrightarrow> safe I (f x)) \<Longrightarrow> safe I (for_each xs f)"
  by (induction xs) (simp_all add: safe_atom safe_seq)

lemma safe_try [safe_rules]:
  assumes m: "safe I m" and h: "\<And>e. safe I (h e)" and C: "\<And>e. C e \<Longrightarrow> \<not> is_ub e"
  shows "safe I (try_catch C m h)"
proof (rule safeI)
  fix s assume I: "I s"
  obtain r s' where ms: "m s = (r, s')" by force
  with safeD [OF m I] have "ends_ub r \<or> I s'" by simp
  with ms C safeD [OF h, of s'] show "ends_ub (fst (try_catch C m h s)) \<or> I (snd (try_catch C m h s))"
    by (cases r) (auto simp: try_catch_def)
qed

lemma safe_scoped:
  assumes "safe I m" and "\<And>s. I s \<Longrightarrow> I (c s)"
  shows "safe I (scoped m c)"
proof (rule safeI)
  fix s assume "I s"
  from safeD [OF assms(1) this] assms(2)
  show "ends_ub (fst (scoped m c s)) \<or> I (snd (scoped m c s))"
    by (auto simp: scoped_def split: prod.splits)
qed

end
