(* ===== verification/Cpp_String.thy ===== *)
theory Cpp_String
  imports Rc2_Prelude
begin

text \<open>
  The functions of the C++ standard library on strings and numbers that the program calls:
  \<open>ostream << long\<close>, \<open>atol\<close> and \<open>atoi\<close>, \<open>string::find_first_of\<close>, \<open>rfind\<close>, \<open>substr\<close>, the
  conversions between integer widths, and the two quoting helpers of the program itself:
  \<open>StripQuotes\<close> (common/RC2Utils.hpp) and \<open>escape_quotes\<close> (src/RSession.cpp). A string is
  the list of its bytes. \<open>long\<close> is 64 bits wide, \<open>int\<close> 32.
\<close>

section \<open>Integers\<close>

definition to_int32 :: "int \<Rightarrow> int" where
  "to_int32 x = signed_take_bit 31 x"

definition to_uint32 :: "int \<Rightarrow> int" where
  "to_uint32 x = take_bit 32 x"

definition LONG_MAX :: int where
  "LONG_MAX = 2 ^ 63 - 1"

definition LONG_MIN :: int where
  "LONG_MIN = - (2 ^ 63)"

lemma to_int32_id: "- (2 ^ 31) \<le> x \<Longrightarrow> x < 2 ^ 31 \<Longrightarrow> to_int32 x = x"
  by (simp add: to_int32_def signed_take_bit_int_eq_self)

lemma to_uint32_id: "0 \<le> x \<Longrightarrow> x < 2 ^ 32 \<Longrightarrow> to_uint32 x = x"
  by (simp add: to_uint32_def take_bit_int_eq_self)

lemma to_int32_range: "- (2 ^ 31) \<le> to_int32 x \<and> to_int32 x < 2 ^ 31"
  using signed_take_bit_int_greater_eq_minus_exp [of 31 x] signed_take_bit_int_less_exp [of 31 x]
  by (simp add: to_int32_def)

section \<open>Decimal numbers\<close>

definition digit :: "nat \<Rightarrow> char" where
  "digit d = char_of (48 + d)"

definition is_digit :: "char \<Rightarrow> bool" where
  "is_digit c \<longleftrightarrow> 48 \<le> (of_char c :: nat) \<and> (of_char c :: nat) \<le> 57"

definition digit_value :: "char \<Rightarrow> nat" where
  "digit_value c = of_char c - 48"

fun dec_nat :: "nat \<Rightarrow> string" where
  "dec_nat n = (if n < 10 then [digit n] else dec_nat (n div 10) @ [digit (n mod 10)])"

declare dec_nat.simps [simp del]

definition dec :: "int \<Rightarrow> string" where
  "dec x = (if x < 0 then CHR ''-'' # dec_nat (nat (- x)) else dec_nat (nat x))"

text \<open>
  \<open>strtol\<close> in base ten: leading white space, an optional sign, digits up to the first other
  character; the value is clamped to the range of \<open>long\<close>. No digits give 0.
\<close>

definition is_space :: "char \<Rightarrow> bool" where
  "is_space c \<longleftrightarrow> c = CHR '' '' \<or> (9 \<le> (of_char c :: nat) \<and> (of_char c :: nat) \<le> 13)"

fun digits_value :: "nat \<Rightarrow> string \<Rightarrow> nat" where
  "digits_value n [] = n"
| "digits_value n (c # cs) = (if is_digit c then digits_value (10 * n + digit_value c) cs else n)"

definition clamp_long :: "int \<Rightarrow> int" where
  "clamp_long x = max LONG_MIN (min LONG_MAX x)"

definition atol :: "string \<Rightarrow> int" where
  "atol s = (case dropWhile is_space s of
      [] \<Rightarrow> 0
    | c # cs \<Rightarrow> clamp_long (if c = CHR ''-'' then - int (digits_value 0 cs)
                            else if c = CHR ''+'' then int (digits_value 0 cs)
                            else int (digits_value 0 (c # cs))))"

definition atoi :: "string \<Rightarrow> int" where
  "atoi s = to_int32 (atol s)"

lemma of_char_digit: "d < 10 \<Longrightarrow> (of_char (digit d) :: nat) = 48 + d"
  by (simp add: digit_def of_char_of)

lemma digit_is_digit [simp]: "d < 10 \<Longrightarrow> is_digit (digit d)"
  by (simp add: is_digit_def of_char_digit)

lemma digit_value_digit [simp]: "d < 10 \<Longrightarrow> digit_value (digit d) = d"
  by (simp add: digit_value_def of_char_digit)

lemma is_digit_not_space: "is_digit c \<Longrightarrow> \<not> is_space c"
  by (auto simp: is_digit_def is_space_def)

lemma dec_nat_digits: "\<forall>c \<in> set (dec_nat n). is_digit c"
proof (induction n rule: dec_nat.induct)
  case (1 n)
  then show ?case by (subst dec_nat.simps) auto
qed

lemma dec_nat_nonempty [simp]: "dec_nat n \<noteq> []"
  by (subst dec_nat.simps) simp

lemma digits_value_append:
  "\<forall>c \<in> set xs. is_digit c \<Longrightarrow> digits_value n (xs @ ys) = digits_value (digits_value n xs) ys"
  by (induction xs arbitrary: n) auto

lemma digits_value_dec_nat: "digits_value 0 (dec_nat n) = n"
proof (induction n rule: dec_nat.induct)
  case (1 n)
  then show ?case
    by (subst dec_nat.simps) (auto simp: digits_value_append dec_nat_digits)
qed

lemma digit_not_sign: "is_digit c \<Longrightarrow> c \<noteq> CHR ''-'' \<and> c \<noteq> CHR ''+''"
  by (auto simp: is_digit_def)

lemma dec_nat_Cons: "\<exists>c cs. dec_nat n = c # cs \<and> is_digit c"
  using dec_nat_digits [of n] by (cases "dec_nat n") auto

lemma clamp_long_id: "LONG_MIN \<le> x \<Longrightarrow> x \<le> LONG_MAX \<Longrightarrow> clamp_long x = x"
  by (simp add: clamp_long_def)

lemma atol_dec:
  assumes "LONG_MIN \<le> x" and "x \<le> LONG_MAX"
  shows "atol (dec x) = x"
proof (cases "x < 0")
  case True
  then show ?thesis
    using assms by (simp add: atol_def dec_def is_space_def digits_value_dec_nat clamp_long_id)
next
  case False
  obtain c cs where c: "dec_nat (nat x) = c # cs" "is_digit c" using dec_nat_Cons by blast
  then have "digits_value 0 (c # cs) = nat x" by (metis digits_value_dec_nat)
  with c False assms show ?thesis
    using is_digit_not_space [OF c(2)] digit_not_sign [OF c(2)]
    by (simp add: atol_def dec_def clamp_long_id)
qed

lemma atol_range: "LONG_MIN \<le> atol s \<and> atol s \<le> LONG_MAX"
  by (auto simp: atol_def clamp_long_def LONG_MIN_def LONG_MAX_def split: list.splits)

section \<open>Searching\<close>

text \<open>\<open>s.find_first_of(c, pre)\<close>; \<open>None\<close> is \<open>npos\<close>.\<close>

definition find_first_of :: "char \<Rightarrow> nat \<Rightarrow> string \<Rightarrow> nat option" where
  "find_first_of c pre s = (case dropWhile (\<lambda>x. x \<noteq> c) (drop pre s) of
      [] \<Rightarrow> None
    | r \<Rightarrow> Some (length s - length r))"

definition rfind :: "char \<Rightarrow> string \<Rightarrow> nat option" where
  "rfind c s = (case dropWhile (\<lambda>x. x \<noteq> c) (rev s) of [] \<Rightarrow> None | r \<Rightarrow> Some (length r - 1))"

text \<open>\<open>s.substr(0, pos)\<close>, where \<open>pos\<close> may be \<open>npos\<close>.\<close>

definition substr_to :: "string \<Rightarrow> nat option \<Rightarrow> string" where
  "substr_to s pos = (case pos of None \<Rightarrow> s | Some n \<Rightarrow> take n s)"

lemma find_first_of_Some:
  assumes "find_first_of c pre s = Some p"
  shows "pre \<le> p \<and> p < length s \<and> s ! p = c \<and> (\<forall>i. pre \<le> i \<longrightarrow> i < p \<longrightarrow> s ! i \<noteq> c)"
proof -
  let ?t = "takeWhile (\<lambda>x. x \<noteq> c) (drop pre s)"
  from assms obtain r where r: "dropWhile (\<lambda>x. x \<noteq> c) (drop pre s) = c # r"
    and p: "p = length s - length (c # r)"
    unfolding find_first_of_def
    by (auto split: list.splits) (metis (mono_tags, lifting) dropWhile_eq_Cons_conv)
  have split: "drop pre s = ?t @ c # r" by (metis r takeWhile_dropWhile_id)
  then have len: "length s - pre = length ?t + Suc (length r)" by (metis length_append length_Cons length_drop)
  then have p': "p = pre + length ?t" and pre: "pre < length s" using p by auto
  have "s ! (pre + i) = (?t @ c # r) ! i" if "i < length ?t + Suc (length r)" for i
    using that pre split len by (metis nth_drop less_imp_le)
  note nth = this
  have "s ! p = c" using nth [of "length ?t"] p' by simp
  moreover have "s ! i \<noteq> c" if "pre \<le> i" "i < p" for i
  proof -
    from that p' have i: "i - pre < length ?t" by simp
    then have "s ! i = ?t ! (i - pre)" using nth [of "i - pre"] that by (simp add: nth_append)
    moreover from i have "?t ! (i - pre) \<in> set ?t" by (rule nth_mem)
    ultimately show ?thesis by (metis set_takeWhileD)
  qed
  ultimately show ?thesis using p' pre len by auto
qed

lemma find_first_of_None: "find_first_of c pre s = None \<Longrightarrow> c \<notin> set (drop pre s)"
  by (auto simp: find_first_of_def split: list.splits)

section \<open>Quotes\<close>

text \<open>\<open>StripQuotes\<close>: \<open>str.erase(std::remove(..., '"'), str.end())\<close>.\<close>

definition StripQuotes :: "string \<Rightarrow> string" where
  "StripQuotes str = filter (\<lambda>c. c \<noteq> CHR 0x22) str"

text \<open>
  \<open>escape_quotes\<close>: in the \<open>switch\<close> the cases of the quote and the backslash fall through to the
  default case.
\<close>

definition escape_quotes :: "string \<Rightarrow> string" where
  "escape_quotes before = concat (map (\<lambda>c.
     if c = CHR 0x22 \<or> c = CHR 0x5C then [CHR 0x5C, c] else [c]) before)"

section \<open>Splitting and matching\<close>

text \<open>\<open>boost::split(fields, s, boost::is_any_of("/"))\<close>, without token compression.\<close>

fun split_slash :: "string \<Rightarrow> string list" where
  "split_slash [] = [[]]"
| "split_slash (c # cs) =
     (if c = CHR ''/'' then [] # split_slash cs
      else (case split_slash cs of [] \<Rightarrow> [[c]] | f # fs \<Rightarrow> (c # f) # fs))"

text \<open>
  \<open>boost::regex_match(fname, what, imgRegex_)\<close> for \<open>rc2img(\d+).png\<close>, where the dot is any
  character; the result is \<open>what[1]\<close>.
\<close>

definition match_image_name :: "string \<Rightarrow> string option" where
  "match_image_name fname =
     (let num = take (length fname - 10) (drop 6 fname) in
      if 11 \<le> length fname \<and> take 6 fname = ''rc2img'' \<and> drop (length fname - 3) fname = ''png'' \<and>
         list_all is_digit num
      then Some num else None)"

lemma split_slash_plain: "CHR ''/'' \<notin> set s \<Longrightarrow> split_slash s = [s]"
  by (induction s) auto

lemma split_slash_append: "CHR ''/'' \<notin> set s \<Longrightarrow> split_slash (s @ CHR ''/'' # r) = s # split_slash r"
  by (induction s) auto

lemma dec_no_slash: "CHR ''/'' \<notin> set (dec x)"
proof -
  have "\<not> is_digit CHR ''/''" by (simp add: is_digit_def)
  then show ?thesis using dec_nat_digits by (auto simp: dec_def)
qed

lemma dec_nonempty [simp]: "dec x \<noteq> []"
  by (simp add: dec_def)

lemma match_image_name_iff:
  "match_image_name fname = Some num \<longleftrightarrow>
    (\<exists>c. fname = ''rc2img'' @ num @ [c] @ ''png'') \<and> num \<noteq> [] \<and> list_all is_digit num"
  (is "?l = ?r")
proof
  assume ?l
  then have len: "11 \<le> length fname" and pre: "take 6 fname = ''rc2img''"
    and post: "drop (length fname - 3) fname = ''png''"
    and num: "num = take (length fname - 10) (drop 6 fname)" and d: "list_all is_digit num"
    by (auto simp: match_image_name_def Let_def split: if_splits)
  let ?n = "length fname - 10"
  have "drop 6 fname = num @ drop ?n (drop 6 fname)" unfolding num by (rule append_take_drop_id [symmetric])
  moreover have "drop ?n (drop 6 fname) = drop (length fname - 4) fname"
    using len by (simp add: add.commute)
  moreover have "drop (length fname - 4) fname = fname ! (length fname - 4) # drop (length fname - 3) fname"
  proof -
    have "Suc (length fname - 4) = length fname - 3" "length fname - 4 < length fname" using len by simp_all
    then show ?thesis using Cons_nth_drop_Suc [of "length fname - 4" fname] by simp
  qed
  ultimately have "fname = ''rc2img'' @ num @ [fname ! (length fname - 4)] @ ''png''"
    using pre post by (metis append.simps append_take_drop_id)
  moreover have "num \<noteq> []" using len by (auto simp: num)
  ultimately show ?r using d by blast
next
  assume ?r
  then show ?l by (auto simp: match_image_name_def Let_def Suc_le_eq)
qed

end
