(* ===== verification/Host_System.thy ===== *)
theory Host_System
  imports Cpp_String
begin

text \<open>
  The code outside \<open>src/\<close> that the program calls: the operating system, boost, libuuid, libpq
  with the PostgreSQL server behind it, and the embedded R interpreter. None of it has a
  definition here. A record \<open>'w sys\<close> holds one function per call, over an abstract world \<open>'w\<close>
  (files, database, R heap) that the calls read and change; every definition of the model that
  makes such a call takes the record as its first argument. Calls that fail by a return code
  return it; calls that throw return the message of the exception.
\<close>

type_synonym pgconn = nat

datatype exec_status = PGRES_COMMAND_OK | PGRES_TUPLES_OK | PGRES_FATAL_ERROR

text \<open>A \<open>PGresult\<close>: status, error message, the rows (fields as bytes), \<open>PQcmdTuples\<close>.\<close>

record pg_result =
  pg_status :: exec_status
  pg_error :: string
  pg_rows :: "string list list"
  pg_cmd_tuples :: string

datatype parse_eval_result = PE_SUCCESS | PE_INCOMPLETE | PE_ERROR | PE_NULL | PE_EOF | PE_EXEC_ERROR

text \<open>
  One call of R's \<open>WriteConsole\<close> callback: the text, its type (positive for errors) and the
  value of \<open>R_Visible\<close> at that moment.
\<close>

record console_write =
  cw_text :: string
  cw_type :: int
  cw_visible :: bool

text \<open>R objects are addresses (\<open>SEXP\<close>).\<close>

type_synonym sexp = nat

record 'w sys =
  \<comment> \<open>files and directories\<close>
  sys_stat_mtime :: "string \<Rightarrow> 'w \<Rightarrow> int option"
  sys_read_file :: "string \<Rightarrow> 'w \<Rightarrow> string option"
  sys_write_file :: "string \<Rightarrow> string \<Rightarrow> 'w \<Rightarrow> 'w"
  sys_utime :: "string \<Rightarrow> int \<Rightarrow> 'w \<Rightarrow> 'w"
  sys_exists :: "string \<Rightarrow> 'w \<Rightarrow> string + bool"
  sys_is_directory :: "string \<Rightarrow> 'w \<Rightarrow> string + bool"
  sys_file_size :: "string \<Rightarrow> 'w \<Rightarrow> string + int"
  sys_remove :: "string \<Rightarrow> 'w \<Rightarrow> (string + bool) \<times> 'w"
  sys_remove_all :: "string \<Rightarrow> 'w \<Rightarrow> (string + nat) \<times> 'w"
  sys_copy_file :: "string \<Rightarrow> string \<Rightarrow> 'w \<Rightarrow> (string + unit) \<times> 'w"
  sys_create_directories :: "string \<Rightarrow> 'w \<Rightarrow> (string + bool) \<times> 'w"
  sys_mkdir :: "string \<Rightarrow> nat \<Rightarrow> 'w \<Rightarrow> (int \<times> int) \<times> 'w"
  sys_uuid :: "'w \<Rightarrow> string \<times> 'w"
  sys_setenv :: "string \<Rightarrow> string \<Rightarrow> 'w \<Rightarrow> 'w"
  sys_run_texi2pdf :: "string \<Rightarrow> 'w \<Rightarrow> int \<times> 'w"
  \<comment> \<open>boost: paths, a regular expression\<close>
  path_append :: "string \<Rightarrow> string \<Rightarrow> string"
  path_extension :: "string \<Rightarrow> string"
  path_stem :: "string \<Rightarrow> string"
  path_parent :: "string \<Rightarrow> string"
  strip_value_echo :: "string \<Rightarrow> string"
  \<comment> \<open>inotify\<close>
  inotify_init :: "'w \<Rightarrow> int \<times> 'w"
  inotify_add_watch :: "int \<Rightarrow> string \<Rightarrow> int \<Rightarrow> 'w \<Rightarrow> int \<times> 'w"
  inotify_rm_watch :: "int \<Rightarrow> int \<Rightarrow> 'w \<Rightarrow> 'w"
  \<comment> \<open>libpq\<close>
  pq_connectdb :: "string \<Rightarrow> 'w \<Rightarrow> pgconn option \<times> 'w"
  pq_status_ok :: "pgconn \<Rightarrow> 'w \<Rightarrow> bool"
  pq_error_message :: "pgconn \<Rightarrow> 'w \<Rightarrow> string"
  pq_exec :: "pgconn option \<Rightarrow> string \<Rightarrow> 'w \<Rightarrow> pg_result \<times> 'w"
  pq_exec_params :: "pgconn option \<Rightarrow> string \<Rightarrow> string list \<Rightarrow> int \<Rightarrow> 'w \<Rightarrow> pg_result \<times> 'w"
  pq_escape_literal :: "pgconn option \<Rightarrow> string \<Rightarrow> 'w \<Rightarrow> string option"
  pq_consume_input :: "pgconn option \<Rightarrow> 'w \<Rightarrow> int \<times> 'w"
  pq_notifies :: "pgconn option \<Rightarrow> 'w \<Rightarrow> (string \<times> string) option \<times> 'w"
  \<comment> \<open>RInside\<close>
  r_parse_eval_r :: "string \<Rightarrow> 'w \<Rightarrow> (parse_eval_result \<times> console_write list) \<times> 'w"
  r_parse_eval_qnt :: "string \<Rightarrow> 'w \<Rightarrow> console_write list \<times> 'w"
  r_parse_eval :: "string \<Rightarrow> 'w \<Rightarrow> ((exn + sexp) \<times> console_write list) \<times> 'w"
  r_help_paths :: "sexp \<Rightarrow> 'w \<Rightarrow> exn + string list"

section \<open>Calling it\<close>

record 'w hw =
  world :: 'w

text \<open>
  The laws on these calls that a theorem assumes are documented behaviour, and the documents speak of
  calls that work. A history predicate \<open>disturbed\<close> of the world says that meanwhile something came
  between: a call broke down without an answer (a lost connection, a full disk), or somebody else
  (another program, another client of the database) changed what the law speaks of. \<open>calm\<close>: the call
  that led from \<open>w\<close> to \<open>w'\<close> did \<open>P\<close>, or the world is disturbed; what is disturbed stays so.
\<close>

definition calm :: "('w \<Rightarrow> bool) \<Rightarrow> 'w \<Rightarrow> 'w \<Rightarrow> bool \<Rightarrow> bool" where
  "calm disturbed w w' P \<longleftrightarrow> disturbed w' \<or> \<not> disturbed w \<and> P"

lemma calmD: "calm disturbed w w' P \<Longrightarrow> \<not> disturbed w' \<Longrightarrow> \<not> disturbed w \<and> P"
  by (simp add: calm_def)

lemma calm_mono: "calm disturbed w w' P \<Longrightarrow> disturbed w \<Longrightarrow> disturbed w'"
  by (auto simp: calm_def)

definition os_do :: "('w \<Rightarrow> 'a \<times> 'w) \<Rightarrow> (('w, 'z) hw_scheme, 'a) act" where
  "os_do f s = (case f (world s) of (a, w) \<Rightarrow> (Inr a, s\<lparr>world := w\<rparr>))"

definition os_upd :: "('w \<Rightarrow> 'w) \<Rightarrow> (('w, 'z) hw_scheme, unit) act" where
  "os_upd f s = (Inr (), s\<lparr>world := f (world s)\<rparr>)"

definition os_read :: "('w \<Rightarrow> 'a) \<Rightarrow> (('w, 'z) hw_scheme, 'a) act" where
  "os_read f s = (Inr (f (world s)), s)"

text \<open>boost::filesystem's throwing overloads.\<close>

definition fs_do :: "('w \<Rightarrow> (string + 'a) \<times> 'w) \<Rightarrow> (('w, 'z) hw_scheme, 'a) act" where
  "fs_do f s = (case f (world s) of
      (Inl m, w) \<Rightarrow> (Inl (FilesystemError m), s\<lparr>world := w\<rparr>)
    | (Inr a, w) \<Rightarrow> (Inr a, s\<lparr>world := w\<rparr>))"

definition fs_read :: "('w \<Rightarrow> string + 'a) \<Rightarrow> (('w, 'z) hw_scheme, 'a) act" where
  "fs_read f s = (case f (world s) of
      Inl m \<Rightarrow> (Inl (FilesystemError m), s) | Inr a \<Rightarrow> (Inr a, s))"

lemmas os_defs [act_simps] = os_do_def os_upd_def os_read_def fs_do_def fs_read_def

text \<open>
  A field of the model's own state that only the program writes keeps its value over a call:
  an invariant that does not look at the world is kept.
\<close>

definition world_free :: "(('w, 'z) hw_scheme \<Rightarrow> bool) \<Rightarrow> bool" where
  "world_free I \<longleftrightarrow> (\<forall>s w. I s \<longrightarrow> I (s\<lparr>world := w\<rparr>))"

lemma world_freeD: "world_free I \<Longrightarrow> I s \<Longrightarrow> I (s\<lparr>world := w\<rparr>)"
  by (simp add: world_free_def)

lemma keeps_os:
  assumes "world_free I"
  shows "keeps I (os_do f)" and "keeps I (os_upd g)" and "keeps I (os_read h)"
    and "keeps I (fs_do k)" and "keeps I (fs_read l)"
  using assms
  by (auto simp: keeps_def os_defs world_free_def split: prod.splits sum.splits)

end
