(* ===== verification/Scope_Guards.thy ===== *)
theory Scope_Guards
  imports Rc2_Prelude
begin

text \<open>
  The objects the program uses to undo something when a scope is left: \<open>Defer\<close> and
  \<open>BooleanWatcher\<close> (common/RC2Utils.hpp), \<open>ScopeGuard\<close> (common/ScopeGuard.hpp), \<open>BoolChanger\<close>
  (src/FileManager.cpp). \<open>NotifySuspender\<close> and \<open>DBTransaction\<close>, in their own theories, are
  instances of the same contract, the locale \<open>scope_guard\<close>.
\<close>

section \<open>The contract\<close>

text \<open>\<open>guarded enter leave m\<close>: construct the guard, run the scope, run the destructor.\<close>

definition guarded :: "('s \<Rightarrow> 's) \<Rightarrow> ('s \<Rightarrow> 's) \<Rightarrow> ('s, 'a) act \<Rightarrow> ('s, 'a) act" where
  "guarded enter leave m = seq (modify enter) (scoped m leave)"

lemma guarded_apply: "guarded enter leave m s = (case m (enter s) of (r, s') \<Rightarrow> (r, leave s'))"
  by (simp add: guarded_def seq_modify scoped_def)

lemma keeps_guarded:
  "(\<And>s. I s \<Longrightarrow> I (enter s)) \<Longrightarrow> (\<And>s. I s \<Longrightarrow> I (leave s)) \<Longrightarrow> keeps I m \<Longrightarrow>
    keeps I (guarded enter leave m)"
  by (simp add: guarded_def keeps_seq keeps_modify keeps_scoped)

locale scope_guard =
  fixes enter leave :: "'s \<Rightarrow> 's"
    and held :: "'s \<Rightarrow> bool"
  assumes enters: "held (enter s)"
    and leaves: "\<not> held (leave s)"
begin

lemma released_on_every_exit: "\<not> held (snd (guarded enter leave m s))"
  by (simp add: guarded_apply leaves split: prod.splits)

lemma held_inside: "ensures held m Q E \<Longrightarrow>
  ensures (\<lambda>_. True) (guarded enter leave m)
    (\<lambda>a s. \<exists>t. Q a t \<and> s = leave t) (\<lambda>e s. \<exists>t. E e t \<and> s = leave t)"
  unfolding guarded_def
  by (rule ensures_seq [where R = "\<lambda>_. held"])
    (auto intro!: ensures_modify enters elim!: ensures_scoped)

end

section \<open>BooleanWatcher and BoolChanger\<close>

text \<open>A flag of the state is a pair of a reader and a writer.\<close>

definition BooleanWatcher :: "(bool \<Rightarrow> 's \<Rightarrow> 's) \<Rightarrow> ('s, 'a) act \<Rightarrow> ('s, 'a) act" where
  "BooleanWatcher put m = guarded (put True) (put False) m"

definition BoolChanger :: "('s \<Rightarrow> bool) \<Rightarrow> (bool \<Rightarrow> 's \<Rightarrow> 's) \<Rightarrow> ('s, 'a) act \<Rightarrow> ('s, 'a) act" where
  "BoolChanger get put m =
     bind (gets get) (\<lambda>oldVal. guarded (put (\<not> oldVal)) (put oldVal) m)"

text \<open>The contract holds for every flag whose writer is read back.\<close>

locale flag =
  fixes get :: "'s \<Rightarrow> bool"
    and put :: "bool \<Rightarrow> 's \<Rightarrow> 's"
  assumes get_put: "get (put b s) = b"

sublocale flag \<subseteq> watcher: scope_guard "put True" "put False" get
  by unfold_locales (simp_all add: get_put)

context flag
begin

lemma BooleanWatcher_clears: "\<not> get (snd (BooleanWatcher put m s))"
  unfolding BooleanWatcher_def by (rule watcher.released_on_every_exit)

lemma BoolChanger_restores: "get (snd (BoolChanger get put m s)) = get s"
  by (simp add: BoolChanger_def bind_gets guarded_apply get_put split: prod.splits)

end

section \<open>Defer and ScopeGuard\<close>

text \<open>\<open>Defer\<close> runs its function when the scope is left, always.\<close>

definition Defer :: "('s \<Rightarrow> 's) \<Rightarrow> ('s, 'a) act \<Rightarrow> ('s, 'a) act" where
  "Defer f m = scoped m f"

text \<open>A \<open>ScopeGuard\<close> object is its \<open>_active\<close> flag; the function \<open>_f\<close> is the destructor's argument.\<close>

record guard =
  g_active :: bool

definition new_guard :: guard where
  "new_guard = \<lparr>g_active = True\<rparr>"

definition guard_dismiss :: "guard \<Rightarrow> guard" where
  "guard_dismiss g = g\<lparr>g_active := False\<rparr>"

text \<open>The copying constructor moves: it reads \<open>_active\<close> and then dismisses the source.\<close>

definition guard_move :: "guard \<Rightarrow> guard \<times> guard" where
  "guard_move rhs = (\<lparr>g_active = g_active rhs\<rparr>, guard_dismiss rhs)"

definition guard_destroy :: "('s \<Rightarrow> 's) \<Rightarrow> guard \<Rightarrow> 's \<Rightarrow> 's" where
  "guard_destroy f g s = (if g_active g then f s else s)"

text \<open>A guard moved along a chain of objects, all of which are then destroyed.\<close>

fun guard_chain :: "nat \<Rightarrow> guard \<Rightarrow> guard list" where
  "guard_chain 0 g = [g]"
| "guard_chain (Suc n) g = (case guard_move g of (g', src) \<Rightarrow> src # guard_chain n g')"

definition destroy_all :: "('s \<Rightarrow> 's) \<Rightarrow> guard list \<Rightarrow> 's \<Rightarrow> 's" where
  "destroy_all f gs = fold (guard_destroy f) gs"

lemma guard_chain_active: "destroy_all f (guard_chain n g) = guard_destroy f g"
proof (induction n arbitrary: g)
  case 0
  show ?case by (simp add: destroy_all_def fun_eq_iff)
next
  case (Suc n)
  have "guard_destroy f (guard_dismiss g) = id"
    by (simp add: guard_destroy_def guard_dismiss_def fun_eq_iff)
  with Suc show ?case
    by (simp add: guard_move_def destroy_all_def guard_destroy_def fun_eq_iff)
qed

end
