(* ===== verification/Pg_Connection.thy ===== *)
theory Pg_Connection
  imports Host_System Scope_Guards
begin

text \<open>
  \<open>common/PostgresUtils.hpp\<close> and \<open>common/PGDBConnection.{hpp,cpp}\<close>: results, transactions and
  the connection. A \<open>PGDBConnection\<close> object is its \<open>dbcon_\<close>, \<open>None\<close> for the null pointer. The
  program never has more than one \<open>DBTransaction\<close> alive, so its member \<open>open_\<close> is a field of the
  state.
\<close>

record 'w pg = "'w hw" +
  tx_open :: bool

section \<open>DBResult\<close>

definition commandOK :: "pg_result \<Rightarrow> bool" where
  "commandOK res \<longleftrightarrow> pg_status res = PGRES_COMMAND_OK"

definition dataReturned :: "pg_result \<Rightarrow> bool" where
  "dataReturned res \<longleftrightarrow> pg_status res = PGRES_TUPLES_OK"

definition errorMessage :: "pg_result \<Rightarrow> string" where
  "errorMessage res = pg_error res"

definition rowsAffected :: "pg_result \<Rightarrow> int" where
  "rowsAffected res = atoi (pg_cmd_tuples res)"

definition rowsReturned :: "pg_result \<Rightarrow> ('s, int) act" where
  "rowsReturned res =
     (if \<not> dataReturned res
      then throw (DBException ''rowsReturned called when query did not return rows'')
      else ret (int (length (pg_rows res))))"

text \<open>\<open>PQgetvalue\<close> returns a null pointer and \<open>PQgetlength\<close> 0 out of range.\<close>

definition getValue :: "pg_result \<Rightarrow> nat \<Rightarrow> nat \<Rightarrow> string option" where
  "getValue res row col =
     (if row < length (pg_rows res) \<and> col < length (pg_rows res ! row)
      then Some (pg_rows res ! row ! col) else None)"

definition getLength :: "pg_result \<Rightarrow> nat \<Rightarrow> nat \<Rightarrow> int" where
  "getLength res row col = (case getValue res row col of None \<Rightarrow> 0 | Some v \<Rightarrow> to_int32 (int (length v)))"

section \<open>DBTransaction\<close>

definition startTransaction :: "'w sys \<Rightarrow> pgconn option \<Rightarrow> (('w, 'z) pg_scheme, unit) act" where
  "startTransaction sys con =
     bind (os_do (pq_exec sys con ''begin'')) (\<lambda>res.
     modify (\<lambda>s. s\<lparr>tx_open := True\<rparr>))"

definition commit :: "'w sys \<Rightarrow> pgconn option \<Rightarrow> (('w, 'z) pg_scheme, pg_result) act" where
  "commit sys con =
     bind (os_do (pq_exec sys con ''commit'')) (\<lambda>res.
     seq (modify (\<lambda>s. s\<lparr>tx_open := \<not> commandOK res\<rparr>))
     (ret res))"

text \<open>The destructor.\<close>

definition end_transaction :: "'w sys \<Rightarrow> pgconn option \<Rightarrow> ('w, 'z) pg_scheme \<Rightarrow> ('w, 'z) pg_scheme" where
  "end_transaction sys con s =
     (if tx_open s
      then s\<lparr>world := snd (pq_exec sys con ''rollback'' (world s)), tx_open := False\<rparr>
      else s)"

text \<open>A scope that declares \<open>DBTransaction trans = dbcon_->startTransaction()\<close>.\<close>

definition with_transaction ::
    "'w sys \<Rightarrow> pgconn option \<Rightarrow> (('w, 'z) pg_scheme, 'a) act \<Rightarrow> (('w, 'z) pg_scheme, 'a) act" where
  "with_transaction sys con m = seq (startTransaction sys con) (scoped m (end_transaction sys con))"

section \<open>PGDBConnection\<close>

definition connectionOpen :: "'w sys \<Rightarrow> pgconn option \<Rightarrow> (('w, 'z) hw_scheme, bool) act" where
  "connectionOpen sys dbcon =
     (case dbcon of None \<Rightarrow> ret False | Some c \<Rightarrow> os_read (pq_status_ok sys c))"

text \<open>The result is the new value of \<open>dbcon_\<close>; a connection object that throws keeps it too.\<close>

definition pg_connect :: "'w sys \<Rightarrow> string \<Rightarrow> (('w, 'z) hw_scheme, pgconn option) act" where
  "pg_connect sys connectStr =
     (if length connectStr < 5 then throw (DBException ''invalid connectString'')
      else
        bind (os_do (pq_connectdb sys connectStr)) (\<lambda>dbcon.
        case dbcon of
          None \<Rightarrow> throw (DBException ''PQconnectdb returned NULL'')
        | Some c \<Rightarrow>
            bind (os_read (pq_status_ok sys c)) (\<lambda>ok.
            if \<not> ok then
              bind (os_read (pq_error_message sys c)) (\<lambda>m.
              throw (DBException (''failed to connect to database: '' @ m)))
            else ret dbcon)))"

definition executeQuery :: "'w sys \<Rightarrow> pgconn option \<Rightarrow> string \<Rightarrow> (('w, 'z) hw_scheme, pg_result) act" where
  "executeQuery sys con query = os_do (pq_exec sys con query)"

definition executeQueryParams ::
    "'w sys \<Rightarrow> pgconn option \<Rightarrow> string \<Rightarrow> string list \<Rightarrow> int \<Rightarrow> (('w, 'z) hw_scheme, pg_result) act" where
  "executeQueryParams sys con query params resultFormat =
     os_do (pq_exec_params sys con query params resultFormat)"

text \<open>\<open>atol(PQgetvalue(res, 0, 0))\<close>: with no row \<open>PQgetvalue\<close> is null.\<close>

definition longFromQuery :: "'w sys \<Rightarrow> pgconn option \<Rightarrow> string \<Rightarrow> (('w, 'z) hw_scheme, int) act" where
  "longFromQuery sys con query =
     bind (os_do (pq_exec sys con query)) (\<lambda>res.
     if dataReturned res then
       bind (unwrap (UB ''atol of a null pointer'') (getValue res 0 0)) (\<lambda>v. ret (atol v))
     else throw (DBException (errorMessage res)))"

text \<open>\<open>PQescapeLiteral\<close> returns a null pointer for a text that is not well encoded.\<close>

definition escapeLiteral :: "'w sys \<Rightarrow> pgconn option \<Rightarrow> string \<Rightarrow> (('w, 'z) hw_scheme, string) act" where
  "escapeLiteral sys con inString =
     bind (os_read (pq_escape_literal sys con inString)) (unwrap (UB ''string assigned a null pointer''))"

definition consumeInput :: "'w sys \<Rightarrow> pgconn option \<Rightarrow> (('w, 'z) hw_scheme, unit) act" where
  "consumeInput sys con =
     bind (os_do (pq_consume_input sys con)) (\<lambda>rc.
     if rc \<noteq> 1 then throw (DBException ''consume input returned error'') else skip)"

definition checkForNotification ::
    "'w sys \<Rightarrow> pgconn option \<Rightarrow> (('w, 'z) hw_scheme, (string \<times> string) option) act" where
  "checkForNotification sys con = os_do (pq_notifies sys con)"

section \<open>Transactions as scope guards\<close>

definition begin_transaction :: "'w sys \<Rightarrow> pgconn option \<Rightarrow> ('w, 'z) pg_scheme \<Rightarrow> ('w, 'z) pg_scheme" where
  "begin_transaction sys con s = s\<lparr>world := snd (pq_exec sys con ''begin'' (world s)), tx_open := True\<rparr>"

lemma startTransaction_modify: "startTransaction sys con = modify (begin_transaction sys con)"
  by (rule ext)
    (simp add: startTransaction_def begin_transaction_def act_simps split: prod.splits)

lemma with_transaction_guarded:
  "with_transaction sys con m = guarded (begin_transaction sys con) (end_transaction sys con) m"
  by (simp add: with_transaction_def guarded_def startTransaction_modify)

interpretation tx: scope_guard "begin_transaction sys con" "end_transaction sys con" tx_open
  for sys con
  by unfold_locales (simp_all add: begin_transaction_def end_transaction_def)

section \<open>What the program relies on from the server\<close>

text \<open>
  The statements that the program executes inside a transaction are of four kinds, and each is a
  single statement: outside quotes it has no semicolon, no comment and no other quote, and inside
  quotes no backslash that would escape the closing one, whatever \<open>standard_conforming_strings\<close> says.
\<close>

definition dml :: "string \<Rightarrow> bool" where
  "dml q \<longleftrightarrow> take 7 q \<in> {''select '', ''insert '', ''update '', ''lock ta''}"

definition sql_char :: "char \<Rightarrow> bool" where
  "sql_char c \<longleftrightarrow> is_digit c \<or> c \<in> set ''abcdefghijklmnopqrstuvwxyzABCDEFGHIJKLMNOPQRSTUVWXYZ _(),=:.''"

fun sql_scan :: "bool \<Rightarrow> string \<Rightarrow> bool" where
  "sql_scan quoted [] \<longleftrightarrow> \<not> quoted"
| "sql_scan False (c # cs) \<longleftrightarrow>
     (if c = CHR 0x27 then sql_scan True cs
      else (sql_char c \<or> c = CHR ''-'' \<and> cs \<noteq> [] \<and> is_digit (hd cs)) \<and> sql_scan False cs)"
| "sql_scan True (c # cs) \<longleftrightarrow>
     (if c = CHR 0x27 then sql_scan False cs
      else if c = CHR 0x5C then (case cs of d # ds \<Rightarrow> d = CHR 0x5C \<and> sql_scan True ds | [] \<Rightarrow> False)
      else c \<noteq> CHR 0x00 \<and> sql_scan True cs)"

lemma sql_scan_append: "sql_scan quoted xs \<Longrightarrow> sql_scan quoted (xs @ ys) = sql_scan False ys"
  by (induction quoted xs rule: sql_scan.induct) (auto split: list.splits if_splits)

lemma sql_scan_digits: "\<forall>c\<in>set xs. is_digit c \<Longrightarrow> sql_scan False xs"
  by (induction xs) (auto simp: sql_char_def is_digit_def)

lemma sql_scan_dec [simp]: "sql_scan False (dec k)"
proof -
  obtain c cs where c: "dec_nat (nat (- k)) = c # cs" "is_digit c" using dec_nat_Cons by blast
  have "sql_scan False (dec_nat n)" for n by (rule sql_scan_digits) (rule dec_nat_digits)
  moreover from this [of "nat (- k)"] have "sql_scan False (CHR ''-'' # dec_nat (nat (- k)))" by (simp add: c)
  ultimately show ?thesis by (simp add: dec_def)
qed

lemma sql_scan_dec_append [simp]: "sql_scan False (dec k @ ys) = sql_scan False ys"
  by (simp add: sql_scan_append)

text \<open>
  The laws are about one open connection \<open>c\<close>. \<open>intx\<close> tells whether the server's session is inside a
  transaction block (also a failed one), and \<open>committed\<close> is what it has committed to the tables so far.
  \<open>lost\<close> is the history predicate: an exchange over the connection has broken down, and it is not known
  what became of the last command. Then:
  \<^item> an accepted \<open>begin\<close> opens a block; it commits nothing;
  \<^item> one of the statements, inside a block, whatever its result, neither ends the block nor commits;
    \<open>PQexecParams\<close> executes a single command only;
  \<^item> inside a block, an accepted \<open>commit\<close> ends it and a rejected one commits nothing;
  \<^item> \<open>rollback\<close> leaves no block open and commits nothing;
  \<^item> what \<open>PQescapeLiteral\<close> returns is a quoted literal.
\<close>

definition pg_laws :: "'w sys \<Rightarrow> pgconn \<Rightarrow> ('w \<Rightarrow> bool) \<Rightarrow> ('w \<Rightarrow> 'd) \<Rightarrow> ('w \<Rightarrow> bool) \<Rightarrow> bool" where
  "pg_laws sys c intx committed lost \<longleftrightarrow>
     (\<forall>w res w'. pq_exec sys (Some c) ''begin'' w = (res, w') \<longrightarrow>
        calm lost w w' ((commandOK res \<longrightarrow> intx w') \<and> committed w' = committed w)) \<and>
     (\<forall>w q res w'. pq_exec sys (Some c) q w = (res, w') \<longrightarrow> dml q \<longrightarrow> sql_scan False q \<longrightarrow>
        calm lost w w' (intx w \<longrightarrow> intx w' \<and> committed w' = committed w)) \<and>
     (\<forall>w q ps rf res w'. pq_exec_params sys (Some c) q ps rf w = (res, w') \<longrightarrow> dml q \<longrightarrow>
        calm lost w w' (intx w \<longrightarrow> intx w' \<and> committed w' = committed w)) \<and>
     (\<forall>w res w'. pq_exec sys (Some c) ''commit'' w = (res, w') \<longrightarrow>
        calm lost w w' (intx w \<longrightarrow> (if commandOK res then \<not> intx w' else committed w' = committed w))) \<and>
     (\<forall>w res w'. pq_exec sys (Some c) ''rollback'' w = (res, w') \<longrightarrow>
        calm lost w w' (\<not> intx w' \<and> committed w' = committed w)) \<and>
     (\<forall>t w l. pq_escape_literal sys (Some c) t w = Some l \<longrightarrow> sql_scan False l)"

lemma pg_lawsD:
  assumes "pg_laws sys c intx committed lost"
  shows "pq_exec sys (Some c) ''begin'' w = (res, w') \<Longrightarrow>
      calm lost w w' ((commandOK res \<longrightarrow> intx w') \<and> committed w' = committed w)"
    and "pq_exec sys (Some c) q w = (res, w') \<Longrightarrow> dml q \<Longrightarrow> sql_scan False q \<Longrightarrow>
      calm lost w w' (intx w \<longrightarrow> intx w' \<and> committed w' = committed w)"
    and "pq_exec_params sys (Some c) q ps rf w = (res, w') \<Longrightarrow> dml q \<Longrightarrow>
      calm lost w w' (intx w \<longrightarrow> intx w' \<and> committed w' = committed w)"
    and "pq_exec sys (Some c) ''commit'' w = (res, w') \<Longrightarrow>
      calm lost w w' (intx w \<longrightarrow> (if commandOK res then \<not> intx w' else committed w' = committed w))"
    and "pq_exec sys (Some c) ''rollback'' w = (res, w') \<Longrightarrow>
      calm lost w w' (\<not> intx w' \<and> committed w' = committed w)"
    and "pq_escape_literal sys (Some c) t w = Some l \<Longrightarrow> sql_scan False l"
  using assms unfolding pg_laws_def by metis+

text \<open>The program does not look at the result of \<open>begin\<close>.\<close>

definition begin_accepted :: "'w sys \<Rightarrow> pgconn \<Rightarrow> ('w, 'z) pg_scheme \<Rightarrow> bool" where
  "begin_accepted sys c s \<longleftrightarrow> commandOK (fst (pq_exec sys (Some c) ''begin'' (world s)))"

section \<open>Atomicity\<close>

text \<open>
  The states inside the scope of a transaction (opened when the committed data were \<open>d\<close>), and
  the states at its end: either it is still open and the destructor will roll it back, or it
  was committed.
\<close>

definition in_tx :: "('w \<Rightarrow> bool) \<Rightarrow> ('w \<Rightarrow> 'd) \<Rightarrow> ('w \<Rightarrow> bool) \<Rightarrow> 'd \<Rightarrow> ('w, 'z) pg_scheme \<Rightarrow> bool" where
  "in_tx intx committed lost d s \<longleftrightarrow> tx_open s \<and> (lost (world s) \<or> intx (world s) \<and> committed (world s) = d)"

definition tx_over :: "('w \<Rightarrow> bool) \<Rightarrow> ('w \<Rightarrow> bool) \<Rightarrow> ('w, 'z) pg_scheme \<Rightarrow> bool" where
  "tx_over intx lost s \<longleftrightarrow> tx_open s \<or> lost (world s) \<or> \<not> intx (world s)"

definition no_tx :: "('w \<Rightarrow> bool) \<Rightarrow> ('w \<Rightarrow> bool) \<Rightarrow> ('w, 'z) pg_scheme \<Rightarrow> bool" where
  "no_tx intx lost s \<longleftrightarrow> \<not> tx_open s \<and> (lost (world s) \<or> \<not> intx (world s))"

text \<open>
  What an exception leaves (\<open>failed\<close>): unless it is undefined behaviour, the committed data are \<open>d\<close>, and
  the program's own data, which no breakdown excuses, are in a state with \<open>K\<close>.
\<close>

definition failed ::
    "('w \<Rightarrow> 'd) \<Rightarrow> ('w \<Rightarrow> bool) \<Rightarrow> 'd \<Rightarrow> (('w, 'z) pg_scheme \<Rightarrow> bool) \<Rightarrow> exn \<Rightarrow> ('w, 'z) pg_scheme \<Rightarrow> bool" where
  "failed committed lost d K e s \<longleftrightarrow>
     (\<not> is_ub e \<longrightarrow> (lost (world s) \<or> committed (world s) = d) \<and> K s)"

definition tx_body ::
    "('w \<Rightarrow> bool) \<Rightarrow> ('w \<Rightarrow> 'd) \<Rightarrow> ('w \<Rightarrow> bool) \<Rightarrow> 'd \<Rightarrow> (('w, 'z) pg_scheme \<Rightarrow> bool) \<Rightarrow>
     (('w, 'z) pg_scheme, 'a) act \<Rightarrow> bool" where
  "tx_body intx committed lost d K m \<longleftrightarrow>
     ensures (\<lambda>s. in_tx intx committed lost d s \<and> K s) m (\<lambda>_. tx_over intx lost)
       (\<lambda>e s. tx_over intx lost s \<and> failed committed lost d K e s)"

definition conn_free :: "(('w, 'z) pg_scheme \<Rightarrow> bool) \<Rightarrow> bool" where
  "conn_free K \<longleftrightarrow> world_free K \<and> (\<forall>s b. K s \<longrightarrow> K (s\<lparr>tx_open := b\<rparr>))"

lemma conn_free_world: "conn_free K \<Longrightarrow> K s \<Longrightarrow> K (s\<lparr>world := w\<rparr>)"
  by (simp add: conn_free_def world_free_def)

lemma conn_free_tx_open: "conn_free K \<Longrightarrow> K s \<Longrightarrow> K (s\<lparr>tx_open := b\<rparr>)"
  by (simp add: conn_free_def)

named_theorems tx_rules \<open>transactional scopes, statement by statement\<close>

lemma tx_ret [tx_rules]: "tx_body intx committed lost d K (ret a)"
  by (auto simp: tx_body_def ensures_def ret_apply in_tx_def tx_over_def)

lemma tx_skip [tx_rules]: "tx_body intx committed lost d K skip"
  by (simp add: skip_def tx_ret)

lemma tx_throw [tx_rules]: "tx_body intx committed lost d K (throw e)"
  by (auto simp: tx_body_def ensures_def throw_apply in_tx_def tx_over_def failed_def)

lemma tx_if [tx_rules]:
  "(b \<Longrightarrow> tx_body intx committed lost d K m) \<Longrightarrow> (\<not> b \<Longrightarrow> tx_body intx committed lost d K n) \<Longrightarrow>
    tx_body intx committed lost d K (if b then m else n)"
  by simp

lemma tx_option [tx_rules]:
  "tx_body intx committed lost d K m \<Longrightarrow> (\<And>a. tx_body intx committed lost d K (f a)) \<Longrightarrow>
    tx_body intx committed lost d K (case x of None \<Rightarrow> m | Some a \<Rightarrow> f a)"
  by (cases x) simp_all

text \<open>A statement that keeps the transaction open, whatever its outcome.\<close>

lemma tx_bind:
  assumes "keeps (\<lambda>s. in_tx intx committed lost d s \<and> K s) m"
    and "\<And>a. tx_body intx committed lost d K (f a)"
  shows "tx_body intx committed lost d K (bind m f)"
proof -
  have "ensures (\<lambda>s. in_tx intx committed lost d s \<and> K s) m (\<lambda>_ s. in_tx intx committed lost d s \<and> K s)
      (\<lambda>e s. tx_over intx lost s \<and> failed committed lost d K e s)"
  proof (rule ensuresI)
    fix s assume "in_tx intx committed lost d s \<and> K s"
    with assms(1) have "in_tx intx committed lost d (snd (m s)) \<and> K (snd (m s))"
      by (auto dest: keepsD)
    then show "case m s of (Inr a, s') \<Rightarrow> in_tx intx committed lost d s' \<and> K s'
      | (Inl e, s') \<Rightarrow> tx_over intx lost s' \<and> failed committed lost d K e s'"
      by (auto simp: in_tx_def tx_over_def failed_def split: prod.splits sum.splits)
  qed
  from ensures_bind [OF this assms(2) [unfolded tx_body_def]] show ?thesis
    unfolding tx_body_def .
qed

lemma tx_seq:
  "keeps (\<lambda>s. in_tx intx committed lost d s \<and> K s) m \<Longrightarrow> tx_body intx committed lost d K n \<Longrightarrow>
    tx_body intx committed lost d K (seq m n)"
  by (simp add: seq_def tx_bind)

text \<open>The escaped literal, which the statement behind it relies on.\<close>

lemma tx_escape:
  assumes laws: "pg_laws sys c intx committed lost"
    and n: "\<And>l. sql_scan False l \<Longrightarrow> tx_body intx committed lost d K (f l)"
  shows "tx_body intx committed lost d K (bind (escapeLiteral sys (Some c) t) f)"
  unfolding tx_body_def
proof (rule ensuresI)
  fix s assume s: "in_tx intx committed lost d s \<and> K s"
  show "case bind (escapeLiteral sys (Some c) t) f s of (Inr a, s') \<Rightarrow> tx_over intx lost s'
    | (Inl e, s') \<Rightarrow> tx_over intx lost s' \<and> failed committed lost d K e s'"
  proof (cases "pq_escape_literal sys (Some c) t (world s)")
    case None
    with s show ?thesis by (simp add: escapeLiteral_def act_simps in_tx_def tx_over_def failed_def)
  next
    case (Some l)
    then have "sql_scan False l" by (rule pg_lawsD(6) [OF laws])
    with n [of l] s have "case f l s of (Inr a, s') \<Rightarrow> tx_over intx lost s'
      | (Inl e, s') \<Rightarrow> tx_over intx lost s' \<and> failed committed lost d K e s'"
      by (simp add: tx_body_def ensures_def)
    with Some show ?thesis by (simp add: escapeLiteral_def act_simps)
  qed
qed

text \<open>The commit, followed by the check of its result; what comes after a commit does not use the
  connection.\<close>

lemma tx_commit:
  assumes laws: "pg_laws sys c intx committed lost" and K: "conn_free K"
    and after: "keeps (tx_over intx lost) m" "\<And>s e s'. m s = (Inl e, s') \<Longrightarrow> is_ub e"
  shows "tx_body intx committed lost d K
    (bind (commit sys (Some c)) (\<lambda>res. if \<not> commandOK res then throw (ex res) else m))"
  unfolding tx_body_def
proof (rule ensuresI)
  fix s assume s: "in_tx intx committed lost d s \<and> K s"
  obtain res w where q: "pq_exec sys (Some c) ''commit'' (world s) = (res, w)" by force
  let ?s = "s\<lparr>world := w, tx_open := \<not> commandOK res\<rparr>"
  have run: "commit sys (Some c) s = (Inr res, ?s)" by (simp add: commit_def act_simps q)
  have Ks: "K ?s" using s K by (metis conn_free_world conn_free_tx_open)
  note step = pg_lawsD(4) [OF laws q]
  show "case bind (commit sys (Some c)) (\<lambda>res. if \<not> commandOK res then throw (ex res) else m) s of
      (Inr a, s') \<Rightarrow> tx_over intx lost s'
    | (Inl e, s') \<Rightarrow> tx_over intx lost s' \<and> failed committed lost d K e s'"
  proof (cases "commandOK res")
    case True
    with step s have "tx_over intx lost ?s" by (auto simp: tx_over_def in_tx_def calm_def)
    then have "tx_over intx lost (snd (m ?s))" by (rule keepsD [OF after(1)])
    with True after(2) show ?thesis
      by (auto simp: bind_apply run failed_def split: prod.splits sum.splits)
  next
    case False
    with step s have "lost w \<or> committed w = d" by (auto simp: in_tx_def calm_def)
    with False Ks show ?thesis by (simp add: bind_apply run throw_apply tx_over_def failed_def)
  qed
qed

lemma with_transaction_atomic:
  assumes laws: "pg_laws sys c intx committed lost" and K: "conn_free K"
    and body: "tx_body intx committed lost d K m"
    and s: "begin_accepted sys c s" "lost (world s) \<or> committed (world s) = d" "K s"
    and run: "with_transaction sys (Some c) m s = (r, s')"
  shows "no_tx intx lost s'"
    and "r = Inl e \<Longrightarrow> failed committed lost d K e s'"
proof -
  let ?b = "begin_transaction sys (Some c) s"
  obtain res w where q: "pq_exec sys (Some c) ''begin'' (world s) = (res, w)" by force
  note start = pg_lawsD(1) [OF laws q]
  from start q s have "in_tx intx committed lost d ?b"
    by (auto simp: calm_def in_tx_def begin_transaction_def begin_accepted_def)
  moreover have "K ?b"
    using s(3) K by (simp add: begin_transaction_def) (metis conn_free_world conn_free_tx_open)
  ultimately have post: "case m ?b of (Inr a, t) \<Rightarrow> tx_over intx lost t
      | (Inl e, t) \<Rightarrow> tx_over intx lost t \<and> failed committed lost d K e t"
    using body by (simp add: tx_body_def ensures_def)
  obtain t where t: "m ?b = (r, t)" and s': "s' = end_transaction sys (Some c) t"
    using run by (cases "m ?b") (auto simp: with_transaction_guarded guarded_apply)
  obtain res' w' where q': "pq_exec sys (Some c) ''rollback'' (world t) = (res', w')" by force
  note rolled = pg_lawsD(5) [OF laws q']
  from post t have "tx_over intx lost t" by (auto split: sum.splits)
  with rolled q' show "no_tx intx lost s'"
    by (auto simp: s' end_transaction_def tx_over_def no_tx_def calm_def)
  assume "r = Inl e"
  with post t have f: "failed committed lost d K e t" by simp
  have "K t \<Longrightarrow> K s'"
    using K unfolding s' end_transaction_def by (auto intro: conn_free_world conn_free_tx_open)
  with f rolled q' show "failed committed lost d K e s'"
    by (auto simp: failed_def s' end_transaction_def calm_def)
qed

section \<open>Statements inside a transaction\<close>

lemma executeQuery_in_tx:
  assumes laws: "pg_laws sys c intx committed lost" and K: "conn_free K" and q: "dml q" "sql_scan False q"
  shows "keeps (\<lambda>s. in_tx intx committed lost d s \<and> K s) (executeQuery sys (Some c) q)"
proof (rule keepsI)
  fix s assume s: "in_tx intx committed lost d s \<and> K s"
  obtain res w where run: "pq_exec sys (Some c) q (world s) = (res, w)" by force
  from pg_lawsD(2) [OF laws this q] s K run
  show "in_tx intx committed lost d (snd (executeQuery sys (Some c) q s)) \<and> K (snd (executeQuery sys (Some c) q s))"
    by (auto simp: executeQuery_def os_defs in_tx_def calm_def conn_free_world)
qed

lemma executeQueryParams_in_tx:
  assumes laws: "pg_laws sys c intx committed lost" and K: "conn_free K" and q: "dml q"
  shows "keeps (\<lambda>s. in_tx intx committed lost d s \<and> K s) (executeQueryParams sys (Some c) q ps rf)"
proof (rule keepsI)
  fix s assume s: "in_tx intx committed lost d s \<and> K s"
  obtain res w where run: "pq_exec_params sys (Some c) q ps rf (world s) = (res, w)" by force
  from pg_lawsD(3) [OF laws this q] s K run
  show "in_tx intx committed lost d (snd (executeQueryParams sys (Some c) q ps rf s)) \<and>
      K (snd (executeQueryParams sys (Some c) q ps rf s))"
    by (auto simp: executeQueryParams_def os_defs in_tx_def calm_def conn_free_world)
qed

lemma longFromQuery_in_tx:
  assumes "pg_laws sys c intx committed lost" "conn_free K" "dml q" "sql_scan False q"
  shows "keeps (\<lambda>s. in_tx intx committed lost d s \<and> K s) (longFromQuery sys (Some c) q)"
  using executeQuery_in_tx [OF assms]
  unfolding longFromQuery_def executeQuery_def
  by (intro keeps_rules)

lemma os_read_in_tx: "keeps (\<lambda>s. in_tx intx committed lost d s \<and> K s) (os_read f)"
  by (simp add: keeps_def os_read_def)

text \<open>Invariants that do not look at the connection.\<close>

lemma keeps_conn:
  assumes "conn_free I"
  shows "keeps I (executeQuery sys con q)" and "keeps I (executeQueryParams sys con q ps rf)"
    and "keeps I (longFromQuery sys con q)" and "keeps I (escapeLiteral sys con t)"
    and "keeps I (commit sys con)" and "keeps I (consumeInput sys con)"
    and "keeps I (checkForNotification sys con)" and "keeps I (rowsReturned res)"
proof -
  have w: "world_free I" using assms by (simp add: conn_free_def)
  note os = keeps_os [OF w]
  show "keeps I (executeQuery sys con q)" "keeps I (executeQueryParams sys con q ps rf)"
    "keeps I (checkForNotification sys con)"
    by (simp_all add: executeQuery_def executeQueryParams_def checkForNotification_def os)
  show "keeps I (escapeLiteral sys con t)"
    unfolding escapeLiteral_def by (intro keeps_rules os)
  show "keeps I (longFromQuery sys con q)"
    unfolding longFromQuery_def by (intro keeps_rules os)
  show "keeps I (commit sys con)"
    unfolding commit_def
    by (intro keeps_rules os keeps_modify conn_free_tx_open [OF assms])
  show "keeps I (consumeInput sys con)"
    unfolding consumeInput_def by (intro keeps_rules os)
  show "keeps I (rowsReturned res)"
    unfolding rowsReturned_def by (intro keeps_rules)
qed

lemma keeps_with_transaction:
  assumes "conn_free I" and "keeps I m"
  shows "keeps I (with_transaction sys con m)"
  unfolding with_transaction_guarded
  using assms(2)
  by (rule keeps_guarded [rotated 2])
    (auto simp: begin_transaction_def end_transaction_def
      intro: conn_free_world [OF assms(1)] conn_free_tx_open [OF assms(1)])

section \<open>Operations that write in one transaction\<close>

text \<open>
  \<open>atomic_write\<close>: started outside a transaction, with a \<open>begin\<close> that will be accepted, the operation
  ends outside one, and when it throws (not undefined behaviour) neither the committed data nor \<open>K\<close>
  has changed. The steps before the transaction only read.
\<close>

definition quiet ::
    "'w sys \<Rightarrow> pgconn \<Rightarrow> ('w \<Rightarrow> bool) \<Rightarrow> ('w \<Rightarrow> 'd) \<Rightarrow> ('w \<Rightarrow> bool) \<Rightarrow> 'd \<Rightarrow> (('w, 'z) pg_scheme \<Rightarrow> bool) \<Rightarrow>
     ('w, 'z) pg_scheme \<Rightarrow> bool" where
  "quiet sys c intx committed lost d K s \<longleftrightarrow> no_tx intx lost s \<and> begin_accepted sys c s \<and>
     (lost (world s) \<or> committed (world s) = d) \<and> K s"

definition atomic_write ::
    "'w sys \<Rightarrow> pgconn \<Rightarrow> ('w \<Rightarrow> bool) \<Rightarrow> ('w \<Rightarrow> 'd) \<Rightarrow> ('w \<Rightarrow> bool) \<Rightarrow> (('w, 'z) pg_scheme \<Rightarrow> bool) \<Rightarrow>
     (('w, 'z) pg_scheme, 'a) act \<Rightarrow> bool" where
  "atomic_write sys c intx committed lost K m \<longleftrightarrow>
     (\<forall>d. ensures (quiet sys c intx committed lost d K) m (\<lambda>_. no_tx intx lost)
       (\<lambda>e s. no_tx intx lost s \<and> failed committed lost d K e s))"

lemma atomic_writeD:
  assumes "atomic_write sys c intx committed lost K m" and "no_tx intx lost s" and "begin_accepted sys c s" and "K s"
    and "m s = (r, s')"
  shows "no_tx intx lost s'"
    and "r = Inl e \<Longrightarrow> failed committed lost (committed (world s)) K e s'"
proof -
  have "quiet sys c intx committed lost (committed (world s)) K s" using assms by (simp add: quiet_def)
  with assms(1,5) have "case r of Inr a \<Rightarrow> no_tx intx lost s'
      | Inl e \<Rightarrow> no_tx intx lost s' \<and> failed committed lost (committed (world s)) K e s'"
    unfolding atomic_write_def ensures_def by fastforce
  then show "no_tx intx lost s'"
    and "r = Inl e \<Longrightarrow> failed committed lost (committed (world s)) K e s'"
    by (auto split: sum.splits)
qed

lemma atomic_throw: "atomic_write sys c intx committed lost K (throw e)"
  by (auto simp: atomic_write_def quiet_def failed_def intro: ensures_throw)

lemma atomic_ret: "atomic_write sys c intx committed lost K (ret a)"
  by (auto simp: atomic_write_def quiet_def intro: ensures_ret)

lemma atomic_skip: "atomic_write sys c intx committed lost K skip"
  by (simp add: skip_def atomic_ret)

lemma atomic_if:
  "(b \<Longrightarrow> atomic_write sys c intx committed lost K m) \<Longrightarrow> (\<not> b \<Longrightarrow> atomic_write sys c intx committed lost K n) \<Longrightarrow>
    atomic_write sys c intx committed lost K (if b then m else n)"
  by simp

lemma atomic_option:
  "(x = None \<Longrightarrow> atomic_write sys c intx committed lost K m) \<Longrightarrow>
    (\<And>a. x = Some a \<Longrightarrow> atomic_write sys c intx committed lost K (f a)) \<Longrightarrow>
    atomic_write sys c intx committed lost K (case x of None \<Rightarrow> m | Some a \<Rightarrow> f a)"
  by (cases x) simp_all

lemma atomic_bind:
  assumes m: "\<And>d. keeps (quiet sys c intx committed lost d K) m"
    and f: "\<And>a. atomic_write sys c intx committed lost K (f a)"
  shows "atomic_write sys c intx committed lost K (bind m f)"
  unfolding atomic_write_def
proof (intro allI ensures_bind [where R = "\<lambda>_. quiet sys c intx committed lost _ K"])
  fix d
  show "ensures (quiet sys c intx committed lost d K) m (\<lambda>_. quiet sys c intx committed lost d K)
      (\<lambda>e s. no_tx intx lost s \<and> failed committed lost d K e s)"
    using m [of d] by (fastforce simp: keeps_def ensures_def quiet_def failed_def split: prod.splits sum.splits)
  show "ensures (quiet sys c intx committed lost d K) (f a) (\<lambda>_. no_tx intx lost)
      (\<lambda>e s. no_tx intx lost s \<and> failed committed lost d K e s)" for a
    using f [of a] by (simp add: atomic_write_def)
qed

lemma atomic_seq:
  "(\<And>d. keeps (quiet sys c intx committed lost d K) m) \<Longrightarrow> atomic_write sys c intx committed lost K n \<Longrightarrow>
    atomic_write sys c intx committed lost K (seq m n)"
  by (simp add: seq_def atomic_bind)

lemma atomic_tx:
  assumes laws: "pg_laws sys c intx committed lost" and K: "conn_free K"
    and body: "\<And>d. tx_body intx committed lost d K m"
  shows "atomic_write sys c intx committed lost K (with_transaction sys (Some c) m)"
  unfolding atomic_write_def
proof (intro allI ensuresI)
  fix d s assume "quiet sys c intx committed lost d K s"
  then have s: "begin_accepted sys c s" "lost (world s) \<or> committed (world s) = d" "K s"
    by (simp_all add: quiet_def)
  obtain r s' where run: "with_transaction sys (Some c) m s = (r, s')" by force
  from with_transaction_atomic [OF laws K body s run]
  show "case with_transaction sys (Some c) m s of (Inr a, s') \<Rightarrow> no_tx intx lost s'
      | (Inl e, s') \<Rightarrow> no_tx intx lost s' \<and> failed committed lost d K e s'"
    by (simp add: run split: sum.splits)
qed

lemma quiet_os_read: "keeps (quiet sys c intx committed lost d K) (os_read f)"
  "keeps (quiet sys c intx committed lost d K) (fs_read g)"
  by (auto simp: keeps_def os_read_def fs_read_def split: sum.splits)

lemmas atomic_rules = atomic_bind atomic_seq atomic_option atomic_if atomic_throw atomic_ret atomic_skip
  quiet_os_read

end
