(* ===== verification/Rc2_Utils.thy ===== *)
theory Rc2_Utils
  imports Host_System
begin

text \<open>
  \<open>common/RC2Utils.cpp\<close>: reading a file, creating a directory path, temporary directories, and
  the two guards of \<open>common/RC2Utils.hpp\<close> and \<open>src/RSession.cpp\<close> that set a flag for the length
  of a scope.
\<close>

section \<open>Files\<close>

text \<open>
  When the file cannot be opened \<open>tellg\<close> returns \<open>-1\<close>, which as \<open>size_t\<close> is the largest size,
  and \<open>new char[size]\<close> throws.
\<close>

definition ReadFileBlob :: "'w sys \<Rightarrow> string \<Rightarrow> (('w, 'z) hw_scheme, string) act" where
  "ReadFileBlob sys filePath =
     bind (os_read (sys_read_file sys filePath)) (\<lambda>file.
     case file of None \<Rightarrow> throw BadAlloc | Some contents \<Rightarrow> ret contents)"

text \<open>\<open>SlurpFile\<close> throws the value of \<open>errno\<close> itself.\<close>

definition SlurpFile :: "'w sys \<Rightarrow> int \<Rightarrow> string \<Rightarrow> (('w, 'z) hw_scheme, string) act" where
  "SlurpFile sys errno filename =
     bind (os_read (sys_read_file sys filename)) (\<lambda>file.
     case file of Some contents \<Rightarrow> ret contents | None \<Rightarrow> throw (ErrnoThrown errno))"

definition GenerateUUID :: "'w sys \<Rightarrow> (('w, 'z) hw_scheme, string) act" where
  "GenerateUUID sys = os_do (sys_uuid sys)"

section \<open>Directory paths\<close>

definition EEXIST :: int where
  "EEXIST = 17"

text \<open>The loop of \<open>MakeDirectoryPath\<close>, from the search position \<open>pre\<close>.\<close>

function mkdir_loop ::
    "'w sys \<Rightarrow> string \<Rightarrow> nat \<Rightarrow> nat \<Rightarrow> int \<Rightarrow> (('w, 'z) hw_scheme, int) act" where
  "mkdir_loop sys s mode pre mdretval =
     (case find_first_of CHR ''/'' pre s of
        None \<Rightarrow> ret mdretval
      | Some pos \<Rightarrow>
          (let dir = take pos s in
           if length dir = 0 then mkdir_loop sys s mode (pos + 1) mdretval
           else
             bind (fs_read (sys_exists sys dir)) (\<lambda>there.
             bind (if there then fs_read (sys_is_directory sys dir) else ret False) (\<lambda>isdir.
             if there \<and> isdir then mkdir_loop sys s mode (pos + 1) mdretval
             else
               bind (os_do (sys_mkdir sys dir mode)) (\<lambda>(rc, errno).
               if rc \<noteq> 0 \<and> errno \<noteq> EEXIST then ret rc
               else mkdir_loop sys s mode (pos + 1) rc)))))"
  by pat_completeness auto
termination
  by (relation "measure (\<lambda>(sys, s, mode, pre, r). length s - pre)")
    (auto dest!: find_first_of_Some)

declare mkdir_loop.simps [simp del]

definition MakeDirectoryPath :: "'w sys \<Rightarrow> string \<Rightarrow> nat \<Rightarrow> (('w, 'z) hw_scheme, int) act" where
  "MakeDirectoryPath sys s mode =
     (if s = [] then throw (UB ''s[s.size()-1] of an empty string'')
      else mkdir_loop sys (if last s \<noteq> CHR ''/'' then s @ ''/'' else s) mode 0 0)"

section \<open>Temporary directories\<close>

record temporary_directory =
  td_path :: string
  td_eraseOnDeath :: bool

text \<open>The mode 0700 is 448. \<open>TemporaryDirectory(bool erase)\<close> and \<open>TemporaryDirectory(std::string path, bool erase)\<close>.\<close>

definition new_TemporaryDirectory ::
    "'w sys \<Rightarrow> bool \<Rightarrow> (('w, 'z) hw_scheme, temporary_directory) act" where
  "new_TemporaryDirectory sys erase =
     bind (GenerateUUID sys) (\<lambda>uuid.
     let path = ''/tmp/'' @ uuid in
     bind (os_do (sys_mkdir sys path 448)) (\<lambda>(rc, errno).
     if rc \<noteq> 0 then throw (RuntimeError (''failed to create directory:'' @ path))
     else ret \<lparr>td_path = path, td_eraseOnDeath = erase\<rparr>))"

definition new_TemporaryDirectory_at ::
    "'w sys \<Rightarrow> string \<Rightarrow> bool \<Rightarrow> (('w, 'z) hw_scheme, temporary_directory) act" where
  "new_TemporaryDirectory_at sys path erase =
     bind (MakeDirectoryPath sys path 448) (\<lambda>rc.
     if rc \<noteq> 0 then throw (RuntimeError (''failed to create directory:'' @ path))
     else ret \<lparr>td_path = path, td_eraseOnDeath = erase\<rparr>)"

definition delete_TemporaryDirectory ::
    "'w sys \<Rightarrow> temporary_directory \<Rightarrow> (('w, 'z) hw_scheme, unit) act" where
  "delete_TemporaryDirectory sys td =
     do_if (td_eraseOnDeath td)
       (try_catch is_std_exception (seq (fs_do (sys_remove_all sys (td_path td))) skip)
          (\<lambda>e. throw (Abort ''exception from a destructor'')))"

end
