(* ===== verification/Std_Map.thy ===== *)
theory Std_Map
  imports Rc2_Prelude
begin

text \<open>
  The program keeps its tables in \<open>std::map\<close>: JSON objects, the files by database id, the
  files and the pending images by inotify watch descriptor. The model of such a map is the
  list of its entries in key order, so iterating over the map is reading the list. The
  operations are those the program calls: \<open>find\<close>/\<open>at\<close>/\<open>count\<close>, \<open>operator[]\<close> (which inserts a
  default value for a missing key), \<open>insert\<close> (which leaves an existing entry alone) and
  \<open>erase\<close>.

  The locale \<open>ordered_map\<close> states what the components rely on; it is interpreted on these
  operations, and the components use the interpretation's facts.
\<close>

section \<open>The operations\<close>

type_synonym ('k, 'v) omap = "('k \<times> 'v) list"

definition omap_find :: "('k, 'v) omap \<Rightarrow> 'k \<Rightarrow> 'v option" where
  "omap_find m = map_of m"

fun omap_put :: "'k::linorder \<Rightarrow> 'v \<Rightarrow> ('k, 'v) omap \<Rightarrow> ('k, 'v) omap" where
  "omap_put k v [] = [(k, v)]"
| "omap_put k v ((k', v') # m) =
     (if k < k' then (k, v) # (k', v') # m
      else if k = k' then (k, v) # m
      else (k', v') # omap_put k v m)"

definition omap_insert :: "'k::linorder \<Rightarrow> 'v \<Rightarrow> ('k, 'v) omap \<Rightarrow> ('k, 'v) omap" where
  "omap_insert k v m = (case omap_find m k of None \<Rightarrow> omap_put k v m | Some _ \<Rightarrow> m)"

text \<open>\<open>m[k]\<close> read: the value, and the map with the default value entered for a missing key.\<close>

definition omap_index :: "'v \<Rightarrow> 'k::linorder \<Rightarrow> ('k, 'v) omap \<Rightarrow> 'v \<times> ('k, 'v) omap" where
  "omap_index d k m = (case omap_find m k of None \<Rightarrow> (d, omap_put k d m) | Some v \<Rightarrow> (v, m))"

definition omap_erase :: "'k \<Rightarrow> ('k, 'v) omap \<Rightarrow> ('k, 'v) omap" where
  "omap_erase k m = filter (\<lambda>e. fst e \<noteq> k) m"

definition omap_count :: "('k, 'v) omap \<Rightarrow> 'k \<Rightarrow> nat" where
  "omap_count m k = (case omap_find m k of None \<Rightarrow> 0 | Some _ \<Rightarrow> 1)"

definition omap_inv :: "('k::linorder, 'v) omap \<Rightarrow> bool" where
  "omap_inv m = sorted_wrt (<) (map fst m)"

definition omap_of :: "('k::linorder \<times> 'v) list \<Rightarrow> ('k, 'v) omap" where
  "omap_of es = fold (\<lambda>(k, v) m. omap_put k v m) es []"

section \<open>The interface\<close>

locale ordered_map =
  fixes empty :: "'m"
    and find :: "'m \<Rightarrow> 'k::linorder \<Rightarrow> 'v option"
    and put :: "'k \<Rightarrow> 'v \<Rightarrow> 'm \<Rightarrow> 'm"
    and erase :: "'k \<Rightarrow> 'm \<Rightarrow> 'm"
    and entries :: "'m \<Rightarrow> ('k \<times> 'v) list"
    and invar :: "'m \<Rightarrow> bool"
  assumes invar_empty: "invar empty"
    and invar_put: "invar m \<Longrightarrow> invar (put k v m)"
    and invar_erase: "invar m \<Longrightarrow> invar (erase k m)"
    and find_empty: "find empty k = None"
    and find_put: "invar m \<Longrightarrow> find (put k v m) = (find m)(k \<mapsto> v)"
    and find_erase: "invar m \<Longrightarrow> find (erase k m) = (find m)(k := None)"
    and entries_sorted: "invar m \<Longrightarrow> sorted_wrt (<) (map fst (entries m))"
    and entries_find: "invar m \<Longrightarrow> map_of (entries m) = find m"
begin

lemma find_put_same: "invar m \<Longrightarrow> find (put k v m) k = Some v"
  by (simp add: find_put)

lemma find_put_other: "invar m \<Longrightarrow> j \<noteq> k \<Longrightarrow> find (put k v m) j = find m j"
  by (simp add: find_put)

lemma find_erase_same: "invar m \<Longrightarrow> find (erase k m) k = None"
  by (simp add: find_erase)

lemma find_erase_other: "invar m \<Longrightarrow> j \<noteq> k \<Longrightarrow> find (erase k m) j = find m j"
  by (simp add: find_erase)

lemma distinct_keys: "invar m \<Longrightarrow> distinct (map fst (entries m))"
  using entries_sorted [of m] by (simp add: strict_sorted_iff)

lemma entries_iff: "invar m \<Longrightarrow> (k, v) \<in> set (entries m) \<longleftrightarrow> find m k = Some v"
  using distinct_keys [of m] entries_find [of m] by (metis map_of_eq_Some_iff)

text \<open>A loop over the map that stops at the first match finds the entry of least key.\<close>

lemma first_match:
  assumes "invar m" and "List.find P (entries m) = Some (k, v)"
  shows "find m k = Some v \<and> P (k, v) \<and> (\<forall>j w. find m j = Some w \<longrightarrow> P (j, w) \<longrightarrow> k \<le> j)"
proof -
  from assms(2) obtain i where i: "i < length (entries m)" "entries m ! i = (k, v)" "P (k, v)"
    and before: "\<forall>j<i. \<not> P (entries m ! j)"
    by (auto simp: find_Some_iff)
  have "k \<le> j" if "find m j = Some w" "P (j, w)" for j w
  proof -
    from that(1) assms(1) have "(j, w) \<in> set (entries m)" by (simp add: entries_iff)
    then obtain n where n: "n < length (entries m)" "entries m ! n = (j, w)"
      by (auto simp: in_set_conv_nth)
    with before that(2) have "i \<le> n" by (metis not_le)
    with entries_sorted [OF assms(1)] i n have "i < n \<Longrightarrow> k < j"
      by (fastforce simp: sorted_wrt_iff_nth_less)
    with \<open>i \<le> n\<close> i n show ?thesis by (cases "i = n") auto
  qed
  moreover from i have "(k, v) \<in> set (entries m)" by (metis nth_mem)
  ultimately show ?thesis using assms(1) i(3) by (simp add: entries_iff)
qed

lemma no_match: "invar m \<Longrightarrow> List.find P (entries m) = None \<Longrightarrow> find m k = Some v \<Longrightarrow> \<not> P (k, v)"
  by (auto simp: find_None_iff entries_iff [symmetric])

end

section \<open>The entry list implements it\<close>

lemma omap_put_keys: "fst ` set (omap_put k v m) = insert k (fst ` set m)"
  by (induction k v m rule: omap_put.induct) auto

lemma omap_inv_put: "omap_inv m \<Longrightarrow> omap_inv (omap_put k v m)"
proof (induction k v m rule: omap_put.induct)
  case (2 k v k' v' m)
  have "x \<in> fst ` set (omap_put k v m) \<Longrightarrow> x = k \<or> x \<in> fst ` set m" for x
    by (simp add: omap_put_keys)
  with 2 show ?case by (fastforce simp: omap_inv_def)
qed (simp add: omap_inv_def)

lemma omap_inv_erase: "omap_inv m \<Longrightarrow> omap_inv (omap_erase k m)"
  by (auto simp: omap_inv_def omap_erase_def sorted_wrt_map intro: sorted_wrt_filter)

lemma omap_find_put: "omap_inv m \<Longrightarrow> omap_find (omap_put k v m) = (omap_find m)(k \<mapsto> v)"
  by (induction k v m rule: omap_put.induct) (auto simp: omap_find_def omap_inv_def fun_eq_iff)

lemma omap_find_erase: "omap_find (omap_erase k m) = (omap_find m)(k := None)"
  unfolding omap_find_def omap_erase_def by (induction m) (auto simp: fun_eq_iff)

interpretation om: ordered_map "[]" omap_find omap_put omap_erase "\<lambda>m. m" omap_inv
  by unfold_locales
    (simp_all add: omap_inv_put omap_inv_erase omap_find_put omap_find_erase,
     simp_all add: omap_inv_def omap_find_def)

lemmas omap_inv_simps [simp] = om.invar_empty om.invar_put om.invar_erase

lemma omap_inv_single [simp]: "omap_inv [(k, v)]"
  by (simp add: omap_inv_def)

lemma omap_find_nil [simp]: "omap_find [] k = None"
  by (simp add: omap_find_def)

lemma omap_find_cons [simp]: "omap_find ((j, v) # m) k = (if j = k then Some v else omap_find m k)"
  by (simp add: omap_find_def)

lemma omap_insert_inv [simp]: "omap_inv m \<Longrightarrow> omap_inv (omap_insert k v m)"
  by (simp add: omap_insert_def split: option.splits)

lemma omap_index_inv [simp]: "omap_inv m \<Longrightarrow> omap_inv (snd (omap_index d k m))"
  by (simp add: omap_index_def split: option.splits)

lemma omap_find_insert:
  "omap_inv m \<Longrightarrow> omap_find (omap_insert k v m) j
    = (if j = k \<and> omap_find m k = None then Some v else omap_find m j)"
  by (auto simp: omap_insert_def om.find_put split: option.splits)

lemma omap_count_iff: "omap_count m k = 1 \<longleftrightarrow> (\<exists>v. omap_find m k = Some v)"
  by (auto simp: omap_count_def split: option.splits)

lemma omap_of_inv [simp]: "omap_inv (omap_of es)"
proof -
  have "omap_inv m \<Longrightarrow> omap_inv (fold (\<lambda>(k, v) m. omap_put k v m) es m)" for m :: "('a, 'b) omap"
    by (induction es arbitrary: m) auto
  then show ?thesis by (simp add: omap_of_def)
qed

end
