(* ===== verification/Wire_Protocol.thy ===== *)
theory Wire_Protocol
  imports Rc2_Prelude
begin

text \<open>
  The framing of messages on the socket: \<open>src/InputBufferManager.cpp\<close> on the receiving side,
  the header written by \<open>RSession::sendJsonToClientSource\<close> on the sending side. A frame is an
  eight-byte header (the magic number and the length of the JSON text, both 32-bit big endian)
  and the text. Bytes are characters; an \<open>evbuffer\<close> is the list of the bytes it holds, from
  which libevent copies, removes or drains a prefix and to which it appends.
\<close>

section \<open>Network byte order\<close>

definition ntohl :: "string \<Rightarrow> 32 word" where
  "ntohl bs = word_of_nat (foldl (\<lambda>n c. n * 256 + of_char c) 0 (take 4 bs))"

definition htonl :: "32 word \<Rightarrow> string" where
  "htonl w = [char_of (unat w div 2 ^ 24), char_of (unat w div 2 ^ 16),
              char_of (unat w div 2 ^ 8), char_of (unat w)]"

text \<open>For evaluation: dividing an integer rather than a natural number.\<close>

lemma char_of_int_div: "char_of (uint (w :: 32 word) div 2 ^ k) = (char_of (unat w div 2 ^ k) :: char)"
proof -
  have "uint w div 2 ^ k = int (unat w div 2 ^ k)" by (simp add: zdiv_int)
  then show ?thesis by simp
qed

lemma htonl_code [code]:
  "htonl w = [char_of (uint w div 16777216), char_of (uint w div 65536), char_of (uint w div 256), char_of (uint w)]"
  using char_of_int_div [of w 24] char_of_int_div [of w 16] char_of_int_div [of w 8] char_of_int_div [of w 0]
  by (simp add: htonl_def)

lemma length_htonl [simp]: "length (htonl w) = 4"
  by (simp add: htonl_def)

lemma base256_digits:
  fixes n :: nat
  assumes "n < 2 ^ 32"
  shows "((n div 2 ^ 24 mod 256 * 256 + n div 2 ^ 16 mod 256) * 256 + n div 2 ^ 8 mod 256) * 256
           + n mod 256 = n"
proof -
  have "n div 2 ^ 24 < 256" using assms by (simp add: less_mult_imp_div_less)
  then have a: "n div 2 ^ 24 mod 256 = n div 2 ^ 24" by simp
  have b: "n div 2 ^ 24 * 256 + n div 2 ^ 16 mod 256 = n div 2 ^ 16"
    using div_mult2_eq [of n "2 ^ 16" 256] by (simp add: div_mult_mod_eq)
  have c: "n div 2 ^ 16 * 256 + n div 2 ^ 8 mod 256 = n div 2 ^ 8"
    using div_mult2_eq [of n "2 ^ 8" 256] by (simp add: div_mult_mod_eq)
  have d: "n div 2 ^ 8 * 256 + n mod 256 = n"
    by (simp add: div_mult_mod_eq)
  show ?thesis unfolding a b c d ..
qed

lemma ntohl_htonl [simp]: "ntohl (htonl w @ bs) = w"
proof -
  have "unat w < 2 ^ 32" using unsigned_less [of w, where 'a = nat] by simp
  then have "foldl (\<lambda>n c. n * 256 + of_char c) 0 (take 4 (htonl w @ bs)) = unat w"
    using base256_digits [of "unat w"] by (simp add: htonl_def of_char_of)
  then show ?thesis by (simp only: ntohl_def) simp
qed

section \<open>The receiving side\<close>

text \<open>
  \<open>_expectedSize\<close> is written by \<open>reset\<close> and read nowhere; the constructor leaves it
  unset, so its initial value is an argument of \<open>new_input_buffer\<close>.
\<close>

record input_buffer =
  ib_buffer :: string
  ib_expectedSize :: "32 word"
  ib_currentJson :: string

definition kRSessionMagicNumber :: "32 word" where
  "kRSessionMagicNumber = 0x21"

definition new_input_buffer :: "32 word \<Rightarrow> input_buffer" where
  "new_input_buffer junk = \<lparr>ib_buffer = [], ib_expectedSize = junk, ib_currentJson = []\<rparr>"

definition ib_reset :: "input_buffer \<Rightarrow> input_buffer" where
  "ib_reset ib = ib\<lparr>ib_buffer := drop (length (ib_buffer ib)) (ib_buffer ib),
                    ib_expectedSize := 0, ib_currentJson := []\<rparr>"

text \<open>
  \<open>added\<close> is the outcome of \<open>evbuffer_add_buffer\<close>: on failure the code reports it and goes on
  with the bytes it has. The comparison \<open>(jsonSize + 8) <= dataSize\<close> adds in \<open>uint32_t\<close>, so it
  wraps around; the constructor \<open>string(&buff[8], jsonSize)\<close> then reads \<open>jsonSize\<close> bytes from a
  block of \<open>dataSize\<close> bytes, and reading past its end is undefined.
\<close>

definition appendData :: "bool \<Rightarrow> string \<Rightarrow> (input_buffer, unit) act" where
  "appendData added inBuffer =
     seq (modify (\<lambda>ib. if added then ib\<lparr>ib_buffer := ib_buffer ib @ inBuffer\<rparr> else ib))
     (bind (gets (\<lambda>ib. length (ib_buffer ib))) (\<lambda>dataSize.
      if 8 < dataSize then
        bind (gets (\<lambda>ib. take 8 (ib_buffer ib))) (\<lambda>dataHead.
        let magicIdent = ntohl dataHead; jsonSize = ntohl (drop 4 dataHead) in
        if magicIdent \<noteq> kRSessionMagicNumber then modify ib_reset
        else if unat (jsonSize + 8) \<le> dataSize then
          bind (gets (\<lambda>ib. take dataSize (ib_buffer ib))) (\<lambda>buff.
          seq (modify (\<lambda>ib. ib\<lparr>ib_buffer := drop dataSize (ib_buffer ib)\<rparr>))
          (if 8 + unat jsonSize \<le> length buff
           then modify (\<lambda>ib. ib\<lparr>ib_currentJson := ib_currentJson ib @ take (unat jsonSize) (drop 8 buff)\<rparr>)
           else throw (UB ''string(&buff[8], jsonSize) reads past the end of buff'')))
        else skip)
      else skip))"

definition hasCompleteMessage :: "input_buffer \<Rightarrow> bool" where
  "hasCompleteMessage ib \<longleftrightarrow> 0 < length (ib_currentJson ib)"

definition popCurrentMessage :: "(input_buffer, string) act" where
  "popCurrentMessage =
     bind (gets ib_currentJson) (\<lambda>str.
     seq (modify (\<lambda>ib. ib\<lparr>ib_currentJson := []\<rparr>)) (ret str))"

text \<open>The read callback up to the message it hands to the session (RSession::handleJsonStatic).\<close>

definition readMessage :: "bool \<Rightarrow> string \<Rightarrow> (input_buffer, string option) act" where
  "readMessage added chunk =
     seq (appendData added chunk)
     (bind (gets hasCompleteMessage) (\<lambda>complete.
      if complete then bind popCurrentMessage (\<lambda>str. ret (Some str)) else ret None))"

section \<open>The sending side\<close>

definition frame_message :: "string \<Rightarrow> string" where
  "frame_message json = htonl kRSessionMagicNumber @ htonl (word_of_nat (length json)) @ json"

section \<open>Reading a frame\<close>

lemma ntohl_take [simp]: "4 \<le> n \<Longrightarrow> ntohl (take n bs) = ntohl bs"
  by (simp add: ntohl_def min_def)

lemma ntohl_drop_take [simp]: "ntohl (drop 4 (take 8 bs)) = ntohl (drop 4 bs)"
  by (simp add: drop_take)

lemma length_frame [simp]: "length (frame_message m) = 8 + length m"
  by (simp add: frame_message_def)

lemma frame_simps [simp]:
  "ntohl (frame_message m) = kRSessionMagicNumber"
  "ntohl (frame_message m @ bs) = kRSessionMagicNumber"
  "ntohl (drop 4 (frame_message m)) = word_of_nat (length m)"
  "ntohl (drop 4 (frame_message m) @ bs) = word_of_nat (length m)"
  "drop 8 (frame_message m) = m"
  using ntohl_htonl [of kRSessionMagicNumber] ntohl_htonl [of "word_of_nat (length m)"]
  by (simp_all add: frame_message_def)

lemma frame_header_prefix:
  assumes "8 < length b" and "b @ r = frame_message m"
  shows "ntohl b = kRSessionMagicNumber" and "ntohl (drop 4 b) = word_of_nat (length m)"
proof -
  from assms(1) have "ntohl b = ntohl (b @ r)" and "ntohl (drop 4 b) = ntohl (drop 4 (b @ r))"
    by (simp_all add: ntohl_def)
  with assms(2) show "ntohl b = kRSessionMagicNumber"
    and "ntohl (drop 4 b) = word_of_nat (length m)"
    by simp_all
qed

definition frameable :: "string \<Rightarrow> bool" where
  "frameable m \<longleftrightarrow> 0 < length m \<and> length m + 8 < 2 ^ 32"

lemma frameable_size: "frameable m \<Longrightarrow> unat (word_of_nat (length m) + 8 :: 32 word) = length m + 8"
  by (simp add: frameable_def unat_word_ariths unat_of_nat)

lemma frameable_unat: "frameable m \<Longrightarrow> unat (word_of_nat (length m) :: 32 word) = length m"
  by (simp add: frameable_def unat_of_nat)

text \<open>The callback's case distinction, over the bytes it has after the append.\<close>

lemma appendData_cases:
  assumes "ib_buffer ib @ chunk = B"
  shows "appendData True chunk ib =
    (if 8 < length B then
       if ntohl B \<noteq> kRSessionMagicNumber then (Inr (), ib_reset (ib\<lparr>ib_buffer := B\<rparr>))
       else if unat (ntohl (drop 4 B) + 8) \<le> length B then
         if 8 + unat (ntohl (drop 4 B)) \<le> length B
         then (Inr (), ib\<lparr>ib_buffer := [],
                ib_currentJson := ib_currentJson ib @ take (unat (ntohl (drop 4 B))) (drop 8 B)\<rparr>)
         else (Inl (UB ''string(&buff[8], jsonSize) reads past the end of buff''), ib\<lparr>ib_buffer := []\<rparr>)
       else (Inr (), ib\<lparr>ib_buffer := B\<rparr>)
     else (Inr (), ib\<lparr>ib_buffer := B\<rparr>))"
  using assms by (simp add: appendData_def act_defs Let_def)

lemma appendData_complete:
  assumes "frameable m" and "ib_buffer ib @ chunk = frame_message m @ rest"
  shows "appendData True chunk ib
    = (Inr (), ib\<lparr>ib_buffer := [], ib_currentJson := ib_currentJson ib @ m\<rparr>)"
  using assms(1) frameable_size [OF assms(1)] frameable_unat [OF assms(1)]
  by (simp add: appendData_cases [OF assms(2)] frameable_def)

lemma appendData_waiting:
  assumes "frameable m" and "ib_buffer ib @ chunk @ r = frame_message m" and "r \<noteq> []"
  shows "appendData True chunk ib = (Inr (), ib\<lparr>ib_buffer := ib_buffer ib @ chunk\<rparr>)"
proof -
  obtain B where B: "ib_buffer ib @ chunk = B" by simp
  with assms(2) have f: "B @ r = frame_message m" by (metis append_assoc)
  then have "length B + length r = 8 + length m" by (metis length_append length_frame)
  with assms(3) have "length B < 8 + length m" by (cases r) auto
  then show ?thesis
    using frame_header_prefix [OF _ f] frameable_size [OF assms(1)]
    by (simp add: appendData_cases [OF B] B)
qed

text \<open>What the read callback does at each point of a frame.\<close>

lemma readMessage_complete:
  assumes "frameable m" and "ib_buffer ib @ chunk = frame_message m @ rest" and "ib_currentJson ib = []"
  shows "readMessage True chunk ib = (Inr (Some m), ib\<lparr>ib_buffer := []\<rparr>)"
  using appendData_complete [OF assms(1,2)] assms(1,3)
  by (simp add: readMessage_def act_defs hasCompleteMessage_def popCurrentMessage_def frameable_def)

lemma readMessage_waiting:
  assumes "frameable m" and "ib_buffer ib @ chunk @ r = frame_message m" and "r \<noteq> []"
    and "ib_currentJson ib = []"
  shows "readMessage True chunk ib = (Inr None, ib\<lparr>ib_buffer := ib_buffer ib @ chunk\<rparr>)"
  using appendData_waiting [OF assms(1,2,3)] assms(4)
  by (simp add: readMessage_def act_defs hasCompleteMessage_def)

section \<open>A channel of frames\<close>

text \<open>
  The event loop calls the read callback once for each block of bytes that arrives;
  \<open>receive_all\<close> is the list of the messages it hands on.
\<close>

fun receive_all :: "(string \<Rightarrow> ('b, string option) act) \<Rightarrow> string list \<Rightarrow> ('b, string list) act" where
  "receive_all receive [] = ret []"
| "receive_all receive (c # cs) =
     bind (receive c) (\<lambda>m.
     bind (receive_all receive cs) (\<lambda>ms.
     ret (case m of None \<Rightarrow> ms | Some x \<Rightarrow> x # ms)))"

text \<open>
  What the session relies on: a receiver that holds a part \<open>p\<close> of a frame waits until the
  frame is whole, then hands on its message and holds nothing.
\<close>

locale frame_channel =
  fixes encode :: "string \<Rightarrow> string"
    and receive :: "string \<Rightarrow> ('b, string option) act"
    and holding :: "string \<Rightarrow> 'b \<Rightarrow> bool"
    and ok :: "string \<Rightarrow> bool"
  assumes encode_nonempty: "ok m \<Longrightarrow> encode m \<noteq> []"
    and waits: "ok m \<Longrightarrow> holding p b \<Longrightarrow> p @ c @ r = encode m \<Longrightarrow> r \<noteq> [] \<Longrightarrow>
      \<exists>b'. receive c b = (Inr None, b') \<and> holding (p @ c) b'"
    and completes: "ok m \<Longrightarrow> holding p b \<Longrightarrow> p @ c = encode m \<Longrightarrow>
      \<exists>b'. receive c b = (Inr (Some m), b') \<and> holding [] b'"
begin

lemma idle_empty_blocks:
  assumes "ok m" and "concat cs = []" and "holding [] b"
  shows "\<exists>b'. receive_all receive cs b = (Inr [], b') \<and> holding [] b'"
  using assms(2,3)
proof (induction cs arbitrary: b)
  case Nil
  then show ?case by (simp add: act_simps)
next
  case (Cons c cs)
  from Cons.prems waits [OF assms(1), of "[]" b "[]" "encode m"] encode_nonempty [OF assms(1)]
  obtain b' where "receive [] b = (Inr None, b')" "holding [] b'" by auto
  moreover from this(2) Cons obtain b'' where
    "receive_all receive cs b' = (Inr [], b'')" "holding [] b''" by auto
  ultimately show ?case using Cons.prems by (auto simp: act_simps)
qed

lemma one_frame:
  assumes "ok m" and "p @ concat cs = encode m" and "concat cs \<noteq> []" and "holding p b"
  shows "\<exists>b'. receive_all receive cs b = (Inr [m], b') \<and> holding [] b'"
  using assms(2-)
proof (induction cs arbitrary: p b)
  case Nil
  then show ?case by simp
next
  case (Cons c cs)
  show ?case
  proof (cases "concat cs = []")
    case True
    with Cons.prems completes [OF assms(1), of p b c]
    obtain b' where "receive c b = (Inr (Some m), b')" "holding [] b'" by auto
    moreover from idle_empty_blocks [OF assms(1) True this(2)] obtain b'' where
      "receive_all receive cs b' = (Inr [], b'')" "holding [] b''" by blast
    ultimately show ?thesis by (simp add: act_simps)
  next
    case False
    with Cons.prems assms(1) obtain b' where "receive c b = (Inr None, b')" "holding (p @ c) b'"
      using waits [of m p b c "concat cs"] by auto
    moreover from Cons.IH [of "p @ c" b'] Cons.prems False this(2) obtain b'' where
      "receive_all receive cs b' = (Inr [m], b'')" "holding [] b''" by auto
    ultimately show ?thesis by (simp add: act_simps)
  qed
qed

lemma receive_all_append:
  "receive_all receive (cs @ ds)
    = bind (receive_all receive cs) (\<lambda>ms. bind (receive_all receive ds) (\<lambda>ns. ret (ms @ ns)))"
proof (induction cs)
  case (Cons c cs)
  have "(case m of None \<Rightarrow> ms | Some x \<Rightarrow> x # ms) @ ns = (case m of None \<Rightarrow> ms @ ns | Some x \<Rightarrow> x # ms @ ns)"
    for m :: "string option" and ms ns by (cases m) simp_all
  with Cons show ?case by (simp add: bind_assoc)
qed simp

lemma many_frames:
  assumes "list_all2 (\<lambda>m cs. ok m \<and> concat cs = encode m) ms css" and "holding [] b"
  shows "\<exists>b'. receive_all receive (concat css) b = (Inr ms, b') \<and> holding [] b'"
  using assms
proof (induction ms css arbitrary: b rule: list_all2_induct)
  case Nil
  then show ?case by (simp add: act_simps)
next
  case (Cons m ms cs css)
  then obtain b' where "receive_all receive cs b = (Inr [m], b')" "holding [] b'"
    using one_frame [of m "[]" cs b] encode_nonempty [of m] by auto
  moreover from Cons.IH [OF this(2)] obtain b'' where
    "receive_all receive (concat css) b' = (Inr ms, b'')" "holding [] b''" by blast
  ultimately show ?case by (simp add: receive_all_append act_simps)
qed

end

definition ib_holding :: "32 word \<Rightarrow> string \<Rightarrow> input_buffer \<Rightarrow> bool" where
  "ib_holding junk p ib \<longleftrightarrow> ib = (new_input_buffer junk)\<lparr>ib_buffer := p\<rparr>"

interpretation ch: frame_channel frame_message "readMessage True" "ib_holding junk" frameable
  for junk
proof unfold_locales
  fix m assume "frameable m"
  then show "frame_message m \<noteq> []" by (simp add: frame_message_def htonl_def)
next
  fix m p c r and b :: input_buffer
  assume "frameable m" "ib_holding junk p b" "p @ c @ r = frame_message m" "r \<noteq> []"
  then show "\<exists>b'. readMessage True c b = (Inr None, b') \<and> ib_holding junk (p @ c) b'"
    using readMessage_waiting [of m b c r] by (simp add: ib_holding_def new_input_buffer_def)
next
  fix m p c and b :: input_buffer
  assume "frameable m" "ib_holding junk p b" "p @ c = frame_message m"
  then show "\<exists>b'. readMessage True c b = (Inr (Some m), b') \<and> ib_holding junk [] b'"
    using readMessage_complete [of m b c "[]"] by (simp add: ib_holding_def new_input_buffer_def)
qed

lemma wire_roundtrip_step:
  assumes "list_all2 (\<lambda>m cs. frameable m \<and> concat cs = frame_message m) ms css"
  shows "receive_all (readMessage True) (concat css) (new_input_buffer junk)
    = (Inr ms, new_input_buffer junk)"
proof -
  have "ib_holding junk [] (new_input_buffer junk)"
    by (simp add: ib_holding_def new_input_buffer_def)
  from ch.many_frames [OF assms this] show ?thesis
    by (auto simp: ib_holding_def new_input_buffer_def)
qed

section \<open>Properties\<close>

text \<open>
  C1. However the frames of a sequence of messages are cut into blocks, as long as no block
  spans two frames, the receiver hands on exactly those messages in order and ends as it began.
\<close>

theorem wire_roundtrip:
  assumes "list_all2 (\<lambda>m cs. frameable m \<and> concat cs = frame_message m) ms css"
  shows "receive_all (readMessage True) (concat css) (new_input_buffer junk)
    = (Inr ms, new_input_buffer junk)"
  using assms by (rule wire_roundtrip_step)

lemma wire_roundtrip_witness:
  "receive_all (readMessage True)
     [take 5 (frame_message ''{}''), drop 5 (frame_message ''{}''), frame_message ''[1]'']
     (new_input_buffer 7) = (Inr [''{}'', ''[1]''], new_input_buffer 7)"
  using wire_roundtrip [of "[''{}'', ''[1]'']"
      "[[take 5 (frame_message ''{}''), drop 5 (frame_message ''{}'')], [frame_message ''[1]'']]" 7]
  by (simp add: frameable_def)

text \<open>
  C30. A block that holds a whole frame and more bytes yields the frame's message and drops
  every byte after it, so a second message that arrives in the same block is lost.
\<close>

theorem coalesced_frames_dropped:
  assumes "frameable m"
  shows "readMessage True (frame_message m @ rest) (new_input_buffer junk)
    = (Inr (Some m), new_input_buffer junk)"
  using readMessage_complete [OF assms, of "new_input_buffer junk" "frame_message m @ rest" rest]
  by (simp add: new_input_buffer_def)

lemma coalesced_frames_dropped_witness:
  "readMessage True (frame_message ''{}'' @ frame_message ''[]'') (new_input_buffer 0)
    = (Inr (Some ''{}''), new_input_buffer 0)"
  using coalesced_frames_dropped [of "''{}''" "frame_message ''[]''" 0] by (simp add: frameable_def)

text \<open>
  C28. Appending bytes has undefined behaviour exactly when more than eight bytes are there, the
  magic number is right and the announced size is one of the last eight 32-bit numbers (and the
  bytes do not reach that far): the sum with the header size wraps around, the size check passes
  and the text is read past the end of its block.
\<close>

theorem appendData_undefined_iff:
  "(\<exists>u ib'. appendData True chunk ib = (Inl (UB u), ib')) \<longleftrightarrow>
     (let B = ib_buffer ib @ chunk; size = unat (ntohl (drop 4 B)) in
      8 < length B \<and> ntohl B = kRSessionMagicNumber \<and> 2 ^ 32 - 8 \<le> size \<and> length B < 8 + size)"
proof -
  obtain B where B: "ib_buffer ib @ chunk = B" by simp
  obtain w where w: "ntohl (drop 4 B) = w" by simp
  have "unat w < 2 ^ 32" using unsigned_less [of w, where 'a = nat] by simp
  then have "unat (w + 8) = (if 2 ^ 32 - 8 \<le> unat w then unat w + 8 - 2 ^ 32 else unat w + 8)"
    by (auto simp: unat_word_ariths mod_if)
  then show ?thesis
    using \<open>unat w < 2 ^ 32\<close> by (auto simp: appendData_cases [OF B] B w Let_def)
qed

text \<open>
  C29. A block of at least four bytes with another magic number, arriving at a receiver that holds
  nothing. If it has more than eight bytes, it is dropped, and the frames that follow are delivered.
  If it has at most eight, it stays, and the next block that brings the total above eight (a whole
  frame always does) is dropped together with it, so that one message is lost; the frames after that
  block are delivered. In both cases no block of the following frames spans two of them.
\<close>

theorem bad_magic_resynchronises:
  assumes "4 \<le> length g" and "ntohl g \<noteq> kRSessionMagicNumber"
    and "list_all2 (\<lambda>m cs. frameable m \<and> concat cs = frame_message m) ms css"
  shows "(8 < length g \<longrightarrow>
      receive_all (readMessage True) (g # concat css) (new_input_buffer junk) = (Inr ms, new_input_buffer 0)) \<and>
    (length g \<le> 8 \<longrightarrow> (\<forall>c. 8 < length (g @ c) \<longrightarrow>
      receive_all (readMessage True) (g # c # concat css) (new_input_buffer junk) = (Inr ms, new_input_buffer 0)))"
proof (intro conjI impI allI)
  assume "8 < length g"
  then have "readMessage True g (new_input_buffer junk) = (Inr None, new_input_buffer 0)"
    using assms(2)
    by (simp add: readMessage_def act_simps appendData_cases [of _ g g] new_input_buffer_def
        ib_reset_def hasCompleteMessage_def)
  with wire_roundtrip_step [OF assms(3), of 0]
  show "receive_all (readMessage True) (g # concat css) (new_input_buffer junk) = (Inr ms, new_input_buffer 0)"
    by (simp add: act_simps)
next
  fix c assume g: "length g \<le> 8" and c: "8 < length (g @ c)"
  have "ntohl (g @ c) = ntohl g" using assms(1) by (simp add: ntohl_def)
  then have "readMessage True c ((new_input_buffer junk)\<lparr>ib_buffer := g\<rparr>) = (Inr None, new_input_buffer 0)"
    using assms(2) c
    by (simp add: readMessage_def act_simps appendData_cases [of _ c "g @ c"] new_input_buffer_def
        ib_reset_def hasCompleteMessage_def)
  moreover have "readMessage True g (new_input_buffer junk) = (Inr None, (new_input_buffer junk)\<lparr>ib_buffer := g\<rparr>)"
    using g by (simp add: readMessage_def act_simps appendData_cases [of _ g g] new_input_buffer_def hasCompleteMessage_def)
  ultimately show "receive_all (readMessage True) (g # c # concat css) (new_input_buffer junk) = (Inr ms, new_input_buffer 0)"
    using wire_roundtrip_step [OF assms(3), of 0] by (simp add: act_simps)
qed

lemma bad_magic_resynchronises_witness:
  "receive_all (readMessage True) [''GET / HTTP/1.1'', frame_message ''{}''] (new_input_buffer 7)
    = (Inr [''{}''], new_input_buffer 0) \<and>
   receive_all (readMessage True) [''PING'', frame_message ''[]'', frame_message ''{}''] (new_input_buffer 7)
    = (Inr [''{}''], new_input_buffer 0)"
  using bad_magic_resynchronises [of "''GET / HTTP/1.1''" "[''{}'']" "[[frame_message ''{}'']]" 7]
    bad_magic_resynchronises [of "''PING''" "[''{}'']" "[[frame_message ''{}'']]" 7]
  by (simp add: frameable_def ntohl_def kRSessionMagicNumber_def)

end
