(* ===== verification/Sample_Host.thy ===== *)
theory Sample_Host
  imports Pg_Connection
begin

text \<open>
  A small host for the development's examples: a concrete value of the record of external calls
  that satisfies the laws the theorems assume. The database session logs the statements it
  executes, as pending inside a transaction and as committed data outside or after a commit; the
  replies to queries and the outcomes of evaluations are scripted. The file system is a list of
  paths with contents and modification time.
\<close>

record toy =
  tw_data :: "string list"
  tw_pending :: "string list option"
  tw_replies :: "pg_result list"
  tw_files :: "(string \<times> string \<times> int) list"
  tw_notes :: "(string \<times> string) list"
  tw_evals :: "(parse_eval_result \<times> console_write list) list"
  tw_log :: "string list"
  tw_watches :: int
  tw_watched :: "((int \<times> int) \<times> string) list"

definition ok_reply :: pg_result where
  "ok_reply = \<lparr>pg_status = PGRES_COMMAND_OK, pg_error = [], pg_rows = [], pg_cmd_tuples = ''1''\<rparr>"

definition rows_reply :: "string list list \<Rightarrow> pg_result" where
  "rows_reply rows = \<lparr>pg_status = PGRES_TUPLES_OK, pg_error = [], pg_rows = rows, pg_cmd_tuples = []\<rparr>"

text \<open>The reply to a query: that there are rows, and which.\<close>

definition has_rows :: "pg_result \<Rightarrow> string list list \<Rightarrow> bool" where
  "has_rows res rows \<longleftrightarrow> dataReturned res \<and> pg_rows res = rows"

lemma has_rows_reply [simp]: "has_rows (rows_reply rows) rows' \<longleftrightarrow> rows' = rows"
  by (auto simp: has_rows_def rows_reply_def dataReturned_def)

definition error_reply :: "string \<Rightarrow> pg_result" where
  "error_reply m = \<lparr>pg_status = PGRES_FATAL_ERROR, pg_error = m, pg_rows = [], pg_cmd_tuples = []\<rparr>"

fun next_reply :: "pg_result list \<Rightarrow> pg_result \<times> pg_result list" where
  "next_reply [] = (ok_reply, [])"
| "next_reply (r # rs) = (r, rs)"

definition toy_statement :: "string \<Rightarrow> toy \<Rightarrow> pg_result \<times> toy" where
  "toy_statement q w =
     (fst (next_reply (tw_replies w)),
      (case tw_pending w of
         None \<Rightarrow> w\<lparr>tw_data := tw_data w @ [q], tw_replies := snd (next_reply (tw_replies w))\<rparr>
       | Some p \<Rightarrow> w\<lparr>tw_pending := Some (p @ [q]), tw_replies := snd (next_reply (tw_replies w))\<rparr>))"

definition toy_commit :: "toy \<Rightarrow> pg_result \<times> toy" where
  "toy_commit w =
     (fst (next_reply (tw_replies w)),
      (case tw_pending w of
         None \<Rightarrow> w
       | Some p \<Rightarrow>
           if commandOK (fst (next_reply (tw_replies w)))
           then w\<lparr>tw_data := tw_data w @ p, tw_pending := None, tw_replies := snd (next_reply (tw_replies w))\<rparr>
           else w\<lparr>tw_replies := snd (next_reply (tw_replies w))\<rparr>))"

definition toy_exec :: "string \<Rightarrow> toy \<Rightarrow> pg_result \<times> toy" where
  "toy_exec q w =
     (if q = ''begin'' then (ok_reply, case tw_pending w of None \<Rightarrow> w\<lparr>tw_pending := Some []\<rparr> | Some _ \<Rightarrow> w)
      else if q = ''commit'' then toy_commit w
      else if q = ''rollback'' then (ok_reply, w\<lparr>tw_pending := None\<rparr>)
      else toy_statement q w)"

definition toy_eval :: "string \<Rightarrow> toy \<Rightarrow> (parse_eval_result \<times> console_write list) \<times> toy" where
  "toy_eval c w =
     (case tw_evals w of
        [] \<Rightarrow> ((PE_SUCCESS, []), w\<lparr>tw_log := tw_log w @ [c]\<rparr>)
      | e # es \<Rightarrow> (e, w\<lparr>tw_evals := es, tw_log := tw_log w @ [c]\<rparr>))"

text \<open>A quoted literal: quotes and backslashes doubled, up to the first zero byte.\<close>

fun toy_quote :: "string \<Rightarrow> string" where
  "toy_quote [] = [CHR 0x27]"
| "toy_quote (c # cs) =
     (if c = CHR 0x00 then [CHR 0x27]
      else if c = CHR 0x27 \<or> c = CHR 0x5C then c # c # toy_quote cs
      else c # toy_quote cs)"

text \<open>The watches of the inotify instances: descriptors are given out in ascending order.\<close>

definition toy_add_watch :: "int \<Rightarrow> string \<Rightarrow> toy \<Rightarrow> int \<times> toy" where
  "toy_add_watch fd f w =
     (if tw_watches w = -1 then (-1, w)
      else (tw_watches w, w\<lparr>tw_watches := tw_watches w + 1, tw_watched := ((fd, tw_watches w), f) # tw_watched w\<rparr>))"

definition toy_watches :: "toy \<Rightarrow> int \<Rightarrow> int \<rightharpoonup> string" where
  "toy_watches w fd wd = (if wd < tw_watches w then map_of (tw_watched w) (fd, wd) else None)"

definition toy_path :: "string \<Rightarrow> string \<Rightarrow> string" where
  "toy_path d f = d @ ''/'' @ f"

definition toy_sys :: "toy sys" where
  "toy_sys = \<lparr>
     sys_stat_mtime = (\<lambda>f w. map_option snd (map_of (tw_files w) f)),
     sys_read_file = (\<lambda>f w. map_option fst (map_of (tw_files w) f)),
     sys_write_file = (\<lambda>f d w. w\<lparr>tw_files := (f, d, 1000) # tw_files w\<rparr>),
     sys_utime = (\<lambda>f t w. case map_of (tw_files w) f of
        None \<Rightarrow> w | Some (d, _) \<Rightarrow> w\<lparr>tw_files := (f, d, t) # tw_files w\<rparr>),
     sys_exists = (\<lambda>f w. Inr (map_of (tw_files w) f \<noteq> None)),
     sys_is_directory = (\<lambda>f w. Inr False),
     sys_file_size = (\<lambda>f w. case map_of (tw_files w) f of None \<Rightarrow> Inl ''no file'' | Some (d, _) \<Rightarrow> Inr (int (length d))),
     sys_remove = (\<lambda>f w. (Inr (map_of (tw_files w) f \<noteq> None), w\<lparr>tw_files := filter (\<lambda>e. fst e \<noteq> f) (tw_files w)\<rparr>)),
     sys_remove_all = (\<lambda>f w. (Inr 0, w)),
     sys_copy_file = (\<lambda>f g w. case map_of (tw_files w) f of
        None \<Rightarrow> (Inl ''no file'', w) | Some e \<Rightarrow> (Inr (), w\<lparr>tw_files := (g, e) # tw_files w\<rparr>)),
     sys_create_directories = (\<lambda>f w. (Inr True, w)),
     sys_mkdir = (\<lambda>f m w. ((0, 0), w\<lparr>tw_log := tw_log w @ [f]\<rparr>)),
     sys_uuid = (\<lambda>w. (''uuid'', w)),
     sys_setenv = (\<lambda>k v w. w),
     sys_run_texi2pdf = (\<lambda>f w. (0, w)),
     path_append = toy_path,
     path_extension = (\<lambda>f. dropWhile (\<lambda>c. c \<noteq> CHR ''.'') f),
     path_stem = takeWhile (\<lambda>c. c \<noteq> CHR ''.''),
     path_parent = (\<lambda>f. f),
     strip_value_echo = (\<lambda>f. f),
     inotify_init = (\<lambda>w. (5, w\<lparr>tw_watched := []\<rparr>)),
     inotify_add_watch = (\<lambda>fd f m. toy_add_watch fd f),
     inotify_rm_watch = (\<lambda>fd wd w. w),
     pq_connectdb = (\<lambda>c w. (Some 1, w)),
     pq_status_ok = (\<lambda>c w. True),
     pq_error_message = (\<lambda>c w. []),
     pq_exec = (\<lambda>c. toy_exec),
     pq_exec_params = (\<lambda>c q ps rf. toy_statement q),
     pq_escape_literal = (\<lambda>c t w. Some (CHR 0x27 # toy_quote t)),
     pq_consume_input = (\<lambda>c w. (1, w)),
     pq_notifies = (\<lambda>c w. case tw_notes w of [] \<Rightarrow> (None, w) | n # ns \<Rightarrow> (Some n, w\<lparr>tw_notes := ns\<rparr>)),
     r_parse_eval_r = toy_eval,
     r_parse_eval_qnt = (\<lambda>c w. ([], w\<lparr>tw_log := tw_log w @ [c]\<rparr>)),
     r_parse_eval = (\<lambda>c w. ((Inr 0, []), w\<lparr>tw_log := tw_log w @ [c]\<rparr>)),
     r_help_paths = (\<lambda>x w. Inr [])\<rparr>"

definition toy_world :: toy where
  "toy_world = \<lparr>tw_data = [], tw_pending = None, tw_replies = [], tw_files = [], tw_notes = [],
     tw_evals = [], tw_log = [], tw_watches = 1, tw_watched = []\<rparr>"

definition toy_in_tx :: "toy \<Rightarrow> bool" where
  "toy_in_tx w \<longleftrightarrow> tw_pending w \<noteq> None"

lemma toy_pq:
  "pq_exec toy_sys con = toy_exec" "pq_exec_params toy_sys con q ps rf = toy_statement q"
  "pq_escape_literal toy_sys con t w = Some (CHR 0x27 # toy_quote t)"
  by (simp_all add: toy_sys_def)

lemma dml_toy_exec:
  assumes "dml q"
  shows "toy_exec q w = toy_statement q w"
proof -
  have "\<not> dml ''begin''" "\<not> dml ''commit''" "\<not> dml ''rollback''" by (simp_all add: dml_def)
  with assms have "q \<noteq> ''begin''" "q \<noteq> ''commit''" "q \<noteq> ''rollback''" by metis+
  then show ?thesis by (simp only: toy_exec_def if_False)
qed

lemma toy_statement_laws:
  "toy_statement q w = (res, w') \<Longrightarrow> toy_in_tx w \<longrightarrow> toy_in_tx w' \<and> tw_data w' = tw_data w"
  by (auto simp: toy_in_tx_def toy_statement_def)

lemma toy_block_laws:
  "toy_exec ''begin'' w = (res, w') \<Longrightarrow> toy_in_tx w' \<and> tw_data w' = tw_data w"
  "toy_exec ''commit'' w = (res, w') \<Longrightarrow> toy_in_tx w \<longrightarrow> (if commandOK res then \<not> toy_in_tx w' else tw_data w' = tw_data w)"
  "toy_exec ''rollback'' w = (res, w') \<Longrightarrow> \<not> toy_in_tx w' \<and> tw_data w' = tw_data w"
  by (auto simp: toy_exec_def toy_commit_def toy_in_tx_def split: option.splits)

lemma toy_quote_scan: "sql_scan True (toy_quote t)"
  by (induction t) auto

lemma toy_laws: "pg_laws toy_sys c toy_in_tx tw_data (\<lambda>_. False)"
  unfolding pg_laws_def toy_pq calm_def
proof (intro conjI allI impI disjI2)
  show "toy_in_tx w'" "tw_data w' = tw_data w" if "toy_exec ''begin'' w = (res, w')" for w w' res
    using toy_block_laws(1) [OF that] by simp_all
  show "toy_in_tx w'" "tw_data w' = tw_data w" if "toy_exec q w = (res, w')" "dml q" "toy_in_tx w" for w w' res q
    using toy_statement_laws [of q w res w'] that dml_toy_exec [OF that(2)] by simp_all
  show "toy_in_tx w'" "tw_data w' = tw_data w" if "toy_statement q w = (res, w')" "toy_in_tx w" for w w' res q
    using toy_statement_laws [OF that(1)] that by simp_all
  show "if commandOK res then \<not> toy_in_tx w' else tw_data w' = tw_data w"
    if "toy_exec ''commit'' w = (res, w')" "toy_in_tx w" for w w' res
    using toy_block_laws(2) [OF that(1)] that by simp
  show "\<not> toy_in_tx w'" "tw_data w' = tw_data w" if "toy_exec ''rollback'' w = (res, w')" for w w' res
    using toy_block_laws(3) [OF that] by simp_all
  show "sql_scan False l" if "Some (CHR 0x27 # toy_quote t) = Some l" for t l
    using that toy_quote_scan [of t] by auto
qed simp_all

end
