(* ===== verification/Db_File_Source.thy ===== *)
theory Db_File_Source
  imports Pg_Connection Rc2_Utils Std_Map Wire_Protocol Sample_Host
begin

text \<open>
  \<open>src/DBFileSource.{hpp,cpp}\<close>: the files of a workspace, kept in the database and mirrored in
  the working directory. A \<open>DBFileInfoPtr\<close> is shared between \<open>filesById_\<close> and the file manager's
  table of watches, so the objects live in a heap (a list of records) and a pointer is an index
  into it, \<open>None\<close> for the null pointer. The heap only grows: no definition can see an object
  that nothing points to.
\<close>

section \<open>DBFileInfo\<close>

text \<open>
  The constructor leaves \<open>watchDescriptor\<close> unset (\<open>None\<close>); of \<open>struct stat sb\<close> the program
  reads \<open>st_mtime\<close> only.
\<close>

record dbfile_info =
  fi_id :: int
  fi_version :: int
  fi_name :: string
  fi_path :: string
  fi_watchDescriptor :: "int option"
  fi_mtime :: int

definition new_DBFileInfo :: "int \<Rightarrow> int \<Rightarrow> string \<Rightarrow> dbfile_info" where
  "new_DBFileInfo anId aVersion aName =
     \<lparr>fi_id = to_uint32 anId, fi_version = to_uint32 aVersion, fi_name = aName, fi_path = aName,
      fi_watchDescriptor = None, fi_mtime = 0\<rparr>"

type_synonym fileptr = "nat option"

record 'w db_source = "'w pg" +
  fi_heap :: "dbfile_info list"
  ds_dbcon :: "pgconn option option"
  ds_wspaceId :: int
  ds_workingDir :: string
  ds_filesById :: "(int, fileptr) omap"

section \<open>Pointers\<close>

definition deref :: "fileptr \<Rightarrow> (('w, 'z) db_source_scheme, dbfile_info) act" where
  "deref p s = (case p of
      None \<Rightarrow> (Inl (UB ''null DBFileInfoPtr''), s)
    | Some a \<Rightarrow> (if a < length (fi_heap s) then (Inr (fi_heap s ! a), s)
                else (Inl (UB ''dangling DBFileInfoPtr''), s)))"

definition assign :: "fileptr \<Rightarrow> (dbfile_info \<Rightarrow> dbfile_info) \<Rightarrow> (('w, 'z) db_source_scheme, unit) act" where
  "assign p f =
     bind (deref p) (\<lambda>fi.
     modify (\<lambda>s. s\<lparr>fi_heap := (fi_heap s)[the p := f fi]\<rparr>))"

definition new_ptr :: "dbfile_info \<Rightarrow> (('w, 'z) db_source_scheme, fileptr) act" where
  "new_ptr fi =
     bind (gets (\<lambda>s. length (fi_heap s))) (\<lambda>a.
     seq (modify (\<lambda>s. s\<lparr>fi_heap := fi_heap s @ [fi]\<rparr>))
     (ret (Some a)))"

text \<open>The connection, through \<open>shared_ptr<PGDBConnection> dbcon_\<close>.\<close>

definition ds_connection :: "(('w, 'z) db_source_scheme, pgconn option) act" where
  "ds_connection = bind (gets ds_dbcon) (unwrap (UB ''null PGDBConnection pointer''))"

text \<open>\<open>FormattedException\<close> formats into 256 characters, the last one the terminator.\<close>

definition formatted :: "string \<Rightarrow> exn" where
  "formatted m = FormattedException (take 255 m)"

section \<open>The workspace\<close>

definition initializeSource :: "'w sys \<Rightarrow> pgconn option \<Rightarrow> int \<Rightarrow> (('w, 'z) db_source_scheme, unit) act" where
  "initializeSource sys connection wsid =
     seq (modify (\<lambda>s. s\<lparr>ds_dbcon := Some connection, ds_wspaceId := wsid\<rparr>))
     (bind (executeQuery sys connection (''select id,name from rcworkspace where id = '' @ dec wsid)) (\<lambda>res.
      bind (rowsReturned res) (\<lambda>n.
      if n < 1 then throw (RuntimeError (''invalid workspace id: '' @ dec wsid)) else skip)))"

definition setWorkingDir :: "string \<Rightarrow> (('w, 'z) db_source_scheme, unit) act" where
  "setWorkingDir workingDir = modify (\<lambda>s. s\<lparr>ds_workingDir := workingDir\<rparr>)"

section \<open>The R data file\<close>

definition ds_loadRData :: "'w sys \<Rightarrow> (('w, 'z) db_source_scheme, bool) act" where
  "ds_loadRData sys =
     bind (gets (\<lambda>s. ds_workingDir s @ ''/.RData'')) (\<lambda>filepath.
     bind (gets (\<lambda>s. ''select bindata from rcworkspacedata where id = '' @ dec (ds_wspaceId s))) (\<lambda>query.
     bind ds_connection (\<lambda>con.
     bind (executeQueryParams sys con query [] 1) (\<lambda>res.
     if dataReturned res \<and> 0 < getLength res 0 0 then
       bind (unwrap (UB ''null value'') (getValue res 0 0)) (\<lambda>data.
       seq (os_upd (sys_write_file sys filepath (take (nat (getLength res 0 0)) data)))
       (ret True))
     else ret False))))"

text \<open>A parameter's bytes: its length is passed as \<open>(int)size\<close>.\<close>

definition pq_param :: "string \<Rightarrow> string" where
  "pq_param data = take (nat (to_int32 (int (length data)))) data"

text \<open>The scope of the transaction of \<open>saveRData\<close>; without the lock it returns, and rolls back.\<close>

definition saveRData_scope ::
    "'w sys \<Rightarrow> pgconn option \<Rightarrow> string \<Rightarrow> (('w, 'z) db_source_scheme, unit) act" where
  "saveRData_scope sys con data =
     bind (executeQuery sys con ''lock table rcworkspacedata in access exclusive mode'') (\<lambda>lockRes.
     if \<not> commandOK lockRes then skip
     else
       bind (gets (\<lambda>s. dec (ds_wspaceId s))) (\<lambda>wsid.
       bind (executeQueryParams sys con
               (''update rcworkspacedata set bindata = $1::bytea where id = '' @ wsid)
               [pq_param data] 1) (\<lambda>res.
       if \<not> commandOK res then
         throw (formatted (''failed to update rcworkspacedata '' @ wsid @ '': '' @ errorMessage res))
       else
         seq
           (if rowsAffected res < 1 then
              bind (executeQueryParams sys con
                      (''insert into rcworkspacedata (id,bindata) values ('' @ wsid @ '', $1::bytea)'')
                      [pq_param data] 1) (\<lambda>iRes.
              if \<not> commandOK iRes then
                throw (formatted (''failed to insert rcworkspacedata '' @ wsid @ '':'' @ errorMessage iRes))
              else skip)
            else skip)
           (bind (commit sys con) (\<lambda>commitRes.
            if \<not> commandOK commitRes then throw (formatted ''failed to commit save rdata'')
            else skip)))))"

definition ds_saveRData :: "'w sys \<Rightarrow> (('w, 'z) db_source_scheme, unit) act" where
  "ds_saveRData sys =
     bind (gets (\<lambda>s. ds_workingDir s @ ''/.RData'')) (\<lambda>filePath.
     bind (fs_read (sys_exists sys filePath)) (\<lambda>there.
     if \<not> there then skip
     else
       bind (ReadFileBlob sys filePath) (\<lambda>data.
       bind ds_connection (\<lambda>con.
       with_transaction sys con (saveRData_scope sys con data)))))"

section \<open>Loading files\<close>

text \<open>\<open>ntohl(*(uint32_t* )ptr)\<close> of a field: it reads four bytes.\<close>

definition read_uint32 :: "string option \<Rightarrow> (('w, 'z) db_source_scheme, int) act" where
  "read_uint32 v =
     bind (unwrap (UB ''null field'') v) (\<lambda>bs.
     if length bs < 4 then throw (UB ''reads past the end of a field'') else ret (uint (ntohl bs)))"

text \<open>A C string ends at its first zero byte.\<close>

definition c_str :: "string \<Rightarrow> string" where
  "c_str s = takeWhile (\<lambda>c. c \<noteq> CHR 0x00) s"

text \<open>The body of the loop over the rows.\<close>

definition load_row :: "'w sys \<Rightarrow> pg_result \<Rightarrow> nat \<Rightarrow> (('w, 'z) db_source_scheme, unit) act" where
  "load_row sys res i =
     bind (read_uint32 (getValue res i 0)) (\<lambda>pid.
     bind (read_uint32 (getValue res i 1)) (\<lambda>pver.
     bind (unwrap (UB ''string from a null pointer'') (getValue res i 2)) (\<lambda>v.
     let pname = c_str v in
     bind (read_uint32 (getValue res i 3)) (\<lambda>lastmod.
     let datalen = getLength res i 4;
         data = (case getValue res i 4 of None \<Rightarrow> [] | Some d \<Rightarrow> d) in
     bind (gets ds_filesById) (\<lambda>m.
     seq
       (case omap_find m pid of
          Some filePtr \<Rightarrow> assign filePtr (\<lambda>fi. fi\<lparr>fi_version := pver, fi_name := pname\<rparr>)
        | None \<Rightarrow>
            bind (new_ptr (new_DBFileInfo pid pver pname)) (\<lambda>filePtr.
            modify (\<lambda>s. s\<lparr>ds_filesById := omap_insert pid filePtr (ds_filesById s)\<rparr>)))
       (bind (gets (\<lambda>s. path_append sys (ds_workingDir s) pname)) (\<lambda>filepath.
        seq (os_upd (sys_write_file sys filepath (take (nat datalen) data)))
            (os_upd (sys_utime sys filepath lastmod)))))))))"

definition loadFiles_query :: "string \<Rightarrow> string" where
  "loadFiles_query whereClause =
     ''select f.id::int4, f.version::int4, f.name, extract('epoch' from f.lastmodified)::int4, '' @
     ''d.bindata from rcfile f join rcfiledata d on f.id = d.id '' @ whereClause"

definition loadFiles :: "'w sys \<Rightarrow> string \<Rightarrow> (('w, 'z) db_source_scheme, unit) act" where
  "loadFiles sys whereClause =
     bind ds_connection (\<lambda>con.
     bind (executeQueryParams sys con (loadFiles_query whereClause) [] 1) (\<lambda>res.
     if dataReturned res then
       bind (rowsReturned res) (\<lambda>numfiles. for_each [0..<nat numfiles] (load_row sys res))
     else skip))"

definition insertOrUpdateLocalFile :: "'w sys \<Rightarrow> int \<Rightarrow> int \<Rightarrow> (('w, 'z) db_source_scheme, unit) act" where
  "insertOrUpdateLocalFile sys fileId wspaceId =
     bind (gets ds_wspaceId) (\<lambda>own.
     if own \<noteq> wspaceId then skip else loadFiles sys (''where f.id = '' @ dec fileId))"

text \<open>\<open>filesById_[fileId]\<close>: a missing id is entered with the null pointer.\<close>

definition filesById_index :: "int \<Rightarrow> (('w, 'z) db_source_scheme, fileptr) act" where
  "filesById_index fileId =
     bind (gets (\<lambda>s. omap_index None fileId (ds_filesById s))) (\<lambda>(p, m).
     seq (modify (\<lambda>s. s\<lparr>ds_filesById := m\<rparr>)) (ret p))"

definition removeLocalFile :: "'w sys \<Rightarrow> int \<Rightarrow> (('w, 'z) db_source_scheme, unit) act" where
  "removeLocalFile sys fileId =
     bind (filesById_index fileId) (\<lambda>finfo.
     bind (deref finfo) (\<lambda>fi.
     bind (gets (\<lambda>s. path_append sys (ds_workingDir s) (fi_path fi))) (\<lambda>fpath.
     bind (fs_do (sys_remove sys fpath)) (\<lambda>_.
     modify (\<lambda>s. s\<lparr>ds_filesById := omap_erase fileId (ds_filesById s)\<rparr>)))))"

section \<open>Writing files to the database\<close>

text \<open>The scope of the transaction of \<open>insertDBFile\<close>.\<close>

definition insertDBFile_scope ::
    "'w sys \<Rightarrow> pgconn option \<Rightarrow> string \<Rightarrow> string \<Rightarrow> (('w, 'z) db_source_scheme, int) act" where
  "insertDBFile_scope sys con fname filePath =
     bind (longFromQuery sys con ''select nextval('rcfile_seq'::regclass)'') (\<lambda>fileId.
     bind (os_read (sys_stat_mtime sys filePath)) (\<lambda>st.
     case st of
       None \<Rightarrow> throw (RuntimeError (''stat failed for insert '' @ filePath))
     | Some modTime \<Rightarrow>
         bind (ReadFileBlob sys filePath) (\<lambda>data.
         bind (escapeLiteral sys con fname) (\<lambda>escapedName.
         bind (gets (\<lambda>s. dec (ds_wspaceId s))) (\<lambda>wsid.
         bind (executeQuery sys con
                 (''insert into rcfile (id, version, wspaceid,name,filesize,lastmodified) values ('' @
                  dec fileId @ '', 1, '' @ wsid @ '','' @ escapedName @ '','' @
                  dec (int (length data)) @ '', to_timestamp('' @ dec modTime @ ''))'')) (\<lambda>res1.
         if \<not> commandOK res1 then
           throw (formatted (''failed to insert file '' @ c_str fname @ '': '' @ errorMessage res1))
         else
           bind (executeQueryParams sys con
                   (''insert into rcfiledata (id, bindata) values ('' @ dec fileId @ '', $1::bytea)'')
                   [pq_param data] 1) (\<lambda>res2.
           if \<not> commandOK res2 then
             throw (formatted (''failed to insert file '' @ c_str fname @ '': '' @ errorMessage res2))
           else
             bind (commit sys con) (\<lambda>commitRes.
             if \<not> commandOK commitRes then
               throw (formatted (''failed to commit file inserts '' @ c_str fname @ '': '' @
                                 errorMessage commitRes))
             else
               bind (new_ptr ((new_DBFileInfo fileId 1 fname)\<lparr>fi_mtime := modTime\<rparr>)) (\<lambda>fobj.
               seq (modify (\<lambda>s. s\<lparr>ds_filesById := omap_insert fileId fobj (ds_filesById s)\<rparr>))
               (ret fileId))))))))))"

definition insertDBFile :: "'w sys \<Rightarrow> string \<Rightarrow> (('w, 'z) db_source_scheme, int) act" where
  "insertDBFile sys fname =
     bind (gets (\<lambda>s. ds_workingDir s @ ''/'' @ fname)) (\<lambda>filePath.
     bind ds_connection (\<lambda>con.
     with_transaction sys con (insertDBFile_scope sys con fname filePath)))"

text \<open>The scope of the transaction of \<open>updateDBFile\<close>.\<close>

definition updateDBFile_scope ::
    "'w sys \<Rightarrow> pgconn option \<Rightarrow> fileptr \<Rightarrow> int \<Rightarrow> int \<Rightarrow> int \<Rightarrow> string \<Rightarrow>
      (('w, 'z) db_source_scheme, unit) act" where
  "updateDBFile_scope sys con fobj fid newVersion newMod data =
     bind (executeQuery sys con
             (''update rcfile set version = '' @ dec newVersion @
              '', lastmodified = to_timestamp('' @ dec newMod @ ''), filesize = '' @
              dec (int (length data)) @ '' where id = '' @ dec fid)) (\<lambda>res1.
     if \<not> commandOK res1 then
       throw (formatted (''failed to update file '' @ dec fid @ '': '' @ errorMessage res1))
     else
       bind (executeQueryParams sys con
               (''update rcfiledata set bindata = $1::bytea where id = '' @ dec fid)
               [pq_param data] 1) (\<lambda>res2.
       if \<not> commandOK res2 then
         throw (formatted (''failed to update file '' @ dec fid @ '': '' @ errorMessage res2))
       else
         bind (commit sys con) (\<lambda>commitRes.
         if \<not> commandOK commitRes then
           throw (formatted (''failed to commit file updates '' @ dec fid @ '': '' @ errorMessage commitRes))
         else assign fobj (\<lambda>fi. fi\<lparr>fi_version := newVersion\<rparr>))))"

definition updateDBFile :: "'w sys \<Rightarrow> fileptr \<Rightarrow> (('w, 'z) db_source_scheme, unit) act" where
  "updateDBFile sys fobj =
     bind (deref fobj) (\<lambda>fi.
     let newVersion = to_int32 (fi_version fi + 1) in
     bind (gets (\<lambda>s. ds_workingDir s @ ''/'' @ fi_path fi)) (\<lambda>filePath.
     bind (os_read (sys_stat_mtime sys filePath)) (\<lambda>st.
     case st of
       None \<Rightarrow> throw (RuntimeError (''stat failed for update '' @ fi_name fi))
     | Some newMod \<Rightarrow>
         seq (assign fobj (\<lambda>fi. fi\<lparr>fi_mtime := newMod\<rparr>))
         (bind (ReadFileBlob sys filePath) (\<lambda>data.
          bind ds_connection (\<lambda>con.
          with_transaction sys con
            (updateDBFile_scope sys con fobj (fi_id fi) newVersion newMod data)))))))"

definition removeDBFile :: "'w sys \<Rightarrow> fileptr \<Rightarrow> (('w, 'z) db_source_scheme, unit) act" where
  "removeDBFile sys fobj =
     bind (deref fobj) (\<lambda>fi.
     bind ds_connection (\<lambda>con.
     bind (executeQuery sys con (''delete from rcfile where id = '' @ dec (fi_id fi))) (\<lambda>res.
     if commandOK res
     then modify (\<lambda>s. s\<lparr>ds_filesById := omap_erase (fi_id fi) (ds_filesById s)\<rparr>)
     else skip)))"

section \<open>Pointer operations\<close>

lemma deref_Some: "a < length (fi_heap s) \<Longrightarrow> deref (Some a) s = (Inr (fi_heap s ! a), s)"
  by (simp add: deref_def)

lemma deref_ub: "deref p s = (Inl e, s') \<Longrightarrow> is_ub e \<and> s' = s"
  by (auto simp: deref_def split: option.splits if_splits)

lemma assign_Some:
  "a < length (fi_heap s) \<Longrightarrow>
    assign (Some a) f s = (Inr (), s\<lparr>fi_heap := (fi_heap s)[a := f (fi_heap s ! a)]\<rparr>)"
  by (simp add: assign_def act_simps deref_Some)

lemma assign_ub: "assign p f s = (Inl e, s') \<Longrightarrow> is_ub e"
  by (auto simp: assign_def act_simps split: prod.splits sum.splits dest: deref_ub)

lemma keeps_deref: "keeps I (deref p)"
  by (auto simp: keeps_def deref_def split: option.splits)

lemma keeps_assign:
  assumes "\<And>s a. I s \<Longrightarrow> a < length (fi_heap s) \<Longrightarrow> I (s\<lparr>fi_heap := (fi_heap s)[a := f (fi_heap s ! a)]\<rparr>)"
  shows "keeps I (assign p f)"
  using assms
  by (auto simp: keeps_def assign_def deref_def act_simps split: option.splits)

lemma keeps_ds_connection: "keeps I ds_connection"
  by (simp add: ds_connection_def keeps_rules)

lemma keeps_read_uint32: "keeps I (read_uint32 v)"
  by (simp add: read_uint32_def keeps_rules)

lemma ds_connection_apply: "ds_dbcon s = Some con \<Longrightarrow> ds_connection s = (Inr con, s)"
  by (simp add: ds_connection_def act_simps)

lemma ReadFileBlob_in_tx: "keeps (\<lambda>s. in_tx intx committed lost d s \<and> K s) (ReadFileBlob sys f)"
  unfolding ReadFileBlob_def by (intro keeps_rules os_read_in_tx)

section \<open>The writes are transactions\<close>

text \<open>The program's own data that a failed write must leave alone; the connection is the open one.\<close>

definition cache_is :: "pgconn \<Rightarrow> (int, fileptr) omap \<Rightarrow> int list \<Rightarrow> ('w, 'z) db_source_scheme \<Rightarrow> bool" where
  "cache_is c m vs s \<longleftrightarrow> ds_dbcon s = Some (Some c) \<and> ds_filesById s = m \<and> map fi_version (fi_heap s) = vs"

lemma cache_is_conn_free: "conn_free (cache_is c m vs)"
  by (simp add: conn_free_def world_free_def cache_is_def)

lemma keeps_tx_over_files: "keeps (tx_over intx lost) (modify (\<lambda>s. s\<lparr>ds_filesById := f s\<rparr>))"
  by (simp add: keeps_def modify_def tx_over_def)

lemma keeps_tx_over_new_ptr: "keeps (tx_over intx lost) (new_ptr fi)"
  unfolding new_ptr_def by (intro keeps_rules keeps_modify) (simp add: tx_over_def)

lemma keeps_tx_over_assign: "keeps (tx_over intx lost) (assign p f)"
  by (rule keeps_assign) (simp add: tx_over_def)

lemmas in_tx_steps = executeQuery_in_tx executeQueryParams_in_tx longFromQuery_in_tx

text \<open>The statements are single ones, whatever numbers and escaped names they carry.\<close>

lemma sql_pieces:
  "sql_scan False ''insert into rcfile (id, version, wspaceid,name,filesize,lastmodified) values (''"
  "sql_scan False '', 1, ''" "sql_scan False '',''" "sql_scan False '', to_timestamp(''" "sql_scan False ''))''"
  "sql_scan False ''update rcfile set version = ''" "sql_scan False '', lastmodified = to_timestamp(''"
  "sql_scan False ''), filesize = ''" "sql_scan False '' where id = ''"
  by code_simp+

lemma single_statements:
  "sql_scan False ''select nextval('rcfile_seq'::regclass)''"
  "sql_scan False ''lock table rcworkspacedata in access exclusive mode''"
  "sql_scan False l \<Longrightarrow> sql_scan False (''insert into rcfile (id, version, wspaceid,name,filesize,lastmodified) values ('' @
      dec i @ '', 1, '' @ dec w @ '','' @ l @ '','' @ dec n @ '', to_timestamp('' @ dec t @ ''))'')"
  "sql_scan False (''update rcfile set version = '' @ dec v @ '', lastmodified = to_timestamp('' @ dec t @
      ''), filesize = '' @ dec n @ '' where id = '' @ dec i)"
proof -
  show "sql_scan False ''select nextval('rcfile_seq'::regclass)''"
    "sql_scan False ''lock table rcworkspacedata in access exclusive mode''"
    by code_simp+
  show "sql_scan False (''insert into rcfile (id, version, wspaceid,name,filesize,lastmodified) values ('' @
      dec i @ '', 1, '' @ dec w @ '','' @ l @ '','' @ dec n @ '', to_timestamp('' @ dec t @ ''))'')"
    if "sql_scan False l"
    by (simp only: sql_pieces(5) sql_pieces [THEN sql_scan_append] sql_scan_append [OF that] sql_scan_dec_append)
  show "sql_scan False (''update rcfile set version = '' @ dec v @ '', lastmodified = to_timestamp('' @ dec t @
      ''), filesize = '' @ dec n @ '' where id = '' @ dec i)"
    by (simp only: sql_pieces [THEN sql_scan_append] sql_scan_dec_append sql_scan_dec)
qed

lemma insertDBFile_wsid:
  "bind (gets (\<lambda>s. dec (ds_wspaceId s))) f = bind (gets ds_wspaceId) (\<lambda>w. f (dec w))"
  by (rule ext) (simp add: act_simps)

lemma insertDBFile_scope_tx:
  assumes "pg_laws sys c intx committed lost" and "conn_free K"
  shows "tx_body intx committed lost d K (insertDBFile_scope sys (Some c) fname filePath)"
  unfolding insertDBFile_scope_def insertDBFile_wsid
  by (rule tx_escape [OF assms(1)] tx_bind tx_option tx_throw tx_if in_tx_steps [OF assms] os_read_in_tx
      ReadFileBlob_in_tx keeps_gets tx_commit [OF assms] keeps_bind keeps_seq keeps_ret
      keeps_tx_over_new_ptr keeps_tx_over_files single_statements | assumption | (simp add: dml_def; fail)
    | (simp add: act_simps new_ptr_def; fail))+

lemma updateDBFile_scope_tx:
  assumes "pg_laws sys c intx committed lost" and "conn_free K"
  shows "tx_body intx committed lost d K (updateDBFile_scope sys (Some c) fobj fid newVersion newMod data)"
  unfolding updateDBFile_scope_def
  by (rule tx_bind tx_throw tx_if in_tx_steps [OF assms] tx_commit [OF assms] keeps_tx_over_assign
      single_statements | (simp add: dml_def; fail) | erule assign_ub)+

lemma saveRData_scope_tx:
  assumes "pg_laws sys c intx committed lost" and "conn_free K"
  shows "tx_body intx committed lost d K (saveRData_scope sys (Some c) data)"
  unfolding saveRData_scope_def
  by (rule tx_bind tx_seq tx_throw tx_if tx_skip in_tx_steps [OF assms] tx_commit [OF assms]
      keeps_gets keeps_skip keeps_if keeps_bind keeps_throw single_statements
    | (simp add: dml_def skip_apply del: not_less; fail))+

lemma keeps_quiet_assign:
  assumes "\<And>v. fi_version (f v) = fi_version v"
  shows "keeps (quiet sys c intx committed lost d (cache_is c m vs)) (assign p f)"
proof (rule keeps_assign)
  fix s :: "('a, 'd) db_source_scheme" and a
  assume "quiet sys c intx committed lost d (cache_is c m vs) s" "a < length (fi_heap s)"
  moreover from this(2) have "map fi_version ((fi_heap s)[a := f (fi_heap s ! a)]) = map fi_version (fi_heap s)"
    by (simp add: map_update assms) (metis list_update_id nth_map)
  ultimately show "quiet sys c intx committed lost d (cache_is c m vs) (s\<lparr>fi_heap := (fi_heap s)[a := f (fi_heap s ! a)]\<rparr>)"
    by (simp add: quiet_def cache_is_def no_tx_def begin_accepted_def)
qed

lemma quiet_ReadFileBlob: "keeps (quiet sys c intx committed lost d K) (ReadFileBlob sys' f)"
  unfolding ReadFileBlob_def by (intro keeps_rules quiet_os_read)

lemma has_connection:
  assumes "atomic_write sys c intx committed lost (cache_is c m vs) (f (Some c))"
  shows "atomic_write sys c intx committed lost (cache_is c m vs) (bind ds_connection f)"
  using assms
  by (auto simp: atomic_write_def ensures_def quiet_def cache_is_def bind_apply ds_connection_apply)

lemma insertDBFile_atomic_write:
  assumes "pg_laws sys c intx committed lost"
  shows "atomic_write sys c intx committed lost (cache_is c m vs) (insertDBFile sys fname)"
  unfolding insertDBFile_def
  by (intro has_connection atomic_rules keeps_gets atomic_tx [OF assms] insertDBFile_scope_tx [OF assms]
      cache_is_conn_free)

lemma updateDBFile_atomic_write:
  assumes "pg_laws sys c intx committed lost"
  shows "atomic_write sys c intx committed lost (cache_is c m vs) (updateDBFile sys fobj)"
  unfolding updateDBFile_def Let_def
  by (intro has_connection atomic_rules keeps_gets keeps_deref keeps_quiet_assign quiet_ReadFileBlob
      atomic_tx [OF assms] updateDBFile_scope_tx [OF assms] cache_is_conn_free) simp

lemma ds_saveRData_atomic_write:
  assumes "pg_laws sys c intx committed lost"
  shows "atomic_write sys c intx committed lost (cache_is c m vs) (ds_saveRData sys)"
  unfolding ds_saveRData_def
  by (intro has_connection atomic_rules keeps_gets quiet_ReadFileBlob
      atomic_tx [OF assms] saveRData_scope_tx [OF assms] cache_is_conn_free)

section \<open>The cache invariant\<close>

text \<open>
  Every entry of \<open>filesById_\<close> points to an object, and the object carries the id it is filed
  under (as the \<open>uint32_t\<close> its constructor takes).
\<close>

definition files_wf :: "('w, 'z) db_source_scheme \<Rightarrow> bool" where
  "files_wf s \<longleftrightarrow> omap_inv (ds_filesById s) \<and>
     (\<forall>k p. omap_find (ds_filesById s) k = Some p \<longrightarrow>
        (\<exists>a. p = Some a \<and> a < length (fi_heap s) \<and> fi_id (fi_heap s ! a) = to_uint32 k))"

lemma files_wf_conn_free: "conn_free files_wf"
  by (simp add: conn_free_def world_free_def files_wf_def)

lemmas keeps_files_conn = keeps_conn [OF files_wf_conn_free]
  keeps_os [OF files_wf_conn_free [unfolded conn_free_def, THEN conjunct1]]

lemma keeps_files_assign:
  assumes "\<And>fi. fi_id (f fi) = fi_id fi"
  shows "keeps files_wf (assign p f)"
proof (rule keeps_assign)
  fix s :: "('a, 'b) db_source_scheme" and a
  assume "files_wf s" and a: "a < length (fi_heap s)"
  have "fi_id ((fi_heap s)[a := f (fi_heap s ! a)] ! b) = fi_id (fi_heap s ! b)" for b
    using a by (cases "b = a") (simp_all add: assms)
  with \<open>files_wf s\<close> show "files_wf (s\<lparr>fi_heap := (fi_heap s)[a := f (fi_heap s ! a)]\<rparr>)"
    by (simp add: files_wf_def)
qed

text \<open>A new object filed under its own id.\<close>

lemma files_wf_new:
  assumes "files_wf s" and "fi_id fi = to_uint32 k"
  shows "files_wf (s\<lparr>fi_heap := fi_heap s @ [fi],
    ds_filesById := omap_insert k (Some (length (fi_heap s))) (ds_filesById s)\<rparr>)"
proof -
  have "\<exists>a. p = Some a \<and> a < Suc (length (fi_heap s)) \<and> fi_id ((fi_heap s @ [fi]) ! a) = to_uint32 j"
    if "omap_find (omap_insert k (Some (length (fi_heap s))) (ds_filesById s)) j = Some p" for j p
    using that assms
    by (auto simp: files_wf_def omap_find_insert nth_append split: if_splits)
  with assms(1) show ?thesis by (simp add: files_wf_def)
qed

lemma keeps_files_new:
  assumes "fi_id fi = to_uint32 k"
  shows "keeps files_wf (bind (new_ptr fi) (\<lambda>p. modify (\<lambda>s. s\<lparr>ds_filesById := omap_insert k p (ds_filesById s)\<rparr>)))"
  by (simp add: keeps_def new_ptr_def act_simps files_wf_new assms)

lemma keeps_files_erase: "keeps files_wf (modify (\<lambda>s. s\<lparr>ds_filesById := omap_erase k (ds_filesById s)\<rparr>))"
  by (rule keeps_modify) (auto simp: files_wf_def om.find_erase split: if_splits)

lemmas keeps_files_rules = keeps_files_conn keeps_ds_connection keeps_deref keeps_files_erase keeps_read_uint32

lemma load_row_files: "keeps files_wf (load_row sys res i)"
  unfolding load_row_def Let_def
  by (intro keeps_rules keeps_files_rules keeps_files_new keeps_files_assign) (simp_all add: new_DBFileInfo_def)

lemma loadFiles_files: "keeps files_wf (loadFiles sys whereClause)"
  unfolding loadFiles_def
  by (intro keeps_rules keeps_files_rules load_row_files)

lemma ReadFileBlob_files: "keeps files_wf (ReadFileBlob sys f)"
  unfolding ReadFileBlob_def by (intro keeps_rules keeps_files_rules)

lemma insertDBFile_files: "keeps files_wf (insertDBFile sys fname)"
proof -
  have "keeps files_wf (bind (new_ptr ((new_DBFileInfo fid 1 fname)\<lparr>fi_mtime := m\<rparr>)) (\<lambda>fobj.
      seq (modify (\<lambda>s. s\<lparr>ds_filesById := omap_insert fid fobj (ds_filesById s)\<rparr>)) (ret fid)))" for fid m
    by (simp add: keeps_def new_ptr_def act_simps files_wf_new new_DBFileInfo_def)
  note new = this
  show ?thesis
    unfolding insertDBFile_def insertDBFile_scope_def
    by (intro new keeps_rules keeps_files_rules ReadFileBlob_files keeps_with_transaction [OF files_wf_conn_free])
qed

lemma updateDBFile_files: "keeps files_wf (updateDBFile sys fobj)"
  unfolding updateDBFile_def updateDBFile_scope_def Let_def
  by (intro keeps_rules keeps_files_rules ReadFileBlob_files keeps_files_assign
      keeps_with_transaction [OF files_wf_conn_free]) simp_all

lemma removeDBFile_files: "keeps files_wf (removeDBFile sys fobj)"
  unfolding removeDBFile_def
  by (intro keeps_rules keeps_files_rules)

text \<open>Only a read of a missing id spoils the cache, and it is followed by a null dereference.\<close>

lemma filesById_index_known:
  "omap_find (ds_filesById s) k = Some p \<Longrightarrow> filesById_index k s = (Inr p, s)"
  by (simp add: filesById_index_def act_simps omap_index_def)

lemma filesById_index_unknown:
  "omap_find (ds_filesById s) k = None \<Longrightarrow>
    filesById_index k s = (Inr None, s\<lparr>ds_filesById := omap_put k None (ds_filesById s)\<rparr>)"
  by (simp add: filesById_index_def act_simps omap_index_def)

lemma safe_files_index:
  assumes "\<And>p. safe files_wf (f p)" and "\<And>s. ends_ub (fst (f None s))"
  shows "safe files_wf (bind (filesById_index k) f)"
proof (rule safeI)
  fix s :: "('a, 'b) db_source_scheme" assume "files_wf s"
  with assms show "ends_ub (fst (bind (filesById_index k) f s)) \<or> files_wf (snd (bind (filesById_index k) f s))"
    by (cases "omap_find (ds_filesById s) k")
      (simp_all add: bind_apply filesById_index_known filesById_index_unknown safe_def)
qed

lemma removeLocalFile_files: "safe files_wf (removeLocalFile sys fileId)"
  unfolding removeLocalFile_def
proof (rule safe_files_index)
  show "safe files_wf (bind (deref p) (\<lambda>fi. bind (gets (\<lambda>s. path_append sys (ds_workingDir s) (fi_path fi)))
      (\<lambda>fpath. bind (fs_do (sys_remove sys fpath)) (\<lambda>_.
       modify (\<lambda>s. s\<lparr>ds_filesById := omap_erase fileId (ds_filesById s)\<rparr>)))))" for p
    by (intro safe_keeps keeps_rules keeps_files_rules)
qed (simp add: bind_apply deref_def)

section \<open>What a successful write leaves in the cache\<close>

lemma ReadFileBlob_keeps: "keeps I (ReadFileBlob sys f)"
  by (auto simp: keeps_def ReadFileBlob_def act_simps split: option.splits)

lemma conn_free_cache: "conn_free (\<lambda>s. ds_filesById s = m \<and> fi_heap s = h)"
  by (simp add: conn_free_def world_free_def)

lemma ensures_with_transaction:
  assumes "conn_free P" and "\<And>a. conn_free (Q a)" and "ensures P m Q (\<lambda>_ _. True)"
  shows "ensures P (with_transaction sys con m) Q (\<lambda>_ _. True)"
proof (rule ensuresI)
  fix s assume "P s"
  then have "P (begin_transaction sys con s)"
    using assms(1) by (auto simp: begin_transaction_def intro: conn_free_world conn_free_tx_open)
  moreover have "Q a t \<Longrightarrow> Q a (end_transaction sys con t)" for a t
    using assms(2) by (auto simp: end_transaction_def intro: conn_free_world conn_free_tx_open)
  ultimately show "case with_transaction sys con m s of (Inr a, s') \<Rightarrow> Q a s' | (Inl e, s') \<Rightarrow> True"
    using assms(3)
    by (fastforce simp: with_transaction_guarded guarded_apply ensures_def split: prod.splits sum.splits)
qed

definition inserted :: "(int, fileptr) omap \<Rightarrow> dbfile_info list \<Rightarrow> string \<Rightarrow> int \<Rightarrow> ('w, 'z) db_source_scheme \<Rightarrow> bool" where
  "inserted m h fname fid s \<longleftrightarrow>
     ds_filesById s = omap_insert fid (Some (length h)) m \<and>
     (\<exists>mtime. fi_heap s = h @ [(new_DBFileInfo fid 1 fname)\<lparr>fi_mtime := mtime\<rparr>])"

lemma insertDBFile_inserted:
  "ensures (\<lambda>s. ds_filesById s = m \<and> fi_heap s = h) (insertDBFile sys fname) (inserted m h fname) (\<lambda>_ _. True)"
proof -
  have last: "ensures (\<lambda>s. ds_filesById s = m \<and> fi_heap s = h)
     (bind (new_ptr ((new_DBFileInfo fid 1 fname)\<lparr>fi_mtime := t\<rparr>)) (\<lambda>fobj.
      seq (modify (\<lambda>s. s\<lparr>ds_filesById := omap_insert fid fobj (ds_filesById s)\<rparr>)) (ret fid)))
     (inserted m h fname) (\<lambda>_ _. True)" for fid t
    by (auto simp: ensures_def new_ptr_def act_simps inserted_def)
  show ?thesis
    unfolding insertDBFile_def insertDBFile_scope_def
    by (intro last yields_rules keeps_gets keeps_ds_connection ensures_with_transaction conn_free_cache
        keeps_conn [OF conn_free_cache] ReadFileBlob_keeps keeps_os(3)
        conn_free_cache [unfolded conn_free_def, THEN conjunct1])
      (simp add: conn_free_def world_free_def inserted_def)
qed

definition updated :: "nat \<Rightarrow> int \<Rightarrow> (int, fileptr) omap \<Rightarrow> dbfile_info list \<Rightarrow> ('w, 'z) db_source_scheme \<Rightarrow> bool" where
  "updated a v m h s \<longleftrightarrow> ds_filesById s = m \<and> length (fi_heap s) = length h \<and>
     (\<exists>mtime. fi_heap s = h[a := (h ! a)\<lparr>fi_mtime := mtime, fi_version := v\<rparr>])"

lemma updateDBFile_updated:
  assumes "a < length h"
  shows "ensures (\<lambda>s. ds_filesById s = m \<and> fi_heap s = h) (updateDBFile sys (Some a))
    (\<lambda>_. updated a (to_int32 (fi_version (h ! a) + 1)) m h) (\<lambda>_ _. True)"
proof -
  have start: "ensures (\<lambda>s. ds_filesById s = m \<and> fi_heap s = h) (bind (deref (Some a)) f) Q (\<lambda>_ _. True)"
    if "ensures (\<lambda>s. ds_filesById s = m \<and> fi_heap s = h) (f (h ! a)) Q (\<lambda>_ _. True)"
    for f :: "dbfile_info \<Rightarrow> (('w, 'z) db_source_scheme, unit) act" and Q
    using that assms by (auto simp: ensures_def bind_apply deref_Some)
  have stamp: "ensures (\<lambda>s. ds_filesById s = m \<and> fi_heap s = h) (assign (Some a) (\<lambda>fi. fi\<lparr>fi_mtime := t\<rparr>))
     (\<lambda>_ s. ds_filesById s = m \<and> fi_heap s = h[a := (h ! a)\<lparr>fi_mtime := t\<rparr>]) (\<lambda>_ _. True)" for t
    using assms by (auto simp: ensures_def assign_Some)
  have last: "ensures (\<lambda>s. ds_filesById s = m \<and> fi_heap s = h[a := (h ! a)\<lparr>fi_mtime := t\<rparr>])
     (assign (Some a) (\<lambda>fi. fi\<lparr>fi_version := v\<rparr>)) (\<lambda>_. updated a v m h) (\<lambda>_ _. True)" for t v
    using assms by (auto simp: ensures_def assign_Some updated_def)
  note free = conn_free_cache [unfolded conn_free_def, THEN conjunct1]
  show ?thesis
    unfolding updateDBFile_def updateDBFile_scope_def Let_def
    by (intro start last yields_rules ensures_seq [OF stamp] keeps_gets keeps_ds_connection
        ensures_with_transaction conn_free_cache keeps_conn [OF conn_free_cache] ReadFileBlob_keeps
        keeps_os(3) free)
      (simp_all add: conn_free_def world_free_def updated_def)
qed

section \<open>Loading mirrors the database\<close>

text \<open>
  The rows \<open>loadFiles\<close> expects: three big-endian 32-bit fields, a name that is a C string and
  the bytes of the file. \<open>file_row\<close> is how the server encodes one.
\<close>

record file_entry =
  fe_id :: "32 word"
  fe_version :: "32 word"
  fe_name :: string
  fe_lastmod :: "32 word"
  fe_data :: string

definition file_row :: "file_entry \<Rightarrow> string list" where
  "file_row e = [htonl (fe_id e), htonl (fe_version e), fe_name e, htonl (fe_lastmod e), fe_data e]"

text \<open>
  A plain file name names an entry of a directory itself. Entries that are mirrored have one, and at most
  \<open>2^31 - 1\<close> bytes (the server's limit for a field is lower).
\<close>

definition plain :: "string \<Rightarrow> bool" where
  "plain f \<longleftrightarrow> f \<noteq> [] \<and> CHR ''/'' \<notin> set f \<and> CHR 0x00 \<notin> set f \<and> f \<noteq> ''.'' \<and> f \<noteq> ''..''"

definition file_entry_ok :: "file_entry \<Rightarrow> bool" where
  "file_entry_ok e \<longleftrightarrow> plain (fe_name e) \<and> length (fe_data e) < 2 ^ 31"

lemma file_entry_okD: "file_entry_ok e \<Longrightarrow> CHR 0x00 \<notin> set (fe_name e)" "file_entry_ok e \<Longrightarrow> plain (fe_name e)"
  by (simp_all add: file_entry_ok_def plain_def)

definition dir_ok :: "string \<Rightarrow> bool" where
  "dir_ok d \<longleftrightarrow> d \<noteq> [] \<and> last d \<noteq> CHR ''/''"

text \<open>
  Documented behaviour of boost's paths and of the file system, for the plain names in one directory: a
  separator comes between the directory and the name; a file written is read back, the other files of
  the directory stay, and setting times writes nothing. The world is \<open>disturbed\<close> when a write has
  failed, or when something else has changed the directory (or made a link in it) meanwhile.
\<close>

definition path_law :: "'w sys \<Rightarrow> bool" where
  "path_law sys \<longleftrightarrow> (\<forall>d f. dir_ok d \<longrightarrow> plain f \<longrightarrow> path_append sys d f = d @ ''/'' @ f)"

definition fs_laws :: "'w sys \<Rightarrow> ('w \<Rightarrow> bool) \<Rightarrow> bool" where
  "fs_laws sys disturbed \<longleftrightarrow> path_law sys \<and>
     (\<forall>d f x w. dir_ok d \<longrightarrow> plain f \<longrightarrow>
        (let w' = sys_write_file sys (d @ ''/'' @ f) x w
         in calm disturbed w w' (\<forall>g. plain g \<longrightarrow>
           sys_read_file sys (d @ ''/'' @ g) w' = (if g = f then Some x else sys_read_file sys (d @ ''/'' @ g) w)))) \<and>
     (\<forall>d f t w. dir_ok d \<longrightarrow> plain f \<longrightarrow>
        (let w' = sys_utime sys (d @ ''/'' @ f) t w
         in calm disturbed w w' (\<forall>g. plain g \<longrightarrow>
           sys_read_file sys (d @ ''/'' @ g) w' = sys_read_file sys (d @ ''/'' @ g) w)))"

text \<open>A row is cached when its id has an object with its version and name, and stored when its bytes
  are in the working directory.\<close>

definition cached :: "file_entry \<Rightarrow> ('w, 'z) db_source_scheme \<Rightarrow> bool" where
  "cached e s \<longleftrightarrow>
     (\<exists>a. omap_find (ds_filesById s) (uint (fe_id e)) = Some (Some a) \<and> a < length (fi_heap s) \<and>
        fi_id (fi_heap s ! a) = uint (fe_id e) \<and> fi_version (fi_heap s ! a) = uint (fe_version e) \<and>
        fi_name (fi_heap s ! a) = fe_name e)"

definition stored :: "'w sys \<Rightarrow> file_entry \<Rightarrow> ('w, 'z) db_source_scheme \<Rightarrow> bool" where
  "stored sys e s \<longleftrightarrow> sys_read_file sys (ds_workingDir s @ ''/'' @ fe_name e) (world s) = Some (fe_data e)"

text \<open>No two entries share an object.\<close>

definition files_inj :: "('w, 'z) db_source_scheme \<Rightarrow> bool" where
  "files_inj s \<longleftrightarrow> (\<forall>j k p. omap_find (ds_filesById s) j = Some p \<longrightarrow> omap_find (ds_filesById s) k = Some p \<longrightarrow> j = k)"

lemma read_uint32_htonl: "read_uint32 (Some (htonl x)) s = (Inr (uint x), s)"
  using ntohl_htonl [of x "[]"] by (simp add: read_uint32_def act_simps)

lemma c_str_id: "CHR 0x00 \<notin> set s \<Longrightarrow> c_str s = s"
  unfolding c_str_def by (rule takeWhile_eq_all_conv [THEN iffD2]) auto

lemma file_row_fields:
  assumes "pg_rows res ! i = file_row e" and "i < length (pg_rows res)"
  shows "getValue res i 0 = Some (htonl (fe_id e))" "getValue res i (Suc 0) = Some (htonl (fe_version e))"
    "getValue res i 2 = Some (fe_name e)" "getValue res i 3 = Some (htonl (fe_lastmod e))"
    "getValue res i 4 = Some (fe_data e)"
  using assms by (simp_all add: getValue_def file_row_def)

lemma take_getLength:
  "getValue res i c = Some d \<Longrightarrow> length d < 2 ^ 31 \<Longrightarrow> take (nat (getLength res i c)) d = d"
  by (simp add: getLength_def to_int32_id)

definition row_world :: "'w sys \<Rightarrow> file_entry \<Rightarrow> ('w, 'z) db_source_scheme \<Rightarrow> 'w" where
  "row_world sys e s =
     (let f = path_append sys (ds_workingDir s) (fe_name e)
      in sys_utime sys f (uint (fe_lastmod e)) (sys_write_file sys f (fe_data e) (world s)))"

lemma load_row_known:
  assumes "pg_rows res ! i = file_row e" "i < length (pg_rows res)" "file_entry_ok e"
    and "omap_find (ds_filesById s) (uint (fe_id e)) = Some (Some a)" "a < length (fi_heap s)"
  shows "load_row sys res i s = (Inr (), s\<lparr>world := row_world sys e s,
     fi_heap := (fi_heap s)[a := (fi_heap s ! a)\<lparr>fi_version := uint (fe_version e), fi_name := fe_name e\<rparr>]\<rparr>)"
  using assms file_row_fields [OF assms(1,2)]
  by (simp add: load_row_def act_simps read_uint32_htonl assign_Some file_entry_ok_def plain_def c_str_id
      take_getLength row_world_def Let_def)

lemma load_row_unknown:
  assumes "pg_rows res ! i = file_row e" "i < length (pg_rows res)" "file_entry_ok e"
    and "omap_find (ds_filesById s) (uint (fe_id e)) = None"
  shows "load_row sys res i s = (Inr (), s\<lparr>world := row_world sys e s,
     fi_heap := fi_heap s @ [new_DBFileInfo (uint (fe_id e)) (uint (fe_version e)) (fe_name e)],
     ds_filesById := omap_put (uint (fe_id e)) (Some (length (fi_heap s))) (ds_filesById s)\<rparr>)"
  using assms file_row_fields [OF assms(1,2)]
  by (simp add: load_row_def act_simps read_uint32_htonl new_ptr_def file_entry_ok_def plain_def c_str_id
      take_getLength row_world_def omap_insert_def Let_def)

lemma row_world_calm:
  assumes laws: "fs_laws sys disturbed" and "dir_ok (ds_workingDir s)" and "plain (fe_name e)"
  shows "calm disturbed (world s) (row_world sys e s) (\<forall>g. plain g \<longrightarrow>
    sys_read_file sys (ds_workingDir s @ ''/'' @ g) (row_world sys e s) =
      (if g = fe_name e then Some (fe_data e) else sys_read_file sys (ds_workingDir s @ ''/'' @ g) (world s)))"
proof -
  have "path_append sys (ds_workingDir s) (fe_name e) = ds_workingDir s @ ''/'' @ fe_name e"
    using assms by (simp add: fs_laws_def path_law_def)
  moreover have "calm disturbed w (sys_write_file sys (ds_workingDir s @ ''/'' @ fe_name e) x w) (\<forall>g. plain g \<longrightarrow>
      sys_read_file sys (ds_workingDir s @ ''/'' @ g) (sys_write_file sys (ds_workingDir s @ ''/'' @ fe_name e) x w) =
        (if g = fe_name e then Some x else sys_read_file sys (ds_workingDir s @ ''/'' @ g) w))"
    "calm disturbed w (sys_utime sys (ds_workingDir s @ ''/'' @ fe_name e) t w) (\<forall>g. plain g \<longrightarrow>
      sys_read_file sys (ds_workingDir s @ ''/'' @ g) (sys_utime sys (ds_workingDir s @ ''/'' @ fe_name e) t w) =
        sys_read_file sys (ds_workingDir s @ ''/'' @ g) w)" for w x t
    using assms by (simp_all add: fs_laws_def Let_def)
  ultimately show ?thesis
    unfolding calm_def row_world_def Let_def by (metis (no_types, lifting))
qed

lemma uint_id: "to_uint32 (uint (w :: 32 word)) = uint w"
  by (rule to_uint32_id) (simp, use uint_lt2p [of w] in simp)

text \<open>One row: it is cached afterwards, and rows of other files stay cached; the same of the files.\<close>

lemma load_row_cached:
  assumes row: "pg_rows res ! i = file_row e" "i < length (pg_rows res)"
    and ok: "file_entry_ok e" and wf: "files_wf s" and inj: "files_inj s"
  shows "\<exists>s'. load_row sys res i s = (Inr (), s') \<and> files_wf s' \<and> files_inj s' \<and> cached e s' \<and>
    world s' = row_world sys e s \<and> ds_workingDir s' = ds_workingDir s \<and>
    (\<forall>e'. cached e' s \<longrightarrow> fe_id e' \<noteq> fe_id e \<longrightarrow> cached e' s')"
proof (cases "omap_find (ds_filesById s) (uint (fe_id e))")
  case None
  let ?s = "s\<lparr>world := row_world sys e s,
     fi_heap := fi_heap s @ [new_DBFileInfo (uint (fe_id e)) (uint (fe_version e)) (fe_name e)],
     ds_filesById := omap_put (uint (fe_id e)) (Some (length (fi_heap s))) (ds_filesById s)\<rparr>"
  note run = load_row_unknown [OF row ok None, where sys = sys]
  have inv: "omap_inv (ds_filesById s)" using wf by (simp add: files_wf_def)
  have wf': "files_wf ?s" using keepsD [OF load_row_files wf, of sys res i] run by simp
  have old: "a < length (fi_heap s)" if "omap_find (ds_filesById s) k = Some (Some a)" for k a
    using wf that by (auto simp: files_wf_def)
  have "files_inj ?s"
    using inj inv by (auto simp: files_inj_def om.find_put dest: old)
  moreover have "cached e ?s"
    using inv by (simp add: cached_def om.find_put new_DBFileInfo_def uint_id)
  moreover have "cached e' ?s" if "cached e' s" "fe_id e' \<noteq> fe_id e" for e'
    using that inv by (auto simp: cached_def om.find_put nth_append word_uint_eq_iff)
  ultimately show ?thesis using run wf' by (intro exI [of _ ?s]) simp
next
  case (Some p)
  with wf obtain a where p: "p = Some a" and a: "a < length (fi_heap s)" "fi_id (fi_heap s ! a) = uint (fe_id e)"
    unfolding files_wf_def using uint_id [of "fe_id e"] by metis
  let ?s = "s\<lparr>world := row_world sys e s,
     fi_heap := (fi_heap s)[a := (fi_heap s ! a)\<lparr>fi_version := uint (fe_version e), fi_name := fe_name e\<rparr>]\<rparr>"
  note run = load_row_known [OF row ok Some [unfolded p] a(1), where sys = sys]
  have wf': "files_wf ?s" using keepsD [OF load_row_files wf, of sys res i] run by simp
  have "files_inj ?s" using inj by (simp add: files_inj_def)
  moreover have "cached e ?s"
    using Some p a by (simp add: cached_def)
  moreover have "cached e' ?s" if m: "cached e' s" "fe_id e' \<noteq> fe_id e" for e'
  proof -
    from m(1) obtain b where b: "omap_find (ds_filesById s) (uint (fe_id e')) = Some (Some b)"
      by (auto simp: cached_def)
    with inj Some p m(2) have "b \<noteq> a" unfolding files_inj_def by (metis word_uint_eq_iff)
    with m b show ?thesis by (auto simp: cached_def)
  qed
  ultimately show ?thesis using run wf' by (intro exI [of _ ?s]) simp
qed

lemma load_row_stored:
  assumes laws: "fs_laws sys disturbed" and dir: "dir_ok (ds_workingDir s)" "ds_workingDir s' = ds_workingDir s"
    and e: "plain (fe_name e)" "world s' = row_world sys e s" and calm: "\<not> disturbed (world s')"
  shows "\<not> disturbed (world s)" "stored sys e s'"
    and "\<And>e'. stored sys e' s \<Longrightarrow> plain (fe_name e') \<Longrightarrow> fe_name e' \<noteq> fe_name e \<Longrightarrow> stored sys e' s'"
  using calmD [OF row_world_calm [OF laws dir(1) e(1)]] calm dir(2) e by (simp_all add: stored_def)

text \<open>The loop over the rows: \<open>ds\<close> were done before, \<open>es\<close> are to come.\<close>

lemma load_rows_mirror:
  assumes laws: "fs_laws sys disturbed"
  shows "\<forall>j<length es. k + j < length (pg_rows res) \<and> pg_rows res ! (k + j) = file_row (es ! j) \<Longrightarrow>
    \<forall>e\<in>set (ds @ es). file_entry_ok e \<Longrightarrow> distinct (map fe_id (ds @ es)) \<Longrightarrow> distinct (map fe_name (ds @ es)) \<Longrightarrow>
    files_wf s \<Longrightarrow> files_inj s \<Longrightarrow> dir_ok (ds_workingDir s) \<Longrightarrow> \<forall>e\<in>set ds. cached e s \<Longrightarrow>
    disturbed (world s) \<or> (\<forall>e\<in>set ds. stored sys e s) \<Longrightarrow>
    \<exists>s'. for_each [k..<k + length es] (load_row sys res) s = (Inr (), s') \<and> files_wf s' \<and> files_inj s' \<and>
      (\<forall>e\<in>set (ds @ es). cached e s') \<and> (disturbed (world s') \<or> (\<forall>e\<in>set (ds @ es). stored sys e s'))"
proof (induction es arbitrary: k s ds)
  case Nil
  then show ?case by (simp add: act_simps)
next
  case (Cons e es)
  have row: "k < length (pg_rows res)" "pg_rows res ! k = file_row e"
    using Cons.prems(1) [rule_format, of 0] by simp_all
  have ok: "file_entry_ok e" using Cons.prems(2) by simp
  obtain t where t: "load_row sys res k s = (Inr (), t)" "files_wf t" "files_inj t" "cached e t"
      "world t = row_world sys e s" "ds_workingDir t = ds_workingDir s"
    and others: "\<forall>e'. cached e' s \<longrightarrow> fe_id e' \<noteq> fe_id e \<longrightarrow> cached e' t"
    using load_row_cached [OF row(2,1) ok Cons.prems(5,6)] by blast
  note disk = load_row_stored [OF laws Cons.prems(7) t(6) file_entry_okD(2) [OF ok] t(5)]
  have new: "fe_id e' \<noteq> fe_id e" "fe_name e' \<noteq> fe_name e" "plain (fe_name e')" if "e' \<in> set ds" for e'
    using Cons.prems(2-4) that file_entry_okD(2) by (auto simp: image_iff)
  have "\<exists>s'. for_each [Suc k..<Suc k + length es] (load_row sys res) t = (Inr (), s') \<and> files_wf s' \<and> files_inj s' \<and>
      (\<forall>e'\<in>set ((ds @ [e]) @ es). cached e' s') \<and> (disturbed (world s') \<or> (\<forall>e'\<in>set ((ds @ [e]) @ es). stored sys e' s'))"
  proof (rule Cons.IH)
    show "\<forall>j<length es. Suc k + j < length (pg_rows res) \<and> pg_rows res ! (Suc k + j) = file_row (es ! j)"
      using Cons.prems(1) by fastforce
    show "\<forall>e'\<in>set (ds @ [e]). cached e' t" using others Cons.prems(8) t(4) new by simp
    show "disturbed (world t) \<or> (\<forall>e'\<in>set (ds @ [e]). stored sys e' t)"
      using disk Cons.prems(9) new by auto
  qed (use Cons.prems t in auto)
  then obtain s' where "for_each [Suc k..<Suc k + length es] (load_row sys res) t = (Inr (), s')"
    "files_wf s'" "files_inj s'" "\<forall>e'\<in>set (ds @ e # es). cached e' s'"
    "disturbed (world s') \<or> (\<forall>e'\<in>set (ds @ e # es). stored sys e' s')" by auto
  moreover have "[k..<k + length (e # es)] = k # [Suc k..<Suc k + length es]" by (simp add: upt_rec)
  ultimately show ?case using t(1) by (simp add: seq_apply)
qed

section \<open>Properties\<close>

text \<open>
  C10. Inserting a file is atomic. Over an open connection on which no transaction is open, and whose
  server accepts \<open>begin\<close>, no transaction is open after \<open>insertDBFile\<close>, whatever the server answers to
  the other commands. When it throws, and this is not undefined behaviour, the cache of files is
  unchanged and nothing was committed; when it returns an id, exactly that id was entered into the
  cache, with version 1 and the name and path given, and no other object was touched. What is said
  of the server holds unless an exchange with it has broken down (\<open>lost\<close>).
\<close>

theorem insertDBFile_atomic:
  assumes "pg_laws sys c intx committed lost" and "ds_dbcon s = Some (Some c)"
    and "no_tx intx lost s" and "begin_accepted sys c s"
    and "insertDBFile sys fname s = (r, s')"
  shows "no_tx intx lost s' \<and>
    (case r of
       Inl e \<Rightarrow> is_ub e \<or> (lost (world s') \<or> committed (world s') = committed (world s)) \<and> ds_filesById s' = ds_filesById s
     | Inr fid \<Rightarrow> inserted (ds_filesById s) (fi_heap s) fname fid s')"
proof -
  have K: "cache_is c (ds_filesById s) (map fi_version (fi_heap s)) s" using assms(2) by (simp add: cache_is_def)
  note tx = atomic_writeD [OF insertDBFile_atomic_write [OF assms(1)] assms(3,4) K assms(5)]
  show ?thesis
  proof (cases r)
    case (Inl e)
    with tx show ?thesis by (auto simp: cache_is_def failed_def)
  next
    case (Inr fid)
    with assms(5) have "inserted (ds_filesById s) (fi_heap s) fname fid s'"
      using ensuresD_ok [OF insertDBFile_inserted] by blast
    with Inr tx show ?thesis by simp
  qed
qed

definition example_source :: "pg_result list \<Rightarrow> toy db_source" where
  "example_source replies =
     \<lparr>world = toy_world\<lparr>tw_replies := replies, tw_files := [(''wd/a.R'', ''x<-1'', 42)]\<rparr>, tx_open = False,
      fi_heap = [(new_DBFileInfo 7 3 ''a.R'')], ds_dbcon = Some (Some 1), ds_wspaceId = 5,
      ds_workingDir = ''wd'', ds_filesById = [(7, Some 0)]\<rparr>"

lemma example_no_tx:
  "ds_dbcon (example_source replies) = Some (Some 1)" "no_tx toy_in_tx (\<lambda>_. False) (example_source replies)"
  "begin_accepted toy_sys 1 (example_source replies)"
  by (simp_all add: no_tx_def toy_in_tx_def example_source_def toy_world_def begin_accepted_def toy_pq toy_exec_def
      commandOK_def ok_reply_def)

theorem insertDBFile_atomic_witness:
  "fst (insertDBFile toy_sys ''a.R'' (example_source [rows_reply [[''9'']], ok_reply, error_reply ''disk full'']))
     = Inl (FormattedException ''failed to insert file a.R: disk full'') \<and>
   tw_data (world (snd (insertDBFile toy_sys ''a.R''
     (example_source [rows_reply [[''9'']], ok_reply, error_reply ''disk full''])))) = []"
proof -
  let ?s = "example_source [rows_reply [[''9'']], ok_reply, error_reply ''disk full'']"
  have r: "fst (insertDBFile toy_sys ''a.R'' ?s)
      = Inl (FormattedException ''failed to insert file a.R: disk full'')"
    by code_simp
  then obtain s' where run: "insertDBFile toy_sys ''a.R'' ?s
      = (Inl (FormattedException ''failed to insert file a.R: disk full''), s')"
    by (metis prod.collapse)
  with insertDBFile_atomic [OF toy_laws example_no_tx run] show ?thesis
    by (simp add: example_source_def toy_world_def)
qed



text \<open>
  C12. Saving the R data is atomic. Over an open connection on which no transaction is open, and whose
  server accepts \<open>begin\<close>, no transaction is open after \<open>saveRData\<close>, whatever the server answers to the
  other commands, also when the lock is not granted and the function returns early; and when it throws,
  and this is not undefined behaviour, nothing was committed. This holds unless an exchange with the
  server has broken down (\<open>lost\<close>).
\<close>

theorem ds_saveRData_atomic:
  assumes "pg_laws sys c intx committed lost" and "ds_dbcon s = Some (Some c)"
    and "no_tx intx lost s" and "begin_accepted sys c s" and "ds_saveRData sys s = (r, s')"
  shows "no_tx intx lost s' \<and>
    (case r of Inl e \<Rightarrow> is_ub e \<or> lost (world s') \<or> committed (world s') = committed (world s) | Inr _ \<Rightarrow> True)"
proof -
  have K: "cache_is c (ds_filesById s) (map fi_version (fi_heap s)) s" using assms(2) by (simp add: cache_is_def)
  from atomic_writeD [OF ds_saveRData_atomic_write [OF assms(1)] assms(3,4) K assms(5)]
  show ?thesis by (auto simp: failed_def split: sum.splits)
qed

definition example_rdata :: "pg_result list \<Rightarrow> toy db_source" where
  "example_rdata replies = (example_source replies)\<lparr>world := toy_world\<lparr>tw_replies := replies,
     tw_files := [(''wd/.RData'', ''RDX2'', 42)]\<rparr>\<rparr>"

lemma example_rdata_no_tx:
  "ds_dbcon (example_rdata replies) = Some (Some 1)" "no_tx toy_in_tx (\<lambda>_. False) (example_rdata replies)"
  "begin_accepted toy_sys 1 (example_rdata replies)"
  by (simp_all add: no_tx_def toy_in_tx_def example_rdata_def example_source_def toy_world_def begin_accepted_def toy_pq
      toy_exec_def commandOK_def ok_reply_def)

theorem ds_saveRData_atomic_witness:
  "tw_data (world (snd (ds_saveRData toy_sys (example_rdata [ok_reply, error_reply ''full''])))) = []"
proof -
  let ?s = "example_rdata [ok_reply, error_reply ''full'']"
  have "fst (ds_saveRData toy_sys ?s) = Inl (FormattedException ''failed to update rcworkspacedata 5: full'')"
    by code_simp
  then obtain s' where run: "ds_saveRData toy_sys ?s
      = (Inl (FormattedException ''failed to update rcworkspacedata 5: full''), s')"
    by (metis prod.collapse)
  from ds_saveRData_atomic [OF toy_laws example_rdata_no_tx run] run show ?thesis
    by (simp add: example_rdata_def toy_world_def)
qed

text \<open>
  C14. Loading mirrors the workspace. Let the server return one row per file, with different ids and
  different plain names, while the working directory is named without a trailing slash. Then
  \<open>loadFiles\<close> returns normally, keeps the cache invariants, and has every file of the result in the
  cache under its id with its version and name; and unless a write failed or something else changed the
  directory meanwhile (\<open>disturbed\<close>), its bytes are in the working directory under its name.
\<close>

theorem loadFiles_mirrors:
  assumes "fs_laws sys disturbed" and "dir_ok (ds_workingDir s)" and "ds_dbcon s = Some con"
    and "pq_exec_params sys con (loadFiles_query whereClause) [] 1 (world s) = (res, w)" and "has_rows res (map file_row es)"
    and "\<forall>e\<in>set es. file_entry_ok e" and "distinct (map fe_id es)" and "distinct (map fe_name es)"
    and "files_wf s" and "files_inj s"
  shows "\<exists>s'. loadFiles sys whereClause s = (Inr (), s') \<and> files_wf s' \<and> files_inj s' \<and>
    (\<forall>e\<in>set es. cached e s') \<and> (disturbed (world s') \<or> (\<forall>e\<in>set es. stored sys e s'))"
proof -
  let ?s = "s\<lparr>world := w\<rparr>"
  have "\<exists>s'. for_each [0..<0 + length es] (load_row sys res) ?s = (Inr (), s') \<and> files_wf s' \<and> files_inj s' \<and>
      (\<forall>e\<in>set ([] @ es). cached e s') \<and> (disturbed (world s') \<or> (\<forall>e\<in>set ([] @ es). stored sys e s'))"
    by (rule load_rows_mirror [OF assms(1)])
      (use assms in \<open>auto simp: has_rows_def files_wf_def files_inj_def\<close>)
  moreover have "loadFiles sys whereClause s = for_each [0..<length es] (load_row sys res) ?s"
    using assms(3-5)
    by (simp add: loadFiles_def bind_apply ds_connection_apply executeQueryParams_def os_do_def
        rowsReturned_def ret_apply has_rows_def)
  ultimately show ?thesis by simp
qed

definition example_entries :: "file_entry list" where
  "example_entries =
     [\<lparr>fe_id = 7, fe_version = 4, fe_name = ''b.R'', fe_lastmod = 77, fe_data = ''y<-2''\<rparr>,
      \<lparr>fe_id = 8, fe_version = 1, fe_name = ''c.R'', fe_lastmod = 78, fe_data = ''z<-3''\<rparr>]"

lemma toy_fs_laws: "fs_laws toy_sys (\<lambda>_. False)"
  by (auto simp: fs_laws_def path_law_def calm_def toy_sys_def toy_path_def split: option.splits)

theorem loadFiles_mirrors_witness:
  "\<exists>s'. loadFiles toy_sys ''where wspaceid = 5''
      (example_source [rows_reply (map file_row example_entries)]) = (Inr (), s') \<and>
    (\<forall>e\<in>set example_entries. cached e s' \<and> stored toy_sys e s')"
proof -
  let ?s = "example_source [rows_reply (map file_row example_entries)]"
  have s: "dir_ok (ds_workingDir ?s)" "ds_dbcon ?s = Some (Some 1)" by (simp_all add: example_source_def dir_ok_def)
  have q: "pq_exec_params toy_sys (Some 1) (loadFiles_query ''where wspaceid = 5'') [] 1 (world ?s)
      = (rows_reply (map file_row example_entries),
         (world ?s)\<lparr>tw_data := [loadFiles_query ''where wspaceid = 5''], tw_replies := []\<rparr>)"
    by (simp add: toy_pq toy_statement_def example_source_def toy_world_def)
  have ok: "\<forall>e\<in>set example_entries. file_entry_ok e" "distinct (map fe_id example_entries)"
    "distinct (map fe_name example_entries)"
    by (simp_all add: example_entries_def file_entry_ok_def plain_def)
  have wf: "files_wf ?s" "files_inj ?s"
    by (simp_all add: files_wf_def files_inj_def example_source_def omap_inv_def new_DBFileInfo_def)
  have "has_rows (rows_reply (map file_row example_entries)) (map file_row example_entries)" by simp
  from loadFiles_mirrors [OF toy_fs_laws s q this ok wf] show ?thesis by blast
qed

text \<open>
  The cache of files never holds a null or dangling pointer, and every object is filed under
  its own id: loading, inserting, updating and removing keep it, whether they return or throw, and
  \<open>removeLocalFile\<close> does unless it dereferences the null pointer it entered for an unknown id.
\<close>

theorem file_operations_keep_cache:
  "keeps files_wf (loadFiles sys whereClause) \<and> keeps files_wf (insertOrUpdateLocalFile sys fileId wsid) \<and>
   keeps files_wf (insertDBFile sys fname) \<and> keeps files_wf (updateDBFile sys fobj) \<and>
   keeps files_wf (removeDBFile sys fobj) \<and> safe files_wf (removeLocalFile sys fileId)"
proof -
  have "keeps files_wf (insertOrUpdateLocalFile sys fileId wsid)"
    unfolding insertOrUpdateLocalFile_def by (intro keeps_rules loadFiles_files)
  then show ?thesis
    by (simp add: loadFiles_files insertDBFile_files updateDBFile_files removeDBFile_files
        removeLocalFile_files)
qed

end
