(* ===== verification/File_Manager.thy ===== *)
theory File_Manager
  imports Db_File_Source
begin

unbundle bit_operations_syntax

text \<open>
  \<open>src/FileManager.{hpp,cpp}\<close>: the working directory of a session, watched with inotify, and the
  notifications the database sends when another client changes a file. \<open>FileManager\<close> only forwards
  to its \<open>Impl\<close>, so the two are one component; the state extends that of \<open>DBFileSource\<close>, which
  the manager creates (the flag \<open>fm_hasSource\<close> is whether \<open>dbFileSource_\<close> is not null).

  Of libevent the state keeps what the program can observe: how many timer events that will run
  \<open>handleIgnoreFSNotesOff\<close> are pending, and the enabled flags of \<open>inotifyEvent_\<close> (\<open>None\<close> for
  the null pointer).
\<close>

section \<open>State\<close>

record pending_image =
  pi_fileName :: string
  pi_imgNumStr :: string
  pi_wd :: int

record file_info =
  info_id :: int
  info_version :: int
  info_name :: string

record 'w fm = "'w db_source" +
  fm_wspaceId :: int
  fm_sessionRecId :: int
  fm_sessionImageBatch :: int
  fm_hasSource :: bool
  fm_dbcon :: "pgconn option"
  fm_manuallyAddedFiles :: "string set"
  fm_filesByWatchDesc :: "(int, fileptr) omap"
  fm_pendingImages :: "(int, pending_image) omap"
  fm_imageIds :: "int list"
  fm_workingDir :: string
  fm_inotifyEvent :: "nat option"
  fm_inotifyFd :: int
  fm_rootWd :: int
  fm_ignoreFS :: bool
  fm_ignoreDB :: bool
  fm_timers :: nat
  fm_dbEvent :: bool

text \<open>\<open>dbFileSource_->...\<close>\<close>

definition on_source :: "(('w, 'z) fm_scheme, 'a) act \<Rightarrow> (('w, 'z) fm_scheme, 'a) act" where
  "on_source m = bind (gets fm_hasSource) (\<lambda>b. if b then m else throw (UB ''null DBFileSource''))"

section \<open>Ignoring file system notifications\<close>

definition fm_ignoreFSNotifications :: "(('w, 'z) fm_scheme, unit) act" where
  "fm_ignoreFSNotifications =
     bind (gets fm_ignoreFS) (\<lambda>on.
     if on then skip
     else modify (\<lambda>s. s\<lparr>fm_ignoreFS := True, fm_timers := fm_timers s + 1\<rparr>))"

text \<open>The timer event: it deletes itself.\<close>

definition handleIgnoreFSNotesOff :: "(('w, 'z) fm_scheme, unit) act" where
  "handleIgnoreFSNotesOff = modify (\<lambda>s. s\<lparr>fm_ignoreFS := False, fm_timers := fm_timers s - 1\<rparr>)"

section \<open>Images\<close>

text \<open>The batch number is looked up once, by the first image after \<open>connect\<close>.\<close>

definition image_batch :: "'w sys \<Rightarrow> pgconn option \<Rightarrow> (('w, 'z) fm_scheme, unit) act" where
  "image_batch sys con =
     bind (gets fm_sessionImageBatch) (\<lambda>old.
     if old \<le> 0 then
       bind (gets (\<lambda>s. ''select max(batchid) from sessionimage where sessionid = '' @ dec (fm_sessionRecId s))) (\<lambda>q.
       bind (longFromQuery sys con q) (\<lambda>n.
       modify (\<lambda>s. s\<lparr>fm_sessionImageBatch := n + 1\<rparr>)))
     else skip)"

definition insertImage :: "'w sys \<Rightarrow> string \<Rightarrow> string \<Rightarrow> (('w, 'z) fm_scheme, int) act" where
  "insertImage sys fname imgNumStr =
     bind (gets (\<lambda>s. fm_workingDir s @ ''/'' @ fname)) (\<lambda>filePath.
     bind (ReadFileBlob sys filePath) (\<lambda>buffer.
     if length buffer < 1 then ret 0
     else
       bind (gets fm_dbcon) (\<lambda>con.
       bind (longFromQuery sys con ''select nextval('sessionimage_seq'::regclass)'') (\<lambda>imgId.
       if imgId \<le> 0 then throw (formatted ''failed to get session image id'')
       else
         seq (image_batch sys con)
         (bind (gets (\<lambda>s.
                  ''insert into sessionimage (id,sessionid,batchid,name,imgdata) values ('' @ dec imgId @
                  '','' @ dec (fm_sessionRecId s) @ '','' @ dec (fm_sessionImageBatch s) @ '','img'' @ dec imgId @
                  ''.png',$1::bytea)'')) (\<lambda>query.
          bind (executeQueryParams sys con query [pq_param buffer] 1) (\<lambda>res.
          if \<not> commandOK res then throw (formatted (''failed to insert image in db: '' @ errorMessage res))
          else
            seq (modify (\<lambda>s. s\<lparr>fm_imageIds := fm_imageIds s @ [imgId]\<rparr>))
            (seq fm_ignoreFSNotifications
            (bind (fs_do (sys_remove sys filePath)) (\<lambda>_. ret 0))))))))))"

definition IN_MODIFY :: "32 word" where "IN_MODIFY = 0x2"
definition IN_CLOSE_WRITE :: "32 word" where "IN_CLOSE_WRITE = 0x8"
definition IN_CLOSE_NOWRITE :: "32 word" where "IN_CLOSE_NOWRITE = 0x10"
definition IN_OPEN :: "32 word" where "IN_OPEN = 0x20"
definition IN_CREATE :: "32 word" where "IN_CREATE = 0x100"
definition IN_DELETE_SELF :: "32 word" where "IN_DELETE_SELF = 0x400"
definition IN_ISDIR :: "32 word" where "IN_ISDIR = 0x40000000"

definition image_watch_mask :: int where "image_watch_mask = 0x18"
definition file_watch_mask :: int where "file_watch_mask = 0x400042A"
definition root_watch_mask :: int where "root_watch_mask = 0xFC0"

definition startImageWatch :: "'w sys \<Rightarrow> string \<Rightarrow> string \<Rightarrow> (('w, 'z) fm_scheme, unit) act" where
  "startImageWatch sys fname imgNum =
     bind (gets (\<lambda>s. fm_workingDir s @ ''/'' @ fname)) (\<lambda>fullPath.
     bind (gets fm_inotifyFd) (\<lambda>fd.
     bind (os_do (inotify_add_watch sys fd fullPath image_watch_mask)) (\<lambda>wd.
     if wd = -1 then throw (formatted (''inotify_add_warched failed '' @ c_str fname))
     else modify (\<lambda>s. s\<lparr>fm_pendingImages := omap_insert wd
            \<lparr>pi_fileName = fname, pi_imgNumStr = imgNum, pi_wd = wd\<rparr> (fm_pendingImages s)\<rparr>))))"

definition stopImageWatch :: "'w sys \<Rightarrow> int \<Rightarrow> (('w, 'z) fm_scheme, unit) act" where
  "stopImageWatch sys wd =
     bind (gets fm_inotifyFd) (\<lambda>fd.
     seq (os_upd (inotify_rm_watch sys fd wd))
     (modify (\<lambda>s. s\<lparr>fm_pendingImages := omap_erase wd (fm_pendingImages s)\<rparr>)))"

text \<open>\<open>fs::file_size\<close> throws for a missing file, so its result is never \<open>-1\<close>.\<close>

definition cleanupImageWatch :: "'w sys \<Rightarrow> (('w, 'z) fm_scheme, unit) act" where
  "cleanupImageWatch sys =
     bind (gets fm_pendingImages) (\<lambda>pending.
     seq
       (for_each pending (\<lambda>(_, img).
          bind (gets (\<lambda>s. path_append sys (fm_workingDir s) (pi_fileName img))) (\<lambda>imgPath.
          bind (fs_read (sys_file_size sys imgPath)) (\<lambda>size.
          do_if (size \<noteq> 2 ^ 64 - 1)
            (bind (insertImage sys (pi_fileName img) (pi_imgNumStr img)) (\<lambda>_.
             bind (gets fm_inotifyFd) (\<lambda>fd.
             os_upd (inotify_rm_watch sys fd (pi_wd img)))))))))
       (modify (\<lambda>s. s\<lparr>fm_pendingImages := []\<rparr>)))"

section \<open>Watching files\<close>

definition watchFile :: "'w sys \<Rightarrow> fileptr \<Rightarrow> (('w, 'z) fm_scheme, unit) act" where
  "watchFile sys file =
     bind (deref file) (\<lambda>fi.
     bind (gets (\<lambda>s. fm_workingDir s @ ''/'' @ fi_path fi)) (\<lambda>fullPath.
     bind (os_read (sys_stat_mtime sys fullPath)) (\<lambda>st.
     case st of
       None \<Rightarrow> throw (StatException (''stat failed for watch '' @ fullPath))
     | Some mtime \<Rightarrow>
         seq (assign file (\<lambda>fi. fi\<lparr>fi_mtime := mtime\<rparr>))
         (bind (gets fm_inotifyFd) (\<lambda>fd.
          bind (os_do (inotify_add_watch sys fd fullPath file_watch_mask)) (\<lambda>wd.
          seq (assign file (\<lambda>fi. fi\<lparr>fi_watchDescriptor := Some wd\<rparr>))
          (if wd = -1 then throw (formatted (''inotify_add_warched failed '' @ c_str (fi_name fi)))
           else modify (\<lambda>s. s\<lparr>fm_filesByWatchDesc := omap_put wd file (fm_filesByWatchDesc s)\<rparr>))))))))"

text \<open>\<open>filesByWatchDesc_[wd]\<close>: an unknown descriptor is entered with the null pointer.\<close>

definition filesByWatchDesc_index :: "int \<Rightarrow> (('w, 'z) fm_scheme, fileptr) act" where
  "filesByWatchDesc_index wd =
     bind (gets (\<lambda>s. omap_index None wd (fm_filesByWatchDesc s))) (\<lambda>(p, m).
     seq (modify (\<lambda>s. s\<lparr>fm_filesByWatchDesc := m\<rparr>)) (ret p))"

text \<open>The first entry of \<open>filesById_\<close> with a name; the loop dereferences every pointer it passes.\<close>

fun find_named :: "string \<Rightarrow> (int \<times> fileptr) list \<Rightarrow> (('w, 'z) fm_scheme, dbfile_info option) act" where
  "find_named fname [] = ret None"
| "find_named fname ((_, p) # es) =
     bind (deref p) (\<lambda>fi. if fname = fi_name fi then ret (Some fi) else find_named fname es)"

definition fileExistsWithName :: "string \<Rightarrow> (('w, 'z) fm_scheme, bool) act" where
  "fileExistsWithName fname =
     on_source (bind (gets ds_filesById) (\<lambda>m. bind (find_named fname m) (\<lambda>r. ret (r \<noteq> None))))"

definition fm_executeDBCommand :: "'w sys \<Rightarrow> string \<Rightarrow> (('w, 'z) fm_scheme, bool) act" where
  "fm_executeDBCommand sys cmd =
     bind (gets fm_dbcon) (\<lambda>con.
     bind (executeQuery sys con cmd) (\<lambda>res.
     if commandOK res then ret False else ret True))"

definition fm_readFileBlob :: "'w sys \<Rightarrow> fileptr \<Rightarrow> (('w, 'z) fm_scheme, string) act" where
  "fm_readFileBlob sys fobj =
     bind (deref fobj) (\<lambda>fi.
     bind (gets (\<lambda>s. fm_workingDir s @ ''/'' @ fi_path fi)) (ReadFileBlob sys))"

section \<open>Database notifications\<close>

text \<open>The two nested handlers of a delete notification ignore every \<open>std::exception\<close>.\<close>

definition delete_notification :: "'w sys \<Rightarrow> int \<Rightarrow> (('w, 'z) fm_scheme, unit) act" where
  "delete_notification sys fileId =
     try_catch is_std_exception
       (on_source
         (bind (gets (\<lambda>s. omap_find (ds_filesById s) fileId)) (\<lambda>r.
          bind (unwrap (OutOfRange ''map::at'') r) (\<lambda>fobj.
          bind (deref fobj) (\<lambda>fi.
          bind (unwrap (UB ''uninitialised watchDescriptor'') (fi_watchDescriptor fi)) (\<lambda>wd.
          bind (gets fm_inotifyFd) (\<lambda>fd.
          seq (os_upd (inotify_rm_watch sys fd wd))
          (seq (modify (\<lambda>s. s\<lparr>ds_filesById := omap_erase fileId (ds_filesById s)\<rparr>))
          (seq (modify (\<lambda>s. s\<lparr>fm_filesByWatchDesc := omap_erase (to_int32 fileId) (fm_filesByWatchDesc s)\<rparr>))
          (bind (gets (\<lambda>s. fm_workingDir s @ ''/'' @ fi_path fi)) (\<lambda>path.
           seq (fs_do (sys_remove sys path)) skip)))))))))))
       (\<lambda>e. skip)"

definition insert_notification :: "'w sys \<Rightarrow> int \<Rightarrow> (('w, 'z) fm_scheme, unit) act" where
  "insert_notification sys fileId =
     seq fm_ignoreFSNotifications
     (on_source
       (seq (loadFiles sys ('' where f.id = '' @ dec fileId))
       (bind (filesById_index fileId) (watchFile sys))))"

definition update_notification :: "'w sys \<Rightarrow> int \<Rightarrow> (('w, 'z) fm_scheme, unit) act" where
  "update_notification sys fileId =
     on_source
       (bind (gets (\<lambda>s. omap_count (ds_filesById s) fileId)) (\<lambda>n.
        if 0 < n then
          seq fm_ignoreFSNotifications (loadFiles sys ('' where f.id = '' @ dec fileId))
        else skip))"

definition processDBNotification :: "'w sys \<Rightarrow> string \<Rightarrow> (('w, 'z) fm_scheme, unit) act" where
  "processDBNotification sys message =
     (let type = (case message of [] \<Rightarrow> CHR 0x00 | c # _ \<Rightarrow> c) in
      if \<not> (type = CHR ''i'' \<or> type = CHR ''u'' \<or> type = CHR ''d'') \<or> length message < 2 then skip
      else
        let fields = split_slash (tl message) in
        if length fields \<noteq> 3 then skip
        else
          let fileId = atol (c_str (fields ! 0)); fileWspaceId = atol (c_str (fields ! 1)) in
          bind (gets fm_wspaceId) (\<lambda>own.
          if own \<noteq> fileWspaceId then skip
          else
            try_catch is_std_exception
              (if type = CHR ''d'' then delete_notification sys fileId
               else if type = CHR ''i'' then insert_notification sys fileId
               else if type = CHR ''u'' then update_notification sys fileId
               else skip)
              (\<lambda>e. skip)))"

text \<open>The loop runs until the connection has no notification left; \<open>fuel\<close> bounds its rounds.\<close>

fun notification_loop :: "'w sys \<Rightarrow> nat \<Rightarrow> (('w, 'z) fm_scheme, unit) act" where
  "notification_loop sys 0 = throw (Abort ''out of fuel'')"
| "notification_loop sys (Suc fuel) =
     bind (gets fm_dbcon) (\<lambda>con.
     bind (checkForNotification sys con) (\<lambda>note.
     case note of
       None \<Rightarrow> skip
     | Some (name, channel) \<Rightarrow>
         bind (gets fm_ignoreDB) (\<lambda>ignoring.
         seq (if ignoring then skip else processDBNotification sys channel)
         (notification_loop sys fuel))))"

definition handleDBNotifications :: "'w sys \<Rightarrow> nat \<Rightarrow> (('w, 'z) fm_scheme, unit) act" where
  "handleDBNotifications sys fuel =
     seq fm_ignoreFSNotifications
     (bind (gets fm_dbcon) (\<lambda>con.
      seq (consumeInput sys con)
      (notification_loop sys fuel)))"

section \<open>File system events\<close>

text \<open>The events of one read from inotify.\<close>

record inotify_event =
  ie_wd :: int
  ie_mask :: "32 word"
  ie_name :: string

definition event_type :: "32 word \<Rightarrow> 32 word" where
  "event_type bits = bits AND 0xffff"

definition is_directory_event :: "32 word \<Rightarrow> bool" where
  "is_directory_event bits \<longleftrightarrow> bits AND IN_ISDIR \<noteq> 0"

definition handle_create :: "'w sys \<Rightarrow> string \<Rightarrow> (('w, 'z) fm_scheme, unit) act" where
  "handle_create sys fname =
     do_if (take 1 fname \<noteq> ''.'')
       (bind (gets fm_manuallyAddedFiles) (\<lambda>added.
        bind
          (case match_image_name fname of
             Some imgNum \<Rightarrow> seq (startImageWatch sys fname imgNum) (ret 0)
           | None \<Rightarrow>
               if fname \<notin> added then
                 bind (fileExistsWithName fname) (\<lambda>exists.
                 if exists then ret 0 else on_source (insertDBFile sys fname))
               else ret 0)
          (\<lambda>newFileId.
           do_if (0 < newFileId)
             (on_source (bind (filesById_index newFileId) (watchFile sys))))))"

definition handle_close_write :: "'w sys \<Rightarrow> int \<Rightarrow> (('w, 'z) fm_scheme, unit) act" where
  "handle_close_write sys wd =
     bind (gets (\<lambda>s. omap_find (fm_pendingImages s) wd)) (\<lambda>img.
     case img of
       Some pending \<Rightarrow>
         bind (insertImage sys (pi_fileName pending) (pi_imgNumStr pending)) (\<lambda>_. stopImageWatch sys wd)
     | None \<Rightarrow>
         bind (filesByWatchDesc_index wd) (\<lambda>fobj.
         bind (deref fobj) (\<lambda>_.
         on_source (updateDBFile sys fobj))))"

definition handle_delete_self :: "'w sys \<Rightarrow> int \<Rightarrow> (('w, 'z) fm_scheme, unit) act" where
  "handle_delete_self sys wd =
     bind (filesByWatchDesc_index wd) (\<lambda>fobj.
     bind (deref fobj) (\<lambda>_.
     seq (on_source (removeDBFile sys fobj))
     (bind (deref fobj) (\<lambda>fi.
      seq (modify (\<lambda>s. s\<lparr>fm_filesByWatchDesc := omap_erase (to_int32 (fi_id fi)) (fm_filesByWatchDesc s)\<rparr>))
      (bind (gets fm_inotifyFd) (\<lambda>fd. os_upd (inotify_rm_watch sys fd wd)))))))"

definition handle_event :: "'w sys \<Rightarrow> inotify_event \<Rightarrow> (('w, 'z) fm_scheme, unit) act" where
  "handle_event sys event =
     (let evtype = event_type (ie_mask event) in
      try_catch is_std_exception
        (if evtype = IN_CREATE then do_if (\<not> is_directory_event (ie_mask event)) (handle_create sys (ie_name event))
         else if evtype = IN_CLOSE_WRITE then handle_close_write sys (ie_wd event)
         else if evtype = IN_DELETE_SELF then handle_delete_self sys (ie_wd event)
         else if evtype = IN_OPEN \<or> evtype = IN_MODIFY then
           bind (filesByWatchDesc_index (ie_wd event)) (\<lambda>fobj. bind (deref fobj) (\<lambda>_. skip))
         else skip)
        (\<lambda>ex. skip))"

definition handleInotifyEvent :: "'w sys \<Rightarrow> inotify_event list \<Rightarrow> (('w, 'z) fm_scheme, unit) act" where
  "handleInotifyEvent sys events =
     bind (gets fm_ignoreFS) (\<lambda>ignoring.
     seq (if \<not> ignoring then fm_ignoreFSNotifications else skip)
     (if ignoring then skip else for_each events (handle_event sys)))"

section \<open>Setting up\<close>

definition fm_cleanup :: "(int \<Rightarrow> 'w \<Rightarrow> 'w) \<Rightarrow> (('w, 'z) fm_scheme, unit) act" where
  "fm_cleanup close =
     bind (gets fm_inotifyFd) (\<lambda>fd. if fd \<noteq> -1 then os_upd (close fd) else skip)"

text \<open>\<open>snprintf(msg, 255, ...)\<close> cannot truncate a \<open>long\<close>.\<close>

definition fm_connect :: "'w sys \<Rightarrow> pgconn option \<Rightarrow> int \<Rightarrow> int \<Rightarrow> (('w, 'z) fm_scheme, unit) act" where
  "fm_connect sys connection wspaceId sessionRecId =
     seq (modify (\<lambda>s. s\<lparr>fm_wspaceId := wspaceId, fm_sessionRecId := sessionRecId, fm_dbcon := connection\<rparr>))
     (on_source
       (seq (initializeSource sys connection wspaceId)
       (seq (loadFiles sys (''where wspaceid = '' @ dec wspaceId))
       (modify (\<lambda>s. s\<lparr>fm_sessionImageBatch := 0\<rparr>)))))"

definition is_stat_exception :: "exn \<Rightarrow> bool" where
  "is_stat_exception e \<longleftrightarrow> (case e of StatException _ \<Rightarrow> True | _ \<Rightarrow> False)"

text \<open>A new \<open>bufferevent\<close> has \<open>EV_WRITE\<close> (4) enabled; \<open>bufferevent_enable\<close> adds \<open>EV_READ\<close> (2).\<close>

definition EV_READ :: nat where "EV_READ = 2"
definition EV_WRITE :: nat where "EV_WRITE = 4"

definition setupInotify :: "'w sys \<Rightarrow> (('w, 'z) fm_scheme, unit) act" where
  "setupInotify sys =
     bind (os_do (inotify_init sys)) (\<lambda>fd.
     seq (modify (\<lambda>s. s\<lparr>fm_inotifyFd := fd\<rparr>))
     (bind (gets fm_workingDir) (\<lambda>dir.
      if fd = -1 then throw (formatted (''inotify_init() failed for '' @ c_str dir))
      else
        bind (os_do (inotify_add_watch sys fd dir root_watch_mask)) (\<lambda>wd.
        seq (modify (\<lambda>s. s\<lparr>fm_rootWd := wd\<rparr>))
        (if wd = -1 then throw (formatted ''inotify_add_watched failed'')
         else
           seq (on_source
                 (bind (gets ds_filesById) (\<lambda>m.
                  for_each m (\<lambda>(_, p). try_catch is_stat_exception (watchFile sys p) (\<lambda>se. skip)))))
           (modify (\<lambda>s. s\<lparr>fm_inotifyEvent := Some (EV_WRITE + EV_READ)\<rparr>)))))))"

text \<open>
  \<open>initFileManager(workingDir, connection, wspaceId, sessionRecId)\<close> without an injected source;
  a new \<open>DBFileSource\<close> has an empty cache and no connection. The two identifiers are \<open>int\<close>.
\<close>

definition initFileManager ::
    "'w sys \<Rightarrow> string \<Rightarrow> pgconn option \<Rightarrow> int \<Rightarrow> int \<Rightarrow> (('w, 'z) fm_scheme, unit) act" where
  "initFileManager sys workingDir connection wspaceId sessionRecId =
     seq (modify (\<lambda>s. s\<lparr>fm_hasSource := True, ds_filesById := [], ds_dbcon := None\<rparr>))
     (seq (modify (\<lambda>s. s\<lparr>fm_workingDir := workingDir\<rparr>))
     (seq (on_source (setWorkingDir workingDir))
     (seq (fm_connect sys connection (to_int32 wspaceId) (to_int32 sessionRecId))
     (seq (setupInotify sys)
     (bind (gets fm_dbcon) (\<lambda>con.
      bind (executeQuery sys con ''listen rcfile'') (\<lambda>_.
      modify (\<lambda>s. s\<lparr>fm_dbEvent := True\<rparr>))))))))"

section \<open>Suspending and resuming\<close>

text \<open>\<open>bufferevent_disable(evt, EV_READ)\<close> clears the flag.\<close>

definition disable_read :: "nat \<Rightarrow> nat" where
  "disable_read flags = (if flags div 2 mod 2 = 1 then flags - EV_READ else flags)"

definition suspendNotifyEvents :: "(('w, 'z) fm_scheme, unit) act" where
  "suspendNotifyEvents =
     bind (gets fm_inotifyEvent) (\<lambda>evt.
     bind (unwrap (UB ''null bufferevent'') evt) (\<lambda>flags.
     if flags \<noteq> 0 then throw (RuntimeError ''notify events already suspended'')
     else modify (\<lambda>s. s\<lparr>fm_inotifyEvent := Some (disable_read flags)\<rparr>)))"

definition resumeNotifyEvents :: "(('w, 'z) fm_scheme, unit) act" where
  "resumeNotifyEvents =
     bind (gets fm_inotifyEvent) (\<lambda>evt.
     bind (unwrap (UB ''null bufferevent'') evt) (\<lambda>flags.
     if flags = 0 then throw (RuntimeError ''notify events already enabled'')
     else modify (\<lambda>s. s\<lparr>fm_inotifyEvent := Some (disable_read flags)\<rparr>)))"

section \<open>What the session asks for\<close>

definition resetWatch :: "(('w, 'z) fm_scheme, unit) act" where
  "resetWatch =
     seq (bind (gets fm_imageIds) (\<lambda>ids.
          if 0 < length ids
          then modify (\<lambda>s. s\<lparr>fm_sessionImageBatch := fm_sessionImageBatch s + 1\<rparr>) else skip))
     (seq (modify (\<lambda>s. s\<lparr>fm_imageIds := []\<rparr>))
     (modify (\<lambda>s. s\<lparr>fm_manuallyAddedFiles := {}\<rparr>)))"

definition checkWatch :: "(('w, 'z) fm_scheme, int list \<times> int) act" where
  "checkWatch = gets (\<lambda>s. (fm_imageIds s, fm_sessionImageBatch s))"

definition fm_loadRData :: "'w sys \<Rightarrow> (('w, 'z) fm_scheme, bool) act" where
  "fm_loadRData sys = on_source (ds_loadRData sys)"

definition fm_saveRData :: "'w sys \<Rightarrow> (('w, 'z) fm_scheme, unit) act" where
  "fm_saveRData sys = on_source (ds_saveRData sys)"

definition fileInfoForDBPtr :: "fileptr \<Rightarrow> (('w, 'z) fm_scheme, file_info) act" where
  "fileInfoForDBPtr p =
     bind (deref p) (\<lambda>fi.
     ret \<lparr>info_id = fi_id fi, info_version = fi_version fi, info_name = fi_name fi\<rparr>)"

definition findOrAddFile :: "'w sys \<Rightarrow> string \<Rightarrow> (('w, 'z) fm_scheme, file_info) act" where
  "findOrAddFile sys fname =
     on_source
       (bind (gets ds_filesById) (\<lambda>m.
        bind (find_named fname m) (\<lambda>r.
        case r of
          Some fi \<Rightarrow> ret \<lparr>info_id = fi_id fi, info_version = fi_version fi, info_name = fi_name fi\<rparr>
        | None \<Rightarrow>
            bind (insertDBFile sys fname) (\<lambda>fid.
            seq (modify (\<lambda>s. s\<lparr>fm_manuallyAddedFiles := insert fname (fm_manuallyAddedFiles s)\<rparr>))
            (bind (filesById_index fid) fileInfoForDBPtr)))))"

definition fileInfoForId :: "int \<Rightarrow> (('w, 'z) fm_scheme, file_info option) act" where
  "fileInfoForId fileId =
     on_source
       (bind (gets (\<lambda>s. omap_count (ds_filesById s) fileId)) (\<lambda>n.
        if n \<noteq> 1 then ret None
        else bind (filesById_index fileId) (\<lambda>p. bind (fileInfoForDBPtr p) (\<lambda>i. ret (Some i)))))"

definition filePathForId :: "int \<Rightarrow> (('w, 'z) fm_scheme, string option) act" where
  "filePathForId fileId =
     on_source
       (bind (gets (\<lambda>s. omap_count (ds_filesById s) fileId)) (\<lambda>n.
        if n \<noteq> 1 then ret None
        else bind (filesById_index fileId) (\<lambda>p. bind (deref p) (\<lambda>fi. ret (Some (fi_path fi))))))"

end
