(* ===== verification/File_Manager_Laws.thy ===== *)
theory File_Manager_Laws
  imports File_Manager
begin

text \<open>
  The file manager's invariant and its proof over every operation, the event callbacks as a step
  relation with the invariant on every reachable state, and the behaviour of the callbacks branch
  by branch.
\<close>

section \<open>Invariants that the file source does not touch\<close>

text \<open>
  \<open>source_free I\<close>: \<open>I\<close> survives what the operations of \<open>DBFileSource\<close> do to the state, which is
  calling the outside, entering and removing cache entries, and growing the heap or updating
  objects in it.
\<close>

definition source_free :: "(('w, 'z) db_source_scheme \<Rightarrow> bool) \<Rightarrow> bool" where
  "source_free I \<longleftrightarrow> conn_free I \<and>
     (\<forall>s h. I s \<longrightarrow> length (fi_heap s) \<le> length h \<longrightarrow> I (s\<lparr>fi_heap := h\<rparr>)) \<and>
     (\<forall>s m. I s \<longrightarrow> I (s\<lparr>ds_filesById := m\<rparr>))"

lemma source_free_conn: "source_free I \<Longrightarrow> conn_free I"
  by (simp add: source_free_def)

lemma source_free_heap: "source_free I \<Longrightarrow> I s \<Longrightarrow> length (fi_heap s) \<le> length h \<Longrightarrow> I (s\<lparr>fi_heap := h\<rparr>)"
  by (simp add: source_free_def)

lemma source_free_files: "source_free I \<Longrightarrow> I s \<Longrightarrow> I (s\<lparr>ds_filesById := m\<rparr>)"
  by (simp add: source_free_def)

lemma keeps_source_atoms:
  assumes "source_free I"
  shows "keeps I (assign p f)" and "keeps I (new_ptr fi)"
    and "keeps I (modify (\<lambda>s. s\<lparr>ds_filesById := g s\<rparr>))"
proof -
  show "keeps I (assign p f)"
    by (rule keeps_assign) (simp add: source_free_heap [OF assms])
  show "keeps I (new_ptr fi)"
    unfolding new_ptr_def
    by (intro keeps_rules keeps_modify) (simp add: source_free_heap [OF assms])
  show "keeps I (modify (\<lambda>s. s\<lparr>ds_filesById := g s\<rparr>))"
    by (rule keeps_modify) (simp add: source_free_files [OF assms])
qed

lemma source_free_world: "source_free I \<Longrightarrow> world_free I"
  by (simp add: source_free_def conn_free_def)

lemmas keeps_source_os = keeps_os [OF source_free_world] keeps_conn [OF source_free_conn]

lemma keeps_source_operations:
  assumes "source_free I"
  shows "keeps I (loadFiles sys whereClause)" and "keeps I (insertDBFile sys fname)"
    and "keeps I (updateDBFile sys fobj)" and "keeps I (removeDBFile sys fobj)"
    and "keeps I (filesById_index k)" and "keeps I (ds_saveRData sys)" and "keeps I (ds_loadRData sys)"
proof -
  note steps = keeps_rules keeps_source_os [OF assms] keeps_source_atoms [OF assms] keeps_ds_connection
    keeps_deref keeps_read_uint32 ReadFileBlob_keeps keeps_with_transaction [OF source_free_conn [OF assms]]
  have "keeps I (load_row sys res i)" for res i
    unfolding load_row_def Let_def by (intro steps)
  note steps = steps this
  show "keeps I (loadFiles sys whereClause)" unfolding loadFiles_def by (intro steps)
  show "keeps I (insertDBFile sys fname)" unfolding insertDBFile_def insertDBFile_scope_def by (intro steps)
  show "keeps I (updateDBFile sys fobj)"
    unfolding updateDBFile_def updateDBFile_scope_def Let_def by (intro steps)
  show "keeps I (removeDBFile sys fobj)" unfolding removeDBFile_def by (intro steps)
  show "keeps I (filesById_index k)"
    unfolding filesById_index_def by (auto simp: split_def intro!: steps)
  show "keeps I (ds_saveRData sys)" unfolding ds_saveRData_def saveRData_scope_def by (intro steps)
  show "keeps I (ds_loadRData sys)" unfolding ds_loadRData_def by (intro steps)
qed

section \<open>The invariant\<close>

text \<open>
  The tables of watches point to existing objects, a pending image is filed under its own watch
  descriptor, and while file system events are ignored exactly one timer is pending that will end
  it.
\<close>

definition watch_wf :: "('w, 'z) fm_scheme \<Rightarrow> bool" where
  "watch_wf s \<longleftrightarrow>
     omap_inv (fm_filesByWatchDesc s) \<and>
     (\<forall>wd p. omap_find (fm_filesByWatchDesc s) wd = Some p \<longrightarrow> (\<exists>a. p = Some a \<and> a < length (fi_heap s))) \<and>
     omap_inv (fm_pendingImages s) \<and>
     (\<forall>wd img. omap_find (fm_pendingImages s) wd = Some img \<longrightarrow> pi_wd img = wd) \<and>
     fm_timers s = (if fm_ignoreFS s then 1 else 0)"

definition fm_wf :: "('w, 'z) fm_scheme \<Rightarrow> bool" where
  "fm_wf s \<longleftrightarrow> files_wf s \<and> watch_wf s"

lemma watch_wf_source_free: "source_free watch_wf"
  unfolding source_free_def conn_free_def world_free_def watch_wf_def
  by (fastforce dest: order.strict_trans2)

lemmas keeps_watch = keeps_source_os [OF watch_wf_source_free] keeps_source_atoms [OF watch_wf_source_free]
  keeps_source_operations [OF watch_wf_source_free]

lemma safe_conj: "safe I m \<Longrightarrow> safe J m \<Longrightarrow> safe (\<lambda>s. I s \<and> J s) m"
  by (auto simp: safe_def)

lemma safe_fm_wf: "safe files_wf m \<Longrightarrow> safe watch_wf m \<Longrightarrow> safe fm_wf m"
  by (auto simp: safe_def fm_wf_def)

lemma keeps_fm_wf: "keeps files_wf m \<Longrightarrow> keeps watch_wf m \<Longrightarrow> keeps fm_wf m"
  by (auto simp: keeps_def fm_wf_def)

lemma keeps_on_source: "keeps I m \<Longrightarrow> keeps I (on_source m)"
  unfolding on_source_def by (intro keeps_rules)

lemma safe_on_source: "safe I m \<Longrightarrow> safe I (on_source m)"
  unfolding on_source_def by (intro safe_rules)

text \<open>Fields of the manager that the cache invariant does not look at.\<close>

lemma files_wf_fm_fields [simp]:
  "files_wf (s\<lparr>fm_ignoreFS := b, fm_timers := n\<rparr>) = files_wf s"
  "files_wf (s\<lparr>fm_sessionImageBatch := i\<rparr>) = files_wf s"
  "files_wf (s\<lparr>fm_imageIds := ids\<rparr>) = files_wf s"
  "files_wf (s\<lparr>fm_pendingImages := pend\<rparr>) = files_wf s"
  "files_wf (s\<lparr>fm_filesByWatchDesc := wmap\<rparr>) = files_wf s"
  "files_wf (s\<lparr>fm_manuallyAddedFiles := added\<rparr>) = files_wf s"
  "files_wf (s\<lparr>fm_inotifyEvent := ev\<rparr>) = files_wf s"
  "files_wf (s\<lparr>fm_inotifyFd := i\<rparr>) = files_wf s"
  "files_wf (s\<lparr>fm_rootWd := i\<rparr>) = files_wf s"
  "files_wf (s\<lparr>fm_workingDir := d\<rparr>) = files_wf s"
  "files_wf (s\<lparr>fm_dbEvent := b\<rparr>) = files_wf s"
  by (simp_all add: files_wf_def)

lemma watch_wf_fm_fields [simp]:
  "watch_wf (s\<lparr>fm_sessionImageBatch := i\<rparr>) = watch_wf s"
  "watch_wf (s\<lparr>fm_imageIds := ids\<rparr>) = watch_wf s"
  "watch_wf (s\<lparr>fm_manuallyAddedFiles := added\<rparr>) = watch_wf s"
  "watch_wf (s\<lparr>fm_inotifyEvent := ev\<rparr>) = watch_wf s"
  "watch_wf (s\<lparr>fm_inotifyFd := i\<rparr>) = watch_wf s"
  "watch_wf (s\<lparr>fm_rootWd := i\<rparr>) = watch_wf s"
  "watch_wf (s\<lparr>fm_workingDir := d\<rparr>) = watch_wf s"
  "watch_wf (s\<lparr>fm_dbEvent := b\<rparr>) = watch_wf s"
  by (simp_all add: watch_wf_def)

section \<open>Every operation keeps it\<close>

lemma ignoreFS_watch: "keeps watch_wf fm_ignoreFSNotifications"
  by (auto simp: keeps_def fm_ignoreFSNotifications_def act_simps watch_wf_def)

lemma ignoreFS_files: "keeps files_wf fm_ignoreFSNotifications"
  unfolding fm_ignoreFSNotifications_def by (intro keeps_rules keeps_modify) simp

lemmas fm_steps = keeps_deref ReadFileBlob_keeps keeps_ds_connection keeps_on_source

lemma insertImage_watch: "keeps watch_wf (insertImage sys fname num)"
  unfolding insertImage_def image_batch_def
  by (intro keeps_rules keeps_watch fm_steps ignoreFS_watch keeps_modify) simp_all

lemma insertImage_files: "keeps files_wf (insertImage sys fname num)"
  unfolding insertImage_def image_batch_def
  by (intro keeps_rules keeps_files_conn fm_steps ignoreFS_files keeps_modify) simp_all

lemma startImageWatch_watch: "keeps watch_wf (startImageWatch sys fname num)"
  unfolding startImageWatch_def
  by (intro keeps_rules keeps_watch keeps_modify)
    (auto simp: watch_wf_def omap_find_insert split: if_splits)

lemma startImageWatch_files: "keeps files_wf (startImageWatch sys fname num)"
  unfolding startImageWatch_def
  by (intro keeps_rules keeps_files_conn keeps_modify) simp_all

lemma stopImageWatch_watch: "keeps watch_wf (stopImageWatch sys wd)"
  unfolding stopImageWatch_def
  by (intro keeps_rules keeps_watch keeps_modify)
    (auto simp: watch_wf_def om.find_erase split: if_splits)

lemma stopImageWatch_files: "keeps files_wf (stopImageWatch sys wd)"
  unfolding stopImageWatch_def
  by (intro keeps_rules keeps_files_conn keeps_modify) simp_all

lemma keeps_case_prod [keeps_rules]: "(\<And>a b. keeps I (f a b)) \<Longrightarrow> keeps I (case x of (a, b) \<Rightarrow> f a b)"
  by (cases x) simp

lemma cleanupImageWatch_watch: "keeps watch_wf (cleanupImageWatch sys)"
  unfolding cleanupImageWatch_def
  by (intro keeps_rules keeps_watch insertImage_watch keeps_modify) (auto simp: watch_wf_def)

lemma cleanupImageWatch_files: "keeps files_wf (cleanupImageWatch sys)"
  unfolding cleanupImageWatch_def
  by (intro keeps_rules keeps_files_conn insertImage_files keeps_modify) auto

text \<open>
  After a successful dereference the pointer is known to be valid, also across calls of the file
  source.
\<close>

lemma safe_deref:
  assumes "\<And>a fi. p = Some a \<Longrightarrow> safe (\<lambda>s. I s \<and> a < length (fi_heap s)) (f fi)"
  shows "safe I (bind (deref p) f)"
proof (rule safeI)
  fix s assume I: "I s"
  show "ends_ub (fst (bind (deref p) f s)) \<or> I (snd (bind (deref p) f s))"
  proof (cases "\<exists>a. p = Some a \<and> a < length (fi_heap s)")
    case True
    then obtain a where a: "p = Some a" "a < length (fi_heap s)" by blast
    with I safeD [OF assms [OF a(1)], of s] show ?thesis
      by (auto simp: bind_apply deref_Some)
  next
    case False
    then have "ends_ub (fst (deref p s))" by (auto simp: deref_def split: option.splits)
    then show ?thesis by (cases "deref p s") (auto simp: bind_def split: sum.splits)
  qed
qed

lemma keeps_deref_valid:
  assumes "\<And>a fi. p = Some a \<Longrightarrow> keeps (\<lambda>s. I s \<and> a < length (fi_heap s)) (f fi)"
  shows "keeps I (bind (deref p) f)"
proof (rule keepsI)
  fix s assume I: "I s"
  show "I (snd (bind (deref p) f s))"
  proof (cases "\<exists>a. p = Some a \<and> a < length (fi_heap s)")
    case True
    then obtain a where a: "p = Some a" "a < length (fi_heap s)" by blast
    with I keepsD [OF assms [OF a(1)], of s] show ?thesis
      by (auto simp: bind_apply deref_Some)
  next
    case False
    then show ?thesis using I by (auto simp: bind_apply deref_def split: option.splits)
  qed
qed

lemma source_free_valid: "source_free I \<Longrightarrow> source_free (\<lambda>s. I s \<and> a < length (fi_heap s))"
  by (auto simp: source_free_def conn_free_def world_free_def)

lemma watchFile_watch: "keeps watch_wf (watchFile sys p)"
  unfolding watchFile_def
proof (rule keeps_deref_valid)
  fix a fi assume p: "p = Some a"
  note sf = source_free_valid [OF watch_wf_source_free, of a]
  have put: "keeps (\<lambda>s. watch_wf s \<and> a < length (fi_heap s))
      (modify (\<lambda>s. s\<lparr>fm_filesByWatchDesc := omap_put wd p (fm_filesByWatchDesc s)\<rparr>))" for wd
    by (rule keeps_modify) (auto simp: watch_wf_def om.find_put p split: if_splits)
  show "keeps (\<lambda>s. watch_wf s \<and> a < length (fi_heap s))
     (bind (gets (\<lambda>s. fm_workingDir s @ ''/'' @ fi_path fi)) (\<lambda>fullPath.
     bind (os_read (sys_stat_mtime sys fullPath)) (\<lambda>st.
     case st of
       None \<Rightarrow> throw (StatException (''stat failed for watch '' @ fullPath))
     | Some mtime \<Rightarrow>
         seq (assign p (\<lambda>fi. fi\<lparr>fi_mtime := mtime\<rparr>))
         (bind (gets fm_inotifyFd) (\<lambda>fd.
          bind (os_do (inotify_add_watch sys fd fullPath file_watch_mask)) (\<lambda>wd.
          seq (assign p (\<lambda>fi. fi\<lparr>fi_watchDescriptor := Some wd\<rparr>))
          (if wd = -1 then throw (formatted (''inotify_add_warched failed '' @ c_str (fi_name fi)))
           else modify (\<lambda>s. s\<lparr>fm_filesByWatchDesc := omap_put wd p (fm_filesByWatchDesc s)\<rparr>))))))))"
    by (intro keeps_rules put keeps_source_os [OF sf] keeps_source_atoms [OF sf])
qed

lemma watchFile_files: "keeps files_wf (watchFile sys p)"
  unfolding watchFile_def
  by (intro keeps_rules keeps_files_conn keeps_deref keeps_files_assign keeps_modify) simp_all

lemma watchFile_null: "ends_ub (fst (watchFile sys None s))"
  by (simp add: watchFile_def bind_apply deref_def)

lemma find_named_keeps: "keeps I (find_named fname m)"
  by (induction m) (auto intro!: keeps_rules keeps_deref)

lemma fileExistsWithName_keeps: "keeps I (fileExistsWithName fname)"
  unfolding fileExistsWithName_def by (intro keeps_on_source keeps_rules find_named_keeps)

lemma filesByWatchDesc_index_known:
  "omap_find (fm_filesByWatchDesc s) wd = Some p \<Longrightarrow> filesByWatchDesc_index wd s = (Inr p, s)"
  by (simp add: filesByWatchDesc_index_def act_simps omap_index_def)

lemma filesByWatchDesc_index_unknown:
  "omap_find (fm_filesByWatchDesc s) wd = None \<Longrightarrow>
    filesByWatchDesc_index wd s = (Inr None, s\<lparr>fm_filesByWatchDesc := omap_put wd None (fm_filesByWatchDesc s)\<rparr>)"
  by (simp add: filesByWatchDesc_index_def act_simps omap_index_def)

text \<open>A lookup of a watch whose result is dereferenced: an unknown descriptor ends in undefined behaviour.\<close>

lemma safe_watch_index:
  assumes "\<And>p. safe I (f p)" and "\<And>s. ends_ub (fst (f None s))"
  shows "safe I (bind (filesByWatchDesc_index wd) f)"
proof (rule safeI)
  fix s assume "I s"
  with assms show "ends_ub (fst (bind (filesByWatchDesc_index wd) f s)) \<or> I (snd (bind (filesByWatchDesc_index wd) f s))"
    by (cases "omap_find (fm_filesByWatchDesc s) wd")
      (simp_all add: bind_apply filesByWatchDesc_index_known filesByWatchDesc_index_unknown safe_def)
qed

lemma std_not_ub: "is_std_exception e \<Longrightarrow> \<not> is_ub e"
  by (rule std_exception_not_ub)

lemma delete_notification_files: "keeps files_wf (delete_notification sys fid)"
  unfolding delete_notification_def
  by (intro keeps_rules keeps_on_source keeps_files_conn keeps_deref keeps_files_erase keeps_modify) simp_all

lemma watch_wf_erase: "watch_wf s \<Longrightarrow> watch_wf (s\<lparr>fm_filesByWatchDesc := omap_erase k (fm_filesByWatchDesc s)\<rparr>)"
  by (auto simp: watch_wf_def om.find_erase split: if_splits)

lemma delete_notification_watch: "keeps watch_wf (delete_notification sys fid)"
  unfolding delete_notification_def
  by (intro keeps_rules keeps_on_source keeps_watch keeps_deref)
    (rule keeps_modify, rule watch_wf_erase)

lemma insert_notification_safe: "safe files_wf (insert_notification sys fid)" "keeps watch_wf (insert_notification sys fid)"
proof -
  show "safe files_wf (insert_notification sys fid)"
    unfolding insert_notification_def
    by (intro safe_rules safe_on_source safe_keeps [OF ignoreFS_files] safe_keeps [OF loadFiles_files]
        safe_files_index safe_keeps [OF watchFile_files] watchFile_null)
  show "keeps watch_wf (insert_notification sys fid)"
    unfolding insert_notification_def
    by (intro keeps_rules keeps_on_source ignoreFS_watch keeps_watch watchFile_watch)
qed

lemma update_notification_keeps: "keeps files_wf (update_notification sys fid)" "keeps watch_wf (update_notification sys fid)"
proof -
  show "keeps files_wf (update_notification sys fid)"
    unfolding update_notification_def
    by (intro keeps_rules keeps_on_source ignoreFS_files loadFiles_files)
  show "keeps watch_wf (update_notification sys fid)"
    unfolding update_notification_def
    by (intro keeps_rules keeps_on_source ignoreFS_watch keeps_watch)
qed

lemma processDBNotification_files: "safe files_wf (processDBNotification sys message)"
  unfolding processDBNotification_def Let_def
  by (intro safe_rules insert_notification_safe safe_keeps [OF delete_notification_files]
      safe_keeps [OF update_notification_keeps(1)] std_not_ub)

lemma processDBNotification_watch: "keeps watch_wf (processDBNotification sys message)"
  unfolding processDBNotification_def Let_def
  by (intro keeps_rules insert_notification_safe delete_notification_watch update_notification_keeps)

lemma processDBNotification_wf: "safe fm_wf (processDBNotification sys message)"
  by (intro safe_fm_wf processDBNotification_files safe_keeps [OF processDBNotification_watch])

lemma ignoreFS_wf: "keeps fm_wf fm_ignoreFSNotifications"
  by (intro keeps_fm_wf ignoreFS_files ignoreFS_watch)

lemma fm_wf_conn_free: "conn_free fm_wf"
  using watch_wf_source_free files_wf_conn_free
  by (auto simp: fm_wf_def source_free_def conn_free_def world_free_def)

lemma safe_case_prod: "(\<And>a b. safe I (f a b)) \<Longrightarrow> safe I (case x of (a, b) \<Rightarrow> f a b)"
  by (cases x) simp

lemma notification_loop_wf: "safe fm_wf (notification_loop sys fuel)"
proof (induction fuel)
  case (Suc fuel)
  then show ?case
    by (auto intro!: safe_rules safe_keeps [OF keeps_conn(7) [OF fm_wf_conn_free]] processDBNotification_wf
        split: option.splits)
qed (simp add: safe_rules)

lemma handleDBNotifications_wf: "safe fm_wf (handleDBNotifications sys fuel)"
  unfolding handleDBNotifications_def
  by (intro safe_rules safe_keeps [OF ignoreFS_wf] safe_keeps [OF keeps_conn(6) [OF fm_wf_conn_free]]
      notification_loop_wf)

lemma fm_wf_parts: "safe files_wf m \<Longrightarrow> keeps watch_wf m \<Longrightarrow> safe fm_wf m"
  by (rule safe_fm_wf) (simp_all add: safe_keeps)

lemma fm_wf_world_free: "world_free fm_wf"
  by (rule fm_wf_conn_free [unfolded conn_free_def, THEN conjunct1])

lemma handle_create_wf: "safe fm_wf (handle_create sys fname)"
proof (rule fm_wf_parts)
  show "safe files_wf (handle_create sys fname)"
    unfolding handle_create_def
    by (intro safe_rules safe_on_source safe_keeps [OF startImageWatch_files] safe_keeps [OF fileExistsWithName_keeps]
        safe_keeps [OF insertDBFile_files] safe_files_index safe_keeps [OF watchFile_files] watchFile_null)
  show "keeps watch_wf (handle_create sys fname)"
    unfolding handle_create_def
    by (intro keeps_rules keeps_on_source startImageWatch_watch fileExistsWithName_keeps keeps_watch watchFile_watch)
qed

lemma deref_null: "ends_ub (fst (bind (deref None) f s))"
  by (simp add: bind_apply deref_def)

lemma source_op_wf: "keeps files_wf m \<Longrightarrow> keeps watch_wf m \<Longrightarrow> safe fm_wf (on_source m)"
  by (intro safe_on_source fm_wf_parts safe_keeps)

lemma handle_close_write_wf: "safe fm_wf (handle_close_write sys wd)"
proof -
  have "safe fm_wf (bind (filesByWatchDesc_index wd) (\<lambda>fobj. bind (deref fobj) (\<lambda>_. on_source (updateDBFile sys fobj))))"
    by (intro safe_watch_index safe_rules safe_keeps [OF keeps_deref] source_op_wf updateDBFile_files keeps_watch deref_null)
  note upd = this
  show ?thesis
    unfolding handle_close_write_def
    by (intro safe_rules upd fm_wf_parts safe_keeps insertImage_files stopImageWatch_files insertImage_watch
        stopImageWatch_watch)
qed

lemma handle_delete_self_wf: "safe fm_wf (handle_delete_self sys wd)"
proof -
  have er: "keeps fm_wf (modify (\<lambda>s. s\<lparr>fm_filesByWatchDesc := omap_erase k (fm_filesByWatchDesc s)\<rparr>))" for k
    by (rule keeps_modify) (auto simp: fm_wf_def watch_wf_erase)
  show ?thesis
    unfolding handle_delete_self_def
    by (intro safe_watch_index safe_rules safe_keeps [OF keeps_deref] source_op_wf removeDBFile_files keeps_watch
        safe_keeps [OF er] safe_keeps [OF keeps_os(2) [OF fm_wf_world_free]] deref_null)
qed

lemma handle_event_wf: "safe fm_wf (handle_event sys event)"
  unfolding handle_event_def Let_def
  by (intro safe_rules handle_create_wf handle_close_write_wf handle_delete_self_wf safe_watch_index
      safe_keeps [OF keeps_deref] deref_null std_not_ub)

lemma handleInotifyEvent_wf: "safe fm_wf (handleInotifyEvent sys events)"
  unfolding handleInotifyEvent_def
  by (intro safe_rules safe_keeps [OF ignoreFS_wf] handle_event_wf)

lemma timer_wf: "keeps fm_wf handleIgnoreFSNotesOff"
  unfolding handleIgnoreFSNotesOff_def
  by (rule keeps_modify) (auto simp: fm_wf_def watch_wf_def)

lemma cleanupImageWatch_wf: "keeps fm_wf (cleanupImageWatch sys)"
  by (intro keeps_fm_wf cleanupImageWatch_files cleanupImageWatch_watch)

lemma resetWatch_wf: "keeps fm_wf resetWatch"
  unfolding resetWatch_def
  by (intro keeps_rules keeps_modify) (auto simp: fm_wf_def)

lemma fileInfoForDBPtr_keeps: "keeps I (fileInfoForDBPtr p)"
  unfolding fileInfoForDBPtr_def by (intro keeps_rules keeps_deref)

lemma findOrAddFile_wf: "safe fm_wf (findOrAddFile sys fname)"
proof (rule fm_wf_parts)
  have add: "keeps files_wf (modify (\<lambda>s. s\<lparr>fm_manuallyAddedFiles := insert fname (fm_manuallyAddedFiles s)\<rparr>))"
    by (rule keeps_modify) simp
  show "safe files_wf (findOrAddFile sys fname)"
    unfolding findOrAddFile_def
    by (intro safe_on_source safe_rules safe_keeps [OF find_named_keeps] safe_keeps [OF insertDBFile_files]
        safe_keeps [OF add] safe_files_index safe_keeps [OF fileInfoForDBPtr_keeps])
      (simp add: fileInfoForDBPtr_def deref_null)
  show "keeps watch_wf (findOrAddFile sys fname)"
    unfolding findOrAddFile_def
    by (intro keeps_on_source keeps_rules find_named_keeps keeps_watch fileInfoForDBPtr_keeps keeps_modify) simp
qed

lemma fileInfoForId_wf: "safe fm_wf (fileInfoForId fid)"
proof (rule fm_wf_parts)
  have "safe files_wf (bind (filesById_index fid) (\<lambda>p. bind (fileInfoForDBPtr p) (\<lambda>i. ret (Some i))))"
    by (rule safe_files_index)
      (auto intro!: safe_rules safe_keeps [OF keeps_deref] simp: fileInfoForDBPtr_def deref_null bind_assoc)
  then show "safe files_wf (fileInfoForId fid)"
    unfolding fileInfoForId_def by (intro safe_on_source safe_bind [OF safe_atom(3)] safe_if safe_atom(1))
  show "keeps watch_wf (fileInfoForId fid)"
    unfolding fileInfoForId_def by (intro keeps_on_source keeps_rules keeps_watch fileInfoForDBPtr_keeps)
qed

lemma filePathForId_wf: "safe fm_wf (filePathForId fid)"
proof (rule fm_wf_parts)
  have "safe files_wf (bind (filesById_index fid) (\<lambda>p. bind (deref p) (\<lambda>fi. ret (Some (fi_path fi)))))"
    by (rule safe_files_index) (auto intro!: safe_rules safe_keeps [OF keeps_deref] simp: deref_null)
  then show "safe files_wf (filePathForId fid)"
    unfolding filePathForId_def by (intro safe_on_source safe_bind [OF safe_atom(3)] safe_if safe_atom(1))
  show "keeps watch_wf (filePathForId fid)"
    unfolding filePathForId_def by (intro keeps_on_source keeps_rules keeps_watch keeps_deref)
qed

section \<open>Setting up establishes it\<close>

definition fm_fresh :: "('w, 'z) fm_scheme \<Rightarrow> bool" where
  "fm_fresh s \<longleftrightarrow> fm_filesByWatchDesc s = [] \<and> fm_pendingImages s = [] \<and> \<not> fm_ignoreFS s \<and> fm_timers s = 0"

lemma fresh_wf: "fm_fresh s \<Longrightarrow> watch_wf s"
  by (simp add: fm_fresh_def watch_wf_def)

lemma initializeSource_wf: "keeps fm_wf (initializeSource sys con wsid)"
  unfolding initializeSource_def
  by (intro keeps_rules keeps_conn [OF fm_wf_conn_free] keeps_modify)
    (auto simp: fm_wf_def files_wf_def watch_wf_def)

lemma watchFile_wf: "keeps fm_wf (watchFile sys p)"
  by (intro keeps_fm_wf watchFile_files watchFile_watch)

lemma setupInotify_wf: "keeps fm_wf (setupInotify sys)"
  unfolding setupInotify_def
  by (intro keeps_rules keeps_on_source keeps_os(1) [OF fm_wf_world_free] watchFile_wf keeps_modify)
    (auto simp: fm_wf_def)

lemma initFileManager_establishes:
  assumes "watch_wf s"
  shows "fm_wf (snd (initFileManager sys dir con wsid sid s))"
proof -
  let ?s = "s\<lparr>fm_hasSource := True, ds_filesById := [], ds_dbcon := None\<rparr>"
  have start: "fm_wf ?s"
    using assms by (simp add: fm_wf_def files_wf_def watch_wf_def)
  have loads: "keeps fm_wf (loadFiles sys q)" for q
    by (intro keeps_fm_wf loadFiles_files keeps_watch)
  have "keeps fm_wf (seq (modify (\<lambda>s. s\<lparr>fm_workingDir := dir\<rparr>))
     (seq (on_source (setWorkingDir dir))
     (seq (fm_connect sys con (to_int32 wsid) (to_int32 sid))
     (seq (setupInotify sys)
     (bind (gets fm_dbcon) (\<lambda>con.
      bind (executeQuery sys con ''listen rcfile'') (\<lambda>_.
      modify (\<lambda>s. s\<lparr>fm_dbEvent := True\<rparr>))))))))"
    unfolding setWorkingDir_def fm_connect_def
    by (intro keeps_rules keeps_on_source initializeSource_wf loads setupInotify_wf
        keeps_conn [OF fm_wf_conn_free] keeps_modify)
      (auto simp: fm_wf_def files_wf_def watch_wf_def)
  from keepsD [OF this start] show ?thesis
    by (simp add: initFileManager_def seq_modify)
qed

lemma initFileManager_wf:
  assumes "fm_fresh s" and "initFileManager sys dir con wsid sid s = (r, s')"
  shows "fm_wf s'"
  using initFileManager_establishes [OF fresh_wf [OF assms(1)], of sys dir con wsid sid] assms(2) by simp

lemma rdata_files: "keeps files_wf (ds_loadRData sys)" "keeps files_wf (ds_saveRData sys)"
  unfolding ds_loadRData_def ds_saveRData_def saveRData_scope_def
  by (intro keeps_rules keeps_files_rules ReadFileBlob_files keeps_with_transaction [OF files_wf_conn_free])+

lemma rdata_wf: "keeps fm_wf (fm_loadRData sys)" "keeps fm_wf (fm_saveRData sys)"
  unfolding fm_loadRData_def fm_saveRData_def
  by (intro keeps_on_source keeps_fm_wf rdata_files keeps_watch)+

section \<open>The event loop\<close>

text \<open>
  What libevent and the session do with a file manager that was initialised: deliver inotify
  events, database notifications and the timer, and the session's calls. A step is a callback or
  a call that returns or throws; one that runs into undefined behaviour has no successor.
\<close>

datatype fm_call =
    Inotify "inotify_event list"
  | DbReady nat
  | TimerFires
  | Notification string
  | CleanupImages
  | ResetWatch
  | FindFile string
  | LookupInfo int
  | LookupPath int

definition forget :: "('s, 'a) act \<Rightarrow> ('s, unit) act" where
  "forget m = bind m (\<lambda>_. skip)"

fun fm_perform :: "'w sys \<Rightarrow> fm_call \<Rightarrow> (('w, 'z) fm_scheme, unit) act" where
  "fm_perform sys (Inotify evs) = handleInotifyEvent sys evs"
| "fm_perform sys (DbReady fuel) = handleDBNotifications sys fuel"
| "fm_perform sys TimerFires = handleIgnoreFSNotesOff"
| "fm_perform sys (Notification m) = processDBNotification sys m"
| "fm_perform sys CleanupImages = cleanupImageWatch sys"
| "fm_perform sys ResetWatch = resetWatch"
| "fm_perform sys (FindFile fname) = forget (findOrAddFile sys fname)"
| "fm_perform sys (LookupInfo fid) = forget (fileInfoForId fid)"
| "fm_perform sys (LookupPath fid) = forget (filePathForId fid)"

inductive fm_step :: "'w sys \<Rightarrow> ('w, 'z) fm_scheme \<Rightarrow> ('w, 'z) fm_scheme \<Rightarrow> bool" for sys where
  call: "c = TimerFires \<longrightarrow> 0 < fm_timers s \<Longrightarrow> fm_perform sys c s = (r, s') \<Longrightarrow> \<not> ends_ub r \<Longrightarrow> fm_step sys s s'"

inductive fm_reach :: "'w sys \<Rightarrow> ('w, 'z) fm_scheme \<Rightarrow> bool" for sys where
  initialised: "fm_fresh s \<Longrightarrow> initFileManager sys dir con wsid sid s = (Inr (), s') \<Longrightarrow> fm_reach sys s'"
| step: "fm_reach sys s \<Longrightarrow> fm_step sys s s' \<Longrightarrow> fm_reach sys s'"

inductive_cases fm_stepE [elim]: "fm_step sys s s'"

lemma safe_forget: "safe I m \<Longrightarrow> safe I (forget m)"
  unfolding forget_def by (intro safe_rules)

lemma fm_perform_wf: "safe fm_wf (fm_perform sys c)"
  by (cases c)
    (auto intro!: handleInotifyEvent_wf handleDBNotifications_wf safe_keeps [OF timer_wf] processDBNotification_wf
      safe_keeps [OF cleanupImageWatch_wf] safe_keeps [OF resetWatch_wf] safe_forget findOrAddFile_wf fileInfoForId_wf
      filePathForId_wf)

lemma fm_step_wf:
  assumes "fm_step sys s s'" and "fm_wf s"
  shows "fm_wf s'"
  using assms(1)
proof cases
  case (call c r)
  with safeD [OF fm_perform_wf assms(2), of sys c] show ?thesis by simp
qed

section \<open>What the owner of a manager keeps\<close>

text \<open>
  The session extends the manager's state. An invariant of the session that depends on the
  session's own part only is kept by every operation of the manager.
\<close>

definition owner_only :: "(('w, 'z) fm_scheme \<Rightarrow> bool) \<Rightarrow> bool" where
  "owner_only I \<longleftrightarrow> (\<forall>s t. fm.more s = fm.more t \<longrightarrow> I s \<longrightarrow> I t)"

lemma owner_onlyD: "owner_only I \<Longrightarrow> I s \<Longrightarrow> fm.more t = fm.more s \<Longrightarrow> I t"
  unfolding owner_only_def by (drule spec [of _ s], drule spec [of _ t]) simp

lemma owner_source_free:
  assumes "owner_only I"
  shows "source_free I"
  unfolding source_free_def conn_free_def world_free_def
  by (intro conjI allI impI; rule owner_onlyD [OF assms], assumption, simp)

lemma owner_modify:
  assumes "owner_only I" and "\<And>s. fm.more (f s) = fm.more s"
  shows "keeps I (modify f)"
  by (rule keeps_modify) (rule owner_onlyD [OF assms(1)], assumption, simp add: assms(2))

lemma owner_keeps:
  assumes "owner_only I"
  shows "keeps I (fm_perform sys c)" and "keeps I (fm_loadRData sys)" and "keeps I (fm_saveRData sys)"
    and "keeps I (initFileManager sys dir con wsid recid)"
proof -
  note sf = owner_source_free [OF assms]
  note steps = keeps_rules keeps_source_os [OF sf] keeps_source_atoms [OF sf] keeps_source_operations [OF sf]
    fm_steps find_named_keeps fileExistsWithName_keeps fileInfoForDBPtr_keeps owner_modify [OF assms]
  have ignoreFS: "keeps I fm_ignoreFSNotifications" unfolding fm_ignoreFSNotifications_def by (intro steps) simp
  have windex: "keeps I (filesByWatchDesc_index wd)" for wd
    unfolding filesByWatchDesc_index_def by (auto simp: split_def intro!: steps)
  have image: "keeps I (insertImage sys f n)" for f n
    unfolding insertImage_def image_batch_def by (intro steps ignoreFS) simp_all
  have watch: "keeps I (watchFile sys p)" for p unfolding watchFile_def by (intro steps) simp
  have create: "keeps I (handle_create sys f)" for f
    unfolding handle_create_def startImageWatch_def by (intro steps watch) simp
  have close: "keeps I (handle_close_write sys wd)" for wd
    unfolding handle_close_write_def stopImageWatch_def by (intro steps image windex) simp
  have delete: "keeps I (handle_delete_self sys wd)" for wd
    unfolding handle_delete_self_def by (intro steps windex) simp
  have events: "keeps I (handleInotifyEvent sys evs)" for evs
    unfolding handleInotifyEvent_def handle_event_def Let_def by (intro steps ignoreFS create close delete windex)
  have note_del: "keeps I (delete_notification sys i)" for i
    unfolding delete_notification_def by (intro steps) simp_all
  have note_ins: "keeps I (insert_notification sys i)" "keeps I (update_notification sys i)" for i
    unfolding insert_notification_def update_notification_def by (intro steps ignoreFS watch)+
  have process: "keeps I (processDBNotification sys m)" for m
    unfolding processDBNotification_def Let_def by (intro steps note_del note_ins)
  have loop: "keeps I (notification_loop sys fuel)" for fuel
    by (induction fuel) (auto intro!: steps process)
  have dbnotes: "keeps I (handleDBNotifications sys fuel)" for fuel
    unfolding handleDBNotifications_def by (intro steps ignoreFS loop)
  have timer: "keeps I handleIgnoreFSNotesOff" unfolding handleIgnoreFSNotesOff_def by (intro steps) simp
  have cleanup: "keeps I (cleanupImageWatch sys)" unfolding cleanupImageWatch_def by (intro steps image) simp
  have reset: "keeps I resetWatch" unfolding resetWatch_def by (intro steps) simp_all
  have find: "keeps I (findOrAddFile sys f)" for f unfolding findOrAddFile_def by (intro steps) simp
  have info: "keeps I (fileInfoForId i)" "keeps I (filePathForId i)" for i
    unfolding fileInfoForId_def filePathForId_def by (intro steps)+
  show "keeps I (fm_perform sys c)"
    by (cases c) (auto simp: forget_def intro!: steps events dbnotes timer process cleanup reset find info)
  show "keeps I (fm_loadRData sys)" "keeps I (fm_saveRData sys)"
    unfolding fm_loadRData_def fm_saveRData_def by (intro steps)+
  show "keeps I (initFileManager sys dir con wsid recid)"
    unfolding initFileManager_def setWorkingDir_def fm_connect_def initializeSource_def setupInotify_def
    by (intro steps watch) simp_all
qed

end
