(* ===== verification/File_Manager_Behaviour.thy ===== *)
theory File_Manager_Behaviour
  imports File_Manager_Laws
begin

text \<open>
  The properties of the file manager: the invariant on every reachable state, which exceptions the
  callbacks let through, what each kind of notification and event does, image batches, and
  suspending.
\<close>

section \<open>Exceptions that leave a callback\<close>

definition no_std :: "('s, 'a) act \<Rightarrow> bool" where
  "no_std m \<longleftrightarrow> (\<forall>s. case fst (m s) of Inl e \<Rightarrow> \<not> is_std_exception e | Inr _ \<Rightarrow> True)"

lemma no_std_catch: "no_std (try_catch is_std_exception m (\<lambda>e. skip))"
  by (auto simp: no_std_def try_catch_def skip_apply split: prod.splits sum.splits)

lemma no_std_skip: "no_std skip"
  by (simp add: no_std_def skip_apply)

lemma no_std_gets: "no_std (gets f)"
  by (simp add: no_std_def gets_def)

lemma no_std_modify: "no_std (modify f)"
  by (simp add: no_std_def modify_def)

lemma no_std_bind:
  assumes "no_std m" and "\<And>a. no_std (f a)"
  shows "no_std (bind m f)"
  unfolding no_std_def
proof
  fix s
  obtain r t where m: "m s = (r, t)" by force
  have "case r of Inl e \<Rightarrow> \<not> is_std_exception e | Inr _ \<Rightarrow> True"
    using assms(1) m by (auto simp: no_std_def dest!: spec [of _ s])
  with m assms(2) show "case fst (bind m f s) of Inl e \<Rightarrow> \<not> is_std_exception e | Inr _ \<Rightarrow> True"
    by (cases r) (auto simp: bind_def no_std_def)
qed

lemma no_std_seq: "no_std m \<Longrightarrow> no_std n \<Longrightarrow> no_std (seq m n)"
  by (simp add: seq_def no_std_bind)

lemma no_std_if: "(b \<Longrightarrow> no_std m) \<Longrightarrow> (\<not> b \<Longrightarrow> no_std n) \<Longrightarrow> no_std (if b then m else n)"
  by simp

lemma no_std_for_each: "(\<And>x. no_std (f x)) \<Longrightarrow> no_std (for_each xs f)"
  by (induction xs) (simp_all add: no_std_skip no_std_seq)

lemmas no_std_rules = no_std_catch no_std_skip no_std_gets no_std_modify no_std_bind no_std_seq no_std_if
  no_std_for_each

lemma ignoreFS_no_std: "no_std fm_ignoreFSNotifications"
  unfolding fm_ignoreFSNotifications_def by (intro no_std_rules)

lemma handleInotifyEvent_no_std: "no_std (handleInotifyEvent sys events)"
  unfolding handleInotifyEvent_def handle_event_def Let_def by (intro no_std_rules ignoreFS_no_std)

lemma processDBNotification_no_std: "no_std (processDBNotification sys message)"
  unfolding processDBNotification_def Let_def by (intro no_std_rules)


section \<open>Reachable states\<close>

text \<open>
  In every state a session's file manager reaches, by any interleaving of inotify events,
  database notifications, timer events and the session's own calls, the cache holds no null or
  dangling pointer and files each object under its id, every watch descriptor in the table points
  to an existing object, every pending image is filed under its descriptor, and exactly one timer
  is pending while events are ignored, none otherwise.
\<close>

theorem reachable_manager_wf:
  assumes "fm_reach sys s"
  shows "fm_wf s"
  using assms
proof (induction rule: fm_reach.induct)
  case (initialised s dir con wsid sid s')
  then show ?case by (rule initFileManager_wf)
next
  case (step s s')
  then show ?case by (blast intro: fm_step_wf)
qed

definition example_fm :: "pg_result list \<Rightarrow> toy fm" where
  "example_fm replies =
     \<lparr>world = toy_world\<lparr>tw_replies := replies\<rparr>, tx_open = False,
      fi_heap = [], ds_dbcon = None, ds_wspaceId = 0, ds_workingDir = [], ds_filesById = [],
      fm_wspaceId = 0, fm_sessionRecId = 0, fm_sessionImageBatch = 0, fm_hasSource = False, fm_dbcon = None,
      fm_manuallyAddedFiles = {}, fm_filesByWatchDesc = [], fm_pendingImages = [], fm_imageIds = [],
      fm_workingDir = [], fm_inotifyEvent = None, fm_inotifyFd = -1, fm_rootWd = 0, fm_ignoreFS = False,
      fm_ignoreDB = False, fm_timers = 0, fm_dbEvent = False\<rparr>"

definition example_fm_replies :: "pg_result list" where
  "example_fm_replies =
     [rows_reply [[''5'', ''ws'']],
      rows_reply [[[CHR 0x00, CHR 0x00, CHR 0x00, CHR 0x07], [CHR 0x00, CHR 0x00, CHR 0x00, CHR 0x04],
                   ''b.R'', [CHR 0x00, CHR 0x00, CHR 0x00, CHR 0x4D], ''y<-2'']]]"

lemma example_fm_fresh: "fm_fresh (example_fm replies)"
  by (simp add: fm_fresh_def example_fm_def)

lemma example_fm_init:
  "fst (initFileManager toy_sys ''wd'' (Some 1) 5 6 (example_fm example_fm_replies)) = Inr ()"
  by code_simp

definition example_running :: "toy fm" where
  "example_running = snd (initFileManager toy_sys ''wd'' (Some 1) 5 6 (example_fm example_fm_replies))"

lemma example_init_run:
  "initFileManager toy_sys ''wd'' (Some 1) 5 6 (example_fm example_fm_replies) = (Inr (), example_running)"
  using example_fm_init by (simp add: example_running_def prod_eq_iff)

theorem reachable_manager_wf_witness: "fm_wf example_running \<and> dom (omap_find (fm_filesByWatchDesc example_running)) \<noteq> {}"
proof -
  have "fm_reach toy_sys example_running"
    by (rule fm_reach.initialised [OF example_fm_fresh example_init_run])
  moreover have "omap_find (fm_filesByWatchDesc example_running) 2 = Some (Some 0)"
    by code_simp
  ultimately show ?thesis using reachable_manager_wf by blast
qed

section \<open>Notifications\<close>

lemma c_str_dec: "c_str (dec x) = dec x"
proof (rule c_str_id)
  have "\<not> is_digit CHR 0x00" by (simp add: is_digit_def)
  then show "CHR 0x00 \<notin> set (dec x)" using dec_nat_digits by (auto simp: dec_def)
qed

definition handle_notification :: "'w sys \<Rightarrow> char \<Rightarrow> int \<Rightarrow> (('w, 'z) fm_scheme, unit) act" where
  "handle_notification sys type fileId =
     (if type = CHR ''d'' then delete_notification sys fileId
      else if type = CHR ''i'' then insert_notification sys fileId
      else update_notification sys fileId)"

lemma decode_notification:
  assumes "type \<in> {CHR ''i'', CHR ''u'', CHR ''d''}" and "CHR ''/'' \<notin> set rest"
    and "LONG_MIN \<le> fileId" "fileId \<le> LONG_MAX" and "LONG_MIN \<le> wsid" "wsid \<le> LONG_MAX"
  shows "processDBNotification sys (type # dec fileId @ ''/'' @ dec wsid @ ''/'' @ rest) s =
    (if wsid \<noteq> fm_wspaceId s then (Inr (), s)
     else try_catch is_std_exception (handle_notification sys type fileId) (\<lambda>e. skip) s)"
proof -
  have "split_slash (dec fileId @ ''/'' @ dec wsid @ ''/'' @ rest) = [dec fileId, dec wsid, rest]"
    using assms(2) by (simp add: split_slash_append split_slash_plain dec_no_slash)
  moreover have "atol (c_str (dec fileId)) = fileId" "atol (c_str (dec wsid)) = wsid"
    using assms(3-6) by (simp_all add: c_str_dec atol_dec)
  ultimately show ?thesis
    using assms(1)
    by (auto simp: processDBNotification_def Let_def bind_gets skip_apply handle_notification_def)
qed

text \<open>
  A notification \<open><type><file id>/<workspace id>/<rest>\<close> in the format the database sends is
  decoded exactly: one for another workspace, of any type and for any pair of \<open>long\<close>s, has no
  effect at all, and one for this workspace runs the handler of its type on that file id, any
  exception of which ends there.
\<close>

theorem notification_decoded:
  assumes "type \<in> {CHR ''i'', CHR ''u'', CHR ''d''}" and "CHR ''/'' \<notin> set rest"
    and "LONG_MIN \<le> fileId" "fileId \<le> LONG_MAX" and "LONG_MIN \<le> wsid" "wsid \<le> LONG_MAX"
  shows "processDBNotification sys (type # dec fileId @ ''/'' @ dec wsid @ ''/'' @ rest) s =
    (if wsid \<noteq> fm_wspaceId s then (Inr (), s)
     else try_catch is_std_exception (handle_notification sys type fileId) (\<lambda>e. skip) s)"
  by (rule decode_notification [OF assms])

theorem notification_decoded_witness:
  "processDBNotification toy_sys ''d7/9/x'' (example_fm []) = (Inr (), example_fm [])"
proof -
  have "dec 7 = ''7''" "dec 9 = ''9''" by code_simp+
  moreover have "fm_wspaceId (example_fm []) = 0" by (simp add: example_fm_def)
  ultimately show ?thesis
    using notification_decoded [of "CHR ''d''" "''x''" 7 9 toy_sys "example_fm []"]
    by (simp add: LONG_MIN_def LONG_MAX_def)
qed

text \<open>What the deletion of a watched file does.\<close>

lemma delete_notification_run:
  assumes "fm_hasSource s" and "omap_find (ds_filesById s) fileId = Some (Some a)" and "a < length (fi_heap s)"
    and "fi_watchDescriptor (fi_heap s ! a) = Some wd"
    and "sys_remove sys (fm_workingDir s @ ''/'' @ fi_path (fi_heap s ! a)) (inotify_rm_watch sys (fm_inotifyFd s) wd (world s))
      = (Inr ok, w)"
  shows "delete_notification sys fileId s = (Inr (), s\<lparr>world := w,
      ds_filesById := omap_erase fileId (ds_filesById s),
      fm_filesByWatchDesc := omap_erase (to_int32 fileId) (fm_filesByWatchDesc s)\<rparr>)"
  using assms
  by (simp add: delete_notification_def try_catch_def on_source_def act_simps deref_Some)

text \<open>
  Deleting through a notification removes the file from the cache and from the disk and removes
  its inotify watch, but not its entry in the table of watches, which is filed under the watch
  descriptor while the code erases the file id: the entry stays whenever the two differ.
\<close>

theorem deletion_leaves_watch_entry:
  assumes "fm_wf s" and "fm_hasSource s"
    and "omap_find (ds_filesById s) fileId = Some (Some a)" and "fi_watchDescriptor (fi_heap s ! a) = Some wd"
    and "omap_find (fm_filesByWatchDesc s) wd = Some (Some a)" and "wd \<noteq> to_int32 fileId"
    and "sys_remove sys (fm_workingDir s @ ''/'' @ fi_path (fi_heap s ! a)) (inotify_rm_watch sys (fm_inotifyFd s) wd (world s))
      = (Inr ok, w)"
  shows "\<exists>s'. delete_notification sys fileId s = (Inr (), s') \<and> world s' = w \<and>
    omap_find (ds_filesById s') fileId = None \<and> omap_find (fm_filesByWatchDesc s') wd = Some (Some a)"
proof -
  have a: "a < length (fi_heap s)" and inv: "omap_inv (ds_filesById s)" "omap_inv (fm_filesByWatchDesc s)"
    using assms(1,3) by (auto simp: fm_wf_def files_wf_def watch_wf_def)
  show ?thesis
    using delete_notification_run [OF assms(2,3) a assms(4,7)] assms(5,6)
    by (simp add: om.find_erase inv)
qed

theorem deletion_leaves_watch_entry_witness:
  "\<exists>s'. delete_notification toy_sys 7 example_running = (Inr (), s') \<and>
    omap_find (fm_filesByWatchDesc s') 2 = Some (Some 0)"
proof -
  let ?w = "(world example_running)\<lparr>tw_files := []\<rparr>"
  have "fm_wf example_running" by (rule initFileManager_wf [OF example_fm_fresh example_init_run])
  moreover have "fm_hasSource example_running" by code_simp
  moreover have "omap_find (ds_filesById example_running) 7 = Some (Some 0)" by code_simp
  moreover have "fi_watchDescriptor (fi_heap example_running ! 0) = Some 2" by code_simp
  moreover have "omap_find (fm_filesByWatchDesc example_running) 2 = Some (Some 0)" by code_simp
  moreover have "(2 :: int) \<noteq> to_int32 7" by (simp add: to_int32_id)
  moreover have "sys_remove toy_sys (fm_workingDir example_running @ ''/'' @ fi_path (fi_heap example_running ! 0))
      (inotify_rm_watch toy_sys (fm_inotifyFd example_running) 2 (world example_running)) = (Inr True, ?w)"
    by code_simp
  ultimately have "\<exists>s'. delete_notification toy_sys 7 example_running = (Inr (), s') \<and> world s' = ?w \<and>
    omap_find (ds_filesById s') 7 = None \<and> omap_find (fm_filesByWatchDesc s') 2 = Some (Some 0)"
    by (rule deletion_leaves_watch_entry)
  then show ?thesis by blast
qed

section \<open>Images\<close>

text \<open>\<open>images_are\<close>: the ids and the batch number are these. After the batch was looked up a positive
  number has not changed; then one id is added.\<close>

definition images_are :: "int \<Rightarrow> int list \<Rightarrow> ('w, 'z) fm_scheme \<Rightarrow> bool" where
  "images_are batch ids s \<longleftrightarrow> fm_imageIds s = ids \<and> fm_sessionImageBatch s = batch"

definition batch_kept :: "int \<Rightarrow> int list \<Rightarrow> ('w, 'z) fm_scheme \<Rightarrow> bool" where
  "batch_kept batch ids s \<longleftrightarrow> fm_imageIds s = ids \<and> (0 < batch \<longrightarrow> fm_sessionImageBatch s = batch)"

definition image_added :: "int \<Rightarrow> int list \<Rightarrow> ('w, 'z) fm_scheme \<Rightarrow> bool" where
  "image_added batch ids s \<longleftrightarrow>
     (\<exists>imgId > 0. fm_imageIds s = ids @ [imgId]) \<and> (0 < batch \<longrightarrow> fm_sessionImageBatch s = batch)"

lemma images_conn_free:
  "conn_free (images_are batch ids)" "conn_free (batch_kept batch ids)" "conn_free (image_added batch ids)"
  by (simp_all add: conn_free_def world_free_def images_are_def batch_kept_def image_added_def)

lemma images_world_free:
  "world_free (images_are batch ids)" "world_free (batch_kept batch ids)" "world_free (image_added batch ids)"
  by (simp_all add: world_free_def images_are_def batch_kept_def image_added_def)

lemma image_batch_kept:
  "ensures (images_are batch ids) (image_batch sys con) (\<lambda>_. batch_kept batch ids) (\<lambda>_ _. True)"
  unfolding image_batch_def
proof (rule ensures_bind [where R = "\<lambda>old s. images_are batch ids s \<and> old = batch"])
  show "ensures (images_are batch ids) (gets fm_sessionImageBatch)
      (\<lambda>old s. images_are batch ids s \<and> old = batch) (\<lambda>_ _. True)"
    by (rule ensures_gets) (simp add: images_are_def)
  fix old
  have "keeps (\<lambda>s. images_are batch ids s \<and> old = batch) (longFromQuery sys con q)" for q
    by (rule keeps_conn(3)) (use images_conn_free(1) [of batch ids] in \<open>auto simp: conn_free_def world_free_def\<close>)
  then show "ensures (\<lambda>s. images_are batch ids s \<and> old = batch)
     (if old \<le> 0 then
       bind (gets (\<lambda>s. ''select max(batchid) from sessionimage where sessionid = '' @ dec (fm_sessionRecId s))) (\<lambda>q.
       bind (longFromQuery sys con q) (\<lambda>n. modify (\<lambda>s. s\<lparr>fm_sessionImageBatch := n + 1\<rparr>)))
      else skip) (\<lambda>_. batch_kept batch ids) (\<lambda>_ _. True)"
    by (intro ensures_if yields_bind keeps_gets)
      (auto simp: ensures_def modify_apply skip_apply images_are_def batch_kept_def)
qed

lemma insertImage_added:
  assumes "sys_read_file sys (dir @ ''/'' @ fname) w = Some data" and "data \<noteq> []"
  shows "ensures (\<lambda>s. images_are batch ids s \<and> fm_workingDir s = dir \<and> world s = w)
    (insertImage sys fname num) (\<lambda>_. image_added batch ids) (\<lambda>_ _. True)"
proof -
  have finish: "ensures (batch_kept batch ids)
     (seq (modify (\<lambda>s. s\<lparr>fm_imageIds := fm_imageIds s @ [imgId]\<rparr>))
      (seq fm_ignoreFSNotifications (bind (fs_do (sys_remove sys f)) (\<lambda>_. ret 0))))
     (\<lambda>_. image_added batch ids) (\<lambda>_ _. True)" if "0 < imgId" for imgId f
  proof (rule ensures_seq [where R = "\<lambda>_. image_added batch ids"])
    show "ensures (batch_kept batch ids) (modify (\<lambda>s. s\<lparr>fm_imageIds := fm_imageIds s @ [imgId]\<rparr>))
        (\<lambda>_. image_added batch ids) (\<lambda>_ _. True)"
      using that by (intro ensures_modify) (simp add: batch_kept_def image_added_def)
    have "keeps (image_added batch ids) fm_ignoreFSNotifications"
      unfolding fm_ignoreFSNotifications_def
      by (intro keeps_rules keeps_modify) (simp add: image_added_def)
    then show "ensures (image_added batch ids) (seq fm_ignoreFSNotifications (bind (fs_do (sys_remove sys f)) (\<lambda>_. ret 0)))
        (\<lambda>_. image_added batch ids) (\<lambda>_ _. True)"
      by (intro yields_seq yields_bind keeps_os(4) [OF images_world_free(3)]) (auto intro: ensures_ret)
  qed
  have store: "ensures (images_are batch ids)
      (bind (gets fm_dbcon) (\<lambda>con.
       bind (longFromQuery sys con ''select nextval('sessionimage_seq'::regclass)'') (\<lambda>imgId.
       if imgId \<le> 0 then throw (formatted ''failed to get session image id'')
       else
         seq (image_batch sys con)
         (bind (gets (q imgId)) (\<lambda>query.
          bind (executeQueryParams sys con query [pq_param data] 1) (\<lambda>res.
          if \<not> commandOK res then throw (formatted (''failed to insert image in db: '' @ errorMessage res))
          else
            seq (modify (\<lambda>s. s\<lparr>fm_imageIds := fm_imageIds s @ [imgId]\<rparr>))
            (seq fm_ignoreFSNotifications (bind (fs_do (sys_remove sys f)) (\<lambda>_. ret 0))))))))) 
      (\<lambda>_. image_added batch ids) (\<lambda>_ _. True)" for q f
    by (intro yields_bind keeps_gets keeps_conn(3) [OF images_conn_free(1)] ensures_if yields_throw
        ensures_seq [OF image_batch_kept] keeps_conn(2) [OF images_conn_free(2)] finish) simp
  show ?thesis
  proof (rule ensuresI)
    fix s assume s: "images_are batch ids s \<and> fm_workingDir s = dir \<and> world s = w"
    then have "ReadFileBlob sys (dir @ ''/'' @ fname) s = (Inr data, s)"
      using assms(1) by (simp add: ReadFileBlob_def act_simps)
    then have read: "ReadFileBlob sys (fm_workingDir s @ ''/'' @ fname) s = (Inr data, s)"
      using s by simp
    have nonempty: "(length data < 1) = False" using assms(2) by (simp add: Suc_le_eq not_less)
    from s have "images_are batch ids s" by simp
    then show "case insertImage sys fname num s of (Inr a, s') \<Rightarrow> image_added batch ids s' | (Inl e, s') \<Rightarrow> True"
      unfolding insertImage_def bind_gets [of _ _ s]
        bind_Inr [where m = "ReadFileBlob sys (fm_workingDir s @ ''/'' @ fname)" and s = s, OF read] nonempty if_False
      by (rule store [unfolded ensures_def, THEN spec [of _ s], THEN mp, unfolded bind_gets [of _ _ s]])
  qed
qed

lemma stopImageWatch_keeps_images: "keeps (image_added batch ids) (stopImageWatch sys wd)"
  unfolding stopImageWatch_def
  by (intro keeps_rules keeps_os(2) [OF images_world_free(3)] keeps_modify) (simp add: image_added_def)

lemma stopImageWatch_erases: "ensures P (stopImageWatch sys wd) (\<lambda>_ s. omap_find (fm_pendingImages s) wd = None) (\<lambda>_ _. True)"
  by (auto simp: ensures_def stopImageWatch_def act_simps omap_find_erase)

text \<open>
  C26. Images are collected in order and in one batch. When inotify reports that a pending image
  with data was written and its treatment returns, exactly one positive id was appended to the ids
  of this run, a batch number already chosen has not changed, and the image is no longer pending.
  \<open>resetWatch\<close> starts the next run: no ids, and the next batch number exactly if the run had images.
\<close>

theorem written_image_is_added:
  assumes "omap_find (fm_pendingImages s) wd = Some img"
    and "sys_read_file sys (fm_workingDir s @ ''/'' @ pi_fileName img) (world s) = Some data" and "data \<noteq> []"
    and "handle_close_write sys wd s = (Inr (), s')"
  shows "image_added (fm_sessionImageBatch s) (fm_imageIds s) s' \<and> omap_find (fm_pendingImages s') wd = None \<and>
    (\<forall>t. resetWatch s' = (Inr (), t) \<longrightarrow>
       fm_imageIds t = [] \<and> fm_sessionImageBatch t = fm_sessionImageBatch s' + 1)"
proof -
  have run: "bind (insertImage sys (pi_fileName img) (pi_imgNumStr img)) (\<lambda>_. stopImageWatch sys wd) s = (Inr (), s')"
    using assms(1,4) by (simp add: handle_close_write_def bind_gets)
  have s: "images_are (fm_sessionImageBatch s) (fm_imageIds s) s \<and> fm_workingDir s = fm_workingDir s \<and> world s = world s"
    by (simp add: images_are_def)
  note ins = insertImage_added [OF assms(2,3), of "fm_sessionImageBatch s" "fm_imageIds s" "pi_imgNumStr img"]
  have "ensures (image_added (fm_sessionImageBatch s) (fm_imageIds s)) (stopImageWatch sys wd)
      (\<lambda>_. image_added (fm_sessionImageBatch s) (fm_imageIds s)) (\<lambda>_ _. True)"
    by (rule keeps_yields [OF stopImageWatch_keeps_images])
  then have "ensures (\<lambda>t. images_are (fm_sessionImageBatch s) (fm_imageIds s) t \<and> fm_workingDir t = fm_workingDir s \<and> world t = world s)
      (bind (insertImage sys (pi_fileName img) (pi_imgNumStr img)) (\<lambda>_. stopImageWatch sys wd))
      (\<lambda>_. image_added (fm_sessionImageBatch s) (fm_imageIds s)) (\<lambda>_ _. True)"
    by (rule ensures_bind [OF ins])
  from ensuresD_ok [OF this s run] have added: "image_added (fm_sessionImageBatch s) (fm_imageIds s) s'" .
  have "ensures (\<lambda>_. True) (bind (insertImage sys (pi_fileName img) (pi_imgNumStr img)) (\<lambda>_. stopImageWatch sys wd))
      (\<lambda>_ t. omap_find (fm_pendingImages t) wd = None) (\<lambda>_ _. True)"
    by (rule yields_bind [OF _ stopImageWatch_erases]) (simp add: keeps_def)
  from ensuresD_ok [OF this _ run] have "omap_find (fm_pendingImages s') wd = None" by simp
  moreover have "fm_imageIds s' \<noteq> []" using added by (auto simp: image_added_def)
  ultimately show ?thesis using added by (auto simp: resetWatch_def act_simps)
qed

definition example_image :: "toy fm" where
  "example_image = (example_fm [])
     \<lparr>world := toy_world\<lparr>tw_files := [(''wd/rc2img001.png'', ''PNG'', 1)],
        tw_replies := [rows_reply [[''31'']], rows_reply [[''4'']], ok_reply]\<rparr>,
      fm_workingDir := ''wd'',
      fm_pendingImages := [(3, \<lparr>pi_fileName = ''rc2img001.png'', pi_imgNumStr = ''001'', pi_wd = 3\<rparr>)]\<rparr>"

theorem written_image_is_added_witness:
  "\<exists>s'. handle_close_write toy_sys 3 example_image = (Inr (), s') \<and> omap_find (fm_pendingImages s') 3 = None"
proof -
  have "fst (handle_close_write toy_sys 3 example_image) = Inr ()" by code_simp
  then obtain s' where run: "handle_close_write toy_sys 3 example_image = (Inr (), s')" by (metis prod.collapse)
  have "omap_find (fm_pendingImages example_image) 3
      = Some \<lparr>pi_fileName = ''rc2img001.png'', pi_imgNumStr = ''001'', pi_wd = 3\<rparr>"
    by (simp add: example_image_def)
  moreover have "sys_read_file toy_sys (fm_workingDir example_image @ ''/'' @
      pi_fileName \<lparr>pi_fileName = ''rc2img001.png'', pi_imgNumStr = ''001'', pi_wd = 3\<rparr>) (world example_image) = Some ''PNG''"
    by (simp add: example_image_def toy_sys_def)
  ultimately show ?thesis using written_image_is_added [OF _ _ _ run] run by blast
qed

section \<open>Looking files up by name\<close>

lemma find_named_run:
  "\<forall>e\<in>set es. \<exists>a. snd e = Some a \<and> a < length (fi_heap s) \<Longrightarrow>
    find_named fname es s =
      (Inr (map_option (\<lambda>e. fi_heap s ! the (snd e)) (List.find (\<lambda>e. fi_name (fi_heap s ! the (snd e)) = fname) es)), s)"
  by (induction es) (auto simp: act_simps deref_Some)

lemma files_wf_entries: "files_wf s \<Longrightarrow> \<forall>e\<in>set (ds_filesById s). \<exists>a. snd e = Some a \<and> a < length (fi_heap s)"
  unfolding files_wf_def by (metis om.entries_iff prod.collapse)

text \<open>
  \<open>findOrAddFile\<close> never duplicates a name: when the cache has files of that name, it returns the
  one with the least id and changes nothing; only when it has none does it insert the file in the
  database.
\<close>

theorem findOrAddFile_existing:
  assumes "fm_wf s" and "fm_hasSource s"
    and "omap_find (ds_filesById s) k = Some (Some a)" and "fi_name (fi_heap s ! a) = fname"
  shows "\<exists>j b. findOrAddFile sys fname s =
      (Inr \<lparr>info_id = fi_id (fi_heap s ! b), info_version = fi_version (fi_heap s ! b), info_name = fname\<rparr>, s) \<and>
    omap_find (ds_filesById s) j = Some (Some b) \<and> fi_name (fi_heap s ! b) = fname \<and> j \<le> k \<and>
    (\<forall>i c. omap_find (ds_filesById s) i = Some (Some c) \<longrightarrow> fi_name (fi_heap s ! c) = fname \<longrightarrow> j \<le> i)"
proof -
  let ?P = "\<lambda>e. fi_name (fi_heap s ! the (snd e)) = fname"
  have wf: "files_wf s" and inv: "omap_inv (ds_filesById s)"
    using assms(1) by (auto simp: fm_wf_def files_wf_def)
  have "\<exists>e. List.find ?P (ds_filesById s) = Some e"
  proof (rule ccontr)
    assume "\<nexists>e. List.find ?P (ds_filesById s) = Some e"
    then have "List.find ?P (ds_filesById s) = None" by (metis option.exhaust)
    from om.no_match [OF inv this assms(3)] assms(4) show False by simp
  qed
  then obtain j p where jp: "List.find ?P (ds_filesById s) = Some (j, p)" by (metis prod.exhaust)
  from om.first_match [OF inv jp] have j: "omap_find (ds_filesById s) j = Some p" "?P (j, p)"
    and least: "\<forall>i w. omap_find (ds_filesById s) i = Some w \<longrightarrow> ?P (i, w) \<longrightarrow> j \<le> i"
    by blast+
  from wf j(1) obtain b where b: "p = Some b" by (auto simp: files_wf_def)
  have "findOrAddFile sys fname s =
      (Inr \<lparr>info_id = fi_id (fi_heap s ! b), info_version = fi_version (fi_heap s ! b), info_name = fname\<rparr>, s)"
    using assms(2) find_named_run [OF files_wf_entries [OF wf], of fname] jp b j(2)
    by (simp add: findOrAddFile_def on_source_def act_simps)
  moreover have "j \<le> k" using least assms(3,4) by fastforce
  moreover have "\<forall>i c. omap_find (ds_filesById s) i = Some (Some c) \<longrightarrow> fi_name (fi_heap s ! c) = fname \<longrightarrow> j \<le> i"
    using least by fastforce
  ultimately show ?thesis using j b by auto
qed

theorem findOrAddFile_existing_witness:
  "\<exists>i. findOrAddFile toy_sys ''b.R'' example_running = (Inr i, example_running)"
proof -
  have "fm_wf example_running" by (rule initFileManager_wf [OF example_fm_fresh example_init_run])
  moreover have "fm_hasSource example_running" by code_simp
  moreover have "omap_find (ds_filesById example_running) 7 = Some (Some 0)" by code_simp
  moreover have "fi_name (fi_heap example_running ! 0) = ''b.R''" by code_simp
  ultimately show ?thesis using findOrAddFile_existing by blast
qed

section \<open>Suspending\<close>

lemma setupInotify_enables:
  "ensures (\<lambda>_. True) (setupInotify sys) (\<lambda>_ s. fm_inotifyEvent s = Some (EV_WRITE + EV_READ)) (\<lambda>_ _. True)"
proof -
  have any: "keeps (\<lambda>_. True) m" for m :: "('s, 'x) act" by (simp add: keeps_def)
  show ?thesis
    unfolding setupInotify_def
    by (intro yields_bind yields_seq ensures_if yields_throw any ensures_modify) simp
qed

text \<open>
  The conditions of \<open>suspendNotifyEvents\<close> and \<open>resumeNotifyEvents\<close> are the wrong way round:
  once the watch is set up, suspending throws and leaves the events enabled, while resuming
  returns and disables reading, so that after it no file system event arrives.
\<close>

theorem suspend_and_resume_inverted:
  assumes "setupInotify sys s = (Inr (), s')"
  shows "suspendNotifyEvents s' = (Inl (RuntimeError ''notify events already suspended''), s') \<and>
    resumeNotifyEvents s' = (Inr (), s'\<lparr>fm_inotifyEvent := Some EV_WRITE\<rparr>)"
proof -
  have "fm_inotifyEvent s' = Some (EV_WRITE + EV_READ)"
    using ensuresD_ok [OF setupInotify_enables _ assms] by simp
  then show ?thesis
    by (simp add: suspendNotifyEvents_def resumeNotifyEvents_def act_simps EV_READ_def EV_WRITE_def disable_read_def)
qed

theorem suspend_and_resume_inverted_witness:
  "fst (suspendNotifyEvents (snd (setupInotify toy_sys ((example_fm [])\<lparr>fm_hasSource := True\<rparr>))))
    = Inl (RuntimeError ''notify events already suspended'')"
proof -
  have "fst (setupInotify toy_sys ((example_fm [])\<lparr>fm_hasSource := True\<rparr>)) = Inr ()" by code_simp
  then obtain s' where run: "setupInotify toy_sys ((example_fm [])\<lparr>fm_hasSource := True\<rparr>) = (Inr (), s')"
    by (metis prod.collapse)
  from suspend_and_resume_inverted [OF run] run show ?thesis by simp
qed

text \<open>\<open>executeDBCommand\<close> reports the opposite of what happened: true exactly if the command failed.\<close>

theorem executeDBCommand_inverted:
  "fst (fm_executeDBCommand sys cmd s) = Inr (\<not> commandOK (fst (pq_exec sys (fm_dbcon s) cmd (world s))))"
  by (simp add: fm_executeDBCommand_def executeQuery_def act_simps split: prod.splits)

end
