(* ===== verification/Db_Cache_View.thy ===== *)
theory Db_Cache_View
  imports Db_File_Source
begin

text \<open>
  An abstract view of \<open>DBFileSource\<close>'s cache and the proof that the code implements it. Abstractly
  the cache is a partial map from file ids to versions and names, and every operation is a function
  on that map; \<open>cache_view\<close> reads the map off the table, the pointers in it and the objects they
  point to. The operations are the transitions of \<open>cache_step\<close>, labelled with what the outside
  decided (the rows that came back, the id that the sequence gave). Which transition an operation
  takes depends on the server's answer and on whether it threw, never on what it did to the cache; an
  operation that failed, or was refused by the server, is a transition that leaves the view alone.
\<close>

section \<open>The view\<close>

type_synonym view = "int \<rightharpoonup> int \<times> string"

definition cache_view :: "('w, 'z) db_source_scheme \<Rightarrow> view" where
  "cache_view s k = (case omap_find (ds_filesById s) k of
      Some (Some a) \<Rightarrow> (if a < length (fi_heap s) then Some (fi_version (fi_heap s ! a), fi_name (fi_heap s ! a)) else None)
    | _ \<Rightarrow> None)"

datatype cache_event =
    Loaded "file_entry list"
  | Inserted int string
  | Updated int
  | Removed int
  | Forgotten int
  | Failed

text \<open>
  A new id does not displace an entry; the version of an updated file is an \<open>int\<close>; a file removed
  from the database is erased under the id its object carries, 32 bits of it.
\<close>

definition enter_row :: "file_entry \<Rightarrow> view \<Rightarrow> view" where
  "enter_row e v = v(uint (fe_id e) \<mapsto> (uint (fe_version e), fe_name e))"

fun apply_event :: "cache_event \<Rightarrow> view \<Rightarrow> view" where
  "apply_event (Loaded es) v = fold enter_row es v"
| "apply_event (Inserted k f) v = (if v k = None then v(k \<mapsto> (1, f)) else v)"
| "apply_event (Updated k) v = v(k := map_option (\<lambda>(n, f). (to_int32 (n + 1), f)) (v k))"
| "apply_event (Removed k) v = v(to_uint32 k := None)"
| "apply_event (Forgotten k) v = v(k := None)"
| "apply_event Failed v = v"

section \<open>The operations\<close>

text \<open>
  The program updates and removes files through pointers taken from the cache. \<open>delete_reply\<close> is the
  server's answer to the command that \<open>removeDBFile\<close> sends.
\<close>

definition delete_reply :: "'w sys \<Rightarrow> pgconn option \<Rightarrow> nat \<Rightarrow> ('w, 'z) db_source_scheme \<Rightarrow> pg_result" where
  "delete_reply sys con a s = fst (pq_exec sys con (''delete from rcfile where id = '' @ dec (fi_id (fi_heap s ! a))) (world s))"

inductive cache_step :: "'w sys \<Rightarrow> ('w, 'z) db_source_scheme \<Rightarrow> cache_event \<Rightarrow> ('w, 'z) db_source_scheme \<Rightarrow> bool"
  for sys where
  load: "ds_dbcon s = Some con \<Longrightarrow> has_rows (fst (pq_exec_params sys con (loadFiles_query q) [] 1 (world s))) (map file_row es) \<Longrightarrow>
    \<forall>e\<in>set es. file_entry_ok e \<Longrightarrow> loadFiles sys q s = (Inr (), s') \<Longrightarrow> cache_step sys s (Loaded es) s'"
| load_refused: "ds_dbcon s = Some con \<Longrightarrow> \<not> dataReturned (fst (pq_exec_params sys con (loadFiles_query q) [] 1 (world s))) \<Longrightarrow>
    loadFiles sys q s = (r, s') \<Longrightarrow> cache_step sys s Failed s'"
| insert: "insertDBFile sys f s = (Inr k, s') \<Longrightarrow> cache_step sys s (Inserted k f) s'"
| insert_fails: "insertDBFile sys f s = (Inl e, s') \<Longrightarrow> \<not> is_ub e \<Longrightarrow> cache_step sys s Failed s'"
| update: "omap_find (ds_filesById s) k = Some p \<Longrightarrow> updateDBFile sys p s = (Inr (), s') \<Longrightarrow>
    cache_step sys s (Updated k) s'"
| update_fails: "updateDBFile sys p s = (Inl e, s') \<Longrightarrow> \<not> is_ub e \<Longrightarrow> cache_step sys s Failed s'"
| remove: "ds_dbcon s = Some con \<Longrightarrow> omap_find (ds_filesById s) k = Some (Some a) \<Longrightarrow> removeDBFile sys (Some a) s = (Inr (), s') \<Longrightarrow>
    commandOK (delete_reply sys con a s) \<Longrightarrow> cache_step sys s (Removed k) s'"
| remove_refused: "ds_dbcon s = Some con \<Longrightarrow> omap_find (ds_filesById s) k = Some (Some a) \<Longrightarrow>
    removeDBFile sys (Some a) s = (Inr (), s') \<Longrightarrow> \<not> commandOK (delete_reply sys con a s) \<Longrightarrow> cache_step sys s Failed s'"
| remove_fails: "removeDBFile sys p s = (Inl e, s') \<Longrightarrow> \<not> is_ub e \<Longrightarrow> cache_step sys s Failed s'"
| forget: "removeLocalFile sys k s = (Inr (), s') \<Longrightarrow> cache_step sys s (Forgotten k) s'"
| forget_fails: "removeLocalFile sys k s = (Inl e, s') \<Longrightarrow> \<not> is_ub e \<Longrightarrow> cache_step sys s Failed s'"

inductive cache_steps :: "'w sys \<Rightarrow> ('w, 'z) db_source_scheme \<Rightarrow> cache_event list \<Rightarrow> ('w, 'z) db_source_scheme \<Rightarrow> bool"
  for sys where
  refl: "cache_steps sys s [] s"
| step: "cache_step sys s l t \<Longrightarrow> cache_steps sys t ls u \<Longrightarrow> cache_steps sys s (l # ls) u"

section \<open>Reading the view\<close>

text \<open>The object that is cached under an id, if its pointer is valid; the view is its version and name.\<close>

definition entry :: "('w, 'z) db_source_scheme \<Rightarrow> int \<rightharpoonup> dbfile_info" where
  "entry s k = (case omap_find (ds_filesById s) k of
      Some (Some a) \<Rightarrow> (if a < length (fi_heap s) then Some (fi_heap s ! a) else None)
    | _ \<Rightarrow> None)"

lemma cache_view_entry: "cache_view s k = map_option (\<lambda>fi. (fi_version fi, fi_name fi)) (entry s k)"
  by (simp add: cache_view_def entry_def split: option.split)

lemma view_of_entry:
  "entry s' = (entry s)(k \<mapsto> fi) \<Longrightarrow> cache_view s' = (cache_view s)(k \<mapsto> (fi_version fi, fi_name fi))"
  "entry s' = (entry s)(k := None) \<Longrightarrow> cache_view s' = (cache_view s)(k := None)"
  "entry s' = entry s \<Longrightarrow> cache_view s' = cache_view s"
  by (simp_all add: fun_eq_iff cache_view_entry)

lemma entryE:
  assumes "entry s k = Some fi"
  obtains a where "omap_find (ds_filesById s) k = Some (Some a)" "a < length (fi_heap s)" "fi_heap s ! a = fi"
  using assms by (auto simp: entry_def split: option.splits if_splits)

lemma entry_absent: "files_wf s \<Longrightarrow> entry s k = None \<longleftrightarrow> omap_find (ds_filesById s) k = None"
  by (fastforce simp: files_wf_def entry_def split: option.splits)

lemma view_entry:
  assumes "files_wf s" and "omap_find (ds_filesById s) k = Some p"
  obtains a where "p = Some a" "a < length (fi_heap s)" "fi_id (fi_heap s ! a) = to_uint32 k"
    "cache_view s k = Some (fi_version (fi_heap s ! a), fi_name (fi_heap s ! a))"
  using assms by (fastforce simp: files_wf_def cache_view_def)

lemma view_absent: "files_wf s \<Longrightarrow> cache_view s k = None \<longleftrightarrow> omap_find (ds_filesById s) k = None"
  by (simp add: cache_view_entry entry_absent)

text \<open>A new object, entered under a new id.\<close>

lemma entry_new:
  assumes "files_wf s" and "files_inj s" and "omap_find (ds_filesById s) k = None"
    and "fi_heap s' = fi_heap s @ [fi]"
    and "ds_filesById s' = omap_put k (Some (length (fi_heap s))) (ds_filesById s)"
  shows "entry s' = (entry s)(k \<mapsto> fi)" and "files_inj s'"
proof -
  have inv: "omap_inv (ds_filesById s)" using assms(1) by (simp add: files_wf_def)
  have old: "a < length (fi_heap s)" if "omap_find (ds_filesById s) j = Some (Some a)" for j a
    using assms(1) that by (auto simp: files_wf_def)
  show "entry s' = (entry s)(k \<mapsto> fi)"
  proof (rule ext)
    show "entry s' j = ((entry s)(k \<mapsto> fi)) j" for j
      using inv assms(3-5) old [of j]
      by (cases "j = k") (auto simp: entry_def om.find_put nth_append less_Suc_eq split: option.splits)
  qed
  show "files_inj s'"
    using assms(2,5) inv by (auto simp: files_inj_def om.find_put dest: old)
qed

lemmas view_new = view_of_entry(1) [OF entry_new(1)] entry_new(2)

text \<open>An object changed in place: only the entry that points to it sees it.\<close>

lemma entry_change:
  assumes "files_inj s" and "omap_find (ds_filesById s) k = Some (Some a)" and "a < length (fi_heap s)"
    and "fi_heap s' = (fi_heap s)[a := fi]" and "ds_filesById s' = ds_filesById s"
  shows "entry s' = (entry s)(k \<mapsto> fi)" and "files_inj s'"
proof -
  have other: "b \<noteq> a" if "omap_find (ds_filesById s) j = Some (Some b)" "j \<noteq> k" for j b
    using assms(1,2) that unfolding files_inj_def by blast
  show "entry s' = (entry s)(k \<mapsto> fi)"
  proof (rule ext)
    show "entry s' j = ((entry s)(k \<mapsto> fi)) j" for j
      using assms(2-5) other [of j]
      by (cases "j = k") (auto simp: entry_def nth_list_update split: option.splits)
  qed
  show "files_inj s'" using assms(1,5) by (simp add: files_inj_def)
qed

lemmas view_change = view_of_entry(1) [OF entry_change(1)] entry_change(2)

lemma entry_erase:
  assumes "files_wf s" and "files_inj s" and "fi_heap s' = fi_heap s"
    and "ds_filesById s' = omap_erase k (ds_filesById s)"
  shows "entry s' = (entry s)(k := None)" and "files_inj s'"
proof -
  have inv: "omap_inv (ds_filesById s)" using assms(1) by (simp add: files_wf_def)
  show "entry s' = (entry s)(k := None)"
    by (rule ext) (use inv assms(3,4) in \<open>simp add: entry_def om.find_erase split: option.splits\<close>)
  show "files_inj s'"
    using assms(2,4) inv by (auto simp: files_inj_def om.find_erase split: if_splits)
qed

lemmas view_erase = view_of_entry(2) [OF entry_erase(1)] entry_erase(2)

lemma entry_same:
  assumes "fi_heap s' = fi_heap s" and "ds_filesById s' = ds_filesById s"
  shows "entry s' = entry s" and "files_inj s' = files_inj s"
  using assms by (simp_all add: entry_def files_inj_def fun_eq_iff split: option.splits)

lemmas view_same = view_of_entry(3) [OF entry_same(1)] entry_same(2)

section \<open>Loading\<close>

lemma load_row_view:
  assumes row: "pg_rows res ! i = file_row e" "i < length (pg_rows res)" and ok: "file_entry_ok e"
    and wf: "files_wf s" and inj: "files_inj s"
  shows "\<exists>s'. load_row sys res i s = (Inr (), s') \<and> files_wf s' \<and> files_inj s' \<and>
    cache_view s' = enter_row e (cache_view s)"
proof (cases "omap_find (ds_filesById s) (uint (fe_id e))")
  case None
  obtain s' where run: "load_row sys res i s = (Inr (), s')"
    and s': "fi_heap s' = fi_heap s @ [new_DBFileInfo (uint (fe_id e)) (uint (fe_version e)) (fe_name e)]"
      "ds_filesById s' = omap_put (uint (fe_id e)) (Some (length (fi_heap s))) (ds_filesById s)"
    using load_row_unknown [OF row ok None, of sys] by simp
  from view_new [OF wf inj None s'] show ?thesis
    using run keepsD [OF load_row_files wf, of sys res i]
    by (simp add: enter_row_def new_DBFileInfo_def uint_id)
next
  case (Some p)
  obtain a where p: "p = Some a" and a: "a < length (fi_heap s)" by (rule view_entry [OF wf Some]) blast
  obtain s' where run: "load_row sys res i s = (Inr (), s')"
    and s': "fi_heap s' = (fi_heap s)[a := (fi_heap s ! a)\<lparr>fi_version := uint (fe_version e), fi_name := fe_name e\<rparr>]"
      "ds_filesById s' = ds_filesById s"
    using load_row_known [OF row ok Some [unfolded p] a, of sys] by simp
  from view_change [OF inj Some [unfolded p] a s'] show ?thesis
    using run keepsD [OF load_row_files wf, of sys res i] by (simp add: enter_row_def)
qed

lemma load_rows_view:
  "\<forall>j<length es. k + j < length (pg_rows res) \<and> pg_rows res ! (k + j) = file_row (es ! j) \<Longrightarrow>
    \<forall>e\<in>set es. file_entry_ok e \<Longrightarrow> files_wf s \<Longrightarrow> files_inj s \<Longrightarrow>
    \<exists>s'. for_each [k..<k + length es] (load_row sys res) s = (Inr (), s') \<and> files_wf s' \<and> files_inj s' \<and>
      cache_view s' = fold enter_row es (cache_view s)"
proof (induction es arbitrary: k s)
  case Nil
  then show ?case by (simp add: act_simps)
next
  case (Cons e es)
  have row: "k < length (pg_rows res)" "pg_rows res ! k = file_row e"
    using Cons.prems(1) [rule_format, of 0] by simp_all
  have ok: "file_entry_ok e" using Cons.prems(2) by simp
  obtain t where t: "load_row sys res k s = (Inr (), t)" "files_wf t" "files_inj t"
    "cache_view t = enter_row e (cache_view s)"
    using load_row_view [OF row(2,1) ok Cons.prems(3,4)] by blast
  have "\<exists>s'. for_each [Suc k..<Suc k + length es] (load_row sys res) t = (Inr (), s') \<and> files_wf s' \<and> files_inj s' \<and>
      cache_view s' = fold enter_row es (cache_view t)"
  proof (rule Cons.IH)
    show "\<forall>j<length es. Suc k + j < length (pg_rows res) \<and> pg_rows res ! (Suc k + j) = file_row (es ! j)"
      using Cons.prems(1) by fastforce
  qed (use Cons.prems t in auto)
  moreover have "[k..<k + length (e # es)] = k # [Suc k..<Suc k + length es]" by (simp add: upt_rec)
  ultimately show ?case using t(1,4) by (simp add: seq_apply)
qed

lemma loadFiles_run:
  assumes "ds_dbcon s = Some con"
    and "pq_exec_params sys con (loadFiles_query q) [] 1 (world s) = (res, w)" and "has_rows res rows"
  shows "loadFiles sys q s = for_each [0..<length rows] (load_row sys res) (s\<lparr>world := w\<rparr>)"
  using assms
  by (simp add: loadFiles_def bind_apply ds_connection_apply executeQueryParams_def os_do_def
      rowsReturned_def ret_apply has_rows_def)

lemma loadFiles_view:
  assumes "ds_dbcon s = Some con"
    and "has_rows (fst (pq_exec_params sys con (loadFiles_query q) [] 1 (world s))) (map file_row es)"
    and "\<forall>e\<in>set es. file_entry_ok e" and "files_wf s" and "files_inj s" and "loadFiles sys q s = (Inr (), s')"
  shows "files_inj s' \<and> cache_view s' = fold enter_row es (cache_view s)"
proof -
  obtain res w where w: "pq_exec_params sys con (loadFiles_query q) [] 1 (world s) = (res, w)" by fastforce
  with assms(2) have rows: "has_rows res (map file_row es)" by simp
  have "\<exists>s''. for_each [0..<0 + length es] (load_row sys res) (s\<lparr>world := w\<rparr>) = (Inr (), s'') \<and> files_wf s'' \<and>
      files_inj s'' \<and> cache_view s'' = fold enter_row es (cache_view (s\<lparr>world := w\<rparr>))"
    by (rule load_rows_view) (use assms(3-5) rows in \<open>simp_all add: has_rows_def files_wf_def files_inj_def\<close>)
  moreover have "cache_view (s\<lparr>world := w\<rparr>) = cache_view s" by (rule view_same) simp_all
  ultimately show ?thesis using loadFiles_run [OF assms(1) w rows] assms(6) by auto
qed

section \<open>Failures\<close>

text \<open>\<open>leaves K m\<close>: an exception of \<open>m\<close>, unless it is undefined behaviour, leaves \<open>K\<close> as it was.\<close>

definition leaves :: "('s \<Rightarrow> bool) \<Rightarrow> ('s, 'a) act \<Rightarrow> bool" where
  "leaves K m \<longleftrightarrow> ensures K m (\<lambda>_ _. True) (\<lambda>e s. \<not> is_ub e \<longrightarrow> K s)"

named_theorems leaves_rules \<open>one rule per control structure\<close>

lemma leavesD: "leaves K m \<Longrightarrow> K s \<Longrightarrow> m s = (Inl e, s') \<Longrightarrow> \<not> is_ub e \<Longrightarrow> K s'"
  unfolding leaves_def by (drule (2) ensuresD_exn) simp

lemma leaves_keeps: "keeps K m \<Longrightarrow> leaves K m"
  by (fastforce simp: leaves_def keeps_def ensures_def split: prod.splits sum.splits)

lemma leaves_bind [leaves_rules]:
  assumes "keeps K m" and "\<And>a. leaves K (f a)"
  shows "leaves K (bind m f)"
  unfolding leaves_def
proof (rule ensures_bind)
  show "ensures K m (\<lambda>_. K) (\<lambda>e s. \<not> is_ub e \<longrightarrow> K s)"
    using assms(1) by (fastforce simp: keeps_def ensures_def split: prod.splits sum.splits)
  show "ensures K (f a) (\<lambda>_ _. True) (\<lambda>e s. \<not> is_ub e \<longrightarrow> K s)" for a
    using assms(2) by (simp add: leaves_def)
qed

lemma leaves_seq [leaves_rules]: "keeps K m \<Longrightarrow> leaves K n \<Longrightarrow> leaves K (seq m n)"
  by (simp add: seq_def leaves_bind)

lemma leaves_throw [leaves_rules]: "leaves K (throw e)"
  by (simp add: leaves_keeps keeps_rules)

lemma leaves_if [leaves_rules]: "leaves K m \<Longrightarrow> leaves K n \<Longrightarrow> leaves K (if b then m else n)"
  by simp

lemma leaves_option [leaves_rules]:
  "leaves K m \<Longrightarrow> (\<And>a. leaves K (f a)) \<Longrightarrow> leaves K (case x of None \<Rightarrow> m | Some a \<Rightarrow> f a)"
  by (cases x) simp_all

text \<open>An action whose only exceptions are undefined behaviour.\<close>

lemma leaves_sure: "(\<And>s e s'. m s = (Inl e, s') \<Longrightarrow> is_ub e) \<Longrightarrow> leaves K m"
  by (fastforce simp: leaves_def ensures_def split: prod.splits sum.splits)

lemma leaves_transaction [leaves_rules]:
  assumes "conn_free K" and "leaves K m"
  shows "leaves K (with_transaction sys con m)"
  unfolding leaves_def
proof (rule ensuresI)
  fix s assume "K s"
  then have "K (begin_transaction sys con s)"
    using assms(1) by (auto simp: begin_transaction_def intro: conn_free_world conn_free_tx_open)
  moreover have "K t \<Longrightarrow> K (end_transaction sys con t)" for t
    using assms(1) by (auto simp: end_transaction_def intro: conn_free_world conn_free_tx_open)
  ultimately show "case with_transaction sys con m s of (Inr a, s') \<Rightarrow> True | (Inl e, s') \<Rightarrow> \<not> is_ub e \<longrightarrow> K s'"
    using assms(2)
    by (fastforce simp: leaves_def with_transaction_guarded guarded_apply ensures_def split: prod.splits sum.splits)
qed

definition view_is :: "view \<Rightarrow> ('w, 'z) db_source_scheme \<Rightarrow> bool" where
  "view_is v s \<longleftrightarrow> cache_view s = v \<and> files_inj s"

lemma view_is_conn_free: "conn_free (view_is v :: ('w, 'z) db_source_scheme \<Rightarrow> bool)"
proof -
  have "cache_view (s\<lparr>world := w\<rparr>) = cache_view s" "cache_view (s\<lparr>tx_open := b\<rparr>) = cache_view s"
    for s :: "('w, 'z) db_source_scheme" and w b
    by (rule view_same, simp_all)+
  then show "conn_free (view_is v :: ('w, 'z) db_source_scheme \<Rightarrow> bool)"
    by (simp add: conn_free_def world_free_def view_is_def files_inj_def)
qed

lemmas keeps_view_conn = keeps_conn [OF view_is_conn_free]
  keeps_os [OF view_is_conn_free [unfolded conn_free_def, THEN conjunct1]]
  keeps_ds_connection keeps_deref ReadFileBlob_keeps keeps_gets

lemma keeps_view_stamp: "keeps (view_is v) (assign p (\<lambda>fi. fi\<lparr>fi_mtime := t\<rparr>))"
proof (rule keeps_assign)
  fix s :: "('a, 'b) db_source_scheme" and a
  assume "view_is v s" and a: "a < length (fi_heap s)"
  moreover have "cache_view (s\<lparr>fi_heap := (fi_heap s)[a := (fi_heap s ! a)\<lparr>fi_mtime := t\<rparr>]\<rparr>) = cache_view s"
    using a by (auto simp: cache_view_def fun_eq_iff nth_list_update split: option.splits)
  ultimately show "view_is v (s\<lparr>fi_heap := (fi_heap s)[a := (fi_heap s ! a)\<lparr>fi_mtime := t\<rparr>]\<rparr>)"
    by (simp add: view_is_def files_inj_def)
qed

lemma insertDBFile_leaves: "leaves (view_is v) (insertDBFile sys f)"
  unfolding insertDBFile_def insertDBFile_scope_def
  by (intro leaves_rules keeps_view_conn view_is_conn_free leaves_sure)
    (simp add: new_ptr_def act_simps)

lemma updateDBFile_leaves: "leaves (view_is v) (updateDBFile sys p)"
  unfolding updateDBFile_def updateDBFile_scope_def Let_def
  by (intro leaves_rules keeps_view_conn view_is_conn_free keeps_view_stamp leaves_sure)
    (erule assign_ub)

section \<open>The other operations\<close>

lemma insertDBFile_view:
  assumes "files_wf s" and "files_inj s" and run: "insertDBFile sys f s = (Inr k, s')"
  shows "files_inj s' \<and> cache_view s' = apply_event (Inserted k f) (cache_view s)"
proof -
  from run have "inserted (ds_filesById s) (fi_heap s) f k s'"
    using ensuresD_ok [OF insertDBFile_inserted] by blast
  then obtain t where m: "ds_filesById s' = omap_insert k (Some (length (fi_heap s))) (ds_filesById s)"
    and h: "fi_heap s' = fi_heap s @ [(new_DBFileInfo k 1 f)\<lparr>fi_mtime := t\<rparr>]"
    by (auto simp: inserted_def)
  show ?thesis
  proof (cases "omap_find (ds_filesById s) k")
    case None
    with m have "ds_filesById s' = omap_put k (Some (length (fi_heap s))) (ds_filesById s)"
      by (simp add: omap_insert_def)
    from view_new [OF assms(1,2) None h this] None assms(1) show ?thesis
      by (simp add: view_absent new_DBFileInfo_def to_uint32_def)
  next
    case (Some p)
    with m have same: "ds_filesById s' = ds_filesById s" by (simp add: omap_insert_def)
    have "cache_view s' j = cache_view s j" for j
      using assms(1) same h
      by (auto simp: cache_view_def files_wf_def nth_append less_Suc_eq split: option.splits)
    moreover have "cache_view s k \<noteq> None" using Some assms(1) by (simp add: view_absent)
    ultimately show ?thesis using assms(2) same by (auto simp: files_inj_def fun_eq_iff)
  qed
qed

lemma updateDBFile_view:
  assumes "files_wf s" and "files_inj s" and k: "omap_find (ds_filesById s) k = Some p"
    and run: "updateDBFile sys p s = (Inr (), s')"
  shows "files_inj s' \<and> cache_view s' = apply_event (Updated k) (cache_view s)"
proof -
  obtain a where p: "p = Some a" and a: "a < length (fi_heap s)"
    and v: "cache_view s k = Some (fi_version (fi_heap s ! a), fi_name (fi_heap s ! a))"
    by (rule view_entry [OF assms(1) k]) blast
  from run p have "updated a (to_int32 (fi_version (fi_heap s ! a) + 1)) (ds_filesById s) (fi_heap s) s'"
    using ensuresD_ok [OF updateDBFile_updated [OF a]] by blast
  then obtain t where m: "ds_filesById s' = ds_filesById s" and h: "fi_heap s' =
      (fi_heap s)[a := (fi_heap s ! a)\<lparr>fi_mtime := t, fi_version := to_int32 (fi_version (fi_heap s ! a) + 1)\<rparr>]"
    by (auto simp: updated_def)
  from view_change [OF assms(2) k [unfolded p] a h m] v show ?thesis by simp
qed

lemma removeDBFile_run:
  assumes "ds_dbcon s = Some con" and "a < length (fi_heap s)" and "removeDBFile sys (Some a) s = (r, s')"
  shows "fi_heap s' = fi_heap s" and "ds_filesById s' =
    (if commandOK (delete_reply sys con a s) then omap_erase (fi_id (fi_heap s ! a)) (ds_filesById s) else ds_filesById s)"
  using assms
  by (auto simp: removeDBFile_def ds_connection_apply executeQuery_def os_do_def deref_Some delete_reply_def act_simps
      split: prod.splits if_splits)

lemma removeDBFile_sure: "removeDBFile sys p s = (Inl e, s') \<Longrightarrow> is_ub e"
  by (auto simp: removeDBFile_def ds_connection_def executeQuery_def os_do_def unwrap_apply act_simps
      split: option.splits prod.splits sum.splits if_splits dest: deref_ub)

lemma removeDBFile_view:
  assumes "files_wf s" and "files_inj s" and con: "ds_dbcon s = Some con"
    and k: "omap_find (ds_filesById s) k = Some (Some a)" and run: "removeDBFile sys (Some a) s = (r, s')"
  shows "files_inj s' \<and> cache_view s' =
    (if commandOK (delete_reply sys con a s) then apply_event (Removed k) (cache_view s) else cache_view s)"
proof -
  have a: "a < length (fi_heap s)" "fi_id (fi_heap s ! a) = to_uint32 k"
    by (rule view_entry [OF assms(1) k]; simp)+
  note eff = removeDBFile_run [OF con a(1) run]
  show ?thesis
  proof (cases "commandOK (delete_reply sys con a s)")
    case True
    with eff a(2) have "ds_filesById s' = omap_erase (to_uint32 k) (ds_filesById s)" by simp
    from view_erase [OF assms(1,2) eff(1) this] True show ?thesis by simp
  next
    case False
    with eff have "ds_filesById s' = ds_filesById s" by simp
    from view_same [OF eff(1) this] False assms(2) show ?thesis by simp
  qed
qed

text \<open>A load whose query is refused.\<close>

lemma loadFiles_refused:
  assumes "ds_dbcon s = Some con" and "\<not> dataReturned (fst (pq_exec_params sys con (loadFiles_query q) [] 1 (world s)))"
  shows "loadFiles sys q s = (Inr (), s\<lparr>world := snd (pq_exec_params sys con (loadFiles_query q) [] 1 (world s))\<rparr>)"
  using assms
  by (cases "pq_exec_params sys con (loadFiles_query q) [] 1 (world s)")
    (simp add: loadFiles_def bind_apply ds_connection_apply executeQueryParams_def os_do_def skip_apply)

lemma removeLocalFile_run:
  assumes "files_wf s" and "removeLocalFile sys k s = (r, s')" and "\<And>e. r = Inl e \<Longrightarrow> \<not> is_ub e"
  shows "fi_heap s' = fi_heap s \<and>
    ds_filesById s' = (case r of Inr _ \<Rightarrow> omap_erase k (ds_filesById s) | Inl _ \<Rightarrow> ds_filesById s)"
proof (cases "omap_find (ds_filesById s) k")
  case None
  with assms(2,3) show ?thesis
    by (auto simp: removeLocalFile_def bind_apply filesById_index_unknown deref_def)
next
  case (Some p)
  obtain a where "p = Some a" "a < length (fi_heap s)" by (rule view_entry [OF assms(1) Some]) blast
  with Some assms(2) show ?thesis
    by (auto simp: removeLocalFile_def filesById_index_known deref_Some fs_do_def act_simps
        split: prod.splits sum.splits)
qed

lemma cache_step_view:
  assumes "cache_step sys s l s'" and wf: "files_wf s" and inj: "files_inj s"
  shows "files_wf s' \<and> files_inj s' \<and> cache_view s' = apply_event l (cache_view s)"
  using assms(1)
proof cases
  case (load con q es)
  with loadFiles_view [OF load(2-4) wf inj load(5)] keepsD [OF loadFiles_files wf, of sys q]
  show ?thesis by simp
next
  case (insert f k)
  with insertDBFile_view [OF wf inj insert(2)] keepsD [OF insertDBFile_files wf, of sys f]
  show ?thesis by simp
next
  case (insert_fails f e)
  with leavesD [OF insertDBFile_leaves [of "cache_view s"] _ insert_fails(2,3)] inj
    keepsD [OF insertDBFile_files wf, of sys f]
  show ?thesis by (simp add: view_is_def)
next
  case (update k p)
  with updateDBFile_view [OF wf inj update(2,3)] keepsD [OF updateDBFile_files wf, of sys p]
  show ?thesis by simp
next
  case (update_fails p e)
  with leavesD [OF updateDBFile_leaves [of "cache_view s"] _ update_fails(2,3)] inj
    keepsD [OF updateDBFile_files wf, of sys p]
  show ?thesis by (simp add: view_is_def)
next
  case (load_refused con q r)
  then have "fi_heap s' = fi_heap s" "ds_filesById s' = ds_filesById s"
    using loadFiles_refused [OF load_refused(2,3)] by auto
  from view_same [OF this] load_refused inj keepsD [OF loadFiles_files wf, of sys q]
  show ?thesis by simp
next
  case (remove con k a)
  with removeDBFile_view [OF wf inj remove(2,3,4)] keepsD [OF removeDBFile_files wf, of sys "Some a"]
  show ?thesis by simp
next
  case (remove_refused con k a)
  with removeDBFile_view [OF wf inj remove_refused(2,3,4)] keepsD [OF removeDBFile_files wf, of sys "Some a"]
  show ?thesis by simp
next
  case (remove_fails p e)
  with removeDBFile_sure show ?thesis by blast
next
  case (forget k)
  then have "fi_heap s' = fi_heap s" "ds_filesById s' = omap_erase k (ds_filesById s)"
    using removeLocalFile_run [OF wf forget(2)] by simp_all
  from view_erase [OF wf inj this] forget safeD_ok [OF removeLocalFile_files wf forget(2)]
  show ?thesis by simp
next
  case (forget_fails k e)
  then have "fi_heap s' = fi_heap s" "ds_filesById s' = ds_filesById s"
    using removeLocalFile_run [OF wf forget_fails(2)] by simp_all
  from view_same [OF this] forget_fails inj safeD_exn [OF removeLocalFile_files wf forget_fails(2,3)]
  show ?thesis by simp
qed

section \<open>The code implements the map\<close>

text \<open>
  C7. The file cache refines a partial map from ids to versions and names. A sequence of operations may
  mix loads of well-formed rows, loads that the server refuses, insertions, updates and removals, each
  returning or throwing (undefined behaviour excepted), removals in the database that the server accepts
  or refuses. Along it, the map read off the table and its shared objects is the result of applying the
  corresponding functions to the map one after the other (a refused or failed operation is the identity),
  and the representation invariants hold again at the end.
\<close>

theorem cache_refines_map:
  assumes "cache_steps sys s ls s'" and "files_wf s" and "files_inj s"
  shows "cache_view s' = fold apply_event ls (cache_view s) \<and> files_wf s' \<and> files_inj s'"
  using assms
proof (induction rule: cache_steps.induct)
  case (step s l t ls u)
  with cache_step_view [OF step(1) step.prems] show ?case by simp
qed simp

theorem cache_refines_map_witness:
  "\<exists>s. cache_steps toy_sys (example_source [rows_reply [[''9'']]]) [Inserted 9 ''a.R'', Updated 7] s \<and>
    cache_view s 7 = Some (4, ''a.R'') \<and> cache_view s 9 = Some (1, ''a.R'')"
proof -
  let ?s = "example_source [rows_reply [[''9'']]]"
  let ?t = "snd (insertDBFile toy_sys ''a.R'' ?s)"
  let ?u = "snd (updateDBFile toy_sys (Some 0) ?t)"
  have "fst (insertDBFile toy_sys ''a.R'' ?s) = Inr 9" by code_simp
  then have "cache_step toy_sys ?s (Inserted 9 ''a.R'') ?t"
    by (intro cache_step.insert) (simp add: prod_eq_iff)
  moreover have "fst (updateDBFile toy_sys (Some 0) ?t) = Inr ()" by code_simp
  then have "updateDBFile toy_sys (Some 0) ?t = (Inr (), ?u)" by (simp add: prod_eq_iff)
  then have "cache_step toy_sys ?t (Updated 7) ?u"
    by (rule cache_step.update [rotated]) code_simp
  ultimately have steps: "cache_steps toy_sys ?s [Inserted 9 ''a.R'', Updated 7] ?u"
    by (blast intro: cache_steps.intros)
  have "files_wf ?s" and "files_inj ?s"
    by (simp_all add: files_wf_def files_inj_def example_source_def new_DBFileInfo_def)
  then have view: "cache_view ?u = fold apply_event [Inserted 9 ''a.R'', Updated 7] (cache_view ?s)"
    using cache_refines_map [OF steps] by blast
  have "cache_view ?s 7 = Some (3, ''a.R'')" "cache_view ?s 9 = None"
    by (simp_all add: cache_view_def example_source_def new_DBFileInfo_def to_uint32_def)
  then have "cache_view ?u 7 = Some (4, ''a.R'')" "cache_view ?u 9 = Some (1, ''a.R'')"
    unfolding view by (simp_all add: to_int32_def)
  with steps show ?thesis by blast
qed

end
