(* ===== verification/Db_Sync.thy ===== *)
theory Db_Sync
  imports File_Manager_Behaviour Db_Cache_View
begin

text \<open>
  The file manager and the database together. Other clients change the files of a workspace in the
  database, which tells the session by notifications; the session fetches what changed, writes it to
  its working directory, and watches it. This theory composes \<open>handleDBNotifications\<close>, the decoding of the
  notifications, \<open>loadFiles\<close> and \<open>watchFile\<close>, and shows that after a burst of notifications
  the cache and the directory agree with the database.
\<close>

section \<open>Notifications and what they mean\<close>

text \<open>The payload of a notification, as the trigger of the database writes it.\<close>

record db_note =
  dn_type :: char
  dn_file :: int
  dn_wspace :: int
  dn_rest :: string

definition note_text :: "db_note \<Rightarrow> string" where
  "note_text n = dn_type n # dec (dn_file n) @ ''/'' @ dec (dn_wspace n) @ ''/'' @ dn_rest n"

definition note_ok :: "db_note \<Rightarrow> bool" where
  "note_ok n \<longleftrightarrow> dn_type n \<in> {CHR ''i'', CHR ''u'', CHR ''d''} \<and> CHR ''/'' \<notin> set (dn_rest n) \<and>
     LONG_MIN \<le> dn_file n \<and> dn_file n \<le> LONG_MAX \<and> LONG_MIN \<le> dn_wspace n \<and> dn_wspace n \<le> LONG_MAX"

text \<open>
  The files of the whole database by their ids, each with the workspace it belongs to; the files of
  one workspace, and their view: version and name.
\<close>

type_synonym database = "int \<rightharpoonup> file_entry"

type_synonym table = "int \<rightharpoonup> int \<times> file_entry"

definition own :: "int \<Rightarrow> table \<Rightarrow> database" where
  "own wsid t k = (case t k of None \<Rightarrow> None | Some (w, e) \<Rightarrow> if w = wsid then Some e else None)"

definition db_view :: "database \<Rightarrow> view" where
  "db_view db k = map_option (\<lambda>e. (uint (fe_version e), fe_name e)) (db k)"

text \<open>
  \<open>refreshes\<close>: the notification is about file \<open>k\<close> of this workspace and makes the session follow the database in it.
  An update of a file that the session does not have is ignored. A sound notification speaks of the database as it
  is: what it says was inserted is there, what it says was deleted is not (nothing was undone, and ids are not used
  twice), and a file it ascribes to the workspace does not belong to another one.
\<close>

definition refreshes :: "int \<Rightarrow> database \<Rightarrow> view \<Rightarrow> int \<Rightarrow> db_note \<Rightarrow> bool" where
  "refreshes wsid db v k n \<longleftrightarrow> dn_wspace n = wsid \<and> dn_file n = k \<and>
     (if db k = None then dn_type n = CHR ''d'' else dn_type n = CHR ''i'' \<or> dn_type n = CHR ''u'' \<and> v k \<noteq> None)"

definition note_sound :: "int \<Rightarrow> table \<Rightarrow> db_note \<Rightarrow> bool" where
  "note_sound wsid t n \<longleftrightarrow> note_ok n \<and>
     (dn_wspace n = wsid \<longrightarrow>
        (\<forall>w e. t (dn_file n) = Some (w, e) \<longrightarrow> w = wsid) \<and>
        (dn_type n = CHR ''i'' \<longrightarrow> t (dn_file n) \<noteq> None) \<and> (dn_type n = CHR ''d'' \<longrightarrow> t (dn_file n) = None))"

lemma note_sound_own:
  assumes "note_sound wsid t n" and "dn_wspace n = wsid"
  shows "map_option snd (t (dn_file n)) = own wsid t (dn_file n)"
    and "dn_type n = CHR ''i'' \<Longrightarrow> own wsid t (dn_file n) \<noteq> None"
    and "dn_type n = CHR ''d'' \<Longrightarrow> own wsid t (dn_file n) = None"
  using assms by (fastforce simp: note_sound_def own_def split: option.splits)+

section \<open>The outside\<close>

text \<open>
  Documented behaviour of the file system, inotify, libpq and the server, for a connection \<open>con\<close>. Of a world,
  \<open>queue\<close> is the list of notifications that libpq holds for the connection and \<open>tbl\<close> the committed contents of
  the tables of files. The session's calls change neither, \<open>PQnotifies\<close> excepted. The world is \<open>disturbed\<close> when a
  write or a query has failed, when somebody else has changed the directory or the tables of files, or when another
  notification has arrived, since the session began to work.
\<close>

definition quiet_world :: "'w sys \<Rightarrow> ('w \<Rightarrow> (string \<times> string) list) \<Rightarrow> ('w \<Rightarrow> table) \<Rightarrow> 'w \<Rightarrow> 'w \<Rightarrow> bool" where
  "quiet_world sys queue tbl w w' \<longleftrightarrow>
     (\<forall>f. sys_read_file sys f w' = sys_read_file sys f w) \<and> queue w' = queue w \<and> tbl w' = tbl w"

text \<open>A history predicate: no call of the session undoes it.\<close>

definition lasting :: "'w sys \<Rightarrow> ('w \<Rightarrow> bool) \<Rightarrow> bool" where
  "lasting sys disturbed \<longleftrightarrow> (\<forall>w. disturbed w \<longrightarrow>
     (\<forall>con q. disturbed (snd (pq_exec sys con q w))) \<and>
     (\<forall>con q ps rf. disturbed (snd (pq_exec_params sys con q ps rf w))) \<and>
     (\<forall>con. disturbed (snd (pq_consume_input sys con w))) \<and>
     (\<forall>con. disturbed (snd (pq_notifies sys con w))) \<and>
     (\<forall>f x. disturbed (sys_write_file sys f x w)) \<and>
     (\<forall>f t. disturbed (sys_utime sys f t w)) \<and>
     (\<forall>f. disturbed (snd (sys_remove sys f w))) \<and>
     disturbed (snd (inotify_init sys w)) \<and>
     (\<forall>fd f m. disturbed (snd (inotify_add_watch sys fd f m w))) \<and>
     (\<forall>fd wd. disturbed (inotify_rm_watch sys fd wd w)))"

lemma lastingD:
  assumes "lasting sys disturbed" and "disturbed w"
  shows "disturbed (snd (pq_exec sys con q w))" "disturbed (snd (pq_exec_params sys con q ps rf w))"
    "disturbed (snd (pq_consume_input sys con w))" "disturbed (snd (pq_notifies sys con w))"
    "disturbed (sys_write_file sys f x w)" "disturbed (sys_utime sys f t w)" "disturbed (snd (sys_remove sys f w))"
    "disturbed (snd (inotify_init sys w))" "disturbed (snd (inotify_add_watch sys fd f m w))"
    "disturbed (inotify_rm_watch sys fd wd w)"
  using assms by (simp_all add: lasting_def)

definition file_laws ::
    "'w sys \<Rightarrow> ('w \<Rightarrow> bool) \<Rightarrow> ('w \<Rightarrow> (string \<times> string) list) \<Rightarrow> ('w \<Rightarrow> table) \<Rightarrow> bool" where
  "file_laws sys disturbed queue tbl \<longleftrightarrow> fs_laws sys disturbed \<and> lasting sys disturbed \<and>
     (\<forall>f w. sys_read_file sys f w \<noteq> None \<longrightarrow> sys_stat_mtime sys f w \<noteq> None) \<and>
     (\<forall>f x w w'. w' = sys_write_file sys f x w \<longrightarrow> calm disturbed w w' (queue w' = queue w \<and> tbl w' = tbl w)) \<and>
     (\<forall>f t w w'. w' = sys_utime sys f t w \<longrightarrow> calm disturbed w w' (queue w' = queue w \<and> tbl w' = tbl w)) \<and>
     (\<forall>d f w w'. w' = snd (sys_remove sys (d @ ''/'' @ f) w) \<longrightarrow>
        calm disturbed w w' (queue w' = queue w \<and> tbl w' = tbl w \<and>
          (dir_ok d \<longrightarrow> plain f \<longrightarrow> (\<forall>g. plain g \<longrightarrow> g \<noteq> f \<longrightarrow>
             sys_read_file sys (d @ ''/'' @ g) w' = sys_read_file sys (d @ ''/'' @ g) w)))) \<and>
     (\<forall>fd wd w. calm disturbed w (inotify_rm_watch sys fd wd w) (quiet_world sys queue tbl w (inotify_rm_watch sys fd wd w))) \<and>
     (\<forall>fd f m w w'. w' = snd (inotify_add_watch sys fd f m w) \<longrightarrow> calm disturbed w w' (quiet_world sys queue tbl w w'))"

definition file_rows :: "file_entry option \<Rightarrow> file_entry list" where
  "file_rows r = (case r of None \<Rightarrow> [] | Some e \<Rightarrow> [e])"

definition by_id :: "int \<Rightarrow> string" where
  "by_id k = '' where f.id = '' @ dec k"

text \<open>The query of one file finds its row, whatever workspace the file belongs to.\<close>

definition server_laws ::
    "'w sys \<Rightarrow> pgconn option \<Rightarrow> ('w \<Rightarrow> bool) \<Rightarrow> ('w \<Rightarrow> (string \<times> string) list) \<Rightarrow> ('w \<Rightarrow> table) \<Rightarrow> bool" where
  "server_laws sys con disturbed queue tbl \<longleftrightarrow>
     (\<forall>k w res w'. pq_exec_params sys con (loadFiles_query (by_id k)) [] 1 w = (res, w') \<longrightarrow>
        calm disturbed w w' (has_rows res (map file_row (file_rows (map_option snd (tbl w k)))) \<and> quiet_world sys queue tbl w w')) \<and>
     (\<forall>w rc w'. pq_consume_input sys con w = (rc, w') \<longrightarrow>
        calm disturbed w w' (\<forall>f. sys_read_file sys f w' = sys_read_file sys f w)) \<and>
     (\<forall>w note w'. pq_notifies sys con w = (note, w') \<longrightarrow>
        calm disturbed w w' (note = (case queue w of [] \<Rightarrow> None | n # ns \<Rightarrow> Some n) \<and>
          quiet_world sys (\<lambda>_. []) tbl w w' \<and> queue w' = tl (queue w)))"

lemma file_lawsD:
  assumes "file_laws sys disturbed queue tbl"
  shows "fs_laws sys disturbed" and "lasting sys disturbed"
    and "sys_read_file sys f w \<noteq> None \<Longrightarrow> sys_stat_mtime sys f w \<noteq> None"
    and "calm disturbed w (sys_write_file sys f x w)
      (queue (sys_write_file sys f x w) = queue w \<and> tbl (sys_write_file sys f x w) = tbl w)"
    and "calm disturbed w (sys_utime sys f t w) (queue (sys_utime sys f t w) = queue w \<and> tbl (sys_utime sys f t w) = tbl w)"
    and "calm disturbed w (inotify_rm_watch sys fd wd w) (quiet_world sys queue tbl w (inotify_rm_watch sys fd wd w))"
  using assms by (simp_all add: file_laws_def)

lemma remove_law:
  assumes "file_laws sys disturbed queue tbl" and "sys_remove sys (d @ ''/'' @ f) w = (r, w')"
  shows "calm disturbed w w' (queue w' = queue w \<and> tbl w' = tbl w \<and>
      (dir_ok d \<longrightarrow> plain f \<longrightarrow> (\<forall>g. plain g \<longrightarrow> g \<noteq> f \<longrightarrow> sys_read_file sys (d @ ''/'' @ g) w' = sys_read_file sys (d @ ''/'' @ g) w)))"
proof -
  have "w' = snd (sys_remove sys (d @ ''/'' @ f) w)" using assms(2) by simp
  with assms(1) show ?thesis unfolding file_laws_def by (elim conjE allE) (erule (1) impE)
qed

lemma add_watch_law:
  assumes "file_laws sys disturbed queue tbl" and "inotify_add_watch sys fd f m w = (wd, w')"
  shows "calm disturbed w w' (quiet_world sys queue tbl w w')"
proof -
  have "w' = snd (inotify_add_watch sys fd f m w)" using assms(2) by simp
  with assms(1) show ?thesis unfolding file_laws_def by blast
qed

lemma server_lawsD:
  assumes "server_laws sys con disturbed queue tbl"
  shows "pq_exec_params sys con (loadFiles_query (by_id k)) [] 1 w = (res, w') \<Longrightarrow>
      calm disturbed w w' (has_rows res (map file_row (file_rows (map_option snd (tbl w k)))) \<and> quiet_world sys queue tbl w w')"
    and "pq_consume_input sys con w = (rc, w') \<Longrightarrow>
      calm disturbed w w' (\<forall>f. sys_read_file sys f w' = sys_read_file sys f w)"
    and "pq_notifies sys con w = (note, w') \<Longrightarrow>
      calm disturbed w w' (note = (case queue w of [] \<Rightarrow> None | n # ns \<Rightarrow> Some n) \<and>
        quiet_world sys (\<lambda>_. []) tbl w w' \<and> queue w' = tl (queue w))"
  using assms unfolding server_laws_def by blast+

definition names_distinct :: "database \<Rightarrow> bool" where
  "names_distinct db \<longleftrightarrow> (\<forall>j k e f. db j = Some e \<longrightarrow> db k = Some f \<longrightarrow> fe_name e = fe_name f \<longrightarrow> j = k)"

text \<open>A database whose rows lie under their own ids and can be mirrored.\<close>

definition db_wf :: "database \<Rightarrow> bool" where
  "db_wf db \<longleftrightarrow> (\<forall>k e. db k = Some e \<longrightarrow> uint (fe_id e) = k \<and> file_entry_ok e) \<and> names_distinct db"

lemma db_wfD:
  assumes "db_wf db"
  shows "db k = Some e \<Longrightarrow> uint (fe_id e) = k" and "db k = Some e \<Longrightarrow> file_entry_ok e"
    and "db k = Some e \<Longrightarrow> plain (fe_name e)" and "names_distinct db"
  using assms file_entry_okD(2) by (auto simp: db_wf_def)

section \<open>What is disturbed stays so\<close>

text \<open>So if the world is calm at the end of a run, it was calm all along.\<close>

lemma keeps_disturbed:
  "(\<And>w. disturbed w \<Longrightarrow> disturbed (snd (f w))) \<Longrightarrow> keeps (\<lambda>s. disturbed (world s)) (os_do f)"
  "(\<And>w. disturbed w \<Longrightarrow> disturbed (g w)) \<Longrightarrow> keeps (\<lambda>s. disturbed (world s)) (os_upd g)"
  "(\<And>w. disturbed w \<Longrightarrow> disturbed (snd (h w))) \<Longrightarrow> keeps (\<lambda>s. disturbed (world s)) (fs_do h)"
  "keeps (\<lambda>s. disturbed (world s)) (os_read k)"
  by (auto simp: keeps_def os_defs split: prod.splits sum.splits) (metis snd_conv)+

lemma calm_seq:
  "keeps (\<lambda>s. disturbed (world s)) n \<Longrightarrow> \<not> disturbed (world (snd (seq m n s))) \<Longrightarrow> \<not> disturbed (world (snd (m s)))"
  by (auto simp: seq_apply keeps_def split: prod.splits sum.splits)

lemma calm_bind:
  "(\<And>a. keeps (\<lambda>s. disturbed (world s)) (f a)) \<Longrightarrow> \<not> disturbed (world (snd (bind m f s))) \<Longrightarrow>
    \<not> disturbed (world (snd (m s)))"
  by (auto simp: bind_apply keeps_def split: prod.splits sum.splits)

lemma keeps_disturbed_assign:
  "keeps (\<lambda>s. disturbed (world s)) (assign p f)" "keeps (\<lambda>s. disturbed (world s)) (new_ptr fi)"
  "(\<And>s. world (g s) = world s) \<Longrightarrow> keeps (\<lambda>s. disturbed (world s)) (modify g)"
  by (rule keeps_assign, simp) (simp_all add: new_ptr_def keeps_def act_simps)

lemmas keeps_disturbed_rules = keeps_disturbed keeps_disturbed_assign keeps_deref keeps_ds_connection
  keeps_read_uint32 keeps_on_source

lemma watchFile_disturbed:
  assumes "lasting sys disturbed"
  shows "keeps (\<lambda>s. disturbed (world s)) (watchFile sys p)"
  unfolding watchFile_def
  by (intro keeps_rules keeps_disturbed_rules lastingD [OF assms]) simp_all

lemma loadFiles_disturbed:
  assumes "lasting sys disturbed"
  shows "keeps (\<lambda>s. disturbed (world s)) (loadFiles sys q)"
  unfolding loadFiles_def load_row_def executeQueryParams_def rowsReturned_def Let_def
  by (intro keeps_rules keeps_disturbed_rules lastingD [OF assms]) simp_all

lemma filesById_index_disturbed: "keeps (\<lambda>s. disturbed (world s)) (filesById_index k)"
  unfolding filesById_index_def by (auto simp: split_def intro!: keeps_rules keeps_disturbed_rules)

lemma ignoreFS_disturbed: "keeps (\<lambda>s. disturbed (world s)) fm_ignoreFSNotifications"
  unfolding fm_ignoreFSNotifications_def by (intro keeps_rules keeps_disturbed_rules) simp_all

lemmas keeps_disturbed_steps = keeps_disturbed_rules watchFile_disturbed loadFiles_disturbed filesById_index_disturbed ignoreFS_disturbed

lemma notifications_disturbed:
  assumes "lasting sys disturbed"
  shows "keeps (\<lambda>s. disturbed (world s)) (insert_notification sys k)"
    and "keeps (\<lambda>s. disturbed (world s)) (update_notification sys k)"
    and "keeps (\<lambda>s. disturbed (world s)) (delete_notification sys k)"
    and "keeps (\<lambda>s. disturbed (world s)) (processDBNotification sys message)"
    and "keeps (\<lambda>s. disturbed (world s)) (notification_loop sys fuel)"
proof -
  show i: "keeps (\<lambda>s. disturbed (world s)) (insert_notification sys k)" for k
    unfolding insert_notification_def by (intro keeps_rules keeps_disturbed_steps assms)
  show u: "keeps (\<lambda>s. disturbed (world s)) (update_notification sys k)" for k
    unfolding update_notification_def by (intro keeps_rules keeps_disturbed_steps assms)
  show d: "keeps (\<lambda>s. disturbed (world s)) (delete_notification sys k)" for k
    unfolding delete_notification_def by (intro keeps_rules keeps_disturbed_steps lastingD [OF assms]) simp_all
  show p: "keeps (\<lambda>s. disturbed (world s)) (processDBNotification sys message)" for message
    unfolding processDBNotification_def Let_def by (intro keeps_rules i u d)
  show "keeps (\<lambda>s. disturbed (world s)) (notification_loop sys fuel)"
  proof (induction fuel)
    case (Suc fuel)
    then show ?case
      unfolding notification_loop.simps checkForNotification_def
      by (intro keeps_rules keeps_disturbed_rules p lastingD [OF assms])
  qed (simp add: keeps_rules)
qed

section \<open>The state of a running manager\<close>

text \<open>
  A manager that serves \<open>con\<close>: its invariant, a working directory written without a trailing slash, and every
  cached file was given a watch descriptor, lies in the directory itself and not where another file of the
  database belongs.
\<close>

definition serving :: "'w sys \<Rightarrow> pgconn option \<Rightarrow> database \<Rightarrow> ('w, 'z) fm_scheme \<Rightarrow> bool" where
  "serving sys con db s \<longleftrightarrow> fm_wf s \<and> files_inj s \<and> fm_hasSource s \<and> ds_dbcon s = Some con \<and> fm_dbcon s = con \<and>
     ds_workingDir s = fm_workingDir s \<and> dir_ok (fm_workingDir s) \<and>
     (\<forall>k fi. entry s k = Some fi \<longrightarrow> fi_watchDescriptor fi \<noteq> None \<and> plain (fi_path fi) \<and>
        (\<forall>j e. j \<noteq> k \<longrightarrow> db j = Some e \<longrightarrow> fi_path fi \<noteq> fe_name e))"

text \<open>The contents of the files of the working directory.\<close>

definition on_disk :: "'w sys \<Rightarrow> ('w, 'z) fm_scheme \<Rightarrow> string \<Rightarrow> string option" where
  "on_disk sys s f = (if plain f then sys_read_file sys (fm_workingDir s @ ''/'' @ f) (world s) else None)"

text \<open>What a step may change: the world, the cache, the table of watches and the timer.\<close>

definition same_frame :: "('w, 'z) fm_scheme \<Rightarrow> ('w, 'z) fm_scheme \<Rightarrow> bool" where
  "same_frame s s' \<longleftrightarrow>
     s' = s\<lparr>world := world s', fi_heap := fi_heap s', ds_filesById := ds_filesById s',
       fm_filesByWatchDesc := fm_filesByWatchDesc s', fm_ignoreFS := fm_ignoreFS s', fm_timers := fm_timers s'\<rparr>"

lemma same_frame_fields:
  assumes "same_frame s s'"
  shows "fm_hasSource s' = fm_hasSource s" "ds_dbcon s' = ds_dbcon s" "fm_dbcon s' = fm_dbcon s"
    "ds_workingDir s' = ds_workingDir s" "fm_workingDir s' = fm_workingDir s" "fm_wspaceId s' = fm_wspaceId s"
    "fm_ignoreDB s' = fm_ignoreDB s" "fm_inotifyFd s' = fm_inotifyFd s"
  by (subst assms [unfolded same_frame_def], simp)+

lemma same_frame_trans [trans]: "same_frame s t \<Longrightarrow> same_frame t u \<Longrightarrow> same_frame s u"
  unfolding same_frame_def by (cases s; cases t; cases u) simp

definition same_outside ::
    "('w \<Rightarrow> (string \<times> string) list) \<Rightarrow> ('w \<Rightarrow> table) \<Rightarrow> ('w, 'z) fm_scheme \<Rightarrow> ('w, 'z) fm_scheme \<Rightarrow> bool" where
  "same_outside queue tbl s s' \<longleftrightarrow> same_frame s s' \<and> queue (world s') = queue (world s) \<and> tbl (world s') = tbl (world s)"

lemma same_outside_trans [trans]: "same_outside queue tbl s t \<Longrightarrow> same_outside queue tbl t u \<Longrightarrow> same_outside queue tbl s u"
  by (auto simp: same_outside_def intro: same_frame_trans)

section \<open>Loading one file\<close>

text \<open>The object of a file after its row \<open>e\<close> was loaded; a new one lies under its name and is not watched.\<close>

definition loaded_entry :: "file_entry \<Rightarrow> dbfile_info option \<Rightarrow> dbfile_info \<Rightarrow> bool" where
  "loaded_entry e old fi \<longleftrightarrow> fi_version fi = uint (fe_version e) \<and> fi_name fi = fe_name e \<and>
     (case old of None \<Rightarrow> fi_path fi = fe_name e
      | Some fo \<Rightarrow> fi_path fi = fi_path fo \<and> fi_watchDescriptor fi = fi_watchDescriptor fo)"

lemma load_row_entry:
  assumes row: "pg_rows res ! i = file_row e" "i < length (pg_rows res)" and ok: "file_entry_ok e"
    and wf: "files_wf s" and inj: "files_inj s"
  shows "\<exists>s' fi. load_row sys res i s = (Inr (), s') \<and> files_wf s' \<and> files_inj s' \<and>
    s' = s\<lparr>world := row_world sys e s, fi_heap := fi_heap s', ds_filesById := ds_filesById s'\<rparr> \<and>
    entry s' = (entry s)(uint (fe_id e) \<mapsto> fi) \<and> loaded_entry e (entry s (uint (fe_id e))) fi"
proof (cases "omap_find (ds_filesById s) (uint (fe_id e))")
  case None
  let ?fi = "new_DBFileInfo (uint (fe_id e)) (uint (fe_version e)) (fe_name e)"
  let ?s = "s\<lparr>world := row_world sys e s, fi_heap := fi_heap s @ [?fi],
     ds_filesById := omap_put (uint (fe_id e)) (Some (length (fi_heap s))) (ds_filesById s)\<rparr>"
  have run: "load_row sys res i s = (Inr (), ?s)" by (rule load_row_unknown [OF row ok None])
  have "entry ?s = (entry s)(uint (fe_id e) \<mapsto> ?fi)" "files_inj ?s"
    by (rule entry_new [OF wf inj None]; simp)+
  moreover have "files_wf ?s" using keepsD [OF load_row_files wf, of sys res i] run by simp
  moreover have "loaded_entry e (entry s (uint (fe_id e))) ?fi"
    using None by (simp add: loaded_entry_def entry_def new_DBFileInfo_def uint_id)
  ultimately show ?thesis using run by (intro exI [of _ ?s] exI [of _ ?fi]) simp
next
  case (Some p)
  obtain a where p: "p = Some a" and a: "a < length (fi_heap s)" by (rule view_entry [OF wf Some]) blast
  let ?fi = "(fi_heap s ! a)\<lparr>fi_version := uint (fe_version e), fi_name := fe_name e\<rparr>"
  let ?s = "s\<lparr>world := row_world sys e s, fi_heap := (fi_heap s)[a := ?fi]\<rparr>"
  have run: "load_row sys res i s = (Inr (), ?s)" by (rule load_row_known [OF row ok Some [unfolded p] a])
  have "entry ?s = (entry s)(uint (fe_id e) \<mapsto> ?fi)" "files_inj ?s"
    by (rule entry_change [OF inj Some [unfolded p] a]; simp)+
  moreover have "files_wf ?s" using keepsD [OF load_row_files wf, of sys res i] run by simp
  moreover have "loaded_entry e (entry s (uint (fe_id e))) ?fi"
    using Some p a by (simp add: loaded_entry_def entry_def)
  ultimately show ?thesis using run by (intro exI [of _ ?s] exI [of _ ?fi]) simp
qed

text \<open>A query for one file loads its row, if there is one.\<close>

definition loaded :: "'w sys \<Rightarrow> int \<Rightarrow> file_entry option \<Rightarrow> ('w, 'z) fm_scheme \<Rightarrow> ('w, 'z) fm_scheme \<Rightarrow> bool" where
  "loaded sys k row s s' \<longleftrightarrow>
     (case row of
        None \<Rightarrow> entry s' = entry s \<and> on_disk sys s' = on_disk sys s
      | Some e \<Rightarrow> (\<exists>fi. entry s' = (entry s)(k \<mapsto> fi) \<and> loaded_entry e (entry s k) fi) \<and>
          on_disk sys s' = (on_disk sys s)(fe_name e \<mapsto> fe_data e))"

lemma row_world_quiet:
  assumes laws: "file_laws sys disturbed queue tbl" and "dir_ok (ds_workingDir s)" and "plain (fe_name e)"
    and calm: "\<not> disturbed (row_world sys e s)"
  shows "\<not> disturbed (world s)" and "queue (row_world sys e s) = queue (world s)" and "tbl (row_world sys e s) = tbl (world s)"
    and "plain f \<Longrightarrow> sys_read_file sys (ds_workingDir s @ ''/'' @ f) (row_world sys e s) =
      (if f = fe_name e then Some (fe_data e) else sys_read_file sys (ds_workingDir s @ ''/'' @ f) (world s))"
proof -
  note disk = calmD [OF row_world_calm [OF file_lawsD(1) [OF laws] assms(2,3)] calm]
  then show "\<not> disturbed (world s)" by simp
  show "plain f \<Longrightarrow> sys_read_file sys (ds_workingDir s @ ''/'' @ f) (row_world sys e s) =
      (if f = fe_name e then Some (fe_data e) else sys_read_file sys (ds_workingDir s @ ''/'' @ f) (world s))"
    using disk by simp
  note utime = calmD [OF file_lawsD(5) [OF laws] calm [unfolded row_world_def Let_def]]
  note wrote = calmD [OF file_lawsD(4) [OF laws] utime [THEN conjunct1]]
  show "queue (row_world sys e s) = queue (world s)" "tbl (row_world sys e s) = tbl (world s)"
    using utime wrote by (simp_all add: row_world_def Let_def)
qed

lemma row_world_disk:
  assumes laws: "file_laws sys disturbed queue tbl" and "dir_ok (ds_workingDir s)" and e: "plain (fe_name e)"
    and calm: "\<not> disturbed (world s')" and s': "world s' = row_world sys e s" "fm_workingDir s' = fm_workingDir s"
      "ds_workingDir s = fm_workingDir s"
  shows "on_disk sys s' = (on_disk sys s)(fe_name e \<mapsto> fe_data e)"
proof (rule ext)
  note row = row_world_quiet [OF laws assms(2) e calm [unfolded s'(1)]]
  show "on_disk sys s' f = ((on_disk sys s)(fe_name e \<mapsto> fe_data e)) f" for f
    using row(4) [of f] e s' by (auto simp: on_disk_def)
qed

lemma loadFiles_one:
  assumes laws: "file_laws sys disturbed queue tbl" "server_laws sys con disturbed queue tbl" and db: "db_wf db"
    and s: "files_wf s" "files_inj s" "ds_dbcon s = Some con" "ds_workingDir s = fm_workingDir s" "dir_ok (fm_workingDir s)"
    and row: "map_option snd (tbl (world s) k) = db k"
    and calm: "\<not> disturbed (world (snd (loadFiles sys (by_id k) s)))"
  shows "\<exists>s'. loadFiles sys (by_id k) s = (Inr (), s') \<and> files_wf s' \<and> files_inj s' \<and> same_outside queue tbl s s' \<and>
    loaded sys k (db k) s s'"
proof -
  let ?rows = "map file_row (file_rows (db k))"
  obtain res w where q: "pq_exec_params sys con (loadFiles_query (by_id k)) [] 1 (world s) = (res, w)" by fastforce
  have "\<not> disturbed w"
  proof -
    let ?rest = "\<lambda>res. if dataReturned res then bind (rowsReturned res) (\<lambda>n. for_each [0..<nat n] (load_row sys res)) else skip"
    have "keeps (\<lambda>s. disturbed (world s)) (?rest res)" for res
      unfolding load_row_def rowsReturned_def Let_def
      by (intro keeps_rules keeps_disturbed_rules lastingD [OF file_lawsD(2) [OF laws(1)]]) simp_all
    note keep = this
    have "\<not> disturbed (world (snd (executeQueryParams sys con (loadFiles_query (by_id k)) [] 1 s)))"
      by (rule calm_bind [of disturbed ?rest, OF keep])
        (use calm s(3) in \<open>simp add: loadFiles_def bind_apply ds_connection_apply\<close>)
    with q show ?thesis by (simp add: executeQueryParams_def os_defs)
  qed
  then have w: "has_rows res ?rows" "quiet_world sys queue tbl (world s) w"
    using calmD [OF server_lawsD(1) [OF laws(2) q]] row by simp_all
  let ?s = "s\<lparr>world := w\<rparr>"
  have run: "loadFiles sys (by_id k) s = for_each [0..<length ?rows] (load_row sys res) ?s"
    by (rule loadFiles_run [OF s(3) q w(1)])
  have start: "files_wf ?s" "files_inj ?s" "entry ?s = entry s" "on_disk sys ?s = on_disk sys s" "same_outside queue tbl s ?s"
    using s(1,2) w(2) entry_same [of ?s s]
    by (simp_all add: files_wf_def on_disk_def fun_eq_iff quiet_world_def same_outside_def same_frame_def)
  show ?thesis
  proof (cases "db k")
    case None
    with run start show ?thesis by (auto simp: file_rows_def skip_apply loaded_def)
  next
    case (Some e)
    note e = db_wfD(1-3) [OF db Some]
    obtain s' fi where load: "load_row sys res 0 ?s = (Inr (), s')" "files_wf s'" "files_inj s'"
      and s': "s' = ?s\<lparr>world := row_world sys e ?s, fi_heap := fi_heap s', ds_filesById := ds_filesById s'\<rparr>"
      and ent: "entry s' = (entry s)(k \<mapsto> fi)" "loaded_entry e (entry s k) fi"
      using load_row_entry [of res 0 e ?s sys] w(1) Some e start(1-3) by (auto simp: file_rows_def has_rows_def)
    have done': "loadFiles sys (by_id k) s = (Inr (), s')"
      using run load Some by (simp add: file_rows_def seq_apply skip_apply)
    have world: "world s' = row_world sys e ?s" "fm_workingDir s' = fm_workingDir s" by (subst s', simp)+
    have calm': "\<not> disturbed (world s')" using calm done' by simp
    note quiet = row_world_quiet [OF laws(1) _ e(3) calm' [unfolded world(1)]]
    have out: "same_outside queue tbl s s'"
      using quiet(2,3) s(4,5) start(5) world by (subst s') (simp add: same_outside_def same_frame_def)
    have "on_disk sys s' = (on_disk sys s)(fe_name e \<mapsto> fe_data e)"
      using row_world_disk [OF laws(1) _ e(3) calm' world(1)] s(4,5) world(2) start(4) by simp
    with done' load out ent Some show ?thesis
      by (auto simp: loaded_def)
  qed
qed

section \<open>Watching a file\<close>

text \<open>The object keeps its version, name and path, and has a watch descriptor.\<close>

definition watched_as :: "dbfile_info \<Rightarrow> dbfile_info \<Rightarrow> bool" where
  "watched_as fi fi' \<longleftrightarrow> fi_version fi' = fi_version fi \<and> fi_name fi' = fi_name fi \<and> fi_path fi' = fi_path fi \<and>
     fi_watchDescriptor fi' \<noteq> None"

definition caught :: "exn + 'a \<Rightarrow> bool" where
  "caught r \<longleftrightarrow> (case r of Inl e \<Rightarrow> is_std_exception e | Inr _ \<Rightarrow> True)"

text \<open>The run of \<open>watchFile\<close> on an object: the watch descriptor is stored also when it is \<open>-1\<close>.\<close>

lemma watchFile_run:
  assumes a: "a < length (fi_heap s)" and stat: "sys_stat_mtime sys (fm_workingDir s @ ''/'' @ fi_path (fi_heap s ! a)) (world s) = Some mtime"
    and add: "inotify_add_watch sys (fm_inotifyFd s) (fm_workingDir s @ ''/'' @ fi_path (fi_heap s ! a)) file_watch_mask (world s) = (wd, w)"
  shows "watchFile sys (Some a) s =
    (if wd = -1 then Inl (formatted (''inotify_add_warched failed '' @ c_str (fi_name (fi_heap s ! a)))) else Inr (),
     s\<lparr>world := w, fi_heap := (fi_heap s)[a := (fi_heap s ! a)\<lparr>fi_mtime := mtime, fi_watchDescriptor := Some wd\<rparr>],
       fm_filesByWatchDesc := (if wd = -1 then fm_filesByWatchDesc s else omap_put wd (Some a) (fm_filesByWatchDesc s))\<rparr>)"
  using a stat add by (simp add: watchFile_def act_simps deref_Some assign_Some)

lemma watchFile_entry:
  assumes laws: "file_laws sys disturbed queue tbl" and wf: "files_wf s" and inj: "files_inj s"
    and a: "omap_find (ds_filesById s) k = Some (Some a)" "a < length (fi_heap s)"
    and there: "on_disk sys s (fi_path (fi_heap s ! a)) \<noteq> None \<or> fi_watchDescriptor (fi_heap s ! a) \<noteq> None"
    and calm: "\<not> disturbed (world (snd (watchFile sys (Some a) s)))"
  shows "\<exists>r s' fi. watchFile sys (Some a) s = (r, s') \<and> caught r \<and> files_wf s' \<and> files_inj s' \<and>
    same_outside queue tbl s s' \<and> entry s' = (entry s)(k \<mapsto> fi) \<and> watched_as (fi_heap s ! a) fi \<and>
    on_disk sys s' = on_disk sys s \<and> ds_filesById s' = ds_filesById s"
proof -
  let ?fi = "fi_heap s ! a" and ?path = "fm_workingDir s @ ''/'' @ fi_path (fi_heap s ! a)"
  have keep: "files_wf s'" if "watchFile sys (Some a) s = (r, s')" for r s'
    using keepsD [OF watchFile_files wf, of sys "Some a"] that by simp
  show ?thesis
  proof (cases "sys_stat_mtime sys ?path (world s)")
    case None
    then have "sys_read_file sys ?path (world s) = None" using file_lawsD(3) [OF laws] by blast
    then have "on_disk sys s (fi_path ?fi) = None" by (simp add: on_disk_def)
    then have fi: "watched_as ?fi ?fi" using there by (simp add: watched_as_def)
    have run: "watchFile sys (Some a) s = (Inl (StatException (''stat failed for watch '' @ ?path)), s)"
      using a \<open>sys_stat_mtime sys ?path (world s) = None\<close> by (simp add: watchFile_def act_simps deref_Some)
    have "entry s = (entry s)(k \<mapsto> ?fi)" using a by (auto simp: entry_def fun_eq_iff)
    moreover have "same_outside queue tbl s s" by (simp add: same_outside_def same_frame_def)
    moreover have "caught (Inl (StatException (''stat failed for watch '' @ ?path)) :: exn + unit)" by (simp add: caught_def)
    ultimately show ?thesis using run fi wf inj by blast
  next
    case (Some mtime)
    obtain wd w where add: "inotify_add_watch sys (fm_inotifyFd s) ?path file_watch_mask (world s) = (wd, w)" by fastforce
    let ?new = "?fi\<lparr>fi_mtime := mtime, fi_watchDescriptor := Some wd\<rparr>"
    let ?s = "s\<lparr>world := w, fi_heap := (fi_heap s)[a := ?new],
       fm_filesByWatchDesc := (if wd = -1 then fm_filesByWatchDesc s else omap_put wd (Some a) (fm_filesByWatchDesc s))\<rparr>"
    note run = watchFile_run [OF a(2) Some add]
    have w: "quiet_world sys queue tbl (world s) w"
      using calmD [OF add_watch_law [OF laws add]] calm by (simp add: run)
    have "fi_heap ?s = (fi_heap s)[a := ?new]" "ds_filesById ?s = ds_filesById s" by simp_all
    note ent = entry_change [OF inj a this]
    have "same_outside queue tbl s ?s"
      using w by (simp add: same_outside_def same_frame_def quiet_world_def)
    moreover have "on_disk sys ?s = on_disk sys s" using w by (simp add: on_disk_def quiet_world_def fun_eq_iff)
    moreover have "watched_as ?fi ?new" by (simp add: watched_as_def)
    moreover have "caught (if wd = -1 then Inl (formatted (''inotify_add_warched failed '' @ c_str (fi_name ?fi))) else Inr ())"
      by (simp add: caught_def formatted_def)
    ultimately show ?thesis using run ent keep [OF run] by fastforce
  qed
qed

section \<open>One notification\<close>

text \<open>
  The outcome \<open>p\<close> of handling a notification about file \<open>k\<close>, when the workspace in the database is \<open>db\<close>: the manager
  still serves, its view is \<open>v\<close>, and of the files of the workspace exactly \<open>k\<close> was fetched, if \<open>fetch\<close>.
\<close>

definition note_done ::
    "'w sys \<Rightarrow> pgconn option \<Rightarrow> ('w \<Rightarrow> (string \<times> string) list) \<Rightarrow> ('w \<Rightarrow> table) \<Rightarrow> database \<Rightarrow> ('w, 'z) fm_scheme \<Rightarrow> view \<Rightarrow>
     int \<Rightarrow> bool \<Rightarrow> (exn + unit) \<times> ('w, 'z) fm_scheme \<Rightarrow> bool" where
  "note_done sys con queue tbl db s v k fetch p \<longleftrightarrow>
     caught (fst p) \<and> serving sys con db (snd p) \<and> same_outside queue tbl s (snd p) \<and> cache_view (snd p) = v \<and>
     (\<forall>j e. db j = Some e \<longrightarrow>
        on_disk sys (snd p) (fe_name e) = (if fetch \<and> j = k then Some (fe_data e) else on_disk sys s (fe_name e)))"

lemma ignoreFS_step:
  "\<exists>s'. fm_ignoreFSNotifications s = (Inr (), s') \<and> same_outside queue tbl s s' \<and> entry s' = entry s \<and>
    world s' = world s \<and> on_disk sys s' = on_disk sys s \<and> (serving sys con db s \<longrightarrow> serving sys con db s') \<and> fm_ignoreFS s'"
proof -
  let ?s = "if fm_ignoreFS s then s else s\<lparr>fm_ignoreFS := True, fm_timers := fm_timers s + 1\<rparr>"
  have run: "fm_ignoreFSNotifications s = (Inr (), ?s)"
    by (simp add: fm_ignoreFSNotifications_def act_simps)
  have "entry ?s = entry s" "files_inj ?s = files_inj s" by (rule entry_same; simp)+
  moreover have "fm_wf s \<Longrightarrow> fm_wf ?s" using keepsD [OF ignoreFS_wf, of s] run by simp
  ultimately show ?thesis
    using run by (intro exI [of _ ?s]) (auto simp: same_outside_def same_frame_def on_disk_def serving_def fun_eq_iff)
qed

lemma serving_parts:
  assumes "serving sys con db s"
  shows "fm_wf s" "files_wf s" "watch_wf s" "files_inj s" "fm_hasSource s" "ds_dbcon s = Some con" "ds_workingDir s = fm_workingDir s"
    "entry s k = Some fi \<Longrightarrow> fi_watchDescriptor fi \<noteq> None"
    "entry s k = Some fi \<Longrightarrow> j \<noteq> k \<Longrightarrow> db j = Some e \<Longrightarrow> fi_path fi \<noteq> fe_name e"
    "entry s k = Some fi \<Longrightarrow> plain (fi_path fi)" "dir_ok (fm_workingDir s)"
  using assms by (auto simp: serving_def fm_wf_def)

text \<open>A manager serves after its table of watches was kept and the object of \<open>k\<close> was replaced.\<close>

lemma serving_replace:
  assumes "serving sys con db s" and "same_outside queue tbl s s'" and "watch_wf s'" and "files_wf s'" and "files_inj s'"
    and "entry s' = (entry s)(k := x)"
    and "\<And>fi. x = Some fi \<Longrightarrow> fi_watchDescriptor fi \<noteq> None \<and> plain (fi_path fi) \<and> (\<forall>j e. j \<noteq> k \<longrightarrow> db j = Some e \<longrightarrow> fi_path fi \<noteq> fe_name e)"
  shows "serving sys con db s'"
  using assms same_frame_fields [of s s']
  by (auto simp: serving_def fm_wf_def same_outside_def split: if_splits)

lemma loaded_path:
  assumes "serving sys con db s" and "db_wf db" and "db k = Some e" and "loaded_entry e (entry s k) fi"
  shows "plain (fi_path fi) \<and> (\<forall>j f. j \<noteq> k \<longrightarrow> db j = Some f \<longrightarrow> fi_path fi \<noteq> fe_name f)"
  using assms(4) serving_parts(9,10) [OF assms(1), of k] db_wfD(3) [OF assms(2,3)] db_wfD(4) [OF assms(2)] assms(3)
  by (cases "entry s k") (auto simp: loaded_entry_def names_distinct_def)

lemma loaded_disk:
  assumes "names_distinct db" and "db k = Some e" and "on_disk sys s' = (on_disk sys s)(fe_name e \<mapsto> fe_data e)" and "db j = Some f"
  shows "on_disk sys s' (fe_name f) = (if j = k then Some (fe_data f) else on_disk sys s (fe_name f))"
proof (cases "j = k")
  case False
  then have "fe_name f \<noteq> fe_name e" using assms(1,2,4) unfolding names_distinct_def by metis
  with False assms(3) show ?thesis by simp
qed (use assms in simp)

lemma loaded_view:
  "loaded_entry e old fi \<Longrightarrow> uint (fe_id e) = k \<Longrightarrow> entry s' = (entry s)(k \<mapsto> fi) \<Longrightarrow> cache_view s' = enter_row e (cache_view s)"
  by (auto simp: view_of_entry(1) enter_row_def loaded_entry_def)

lemma insert_notification_done:
  assumes laws: "file_laws sys disturbed queue tbl" "server_laws sys con disturbed queue tbl" and db: "db_wf db"
    and serv: "serving sys con db s" and row: "map_option snd (tbl (world s) k) = db k" "db k = Some e"
    and calm: "\<not> disturbed (world (snd (insert_notification sys k s)))"
  shows "note_done sys con queue tbl db s (enter_row e (cache_view s)) k True (insert_notification sys k s)"
proof -
  obtain s1 where s1: "fm_ignoreFSNotifications s = (Inr (), s1)" "same_outside queue tbl s s1" "entry s1 = entry s"
    "world s1 = world s" "on_disk sys s1 = on_disk sys s" "serving sys con db s1"
    using ignoreFS_step [of s queue tbl sys con db] serv by blast
  note p1 = serving_parts [OF s1(6)] and last = file_lawsD(2) [OF laws(1)]
  let ?rest = "bind (filesById_index k) (watchFile sys)"
  have run: "insert_notification sys k s = seq (loadFiles sys (by_id k)) ?rest s1"
    using s1(1) p1(5) by (simp add: insert_notification_def on_source_def act_simps by_id_def)
  have "keeps (\<lambda>s. disturbed (world s)) ?rest" by (intro keeps_rules keeps_disturbed_steps last)
  from calm_seq [OF this calm [unfolded run]]
  have "\<not> disturbed (world (snd (loadFiles sys (by_id k) s1)))" .
  then obtain s2 fi where s2: "loadFiles sys (by_id k) s1 = (Inr (), s2)" "files_wf s2" "files_inj s2" "same_outside queue tbl s1 s2"
    and ent2: "entry s2 = (entry s)(k \<mapsto> fi)" "loaded_entry e (entry s k) fi"
    and disk2: "on_disk sys s2 = (on_disk sys s)(fe_name e \<mapsto> fe_data e)"
    using loadFiles_one [OF laws db p1(2,4,6,7,11), of k] row s1(3,4,5) by (auto simp: loaded_def)
  obtain a where a: "omap_find (ds_filesById s2) k = Some (Some a)" "a < length (fi_heap s2)" "fi_heap s2 ! a = fi"
    by (rule entryE [of s2 k fi]) (use ent2(1) in simp_all)
  have run: "insert_notification sys k s = watchFile sys (Some a) s2"
    unfolding run using s2(1) filesById_index_known [OF a(1)] by (simp add: act_simps)
  have "on_disk sys s2 (fi_path fi) \<noteq> None \<or> fi_watchDescriptor fi \<noteq> None"
    using ent2(2) disk2 serving_parts(8) [OF serv, of k] by (cases "entry s k") (auto simp: loaded_entry_def)
  then obtain r s3 fi3 where s3: "watchFile sys (Some a) s2 = (r, s3)" "caught r" "files_wf s3" "files_inj s3"
      "same_outside queue tbl s2 s3" "entry s3 = (entry s2)(k \<mapsto> fi3)" "watched_as fi fi3" "on_disk sys s3 = on_disk sys s2"
    using watchFile_entry [OF laws(1) s2(2,3) a(1,2), unfolded a(3)] calm run by metis
  have out: "same_outside queue tbl s s3" using s1(2) s2(4) s3(5) same_outside_trans by blast
  have "watch_wf s3"
    using keepsD [OF insert_notification_safe(2), of s sys k] run s3(1) serving_parts(3) [OF serv] by simp
  moreover have "fi_watchDescriptor fi3 \<noteq> None \<and> plain (fi_path fi3) \<and> (\<forall>j f. j \<noteq> k \<longrightarrow> db j = Some f \<longrightarrow> fi_path fi3 \<noteq> fe_name f)"
    using s3(7) loaded_path [OF serv db row(2) ent2(2)] by (simp add: watched_as_def)
  ultimately have "serving sys con db s3"
    using serving_replace [OF serv out _ s3(3,4), of k "Some fi3"] s3(6) ent2(1) by simp
  moreover have "cache_view s3 = enter_row e (cache_view s)"
  proof -
    have "cache_view s2 = enter_row e (cache_view s)" by (rule loaded_view [OF ent2(2) db_wfD(1) [OF db row(2)] ent2(1)])
    moreover have "cache_view s3 = cache_view s2"
      using s3(6,7) ent2(1) by (auto simp: fun_eq_iff cache_view_entry watched_as_def)
    ultimately show ?thesis by simp
  qed
  moreover have "on_disk sys s3 (fe_name f) = (if j = k then Some (fe_data f) else on_disk sys s (fe_name f))" if "db j = Some f" for j f
    using loaded_disk [OF db_wfD(4) [OF db] row(2) disk2 that] s3(8) by simp
  ultimately show ?thesis using run s3(1,2) out by (simp add: note_done_def)
qed

lemma note_skip:
  assumes "serving sys con db s"
  shows "note_done sys con queue tbl db s (cache_view s) k False (Inr (), s)"
  using assms by (simp add: note_done_def caught_def same_outside_def same_frame_def)

lemma update_notification_done:
  assumes laws: "file_laws sys disturbed queue tbl" "server_laws sys con disturbed queue tbl" and db: "db_wf db"
    and serv: "serving sys con db s" and row: "map_option snd (tbl (world s) k) = db k"
    and calm: "\<not> disturbed (world (snd (update_notification sys k s)))"
  shows "note_done sys con queue tbl db s
    (case db k of Some e \<Rightarrow> if cache_view s k = None then cache_view s else enter_row e (cache_view s) | None \<Rightarrow> cache_view s)
    k (cache_view s k \<noteq> None) (update_notification sys k s)"
proof (cases "omap_find (ds_filesById s) k")
  case None
  then have "cache_view s k = None" using view_absent [OF serving_parts(2) [OF serv]] by simp
  moreover have "update_notification sys k s = (Inr (), s)"
    using None serving_parts(5) [OF serv] by (simp add: update_notification_def on_source_def act_simps omap_count_def)
  ultimately show ?thesis using note_skip [of sys con db s queue tbl k, OF serv] by (cases "db k") simp_all
next
  case (Some p)
  obtain old where old: "entry s k = Some old" using Some entry_absent [OF serving_parts(2) [OF serv], of k] by auto
  then have known: "cache_view s k \<noteq> None" by (simp add: cache_view_entry)
  obtain s1 where s1: "fm_ignoreFSNotifications s = (Inr (), s1)" "same_outside queue tbl s s1" "entry s1 = entry s"
    "world s1 = world s" "on_disk sys s1 = on_disk sys s" "serving sys con db s1"
    using ignoreFS_step [of s queue tbl sys con db] serv by blast
  note p1 = serving_parts [OF s1(6)]
  have run: "update_notification sys k s = loadFiles sys (by_id k) s1"
    using s1(1) p1(5) Some serving_parts(5) [OF serv]
    by (simp add: update_notification_def on_source_def act_simps by_id_def omap_count_def)
  obtain s2 where s2: "loadFiles sys (by_id k) s1 = (Inr (), s2)" "files_wf s2" "files_inj s2" "same_outside queue tbl s1 s2"
    and load: "loaded sys k (db k) s1 s2"
    using loadFiles_one [OF laws db p1(2,4,6,7,11), of k] row calm run s1(4) by auto
  have out: "same_outside queue tbl s s2" using s1(2) s2(4) same_outside_trans by blast
  have watch: "watch_wf s2" using keepsD [OF update_notification_keeps(2), of s sys k] run s2(1) serving_parts(3) [OF serv] by simp
  show ?thesis
  proof (cases "db k")
    case None
    with load s1(3,5) have same: "entry s2 = entry s" "on_disk sys s2 = on_disk sys s" by (simp_all add: loaded_def)
    have "serving sys con db s2"
    proof (rule serving_replace [OF serv out watch s2(2,3)])
      show "entry s2 = (entry s)(k := entry s k)" using same(1) by simp
      show "fi_watchDescriptor fi \<noteq> None \<and> plain (fi_path fi) \<and> (\<forall>j e. j \<noteq> k \<longrightarrow> db j = Some e \<longrightarrow> fi_path fi \<noteq> fe_name e)"
        if "entry s k = Some fi" for fi
        using serving_parts(8) [OF serv that] serving_parts(9) [OF serv that] serving_parts(10) [OF serv that] by simp
    qed
    with None run s2(1) out same view_of_entry(3) [OF same(1)] show ?thesis by (simp add: note_done_def caught_def)
  next
    case (Some e)
    with load s1(3,5) obtain fi where ent: "entry s2 = (entry s)(k \<mapsto> fi)" "loaded_entry e (entry s k) fi"
      and disk: "on_disk sys s2 = (on_disk sys s)(fe_name e \<mapsto> fe_data e)" by (auto simp: loaded_def)
    have "fi_watchDescriptor fi \<noteq> None" using ent(2) old serving_parts(8) [OF serv, of k] by (simp add: loaded_entry_def)
    then have "serving sys con db s2"
      using serving_replace [OF serv out watch s2(2,3) ent(1)] loaded_path [OF serv db Some ent(2)] by simp
    moreover have "cache_view s2 = enter_row e (cache_view s)" by (rule loaded_view [OF ent(2) db_wfD(1) [OF db Some] ent(1)])
    ultimately show ?thesis
      using Some run s2(1) out known loaded_disk [OF db_wfD(4) [OF db] Some disk] by (auto simp: note_done_def caught_def)
  qed
qed

lemma delete_notification_done:
  assumes laws: "file_laws sys disturbed queue tbl" and db: "db_wf db" and serv: "serving sys con db s" and gone: "db k = None"
    and calm: "\<not> disturbed (world (snd (delete_notification sys k s)))"
  shows "note_done sys con queue tbl db s ((cache_view s)(k := None)) k False (delete_notification sys k s)"
proof (cases "entry s k")
  case None
  then have "(cache_view s)(k := None) = cache_view s" by (auto simp: fun_eq_iff cache_view_entry)
  moreover have "delete_notification sys k s = (Inr (), s)"
    using None entry_absent [OF serving_parts(2) [OF serv], of k] serving_parts(5) [OF serv]
    by (simp add: delete_notification_def try_catch_def on_source_def act_simps)
  ultimately show ?thesis using note_skip [of sys con db s queue tbl k, OF serv] by simp
next
  case (Some fi)
  note plain = serving_parts(10) [OF serv Some] and dir = serving_parts(11) [OF serv]
  obtain a where a: "omap_find (ds_filesById s) k = Some (Some a)" "a < length (fi_heap s)" "fi_heap s ! a = fi"
    using Some by (rule entryE)
  obtain wd where wd: "fi_watchDescriptor fi = Some wd" using serving_parts(8) [OF serv Some] by blast
  let ?path = "fm_workingDir s @ ''/'' @ fi_path fi" and ?w1 = "inotify_rm_watch sys (fm_inotifyFd s) wd (world s)"
  obtain res w where w: "sys_remove sys ?path ?w1 = (res, w)" by fastforce
  let ?s = "s\<lparr>world := w, ds_filesById := omap_erase k (ds_filesById s),
      fm_filesByWatchDesc := omap_erase (to_int32 k) (fm_filesByWatchDesc s)\<rparr>"
  have run: "delete_notification sys k s = (Inr (), ?s)"
    using a wd w serving_parts(5) [OF serv]
    by (cases res) (simp_all add: delete_notification_def try_catch_def on_source_def act_simps deref_Some)
  have removed: "\<not> disturbed ?w1" "queue w = queue ?w1" "tbl w = tbl ?w1"
    "\<And>g. plain g \<Longrightarrow> g \<noteq> fi_path fi \<Longrightarrow> sys_read_file sys (fm_workingDir s @ ''/'' @ g) w = sys_read_file sys (fm_workingDir s @ ''/'' @ g) ?w1"
    using calmD [OF remove_law [OF laws w]] calm run plain dir by simp_all
  have "quiet_world sys queue tbl (world s) ?w1"
    using calmD [OF file_lawsD(6) [OF laws] removed(1)] by simp
  then have outside: "queue w = queue (world s)" "tbl w = tbl (world s)"
    "\<And>g. plain g \<Longrightarrow> g \<noteq> fi_path fi \<Longrightarrow> sys_read_file sys (fm_workingDir s @ ''/'' @ g) w = sys_read_file sys (fm_workingDir s @ ''/'' @ g) (world s)"
    using removed by (simp_all add: quiet_world_def)
  have out: "same_outside queue tbl s ?s" using outside by (simp add: same_outside_def same_frame_def)
  have ent: "entry ?s = (entry s)(k := None)" "files_inj ?s"
    by (rule entry_erase [OF serving_parts(2,4) [OF serv]]; simp)+
  have "files_wf ?s" "watch_wf ?s"
    using keepsD [OF delete_notification_files, of s sys k] keepsD [OF delete_notification_watch, of s sys k]
      serving_parts(2,3) [OF serv] run by simp_all
  then have "serving sys con db ?s"
    using serving_replace [OF serv out _ _ ent(2,1)] by simp
  moreover have "on_disk sys ?s (fe_name f) = on_disk sys s (fe_name f)" if "db j = Some f" for j f
  proof -
    have "j \<noteq> k" using gone that by auto
    then have "fe_name f \<noteq> fi_path fi" using serving_parts(9) [OF serv Some _ that] by metis
    then show ?thesis using outside(3) [of "fe_name f"] by (simp add: on_disk_def)
  qed
  ultimately show ?thesis
    using run out view_of_entry(2) [OF ent(1)] by (simp add: note_done_def caught_def)
qed

text \<open>The message of a notification, through the decoding: what it refreshes is as in the database, and nothing else changed.\<close>

definition follows ::
    "'w sys \<Rightarrow> pgconn option \<Rightarrow> ('w \<Rightarrow> table) \<Rightarrow> database \<Rightarrow> (int \<Rightarrow> bool) \<Rightarrow>
     ('w, 'z) fm_scheme \<Rightarrow> ('w, 'z) fm_scheme \<Rightarrow> bool" where
  "follows sys con tbl db fresh s s' \<longleftrightarrow>
     serving sys con db s' \<and> same_frame s s' \<and> tbl (world s') = tbl (world s) \<and>
     (\<forall>k. cache_view s' k = (if fresh k then db_view db k else cache_view s k)) \<and>
     (\<forall>k e. db k = Some e \<longrightarrow>
        on_disk sys s' (fe_name e) = (if fresh k then Some (fe_data e) else on_disk sys s (fe_name e)))"

lemma note_done_follows:
  assumes "note_done sys con queue tbl db s v k fetch (r, s')"
    and "v = (cache_view s)(k := if fresh then db_view db k else cache_view s k)"
    and "db k \<noteq> None \<Longrightarrow> fetch = fresh"
  shows "follows sys con tbl db (\<lambda>j. fresh \<and> j = k) s s' \<and> queue (world s') = queue (world s)"
  using assms by (auto simp: note_done_def follows_def same_outside_def)

lemma handle_notification_done:
  assumes laws: "file_laws sys disturbed queue tbl" "server_laws sys con disturbed queue tbl" and db: "db_wf db" "db = own (fm_wspaceId s) (tbl (world s))"
    and serv: "serving sys con db s" and sound: "note_sound (fm_wspaceId s) (tbl (world s)) n"
    and ours: "dn_wspace n = fm_wspaceId s"
    and k: "k = dn_file n" and fresh: "fresh \<longleftrightarrow> refreshes (fm_wspaceId s) db (cache_view s) k n"
    and calm: "\<not> disturbed (world (snd (handle_notification sys (dn_type n) k s)))"
  obtains v fetch where "note_done sys con queue tbl db s v k fetch (handle_notification sys (dn_type n) k s)"
    and "v = (cache_view s)(k := if fresh then db_view db k else cache_view s k)"
    and "db k \<noteq> None \<Longrightarrow> fetch = fresh"
proof -
  let ?v = "cache_view s"
  have row: "map_option snd (tbl (world s) k) = db k" using note_sound_own(1) [OF sound ours] by (simp add: db(2) k)
  have upd: "enter_row e ?v = ?v(k := db_view db k)" if "db k = Some e" for e
    using that db_wfD(1) [OF db(1) that] by (simp add: enter_row_def db_view_def)
  consider "dn_type n = CHR ''i''" | "dn_type n = CHR ''u''" | "dn_type n = CHR ''d''"
    using sound by (auto simp: note_sound_def note_ok_def)
  then show thesis
  proof cases
    case 1
    then obtain e where e: "db k = Some e" using note_sound_own(2) [OF sound ours] by (auto simp: db(2) k)
    have "fresh" using 1 ours e k by (simp add: fresh refreshes_def)
    with insert_notification_done [OF laws db(1) serv row e] calm 1 upd [OF e] show thesis
      by (intro that) (simp_all add: handle_notification_def)
  next
    case 2
    have fresh: "fresh = (db k \<noteq> None \<and> ?v k \<noteq> None)" using 2 ours k by (auto simp: fresh refreshes_def)
    let ?u = "case db k of Some e \<Rightarrow> if ?v k = None then ?v else enter_row e ?v | None \<Rightarrow> ?v"
    show thesis
    proof (rule that)
      show "note_done sys con queue tbl db s ?u k (?v k \<noteq> None) (handle_notification sys (dn_type n) k s)"
        using update_notification_done [OF laws db(1) serv row] calm 2 by (simp add: handle_notification_def)
      show "?u = ?v(k := if fresh then db_view db k else ?v k)"
        using upd by (cases "db k") (auto simp: fresh fun_upd_idem_iff)
      show "(?v k \<noteq> None) = fresh" if "db k \<noteq> None" using that fresh by simp
    qed
  next
    case 3
    then have gone: "db k = None" using note_sound_own(3) [OF sound ours] by (simp add: db(2) k)
    then have "fresh" using 3 ours k by (simp add: fresh refreshes_def)
    with delete_notification_done [OF laws(1) db(1) serv gone] calm 3 gone show thesis
      by (intro that) (simp_all add: handle_notification_def db_view_def)
  qed
qed

lemma processDBNotification_follows:
  assumes laws: "file_laws sys disturbed queue tbl" "server_laws sys con disturbed queue tbl" and db: "db_wf db" "db = own (fm_wspaceId s) (tbl (world s))"
    and serv: "serving sys con db s" and sound: "note_sound (fm_wspaceId s) (tbl (world s)) n"
    and calm: "\<not> disturbed (world (snd (processDBNotification sys (note_text n) s)))"
  shows "\<exists>s'. processDBNotification sys (note_text n) s = (Inr (), s') \<and> queue (world s') = queue (world s) \<and>
    follows sys con tbl db (\<lambda>k. refreshes (fm_wspaceId s) db (cache_view s) k n) s s'"
proof -
  let ?k = "dn_file n" and ?fresh = "\<lambda>k. refreshes (fm_wspaceId s) db (cache_view s) k n"
  have run: "processDBNotification sys (note_text n) s =
      (if dn_wspace n \<noteq> fm_wspaceId s then (Inr (), s)
       else try_catch is_std_exception (handle_notification sys (dn_type n) ?k) (\<lambda>e. skip) s)"
    unfolding note_text_def by (rule decode_notification) (use sound in \<open>auto simp: note_sound_def note_ok_def\<close>)
  show ?thesis
  proof (cases "dn_wspace n = fm_wspaceId s")
    case False
    then have "?fresh = (\<lambda>k. False)" by (simp add: refreshes_def)
    with run False serv show ?thesis by (simp add: follows_def same_frame_def)
  next
    case ours: True
    have fresh: "?fresh = (\<lambda>j. ?fresh ?k \<and> j = ?k)" by (auto simp: refreshes_def fun_eq_iff)
    obtain r s' where h: "handle_notification sys (dn_type n) ?k s = (r, s')" by fastforce
    have "\<not> disturbed (world s')"
      using calm run ours h by (cases r) (auto simp: try_catch_def skip_apply split: if_splits)
    then obtain v fetch where noted: "note_done sys con queue tbl db s v ?k fetch (r, s')"
      and v: "v = (cache_view s)(?k := if ?fresh ?k then db_view db ?k else cache_view s ?k)"
      and fetch: "db ?k \<noteq> None \<Longrightarrow> fetch = ?fresh ?k"
      using handle_notification_done [OF laws db serv sound ours HOL.refl HOL.refl] unfolding h snd_conv by blast
    then have "caught r" by (simp add: note_done_def)
    then have "processDBNotification sys (note_text n) s = (Inr (), s')"
      using run ours h by (cases r) (simp_all add: try_catch_def skip_apply caught_def)
    with note_done_follows [OF noted v fetch] show ?thesis by (subst fresh) blast
  qed
qed

section \<open>A burst of notifications\<close>

text \<open>The files that one of the notifications refreshes.\<close>

definition refreshed :: "int \<Rightarrow> database \<Rightarrow> view \<Rightarrow> db_note list \<Rightarrow> int \<Rightarrow> bool" where
  "refreshed wsid db v ns k \<longleftrightarrow> (\<exists>n\<in>set ns. refreshes wsid db v k n)"

text \<open>Whether a later notification refreshes a file does not depend on the earlier ones, unless they did it.\<close>

lemma refreshed_Cons:
  assumes "\<forall>k. v' k = (if refreshes wsid db v k n then db_view db k else v k)"
  shows "refreshed wsid db v (n # ns) k \<longleftrightarrow> refreshes wsid db v k n \<or> refreshed wsid db v' ns k"
proof (cases "refreshes wsid db v k n")
  case False
  then have "v' k = v k" using assms by simp
  then have "refreshes wsid db v' k m = refreshes wsid db v k m" for m by (simp add: refreshes_def)
  with False show ?thesis by (simp add: refreshed_def)
qed (simp add: refreshed_def)

lemma follows_trans:
  assumes "follows sys con tbl db f s t" and "follows sys con tbl db g t u" and "\<And>k. h k \<longleftrightarrow> f k \<or> g k"
  shows "follows sys con tbl db h s u"
  using assms by (auto simp: follows_def intro: same_frame_trans)

text \<open>A step of the outside that leaves files and database alone.\<close>

lemma follows_world:
  assumes "serving sys con db s" and "quiet_world sys (\<lambda>_. []) tbl (world s) w"
  shows "follows sys con tbl db (\<lambda>k. False) s (s\<lparr>world := w\<rparr>)" "serving sys con db (s\<lparr>world := w\<rparr>)"
    "cache_view (s\<lparr>world := w\<rparr>) = cache_view s"
proof -
  let ?s = "s\<lparr>world := w\<rparr>"
  have ent: "entry ?s = entry s" "files_inj ?s = files_inj s" by (rule entry_same; simp)+
  show view: "cache_view ?s = cache_view s" by (rule view_of_entry(3) [OF ent(1)])
  show serv: "serving sys con db ?s"
    using assms(1) world_freeD [OF fm_wf_world_free, of s w] ent by (simp add: serving_def)
  show "follows sys con tbl db (\<lambda>k. False) s ?s"
    using serv view assms(2) by (simp add: follows_def same_frame_def quiet_world_def on_disk_def)
qed

text \<open>One round of the loop that handles a notification.\<close>

lemma notification_loop_round:
  assumes laws: "file_laws sys disturbed queue tbl" "server_laws sys con disturbed queue tbl"
    and serv: "serving sys con db s" and calm: "\<not> disturbed (world (snd (notification_loop sys (Suc fuel) s)))"
  obtains w where "quiet_world sys (\<lambda>_. []) tbl (world s) w" "queue w = tl (queue (world s))"
    "notification_loop sys (Suc fuel) s = (case queue (world s) of [] \<Rightarrow> (Inr (), s\<lparr>world := w\<rparr>)
      | (name, msg) # q \<Rightarrow>
          seq (if fm_ignoreDB s then skip else processDBNotification sys msg) (notification_loop sys fuel) (s\<lparr>world := w\<rparr>))"
proof -
  note last = file_lawsD(2) [OF laws(1)]
  obtain note' w where q: "pq_notifies sys con (world s) = (note', w)" by fastforce
  let ?f = "\<lambda>note. case note of None \<Rightarrow> skip | Some (name, channel) \<Rightarrow> bind (gets fm_ignoreDB) (\<lambda>ignoring.
    seq (if ignoring then skip else processDBNotification sys channel) (notification_loop sys fuel))"
  have run: "notification_loop sys (Suc fuel) s = bind (checkForNotification sys con) ?f s"
    using serv by (simp add: act_simps serving_def)
  have "keeps (\<lambda>s. disturbed (world s)) (?f x)" for x
    by (intro keeps_rules notifications_disturbed [OF last])
  note keep = this
  have "\<not> disturbed (world (snd (checkForNotification sys con s)))"
    by (rule calm_bind [of disturbed ?f, OF keep]) (use calm run in simp)
  then have "\<not> disturbed w" using q by (simp add: checkForNotification_def os_defs)
  then have w: "note' = (case queue (world s) of [] \<Rightarrow> None | n # ns \<Rightarrow> Some n)"
    "quiet_world sys (\<lambda>_. []) tbl (world s) w" "queue w = tl (queue (world s))"
    using calmD [OF server_lawsD(3) [OF laws(2) q]] by simp_all
  have "notification_loop sys (Suc fuel) s = (case queue (world s) of [] \<Rightarrow> (Inr (), s\<lparr>world := w\<rparr>)
      | (name, msg) # q \<Rightarrow>
          seq (if fm_ignoreDB s then skip else processDBNotification sys msg) (notification_loop sys fuel) (s\<lparr>world := w\<rparr>))"
    unfolding run using q w(1) by (auto simp: checkForNotification_def act_simps split: list.splits)
  with w(2,3) show thesis by (rule that)
qed

lemma notification_loop_follows:
  assumes laws: "file_laws sys disturbed queue tbl" "server_laws sys con disturbed queue tbl" and db: "db_wf db"
  shows "db = own (fm_wspaceId s) (tbl (world s)) \<Longrightarrow> serving sys con db s \<Longrightarrow> \<not> fm_ignoreDB s \<Longrightarrow>
    map snd (queue (world s)) = map note_text ns \<Longrightarrow> \<forall>n\<in>set ns. note_sound (fm_wspaceId s) (tbl (world s)) n \<Longrightarrow>
    length ns < fuel \<Longrightarrow> \<not> disturbed (world (snd (notification_loop sys fuel s))) \<Longrightarrow>
    \<exists>s'. notification_loop sys fuel s = (Inr (), s') \<and> queue (world s') = [] \<and>
      follows sys con tbl db (refreshed (fm_wspaceId s) db (cache_view s) ns) s s'"
proof (induction ns arbitrary: s fuel)
  case Nil
  obtain n where fuel: "fuel = Suc n" using Nil by (cases fuel) auto
  obtain w where w: "quiet_world sys (\<lambda>_. []) tbl (world s) w" "queue w = []" "notification_loop sys fuel s = (Inr (), s\<lparr>world := w\<rparr>)"
    using notification_loop_round [OF laws Nil.prems(2), of n] Nil.prems(4,7) by (auto simp: fuel simp del: notification_loop.simps)
  have "follows sys con tbl db (\<lambda>k. False) s (s\<lparr>world := w\<rparr>)" by (rule follows_world(1) [OF Nil.prems(2) w(1)])
  with w show ?case by (simp add: refreshed_def)
next
  case (Cons n ns)
  obtain m where fuel: "fuel = Suc m" "length ns < m" using Cons.prems(6) by (cases fuel) auto
  obtain name q where q: "queue (world s) = (name, note_text n) # q" "map snd q = map note_text ns"
    using Cons.prems(4) by auto
  obtain w where w: "quiet_world sys (\<lambda>_. []) tbl (world s) w" "queue w = q"
    and run: "notification_loop sys fuel s =
      seq (processDBNotification sys (note_text n)) (notification_loop sys m) (s\<lparr>world := w\<rparr>)"
    using notification_loop_round [OF laws Cons.prems(2), of m] Cons.prems(3,7) q(1) by (auto simp: fuel simp del: notification_loop.simps)
  let ?s = "s\<lparr>world := w\<rparr>"
  have same: "tbl (world ?s) = tbl (world s)" using w(1) by (simp add: quiet_world_def)
  note here = follows_world [OF Cons.prems(2) w(1)]
  have "\<not> disturbed (world (snd (processDBNotification sys (note_text n) ?s)))"
    by (rule calm_seq [OF notifications_disturbed(5) [OF file_lawsD(2) [OF laws(1)]]]) (use Cons.prems(7) run in simp)
  then obtain t where t: "processDBNotification sys (note_text n) ?s = (Inr (), t)" "queue (world t) = q"
    and step: "follows sys con tbl db (\<lambda>k. refreshes (fm_wspaceId s) db (cache_view s) k n) ?s t"
    using processDBNotification_follows [OF laws db, of ?s n] Cons.prems(1,5) here(2,3) w(2) same by auto
  have frame: "fm_wspaceId t = fm_wspaceId s" "fm_ignoreDB t = fm_ignoreDB s" "tbl (world t) = tbl (world s)"
    using step same_frame_fields(6,7) [of ?s t] same by (simp_all add: follows_def)
  have v: "\<forall>k. cache_view t k = (if refreshes (fm_wspaceId s) db (cache_view s) k n then db_view db k else cache_view s k)"
    using step here(3) by (simp add: follows_def)
  have "serving sys con db t" using step by (simp add: follows_def)
  then obtain u where u: "notification_loop sys m t = (Inr (), u)" "queue (world u) = []"
    and rest: "follows sys con tbl db (refreshed (fm_wspaceId s) db (cache_view t) ns) t u"
    using Cons.IH [of t m] Cons.prems(1,3,5,7) fuel(2) q(2) t frame run by (auto simp: seq_apply)
  have "notification_loop sys fuel s = (Inr (), u)" using run t(1) u(1) by (simp add: seq_apply)
  moreover have "follows sys con tbl db (refreshed (fm_wspaceId s) db (cache_view s) (n # ns)) s u"
    by (rule follows_trans [OF follows_trans [OF here(1) step HOL.refl] rest]) (simp add: refreshed_Cons [OF v])
  ultimately show ?case using u(2) by blast
qed

section \<open>Opening a workspace\<close>

text \<open>The rows of a workspace as a database.\<close>

definition rows_db :: "file_entry list \<Rightarrow> database" where
  "rows_db es = map_of (map (\<lambda>e. (uint (fe_id e), e)) es)"

lemma rows_db_iff:
  assumes "distinct (map fe_id es)"
  shows "rows_db es k = Some e \<longleftrightarrow> e \<in> set es \<and> uint (fe_id e) = k"
proof -
  have "distinct (map (uint \<circ> fe_id) es)" using assms by (simp add: distinct_map inj_on_def word_uint_eq_iff)
  then show ?thesis unfolding rows_db_def by (subst map_of_eq_Some_iff) (auto simp: comp_def)
qed

text \<open>Every row of \<open>es\<close> has its object, new and unwatched, and its file; nothing else changed.\<close>

definition rows_loaded :: "'w sys \<Rightarrow> file_entry list \<Rightarrow> ('w, 'z) fm_scheme \<Rightarrow> ('w, 'z) fm_scheme \<Rightarrow> bool" where
  "rows_loaded sys es s s' \<longleftrightarrow> files_wf s' \<and> files_inj s' \<and>
     s' = s\<lparr>world := world s', fi_heap := fi_heap s', ds_filesById := ds_filesById s'\<rparr> \<and>
     (\<forall>e\<in>set es. (\<exists>fi. entry s' (uint (fe_id e)) = Some fi \<and> loaded_entry e None fi) \<and> on_disk sys s' (fe_name e) = Some (fe_data e)) \<and>
     (\<forall>k. k \<notin> (\<lambda>e. uint (fe_id e)) ` set es \<longrightarrow> entry s' k = entry s k) \<and>
     (\<forall>f. f \<notin> fe_name ` set es \<longrightarrow> on_disk sys s' f = on_disk sys s f)"

lemma rows_loaded_frame: "rows_loaded sys es s s' \<Longrightarrow> same_frame s s'"
  unfolding rows_loaded_def same_frame_def by (cases s; cases s') simp

lemma load_rows_disturbed:
  assumes "lasting sys disturbed"
  shows "keeps (\<lambda>s. disturbed (world s)) (for_each ks (load_row sys res))"
  unfolding load_row_def Let_def
  by (intro keeps_rules keeps_disturbed_rules lastingD [OF assms]) simp_all

lemma load_rows_entries:
  assumes laws: "file_laws sys disturbed queue tbl"
  shows "\<forall>j<length es. i + j < length (pg_rows res) \<and> pg_rows res ! (i + j) = file_row (es ! j) \<Longrightarrow>
    \<forall>e\<in>set es. file_entry_ok e \<and> entry s (uint (fe_id e)) = None \<Longrightarrow> distinct (map fe_id es) \<Longrightarrow> distinct (map fe_name es) \<Longrightarrow>
    files_wf s \<Longrightarrow> files_inj s \<Longrightarrow> ds_workingDir s = fm_workingDir s \<Longrightarrow> dir_ok (fm_workingDir s) \<Longrightarrow>
    \<not> disturbed (world (snd (for_each [i..<i + length es] (load_row sys res) s))) \<Longrightarrow>
    \<exists>s'. for_each [i..<i + length es] (load_row sys res) s = (Inr (), s') \<and> rows_loaded sys es s s'"
proof (induction es arbitrary: i s)
  case Nil
  then show ?case by (simp add: skip_apply rows_loaded_def)
next
  case (Cons e es)
  have row: "i < length (pg_rows res)" "pg_rows res ! i = file_row e"
    using Cons.prems(1) [rule_format, of 0] by simp_all
  have e: "file_entry_ok e" "entry s (uint (fe_id e)) = None" using Cons.prems(2) by simp_all
  obtain t fi where t: "load_row sys res i s = (Inr (), t)" "files_wf t" "files_inj t"
    and frame: "t = s\<lparr>world := row_world sys e s, fi_heap := fi_heap t, ds_filesById := ds_filesById t\<rparr>"
    and ent: "entry t = (entry s)(uint (fe_id e) \<mapsto> fi)" "loaded_entry e None fi"
    using load_row_entry [OF row(2,1) e(1) Cons.prems(5,6), of sys] e(2) by metis
  have dirs: "ds_workingDir t = ds_workingDir s" "fm_workingDir t = fm_workingDir s" by (subst frame, simp)+
  have upt: "[i..<i + length (e # es)] = i # [Suc i..<Suc i + length es]" by (simp add: upt_rec)
  have calm: "\<not> disturbed (world (snd (for_each [Suc i..<Suc i + length es] (load_row sys res) t)))"
    using Cons.prems(9) t(1) unfolding upt by (simp add: seq_apply)
  have "\<not> disturbed (world t)"
    using keepsD [OF load_rows_disturbed [OF file_lawsD(2) [OF laws]], where s = t] calm by blast
  moreover have "world t = row_world sys e s" by (subst frame) simp
  ultimately have disk: "on_disk sys t = (on_disk sys s)(fe_name e \<mapsto> fe_data e)"
    using Cons.prems(7,8) dirs(2) by (intro row_world_disk [OF laws _ file_entry_okD(2) [OF e(1)]]) simp_all
  have new: "fe_id e' \<noteq> fe_id e" "fe_name e' \<noteq> fe_name e" if "e' \<in> set es" for e'
    using Cons.prems(3,4) that by (auto simp: image_iff)
  have "\<exists>s'. for_each [Suc i..<Suc i + length es] (load_row sys res) t = (Inr (), s') \<and> rows_loaded sys es t s'"
  proof (rule Cons.IH)
    show "\<forall>j<length es. Suc i + j < length (pg_rows res) \<and> pg_rows res ! (Suc i + j) = file_row (es ! j)"
      using Cons.prems(1) by fastforce
    show "\<forall>e'\<in>set es. file_entry_ok e' \<and> entry t (uint (fe_id e')) = None"
      using Cons.prems(2) new(1) ent(1) by (simp add: word_uint_eq_iff)
  qed (use Cons.prems t dirs calm in auto)
  then obtain u where u: "for_each [Suc i..<Suc i + length es] (load_row sys res) t = (Inr (), u)" "rows_loaded sys es t u" by blast
  have "for_each [i..<i + length (e # es)] (load_row sys res) s = (Inr (), u)"
    using t(1) u(1) unfolding upt by (simp add: seq_apply)
  moreover have "rows_loaded sys (e # es) s u"
  proof -
    have "u = s\<lparr>world := world u, fi_heap := fi_heap u, ds_filesById := ds_filesById u\<rparr>"
      using u(2) frame unfolding rows_loaded_def by (cases s; cases t; cases u) simp
    moreover have "uint (fe_id e) \<noteq> uint (fe_id e')" "fe_name e \<noteq> fe_name e'" if "e' \<in> set es" for e'
      using new [OF that] by (auto simp: word_uint_eq_iff)
    then have "uint (fe_id e) \<notin> (\<lambda>e. uint (fe_id e)) ` set es" "fe_name e \<notin> fe_name ` set es" by blast+
    ultimately show ?thesis
      using u(2) ent disk unfolding rows_loaded_def by (intro conjI) simp_all
  qed
  ultimately show ?case by blast
qed

text \<open>The loop of \<open>setupInotify\<close>: the cached files get their watch descriptors, and otherwise stay as they were.\<close>

definition all_watched :: "'w sys \<Rightarrow> int set \<Rightarrow> ('w, 'z) fm_scheme \<Rightarrow> ('w, 'z) fm_scheme \<Rightarrow> bool" where
  "all_watched sys ks s s' \<longleftrightarrow> files_wf s' \<and> files_inj s' \<and> same_frame s s' \<and> ds_filesById s' = ds_filesById s \<and> on_disk sys s' = on_disk sys s \<and>
     (\<forall>k. (entry s k = None \<longrightarrow> entry s' k = None) \<and>
        (\<forall>fi. entry s k = Some fi \<longrightarrow> (\<exists>fi'. entry s' k = Some fi' \<and> (fi' = fi \<or> watched_as fi fi') \<and> (k \<in> ks \<longrightarrow> watched_as fi fi'))))"

lemma watched_as_trans: "watched_as a b \<Longrightarrow> watched_as b c \<Longrightarrow> watched_as a c"
  by (simp add: watched_as_def)

lemma all_watched_trans:
  assumes "all_watched sys ks s t" and "all_watched sys ls t u"
  shows "all_watched sys (ks \<union> ls) s u"
proof -
  have "\<exists>fi'. entry u k = Some fi' \<and> (fi' = fi \<or> watched_as fi fi') \<and> (k \<in> ks \<union> ls \<longrightarrow> watched_as fi fi')" if "entry s k = Some fi" for k fi
  proof -
    from assms(1) that obtain f1 where f1: "entry t k = Some f1" "f1 = fi \<or> watched_as fi f1" "k \<in> ks \<longrightarrow> watched_as fi f1"
      unfolding all_watched_def by blast
    from assms(2) f1(1) obtain f2 where f2: "entry u k = Some f2" "f2 = f1 \<or> watched_as f1 f2" "k \<in> ls \<longrightarrow> watched_as f1 f2"
      unfolding all_watched_def by blast
    show ?thesis using f1 f2 watched_as_trans by blast
  qed
  then show ?thesis
    using assms same_frame_trans [of s t u] unfolding all_watched_def by simp
qed

lemma all_watchedD:
  "all_watched sys ks s s' \<Longrightarrow> entry s k = Some fi \<Longrightarrow>
    \<exists>fi'. entry s' k = Some fi' \<and> (fi' = fi \<or> watched_as fi fi') \<and> (k \<in> ks \<longrightarrow> watched_as fi fi')"
  by (simp add: all_watched_def)

lemma all_watched_cached:
  assumes "all_watched sys ks s s'" and "\<And>k. entry s k \<noteq> None \<Longrightarrow> k \<in> ks"
  shows "all_watched sys {k. entry s k \<noteq> None} s s'"
proof -
  have "\<exists>fi'. entry s' k = Some fi' \<and> (fi' = fi \<or> watched_as fi fi') \<and> watched_as fi fi'" if here: "entry s k = Some fi" for k fi
  proof -
    have "k \<in> ks" using assms(2) here by simp
    moreover obtain fi' where "entry s' k = Some fi'" "k \<in> ks \<longrightarrow> watched_as fi fi'"
      using all_watchedD [OF assms(1) here] by metis
    ultimately show ?thesis by simp
  qed
  then show ?thesis using assms(1) unfolding all_watched_def by simp
qed

lemma all_watched_old: "all_watched sys ks s s' \<Longrightarrow> entry s' k \<noteq> None \<Longrightarrow> entry s k \<noteq> None"
  unfolding all_watched_def by metis

text \<open>
  What else the calls do that a workspace is opened with. \<open>watches\<close> is the kernel's list of watches of each
  inotify instance. A new instance has none; a successful \<open>inotify_add_watch\<close> enters the path under the descriptor
  that it returns, which is in use already only if the path is watched already.
\<close>

definition workspace_query :: "int \<Rightarrow> string" where
  "workspace_query wsid = ''select id,name from rcworkspace where id = '' @ dec wsid"

definition opening_laws :: "'w sys \<Rightarrow> pgconn option \<Rightarrow> ('w \<Rightarrow> bool) \<Rightarrow> ('w \<Rightarrow> int \<Rightarrow> int \<rightharpoonup> string) \<Rightarrow> bool" where
  "opening_laws sys con disturbed watches \<longleftrightarrow>
     (\<forall>res w w'. pq_exec sys con ''listen rcfile'' w = (res, w') \<longrightarrow>
        calm disturbed w w' ((\<forall>f. sys_read_file sys f w' = sys_read_file sys f w) \<and> watches w' = watches w)) \<and>
     (\<forall>w fd w'. inotify_init sys w = (fd, w') \<longrightarrow>
        calm disturbed w w' ((\<forall>f. sys_read_file sys f w' = sys_read_file sys f w) \<and> (fd \<noteq> -1 \<longrightarrow> watches w' fd = Map.empty))) \<and>
     (\<forall>fd f m w wd w'. inotify_add_watch sys fd f m w = (wd, w') \<longrightarrow> wd \<noteq> -1 \<longrightarrow>
        calm disturbed w w' ((\<forall>g. watches w fd wd = Some g \<longrightarrow> g = f) \<and> watches w' fd = (watches w fd)(wd \<mapsto> f)))"

lemma opening_lawsD:
  assumes "opening_laws sys con disturbed watches"
  shows "pq_exec sys con ''listen rcfile'' w = (res, w') \<Longrightarrow>
      calm disturbed w w' ((\<forall>f. sys_read_file sys f w' = sys_read_file sys f w) \<and> watches w' = watches w)"
    and "inotify_init sys w = (fd, w') \<Longrightarrow>
      calm disturbed w w' ((\<forall>f. sys_read_file sys f w' = sys_read_file sys f w) \<and> (fd \<noteq> -1 \<longrightarrow> watches w' fd = Map.empty))"
    and "inotify_add_watch sys fd f m w = (wd, w') \<Longrightarrow> wd \<noteq> -1 \<Longrightarrow>
      calm disturbed w w' ((\<forall>g. watches w fd wd = Some g \<longrightarrow> g = f) \<and> watches w' fd = (watches w fd)(wd \<mapsto> f))"
  using assms unfolding opening_laws_def by blast+

text \<open>
  Inotify watches the cached file \<open>k\<close>: the kernel's list of watches has its path under the descriptor in its object,
  and the table of watches leads from the descriptor back to the object.
\<close>

definition registered :: "('w \<Rightarrow> int \<Rightarrow> int \<rightharpoonup> string) \<Rightarrow> ('w, 'z) fm_scheme \<Rightarrow> int \<Rightarrow> bool" where
  "registered watches s k \<longleftrightarrow>
     (\<exists>a wd. omap_find (ds_filesById s) k = Some (Some a) \<and> a < length (fi_heap s) \<and>
        fi_watchDescriptor (fi_heap s ! a) = Some wd \<and> wd \<noteq> -1 \<and>
        watches (world s) (fm_inotifyFd s) wd = Some (fm_workingDir s @ ''/'' @ fi_path (fi_heap s ! a)) \<and>
        omap_find (fm_filesByWatchDesc s) wd = Some (Some a))"

lemma registered_same:
  assumes "fi_heap s' = fi_heap s" and "ds_filesById s' = ds_filesById s" and "fm_filesByWatchDesc s' = fm_filesByWatchDesc s"
    and "fm_inotifyFd s' = fm_inotifyFd s" and "fm_workingDir s' = fm_workingDir s" and "watches (world s') = watches (world s)"
  shows "registered watches s' = registered watches s"
  by (simp add: registered_def fun_eq_iff assms)

definition paths_distinct :: "('w, 'z) fm_scheme \<Rightarrow> bool" where
  "paths_distinct s \<longleftrightarrow> (\<forall>j k f g. entry s j = Some f \<longrightarrow> entry s k = Some g \<longrightarrow> fi_path f = fi_path g \<longrightarrow> j = k)"

lemma watchFile_registers:
  assumes laws: "file_laws sys disturbed queue tbl" "opening_laws sys con disturbed watches"
    and inj: "files_inj s" and paths: "paths_distinct s" and inv: "omap_inv (fm_filesByWatchDesc s)"
    and a: "omap_find (ds_filesById s) k = Some (Some a)" "a < length (fi_heap s)"
    and there: "on_disk sys s (fi_path (fi_heap s ! a)) \<noteq> None"
    and run: "try_catch is_stat_exception (watchFile sys (Some a)) (\<lambda>se. skip) s = (Inr (), t)" and calm: "\<not> disturbed (world t)"
  shows "registered watches t k" and "registered watches s j \<Longrightarrow> registered watches t j" and "omap_inv (fm_filesByWatchDesc t)"
proof -
  let ?fi = "fi_heap s ! a" and ?path = "fm_workingDir s @ ''/'' @ fi_path (fi_heap s ! a)"
  have "sys_read_file sys ?path (world s) \<noteq> None" using there by (auto simp: on_disk_def split: if_splits)
  then obtain mtime where stat: "sys_stat_mtime sys ?path (world s) = Some mtime" using file_lawsD(3) [OF laws(1)] by blast
  obtain wd w where add: "inotify_add_watch sys (fm_inotifyFd s) ?path file_watch_mask (world s) = (wd, w)" by fastforce
  let ?new = "?fi\<lparr>fi_mtime := mtime, fi_watchDescriptor := Some wd\<rparr>"
  note w = watchFile_run [OF a(2) stat add]
  have caught: "\<not> is_stat_exception (formatted m)" for m by (simp add: formatted_def is_stat_exception_def)
  have wd: "wd \<noteq> -1"
  proof
    assume "wd = -1"
    with w obtain u where "watchFile sys (Some a) s = (Inl (formatted (''inotify_add_warched failed '' @ c_str (fi_name ?fi))), u)"
      by simp
    with run caught show False by (simp add: try_catch_def)
  qed
  have t: "t = s\<lparr>world := w, fi_heap := (fi_heap s)[a := ?new], fm_filesByWatchDesc := omap_put wd (Some a) (fm_filesByWatchDesc s)\<rparr>"
    using run wd by (simp add: try_catch_def w)
  then have "\<not> disturbed w" using calm by simp
  then have kernel: "\<And>g. watches (world s) (fm_inotifyFd s) wd = Some g \<Longrightarrow> g = ?path"
    "watches w (fm_inotifyFd s) = (watches (world s) (fm_inotifyFd s))(wd \<mapsto> ?path)"
    using calmD [OF opening_lawsD(3) [OF laws(2) add wd]] by simp_all
  show inv': "omap_inv (fm_filesByWatchDesc t)" using inv by (simp add: t)
  show new: "registered watches t k"
    using a wd kernel(2) inv by (auto simp: registered_def t om.find_put)
  show "registered watches t j" if old: "registered watches s j"
  proof (cases "j = k")
    case False
    obtain b v where b: "omap_find (ds_filesById s) j = Some (Some b)" "b < length (fi_heap s)"
      "fi_watchDescriptor (fi_heap s ! b) = Some v" "v \<noteq> -1"
      "watches (world s) (fm_inotifyFd s) v = Some (fm_workingDir s @ ''/'' @ fi_path (fi_heap s ! b))"
      "omap_find (fm_filesByWatchDesc s) v = Some (Some b)"
      using old by (auto simp: registered_def)
    have "b \<noteq> a" using inj a(1) b(1) False unfolding files_inj_def by metis
    have "v \<noteq> wd"
    proof
      assume "v = wd"
      with kernel(1) b(5) have "fi_path (fi_heap s ! b) = fi_path ?fi" by simp
      moreover have "entry s j = Some (fi_heap s ! b)" "entry s k = Some ?fi" using a b by (simp_all add: entry_def)
      ultimately show False using paths False unfolding paths_distinct_def by metis
    qed
    with b \<open>b \<noteq> a\<close> kernel(2) inv show ?thesis by (auto simp: registered_def t om.find_put)
  qed (use new in simp)
qed

lemma watch_loop_disturbed:
  assumes "lasting sys disturbed"
  shows "keeps (\<lambda>s. disturbed (world s)) (for_each m (\<lambda>(_, p). try_catch is_stat_exception (watchFile sys p) (\<lambda>se. skip)))"
  by (rule keeps_for_each) (auto intro!: keeps_rules watchFile_disturbed [OF assms])

lemma watch_loop:
  assumes laws: "file_laws sys disturbed queue tbl" "opening_laws sys con disturbed watches"
  shows "files_wf s \<Longrightarrow> files_inj s \<Longrightarrow> paths_distinct s \<Longrightarrow> omap_inv (fm_filesByWatchDesc s) \<Longrightarrow>
    \<forall>(k, p)\<in>set m. omap_find (ds_filesById s) k = Some p \<Longrightarrow>
    \<forall>k fi. entry s k = Some fi \<longrightarrow> on_disk sys s (fi_path fi) \<noteq> None \<Longrightarrow>
    for_each m (\<lambda>(_, p). try_catch is_stat_exception (watchFile sys p) (\<lambda>se. skip)) s = (Inr (), s') \<Longrightarrow>
    \<not> disturbed (world s') \<Longrightarrow>
    all_watched sys (fst ` set m) s s' \<and> (\<forall>k. registered watches s k \<or> k \<in> fst ` set m \<longrightarrow> registered watches s' k)"
proof (induction m arbitrary: s)
  case Nil
  have "same_frame s s" by (simp add: same_frame_def)
  with Nil show ?case by (simp add: all_watched_def skip_apply)
next
  case (Cons kp m)
  let ?loop = "\<lambda>m. for_each m (\<lambda>(_, p). try_catch is_stat_exception (watchFile sys p) (\<lambda>se. skip))"
  obtain k p where kp: "kp = (k, p)" by (cases kp)
  have find: "omap_find (ds_filesById s) k = Some p" using Cons.prems(5) kp by simp
  obtain a where a: "p = Some a" "a < length (fi_heap s)" by (rule view_entry [OF Cons.prems(1) find]) blast
  then have ent: "entry s k = Some (fi_heap s ! a)" using find by (simp add: entry_def)
  then have there: "on_disk sys s (fi_path (fi_heap s ! a)) \<noteq> None" using Cons.prems(6) by blast
  obtain t where first: "try_catch is_stat_exception (watchFile sys (Some a)) (\<lambda>se. skip) s = (Inr (), t)"
    and rest: "?loop m t = (Inr (), s')"
    using Cons.prems(7) kp a(1) by (auto simp: seq_apply split: prod.splits sum.splits)
  have calm: "\<not> disturbed (world t)"
    using keepsD [OF watch_loop_disturbed [OF file_lawsD(2) [OF laws(1)]], where s = t and m1 = m] rest Cons.prems(8) by auto
  obtain r where w: "watchFile sys (Some a) s = (r, t)"
    using first by (cases "watchFile sys (Some a) s") (auto simp: try_catch_def skip_apply split: sum.splits if_splits)
  obtain fi where t: "files_wf t" "files_inj t" "same_outside queue tbl s t"
      "entry t = (entry s)(k \<mapsto> fi)" "watched_as (fi_heap s ! a) fi" "on_disk sys t = on_disk sys s" "ds_filesById t = ds_filesById s"
    using watchFile_entry [OF laws(1) Cons.prems(1,2) find [unfolded a(1)] a(2)] there w calm by fastforce
  note reg = watchFile_registers [OF laws Cons.prems(2-4) find [unfolded a(1)] a(2) there first calm]
  have one: "all_watched sys {k} s t"
    using t ent by (auto simp: all_watched_def same_outside_def)
  have "paths_distinct t"
    using Cons.prems(3) t(4,5) ent by (auto simp: paths_distinct_def watched_as_def split: if_splits)
  moreover have "on_disk sys t (fi_path fo) \<noteq> None" if "entry t j = Some fo" for j fo
    using that t(4-6) ent Cons.prems(6) by (auto simp: watched_as_def split: if_splits)
  ultimately have "all_watched sys (fst ` set m) t s' \<and> (\<forall>k. registered watches t k \<or> k \<in> fst ` set m \<longrightarrow> registered watches s' k)"
    using Cons.IH [of t] t(1,2,7) reg(3) Cons.prems(5,8) rest by simp
  with all_watched_trans [OF one] reg(1,2) show ?case by (auto simp: kp)
qed

lemma seq_returns: "seq m n s = (Inr a, s') \<Longrightarrow> \<exists>b t. m s = (Inr b, t) \<and> n t = (Inr a, s')"
  by (auto simp: seq_apply split: prod.splits sum.splits)

lemma bind_returns: "bind m f s = (Inr a, s') \<Longrightarrow> \<exists>b t. m s = (Inr b, t) \<and> f b t = (Inr a, s')"
  by (auto simp: bind_apply split: prod.splits sum.splits)

text \<open>The cache and the directory agree with the database.\<close>

definition in_sync :: "'w sys \<Rightarrow> database \<Rightarrow> ('w, 'z) fm_scheme \<Rightarrow> bool" where
  "in_sync sys db s \<longleftrightarrow> cache_view s = db_view db \<and>
     (\<forall>k e. db k = Some e \<longrightarrow> on_disk sys s (fe_name e) = Some (fe_data e))"

text \<open>The query for the files of a workspace, and the world in which they are asked for.\<close>

definition files_query :: "int \<Rightarrow> string" where
  "files_query wsid = loadFiles_query (''where wspaceid = '' @ dec wsid)"

definition asked :: "'w sys \<Rightarrow> pgconn option \<Rightarrow> int \<Rightarrow> ('w, 'z) fm_scheme \<Rightarrow> 'w" where
  "asked sys con wsid s = snd (pq_exec sys con (workspace_query wsid) (world s))"

text \<open>After \<open>connect\<close>: exactly the rows are cached, unwatched, and their files are there.\<close>

definition connected :: "'w sys \<Rightarrow> pgconn option \<Rightarrow> file_entry list \<Rightarrow> ('w, 'z) fm_scheme \<Rightarrow> bool" where
  "connected sys con es s \<longleftrightarrow> fm_hasSource s \<and> ds_dbcon s = Some con \<and> fm_dbcon s = con \<and> ds_workingDir s = fm_workingDir s \<and>
     dir_ok (fm_workingDir s) \<and> files_wf s \<and> files_inj s \<and>
     (\<forall>e\<in>set es. (\<exists>fi. entry s (uint (fe_id e)) = Some fi \<and> loaded_entry e None fi) \<and> on_disk sys s (fe_name e) = Some (fe_data e)) \<and>
     (\<forall>k. k \<notin> (\<lambda>e. uint (fe_id e)) ` set es \<longrightarrow> entry s k = None)"

lemma fm_connect_loads:
  assumes laws: "file_laws sys disturbed queue tbl"
    and run: "fm_connect sys con wsid sid s = (Inr (), s')"
    and s: "fm_hasSource s" "ds_filesById s = []" "ds_workingDir s = fm_workingDir s" "dir_ok (fm_workingDir s)"
    and rows: "has_rows (fst (pq_exec_params sys con (files_query wsid) [] 1 (asked sys con wsid s))) (map file_row es)"
    and ok: "\<forall>e\<in>set es. file_entry_ok e" "distinct (map fe_id es)" "distinct (map fe_name es)"
    and calm: "\<not> disturbed (world s')"
  shows "connected sys con es s'"
proof -
  let ?s1 = "s\<lparr>fm_wspaceId := wsid, fm_sessionRecId := sid, fm_dbcon := con, ds_dbcon := Some con, ds_wspaceId := wsid,
      world := asked sys con wsid s\<rparr>"
  let ?q = "''where wspaceid = '' @ dec wsid"
  have init: "initializeSource sys con wsid (s\<lparr>fm_wspaceId := wsid, fm_sessionRecId := sid, fm_dbcon := con\<rparr>) = (Inr (), t) \<Longrightarrow> t = ?s1" for t
    by (auto simp: initializeSource_def act_simps executeQuery_def rowsReturned_def asked_def workspace_query_def split: prod.splits if_splits)
  from run s(1) obtain t u where "initializeSource sys con wsid (s\<lparr>fm_wspaceId := wsid, fm_sessionRecId := sid, fm_dbcon := con\<rparr>) = (Inr (), t)"
    and load: "loadFiles sys ?q t = (Inr (), u)" and s': "s' = u\<lparr>fm_sessionImageBatch := 0\<rparr>"
    unfolding fm_connect_def on_source_def
    by (fastforce simp: seq_modify bind_gets modify_apply dest!: seq_returns)
  with init have t: "t = ?s1" by simp
  obtain res w where w: "pq_exec_params sys con (loadFiles_query ?q) [] 1 (asked sys con wsid s) = (res, w)" by fastforce
  with rows have reply: "has_rows res (map file_row es)" by (simp add: files_query_def)
  let ?s2 = "?s1\<lparr>world := w\<rparr>"
  have empty: "entry ?s2 = (\<lambda>k. None)" "files_wf ?s2" "files_inj ?s2"
    using s(2) by (simp_all add: entry_def files_wf_def files_inj_def fun_eq_iff)
  have loop: "loadFiles sys ?q t = for_each [0..<0 + length es] (load_row sys res) ?s2"
    unfolding t using loadFiles_run [of ?s1 con sys ?q res w "map file_row es"] w reply by simp
  then have "\<not> disturbed (world (snd (for_each [0..<0 + length es] (load_row sys res) ?s2)))"
    using load calm s' by simp
  then have "\<exists>s'. for_each [0..<0 + length es] (load_row sys res) ?s2 = (Inr (), s') \<and> rows_loaded sys es ?s2 s'"
    by (intro load_rows_entries [OF laws]) (use reply ok empty s(3,4) in \<open>auto simp: has_rows_def\<close>)
  then have u: "rows_loaded sys es ?s2 u" using load loop by auto
  have "entry s' = entry u" "files_inj s' = files_inj u" by (rule entry_same; simp add: s')+
  moreover have "on_disk sys s' = on_disk sys u" by (simp add: s' on_disk_def fun_eq_iff)
  moreover have "fm_hasSource u" "ds_dbcon u = Some con" "fm_dbcon u = con" "ds_workingDir u = fm_workingDir u" "dir_ok (fm_workingDir u)"
    using same_frame_fields [OF rows_loaded_frame [OF u]] s(1,3,4) by simp_all
  ultimately show ?thesis
    using u empty(1) by (simp add: connected_def rows_loaded_def s')
qed

text \<open>Of the world these states see nothing but the files.\<close>

definition same_cache :: "'w sys \<Rightarrow> ('w, 'z) fm_scheme \<Rightarrow> ('w, 'z) fm_scheme \<Rightarrow> bool" where
  "same_cache sys s s' \<longleftrightarrow> fi_heap s' = fi_heap s \<and> ds_filesById s' = ds_filesById s \<and> on_disk sys s' = on_disk sys s \<and>
     fm_hasSource s' = fm_hasSource s \<and> ds_dbcon s' = ds_dbcon s \<and> fm_dbcon s' = fm_dbcon s \<and>
     ds_workingDir s' = ds_workingDir s \<and> fm_workingDir s' = fm_workingDir s"

lemma same_cache_entry:
  assumes "same_cache sys s s'"
  shows "entry s' = entry s" "files_inj s' = files_inj s" "files_wf s' = files_wf s" "cache_view s' = cache_view s"
proof -
  show ent: "entry s' = entry s" "files_inj s' = files_inj s" by (rule entry_same; use assms in \<open>simp add: same_cache_def\<close>)+
  show "files_wf s' = files_wf s" using assms by (simp add: same_cache_def files_wf_def)
  show "cache_view s' = cache_view s" by (rule view_of_entry(3) [OF ent(1)])
qed

lemma connected_same: "connected sys con es s \<Longrightarrow> same_cache sys s s' \<Longrightarrow> connected sys con es s'"
  using same_cache_entry [of sys s s'] by (simp add: connected_def same_cache_def)

lemma serving_same:
  "serving sys con db s \<Longrightarrow> same_cache sys s s' \<Longrightarrow> fm_wf s' \<Longrightarrow> serving sys con db s'"
  "in_sync sys db s \<Longrightarrow> same_cache sys s s' \<Longrightarrow> in_sync sys db s'"
  using same_cache_entry [of sys s s'] by (simp_all add: serving_def in_sync_def same_cache_def)

lemma connected_there:
  assumes "connected sys con es s" and "entry s k = Some fi"
  shows "on_disk sys s (fi_path fi) \<noteq> None"
proof -
  have "k \<in> (\<lambda>e. uint (fe_id e)) ` set es" using assms unfolding connected_def by (metis option.distinct(1))
  then obtain e where e: "e \<in> set es" "k = uint (fe_id e)" by blast
  then have "loaded_entry e None fi" "on_disk sys s (fe_name e) = Some (fe_data e)"
    using assms by (auto simp: connected_def)
  then show ?thesis by (simp add: loaded_entry_def)
qed

lemma connected_watched:
  assumes con: "connected sys con es t" and all: "all_watched sys {k. entry t k \<noteq> None} t u"
    and ok: "\<forall>e\<in>set es. file_entry_ok e" and distinct: "distinct (map fe_id es)" "distinct (map fe_name es)" and wf: "fm_wf u"
  shows "serving sys con (rows_db es) u \<and> in_sync sys (rows_db es) u"
proof -
  have frame: "same_frame t u" using all by (simp add: all_watched_def)
  have known: "\<exists>fi. entry u k = Some fi \<and> fi_version fi = uint (fe_version e) \<and> fi_name fi = fe_name e \<and> fi_path fi = fe_name e \<and>
      fi_watchDescriptor fi \<noteq> None \<and> plain (fi_path fi)" if "rows_db es k = Some e" for k e
  proof -
    have e: "e \<in> set es" "uint (fe_id e) = k" using that rows_db_iff [OF distinct(1)] by simp_all
    then obtain fi where fi: "entry t k = Some fi" "loaded_entry e None fi" using con by (auto simp: connected_def)
    then obtain fi' where "entry u k = Some fi'" "watched_as fi fi'" using all unfolding all_watched_def by fastforce
    with fi(2) file_entry_okD(2) [OF ok [rule_format, OF e(1)]] show ?thesis by (auto simp: loaded_entry_def watched_as_def)
  qed
  have unknown: "entry u k = None" if "rows_db es k = None" for k
  proof -
    have "k \<notin> (\<lambda>e. uint (fe_id e)) ` set es" using that rows_db_iff [OF distinct(1), of k] by auto
    then have "entry t k = None" using con by (simp add: connected_def)
    then show ?thesis using all by (simp add: all_watched_def)
  qed
  have names: "j = k" if "rows_db es j = Some e" "rows_db es k = Some f" "fe_name e = fe_name f" for j k e f
    using that distinct(2) rows_db_iff [OF distinct(1)] by (metis distinct_map inj_onD)
  have "serving sys con (rows_db es) u"
    unfolding serving_def
  proof (intro conjI allI impI)
    fix k fi assume fi: "entry u k = Some fi"
    then obtain e where e: "rows_db es k = Some e" using unknown by (cases "rows_db es k") auto
    with known fi show "fi_watchDescriptor fi \<noteq> None" "plain (fi_path fi)" by fastforce+
    show "fi_path fi \<noteq> fe_name f" if "j \<noteq> k" "rows_db es j = Some f" for j f
      using known [OF e] fi names [OF that(2) e] that(1) by auto
  qed (use con all wf same_frame_fields [OF frame] in \<open>auto simp: connected_def all_watched_def\<close>)
  moreover have "cache_view u = db_view (rows_db es)"
  proof (rule ext)
    show "cache_view u k = db_view (rows_db es) k" for k
      using known [of k] unknown [of k] by (cases "rows_db es k") (auto simp: cache_view_entry db_view_def)
  qed
  moreover have "on_disk sys u (fe_name e) = Some (fe_data e)" if "rows_db es k = Some e" for k e
    using that rows_db_iff [OF distinct(1)] con all by (auto simp: connected_def all_watched_def)
  ultimately show ?thesis by (simp add: in_sync_def)
qed

lemma connected_paths:
  assumes "connected sys con es s" and "distinct (map fe_id es)" and "distinct (map fe_name es)"
  shows "paths_distinct s"
proof -
  have row: "\<exists>e\<in>set es. uint (fe_id e) = k \<and> fi_path f = fe_name e" if "entry s k = Some f" for k f
  proof -
    have "k \<in> (\<lambda>e. uint (fe_id e)) ` set es" using assms(1) that unfolding connected_def by (metis option.distinct(1))
    then obtain e where e: "e \<in> set es" "uint (fe_id e) = k" by blast
    with assms(1) that have "fi_path f = fe_name e" by (fastforce simp: connected_def loaded_entry_def)
    with e show ?thesis by blast
  qed
  show ?thesis
    unfolding paths_distinct_def using row assms(3) by (metis distinct_map inj_onD)
qed

lemma setupInotify_disturbed:
  assumes "lasting sys disturbed"
  shows "keeps (\<lambda>s. disturbed (world s)) (setupInotify sys)"
  unfolding setupInotify_def
  by (intro keeps_rules keeps_disturbed_rules watch_loop_disturbed [OF assms] lastingD [OF assms]) simp_all

text \<open>The successful run: an instance, a watch of the directory, and the loop over the cached files.\<close>

lemma setupInotify_loop:
  assumes run: "setupInotify sys s = (Inr (), s')" and src: "fm_hasSource s"
  obtains fd w1 wd w2 u where "inotify_init sys (world s) = (fd, w1)" "fd \<noteq> -1"
    "inotify_add_watch sys fd (fm_workingDir s) root_watch_mask w1 = (wd, w2)" "wd \<noteq> -1"
    "for_each (ds_filesById s) (\<lambda>(_, p). try_catch is_stat_exception (watchFile sys p) (\<lambda>se. skip))
      (s\<lparr>fm_inotifyFd := fd, world := w2, fm_rootWd := wd\<rparr>) = (Inr (), u)"
    "s' = u\<lparr>fm_inotifyEvent := Some (EV_WRITE + EV_READ)\<rparr>"
proof -
  obtain fd w1 where w1: "inotify_init sys (world s) = (fd, w1)" by fastforce
  obtain wd w2 where w2: "inotify_add_watch sys fd (fm_workingDir s) root_watch_mask w1 = (wd, w2)" by fastforce
  let ?s1 = "s\<lparr>fm_inotifyFd := fd, world := w2, fm_rootWd := wd\<rparr>"
  let ?loop = "for_each (ds_filesById s) (\<lambda>(_, p). try_catch is_stat_exception (watchFile sys p) (\<lambda>se. skip))"
  have fd: "fd \<noteq> -1"
  proof
    assume "fd = -1"
    with run w1 show False by (simp add: setupInotify_def act_simps)
  qed
  have wd: "wd \<noteq> -1"
  proof
    assume "wd = -1"
    with run w1 w2 fd show False by (simp add: setupInotify_def act_simps)
  qed
  have "setupInotify sys s = seq ?loop (modify (\<lambda>s. s\<lparr>fm_inotifyEvent := Some (EV_WRITE + EV_READ)\<rparr>)) ?s1"
    using w1 w2 src fd wd by (simp add: setupInotify_def on_source_def act_simps)
  with run obtain u where "?loop ?s1 = (Inr (), u)" "s' = u\<lparr>fm_inotifyEvent := Some (EV_WRITE + EV_READ)\<rparr>"
    by (auto simp: modify_apply dest!: seq_returns)
  with w1 w2 fd wd show thesis by (intro that)
qed

lemma setupInotify_serves:
  assumes laws: "file_laws sys disturbed queue tbl" "opening_laws sys con disturbed watches"
    and con: "connected sys con es s" and wf: "fm_wf s" and run: "setupInotify sys s = (Inr (), s')"
    and ok: "\<forall>e\<in>set es. file_entry_ok e" and distinct: "distinct (map fe_id es)" "distinct (map fe_name es)"
    and calm: "\<not> disturbed (world s')"
  shows "serving sys con (rows_db es) s' \<and> in_sync sys (rows_db es) s' \<and> (\<forall>k. entry s' k \<noteq> None \<longrightarrow> registered watches s' k)"
proof -
  have src: "fm_hasSource s" using con by (simp add: connected_def)
  obtain fd w1 wd w2 u where w1: "inotify_init sys (world s) = (fd, w1)" "fd \<noteq> -1"
    and w2: "inotify_add_watch sys fd (fm_workingDir s) root_watch_mask w1 = (wd, w2)" "wd \<noteq> -1"
    and loop: "for_each (ds_filesById s) (\<lambda>(_, p). try_catch is_stat_exception (watchFile sys p) (\<lambda>se. skip))
      (s\<lparr>fm_inotifyFd := fd, world := w2, fm_rootWd := wd\<rparr>) = (Inr (), u)"
    and s': "s' = u\<lparr>fm_inotifyEvent := Some (EV_WRITE + EV_READ)\<rparr>"
    by (rule setupInotify_loop [OF run src])
  let ?s1 = "s\<lparr>fm_inotifyFd := fd, world := w2, fm_rootWd := wd\<rparr>"
  have calm_u: "\<not> disturbed (world u)" using calm by (simp add: s')
  then have calm2: "\<not> disturbed w2"
    using keepsD [OF watch_loop_disturbed [OF file_lawsD(2) [OF laws(1)]], where s = ?s1 and m1 = "ds_filesById s"] loop by auto
  have quiet: "\<not> disturbed w1" "quiet_world sys queue tbl w1 w2" using calmD [OF add_watch_law [OF laws(1) w2(1)] calm2] by simp_all
  have "\<forall>f. sys_read_file sys f w1 = sys_read_file sys f (world s)"
    using calmD [OF opening_lawsD(2) [OF laws(2) w1(1)] quiet(1)] by simp
  then have same: "same_cache sys s ?s1" using quiet(2) by (simp add: same_cache_def on_disk_def fun_eq_iff quiet_world_def)
  note con1 = connected_same [OF con same]
  have wf1: "files_wf ?s1" "files_inj ?s1" using con1 by (simp_all add: connected_def)
  have entries: "\<forall>(k, p)\<in>set (ds_filesById s). omap_find (ds_filesById ?s1) k = Some p"
    using wf1(1) om.entries_iff unfolding files_wf_def by fastforce
  have inv: "omap_inv (fm_filesByWatchDesc ?s1)" using wf by (simp add: fm_wf_def watch_wf_def)
  have there: "\<forall>k fi. entry ?s1 k = Some fi \<longrightarrow> on_disk sys ?s1 (fi_path fi) \<noteq> None"
    using connected_there [OF con1] by blast
  note done' = watch_loop [OF laws wf1 connected_paths [OF con1 distinct] inv entries there loop calm_u]
  have cached: "k \<in> fst ` set (ds_filesById s)" if "entry ?s1 k \<noteq> None" for k
  proof -
    have "omap_find (ds_filesById s) k \<noteq> None" using that entry_absent [OF wf1(1), of k] by simp
    then obtain p where "omap_find (ds_filesById s) k = Some p" by blast
    then have "(k, p) \<in> set (ds_filesById s)" using om.entries_iff [of "ds_filesById s" k p] wf1(1) by (simp add: files_wf_def)
    then show ?thesis by (rule image_eqI [rotated]) simp
  qed
  have watched: "all_watched sys {k. entry ?s1 k \<noteq> None} ?s1 u"
    by (rule all_watched_cached [OF done' [THEN conjunct1] cached])
  have reg: "registered watches u k" if "entry u k \<noteq> None" for k
    using all_watched_old [OF watched that] cached [of k] done' by blast
  have "fm_wf s'" using keepsD [OF setupInotify_wf wf, of sys] run by simp
  then have "fm_wf u" unfolding s' by (simp add: fm_wf_def)
  from connected_watched [OF con1 watched ok distinct this] have u: "serving sys con (rows_db es) u" "in_sync sys (rows_db es) u" by simp_all
  have "same_cache sys u s'" by (simp add: s' same_cache_def on_disk_def fun_eq_iff)
  moreover have "entry s' = entry u" by (rule entry_same) (simp_all add: s')
  moreover have "registered watches s' = registered watches u" by (rule registered_same) (simp_all add: s')
  ultimately show ?thesis using serving_same(1) [OF u(1) _ \<open>fm_wf s'\<close>] serving_same(2) [OF u(2)] reg by simp
qed

lemma initFileManager_serves:
  assumes laws: "file_laws sys disturbed queue tbl" "opening_laws sys con disturbed watches" and fresh: "fm_fresh s" and dir: "dir_ok dir"
    and run: "initFileManager sys dir con wsid sid s = (Inr (), s')"
    and rows: "has_rows (fst (pq_exec_params sys con (files_query (to_int32 wsid)) [] 1 (asked sys con (to_int32 wsid) s))) (map file_row es)"
    and ok: "\<forall>e\<in>set es. file_entry_ok e" "distinct (map fe_id es)" "distinct (map fe_name es)"
    and calm: "\<not> disturbed (world s')"
  shows "serving sys con (rows_db es) s' \<and> in_sync sys (rows_db es) s' \<and> (\<forall>k. entry s' k \<noteq> None \<longrightarrow> registered watches s' k)"
proof -
  let ?s0 = "s\<lparr>fm_hasSource := True, ds_filesById := [], ds_dbcon := None, fm_workingDir := dir, ds_workingDir := dir\<rparr>"
  have wf0: "fm_wf ?s0" using fresh_wf [OF fresh] by (simp add: fm_wf_def files_wf_def watch_wf_def)
  from run obtain t u where connect: "fm_connect sys con (to_int32 wsid) (to_int32 sid) ?s0 = (Inr (), t)"
    and watch: "setupInotify sys t = (Inr (), u)"
    and rest: "bind (gets fm_dbcon) (\<lambda>con. bind (executeQuery sys con ''listen rcfile'') (\<lambda>_. modify (\<lambda>s. s\<lparr>fm_dbEvent := True\<rparr>))) u = (Inr (), s')"
    unfolding initFileManager_def on_source_def setWorkingDir_def
    by (fastforce simp: seq_modify bind_gets modify_apply dest!: seq_returns)
  have "keeps (\<lambda>s. disturbed (world s)) (bind (gets fm_dbcon) (\<lambda>con. bind (executeQuery sys con ''listen rcfile'') (\<lambda>_. modify (\<lambda>s. s\<lparr>fm_dbEvent := True\<rparr>))))"
    unfolding executeQuery_def by (intro keeps_rules keeps_disturbed_rules lastingD [OF file_lawsD(2) [OF laws(1)]]) simp_all
  from keepsD [OF this, of u] rest calm have calm_u: "\<not> disturbed (world u)" by auto
  then have calm_t: "\<not> disturbed (world t)"
    using keepsD [OF setupInotify_disturbed [OF file_lawsD(2) [OF laws(1)]], where s = t] watch by auto
  have con: "connected sys con es t"
    by (rule fm_connect_loads [OF laws(1) connect _ _ _ _ _ ok calm_t]) (use rows dir in \<open>simp_all add: asked_def\<close>)
  have "keeps fm_wf (fm_connect sys con (to_int32 wsid) (to_int32 sid))"
    unfolding fm_connect_def
    by (intro keeps_rules keeps_on_source initializeSource_wf keeps_fm_wf loadFiles_files keeps_watch keeps_modify)
      (auto simp: fm_wf_def files_wf_def watch_wf_def)
  from keepsD [OF this wf0] connect have "fm_wf t" by simp
  from setupInotify_serves [OF laws con this watch ok calm_u]
  have u: "serving sys con (rows_db es) u" "in_sync sys (rows_db es) u" "\<forall>k. entry u k \<noteq> None \<longrightarrow> registered watches u k" by simp_all
  then have "fm_dbcon u = con" by (simp add: serving_def)
  moreover obtain res w where w: "pq_exec sys con ''listen rcfile'' (world u) = (res, w)" by fastforce
  ultimately have s': "s' = u\<lparr>world := w, fm_dbEvent := True\<rparr>"
    using rest by (auto simp: act_simps executeQuery_def split: prod.splits)
  then have "\<not> disturbed w" using calm by simp
  then have same_reads: "\<forall>f. sys_read_file sys f w = sys_read_file sys f (world u)" and same_watches: "watches w = watches (world u)"
    using calmD [OF opening_lawsD(1) [OF laws(2) w]] by simp_all
  have same: "same_cache sys u s'" using same_reads by (simp add: s' same_cache_def on_disk_def fun_eq_iff)
  moreover have "entry s' = entry u" by (rule entry_same) (simp_all add: s')
  moreover have "registered watches s' = registered watches u" by (rule registered_same) (simp_all add: s' same_watches)
  ultimately show ?thesis
    using serving_same(1) [OF u(1) same initFileManager_wf [OF fresh run]] serving_same(2) [OF u(2) same] u(3) by simp
qed

section \<open>Following the database\<close>

definition up_to_date :: "'w sys \<Rightarrow> database \<Rightarrow> ('w, 'z) fm_scheme \<Rightarrow> int \<Rightarrow> bool" where
  "up_to_date sys db s k \<longleftrightarrow> cache_view s k = db_view db k \<and> (\<forall>e. db k = Some e \<longrightarrow> on_disk sys s (fe_name e) = Some (fe_data e))"

lemma in_sync_iff: "in_sync sys db s \<longleftrightarrow> (\<forall>k. up_to_date sys db s k)"
  by (auto simp: in_sync_def up_to_date_def)

text \<open>The callback up to its loop.\<close>

lemma handleDBNotifications_start:
  assumes serv: "serving sys con db s" and consume: "pq_consume_input sys con (world s) = (1, w)"
  obtains t where "handleDBNotifications sys fuel s = notification_loop sys fuel t" "world t = w"
    "fm_wspaceId t = fm_wspaceId s" "fm_ignoreDB t = fm_ignoreDB s" "same_frame s t"
    "fi_heap t = fi_heap s" "ds_filesById t = ds_filesById s" "fm_wf t"
proof -
  let ?s1 = "if fm_ignoreFS s then s else s\<lparr>fm_ignoreFS := True, fm_timers := fm_timers s + 1\<rparr>"
  have one: "fm_ignoreFSNotifications s = (Inr (), ?s1)" by (simp add: fm_ignoreFSNotifications_def act_simps)
  have "fm_wf ?s1" using keepsD [OF ignoreFS_wf, of s] one serv by (simp add: serving_def)
  then have "fm_wf (?s1\<lparr>world := w\<rparr>)" by (rule world_freeD [OF fm_wf_world_free])
  moreover have "handleDBNotifications sys fuel s = notification_loop sys fuel (?s1\<lparr>world := w\<rparr>)"
    using one consume serv by (simp add: handleDBNotifications_def seq_apply bind_apply gets_apply consumeInput_def os_do_def skip_apply serving_def)
  ultimately show thesis by (intro that [of "?s1\<lparr>world := w\<rparr>"]) (simp_all add: same_frame_def)
qed

lemma handleDBNotifications_follows:
  assumes laws: "file_laws sys disturbed queue tbl" "server_laws sys con disturbed queue tbl"
    and serv: "serving sys con db s" and db: "db_wf db" "db = own (fm_wspaceId s) (tbl w)" and on: "\<not> fm_ignoreDB s"
    and consume: "pq_consume_input sys con (world s) = (1, w)"
    and queued: "map snd (queue w) = map note_text ns" "\<forall>n\<in>set ns. note_sound (fm_wspaceId s) (tbl w) n" "length ns < fuel"
    and calm: "\<not> disturbed (world (snd (handleDBNotifications sys fuel s)))"
  shows "\<exists>s'. handleDBNotifications sys fuel s = (Inr (), s') \<and> queue (world s') = [] \<and> serving sys con db s' \<and> same_frame s s' \<and>
    (\<forall>k. cache_view s' k = (if refreshed (fm_wspaceId s) db (cache_view s) ns k then db_view db k else cache_view s k)) \<and>
    (\<forall>k e. db k = Some e \<longrightarrow> on_disk sys s' (fe_name e) =
       (if refreshed (fm_wspaceId s) db (cache_view s) ns k then Some (fe_data e) else on_disk sys s (fe_name e)))"
proof -
  obtain t where run: "handleDBNotifications sys fuel s = notification_loop sys fuel t" and t: "world t = w"
    "fm_wspaceId t = fm_wspaceId s" "fm_ignoreDB t = fm_ignoreDB s" "same_frame s t"
    "fi_heap t = fi_heap s" "ds_filesById t = ds_filesById s" "fm_wf t"
    by (rule handleDBNotifications_start [OF serv consume])
  have "\<not> disturbed w"
    using keepsD [OF notifications_disturbed(5) [OF file_lawsD(2) [OF laws(1)]], where s = t and fuel1 = fuel] calm run t(1) by auto
  then have "\<forall>f. sys_read_file sys f w = sys_read_file sys f (world s)"
    using calmD [OF server_lawsD(2) [OF laws(2) consume]] by simp
  then have cache: "same_cache sys s t"
    using t same_frame_fields [OF t(4)] by (simp add: same_cache_def on_disk_def fun_eq_iff)
  have serv2: "serving sys con db t" by (rule serving_same(1) [OF serv cache t(7)])
  have view: "cache_view t = cache_view s" by (rule same_cache_entry(4) [OF cache])
  obtain s' where s': "notification_loop sys fuel t = (Inr (), s')" "queue (world s') = []"
    "follows sys con tbl db (refreshed (fm_wspaceId s) db (cache_view s) ns) t s'"
    using notification_loop_follows [OF laws db(1), of t ns fuel] serv2 db(2) on queued calm run t view by auto
  have "same_frame s s'" using s'(3) t(4) same_frame_trans by (auto simp: follows_def)
  moreover have "on_disk sys t = on_disk sys s" using cache by (simp add: same_cache_def)
  ultimately show ?thesis
    using run s' view by (simp add: follows_def)
qed

end
