(* ===== verification/Db_Sync_Behaviour.thy ===== *)
theory Db_Sync_Behaviour
  imports Db_Sync
begin

text \<open>
  The properties of the file manager and the database together, on a sample server that answers queries
  from a table.
\<close>

section \<open>A sample server\<close>

text \<open>The queries of one file carry its id at the end.\<close>

definition int_of_dec :: "string \<Rightarrow> int" where
  "int_of_dec t = (case t of [] \<Rightarrow> 0 | c # cs \<Rightarrow> if c = CHR ''-'' then - int (digits_value 0 cs) else int (digits_value 0 t))"

lemma int_of_dec: "int_of_dec (dec k) = k"
proof -
  obtain c cs where c: "dec_nat (nat k) = c # cs" "is_digit c" using dec_nat_Cons by blast
  with digit_not_sign [OF c(2)] digits_value_dec_nat [of "nat k"] show ?thesis
    by (auto simp: int_of_dec_def dec_def digits_value_dec_nat)
qed

definition asked_id :: "string \<Rightarrow> int" where
  "asked_id q = int_of_dec (drop (length (loadFiles_query '' where f.id = '')) q)"

lemma asked_id: "asked_id (loadFiles_query (by_id k)) = k"
  by (simp add: asked_id_def loadFiles_query_def by_id_def int_of_dec)

definition server_sys :: "table \<Rightarrow> toy sys" where
  "server_sys t = toy_sys\<lparr>pq_exec_params := (\<lambda>con q ps rf w. (rows_reply (map file_row (file_rows (map_option snd (t (asked_id q))))), w))\<rparr>"

lemma map_of_others: "g \<noteq> f \<Longrightarrow> map_of (filter (\<lambda>e. fst e \<noteq> f) xs) g = map_of xs g"
  by (induction xs) auto

lemma toy_file_laws: "file_laws toy_sys (\<lambda>_. False) tw_notes (\<lambda>w. t)"
  unfolding file_laws_def quiet_world_def fs_laws_def path_law_def lasting_def calm_def
  by (auto simp: toy_sys_def toy_path_def map_of_others toy_add_watch_def Let_def split: option.splits)

lemma server_file_laws: "file_laws (server_sys t) (\<lambda>_. False) tw_notes (\<lambda>w. t)"
  unfolding file_laws_def quiet_world_def fs_laws_def path_law_def lasting_def calm_def
  by (auto simp: server_sys_def toy_sys_def toy_path_def map_of_others toy_add_watch_def Let_def split: option.splits)

lemma server_server_laws: "server_laws (server_sys t) con (\<lambda>_. False) tw_notes (\<lambda>w. t)"
  unfolding server_laws_def quiet_world_def calm_def
  by (auto simp: server_sys_def asked_id) (auto simp: toy_sys_def split: list.splits)

lemma toy_opening_laws: "opening_laws toy_sys con (\<lambda>_. False) toy_watches"
  unfolding opening_laws_def calm_def
  by (auto simp: toy_pq toy_exec_def toy_statement_def split: option.splits)
    (auto simp: toy_sys_def toy_add_watch_def toy_watches_def fun_eq_iff split: if_splits)

section \<open>Opening a workspace\<close>

text \<open>
  C13. Opening a workspace. Let the file manager be set up for a directory written without a trailing
  slash, and let the server's answer to the query for the files of the workspace consist of rows with
  different ids and different plain names. When \<open>initFileManager\<close> returns normally, the session holds the
  workspace as it was in that answer: every row of it, and nothing else, is cached with its version and
  name, the bytes of each are in the working directory, and inotify watches each cached file: its path is
  in the kernel's list of watches under the descriptor stored in its object, and the table of watches leads
  from the descriptor to that object. This holds unless a write has failed or something else changed the
  directory meanwhile (\<open>disturbed\<close>).
\<close>

theorem workspace_opened:
  assumes "file_laws sys disturbed queue tbl" and "opening_laws sys con disturbed watches" and "fm_fresh s" and "dir_ok dir"
    and "initFileManager sys dir con wsid sid s = (Inr (), s')"
    and "has_rows (fst (pq_exec_params sys con (files_query (to_int32 wsid)) [] 1 (asked sys con (to_int32 wsid) s))) (map file_row es)"
    and "\<forall>e\<in>set es. file_entry_ok e" and "distinct (map fe_id es)" and "distinct (map fe_name es)"
  shows "disturbed (world s') \<or> in_sync sys (rows_db es) s' \<and> (\<forall>k. cache_view s' k \<noteq> None \<longrightarrow> registered watches s' k)"
  using initFileManager_serves [OF assms] by (auto simp: cache_view_entry)

definition opened_entries :: "file_entry list" where
  "opened_entries = [\<lparr>fe_id = 7, fe_version = 4, fe_name = ''b.R'', fe_lastmod = 77, fe_data = ''y<-2''\<rparr>]"

theorem workspace_opened_witness:
  "in_sync toy_sys (rows_db opened_entries) example_running \<and> registered toy_watches example_running 7"
proof -
  have "to_int32 5 = 5" by (simp add: to_int32_id)
  moreover have "fst (pq_exec_params toy_sys (Some 1) (files_query 5) [] 1 (asked toy_sys (Some 1) 5 (example_fm example_fm_replies)))
      = rows_reply (map file_row opened_entries)"
    by code_simp
  moreover have "dir_ok ''wd''" by (simp add: dir_ok_def)
  ultimately have sync: "in_sync toy_sys (rows_db opened_entries) example_running"
    and reg: "\<forall>k. cache_view example_running k \<noteq> None \<longrightarrow> registered toy_watches example_running k"
    using workspace_opened [OF toy_file_laws toy_opening_laws example_fm_fresh _ example_init_run, of opened_entries]
    by (simp_all add: opened_entries_def file_entry_ok_def plain_def)
  from sync have "cache_view example_running 7 \<noteq> None"
    by (simp add: in_sync_def db_view_def rows_db_def opened_entries_def)
  with sync reg show ?thesis by blast
qed

section \<open>Following the database\<close>

text \<open>
  C4. A burst of notifications brings the session in step with the database. Let a serving file manager
  read from the connection, and let the notifications then queued be sound for the tables as they now are:
  what they say was inserted into the workspace is there, what was deleted is not, and no file they
  ascribe to the workspace belongs to another one. Let the files of the workspace have different plain
  names, and let every file in which the session differs from the workspace be the subject of one of the
  notifications. Then the callback returns normally, the queue is empty, the cache is the view of the
  workspace in the database, every file of it has its bytes in the working directory, and the manager is
  ready for the next burst; notifications for other workspaces change nothing. This holds unless, meanwhile,
  a write or a query failed, something else changed the directory or the tables, or another notification
  arrived (\<open>disturbed\<close>).
\<close>

theorem burst_synchronises:
  assumes "file_laws sys disturbed queue tbl" and "server_laws sys con disturbed queue tbl"
    and "serving sys con db s" and "db_wf db" and "db = own (fm_wspaceId s) (tbl w)" and "\<not> fm_ignoreDB s"
    and "pq_consume_input sys con (world s) = (1, w)" and "map snd (queue w) = map note_text ns"
    and "\<forall>n\<in>set ns. note_sound (fm_wspaceId s) (tbl w) n" and "length ns < fuel"
    and "\<forall>k. up_to_date sys db s k \<or> refreshed (fm_wspaceId s) db (cache_view s) ns k"
    and "handleDBNotifications sys fuel s = (r, s')"
  shows "disturbed (world s') \<or>
    r = Inr () \<and> queue (world s') = [] \<and> serving sys con db s' \<and> in_sync sys db s'"
proof (cases "disturbed (world s')")
  case False
  then have calm: "\<not> disturbed (world (snd (handleDBNotifications sys fuel s)))" using assms(12) by simp
  from handleDBNotifications_follows [OF assms(1-3,4-10) calm] assms(12)
  have s': "r = Inr ()" "queue (world s') = []" "serving sys con db s'"
    and follow: "\<forall>k. cache_view s' k = (if refreshed (fm_wspaceId s) db (cache_view s) ns k then db_view db k else cache_view s k)"
      "\<forall>k e. db k = Some e \<longrightarrow> on_disk sys s' (fe_name e) =
        (if refreshed (fm_wspaceId s) db (cache_view s) ns k then Some (fe_data e) else on_disk sys s (fe_name e))"
    by auto
  have "up_to_date sys db s' k" for k
    using follow assms(11) [rule_format, of k] by (auto simp: up_to_date_def)
  with s' show ?thesis by (auto simp: in_sync_iff)
qed simp

text \<open>
  A session with two files: one was changed meanwhile, the other one deleted, and a third one is new.
  The tables hold a file of another workspace, too.
\<close>

definition later_db :: database where
  "later_db = rows_db
     [\<lparr>fe_id = 7, fe_version = 5, fe_name = ''b.R'', fe_lastmod = 90, fe_data = ''y<-3''\<rparr>,
      \<lparr>fe_id = 8, fe_version = 1, fe_name = ''c.R'', fe_lastmod = 91, fe_data = ''z''\<rparr>]"

definition later_table :: table where
  "later_table k = (if k = 12 then Some (6, \<lparr>fe_id = 12, fe_version = 1, fe_name = ''b.R'', fe_lastmod = 80, fe_data = ''0''\<rparr>)
     else map_option (Pair 5) (later_db k))"

definition later_notes :: "db_note list" where
  "later_notes =
     [\<lparr>dn_type = CHR ''u'', dn_file = 7, dn_wspace = 5, dn_rest = ''x''\<rparr>,
      \<lparr>dn_type = CHR ''d'', dn_file = 9, dn_wspace = 5, dn_rest = ''x''\<rparr>,
      \<lparr>dn_type = CHR ''d'', dn_file = 7, dn_wspace = 6, dn_rest = ''x''\<rparr>,
      \<lparr>dn_type = CHR ''i'', dn_file = 8, dn_wspace = 5, dn_rest = ''x''\<rparr>]"

definition example_behind :: "toy fm" where
  "example_behind = (example_fm [])
     \<lparr>world := toy_world\<lparr>tw_files := [(''wd/b.R'', ''y<-2'', 77), (''wd/a.R'', ''x'', 70)], tw_watches := 4,
        tw_notes := map (\<lambda>n. (''rcfile'', note_text n)) later_notes\<rparr>,
      fi_heap := [(new_DBFileInfo 7 4 ''b.R'')\<lparr>fi_watchDescriptor := Some 2\<rparr>, (new_DBFileInfo 9 1 ''a.R'')\<lparr>fi_watchDescriptor := Some 3\<rparr>],
      ds_filesById := [(7, Some 0), (9, Some 1)], ds_dbcon := Some (Some 1), fm_dbcon := Some 1, fm_hasSource := True,
      fm_wspaceId := 5, fm_workingDir := ''wd'', ds_workingDir := ''wd'',
      fm_filesByWatchDesc := [(2, Some 0), (3, Some 1)]\<rparr>"

lemma later_db_entries: "later_db k = Some e \<Longrightarrow> uint (fe_id e) = k \<and> file_entry_ok e \<and> k \<in> {7, 8} \<and> fe_name e = (if k = 7 then ''b.R'' else ''c.R'')"
  by (auto simp: later_db_def rows_db_def file_entry_ok_def plain_def split: if_splits)

lemma later_table_own: "own 5 later_table = later_db"
  by (rule ext) (auto simp: own_def later_table_def later_db_def rows_db_def)

lemma behind_entries:
  "entry example_behind k = Some fi \<Longrightarrow> plain (fi_path fi) \<and> fi_watchDescriptor fi \<noteq> None \<and>
     (k = 7 \<and> fi_path fi = ''b.R'' \<or> k = 9 \<and> fi_path fi = ''a.R'')"
  by (auto simp: entry_def example_behind_def omap_find_def new_DBFileInfo_def plain_def split: if_splits)

lemma behind_serving: "serving (server_sys later_table) (Some 1) later_db example_behind"
proof -
  have "fm_wf example_behind" "files_inj example_behind"
    by (auto simp: fm_wf_def files_wf_def watch_wf_def files_inj_def example_behind_def example_fm_def omap_inv_def omap_find_def
        new_DBFileInfo_def to_uint32_def split: if_splits)
  moreover have "fi_watchDescriptor fi \<noteq> None" "plain (fi_path fi)" "j \<noteq> k \<Longrightarrow> later_db j = Some e \<Longrightarrow> fi_path fi \<noteq> fe_name e"
    if "entry example_behind k = Some fi" for k fi j e
    using behind_entries [OF that] later_db_entries [of j e] by auto
  ultimately show ?thesis
    by (simp add: serving_def) (simp add: example_behind_def dir_ok_def)
qed

lemma later_db_simps: "later_db 7 \<noteq> None" "later_db 8 \<noteq> None" "later_db k \<noteq> None \<Longrightarrow> k = 7 \<or> k = 8"
  by (auto simp: later_db_def rows_db_def split: if_splits)

lemma behind_view: "cache_view example_behind k = (if k = 7 then Some (4, ''b.R'') else if k = 9 then Some (1, ''a.R'') else None)"
  by (simp add: cache_view_entry entry_def example_behind_def omap_find_def new_DBFileInfo_def to_uint32_def)

lemma behind_refreshed: "refreshed 5 later_db (cache_view example_behind) later_notes k \<longleftrightarrow> k \<in> {7, 8, 9}"
proof -
  have "later_db 9 = None" by (simp add: later_db_def rows_db_def)
  then show ?thesis
    using later_db_simps(1,2) by (auto simp: refreshed_def refreshes_def later_notes_def behind_view)
qed

lemma later_db_wf: "db_wf later_db"
proof -
  have "j = k" if "later_db j = Some e" "later_db k = Some f" "fe_name e = fe_name f" for j k e f
    using that later_db_entries [of j e] later_db_entries [of k f] by (auto split: if_splits)
  note same = this
  show ?thesis
    unfolding db_wf_def names_distinct_def
  proof (intro conjI allI impI)
    show "uint (fe_id e) = k" "file_entry_ok e" if "later_db k = Some e" for k e
      using later_db_entries [OF that] by blast+
    show "j = k" if "later_db j = Some e" "later_db k = Some f" "fe_name e = fe_name f" for j k e f
      by (rule same [OF that])
  qed
qed

lemma later_notes_sound: "\<forall>n\<in>set later_notes. note_sound 5 later_table n"
proof -
  have "later_db 9 = None" by (simp add: later_db_def rows_db_def)
  then show ?thesis
    using later_db_simps(1,2) by (auto simp: later_notes_def note_sound_def note_ok_def LONG_MIN_def LONG_MAX_def later_table_def)
qed

theorem burst_synchronises_witness:
  "\<exists>s'. handleDBNotifications (server_sys later_table) 5 example_behind = (Inr (), s') \<and> cache_view s' 8 = Some (1, ''c.R'') \<and>
    cache_view s' 9 = None \<and> on_disk (server_sys later_table) s' ''b.R'' = Some ''y<-3''"
proof -
  let ?w = "world example_behind" and ?sys = "server_sys later_table"
  have consume: "pq_consume_input ?sys (Some 1) ?w = (1, ?w)" by (simp add: server_sys_def toy_sys_def)
  have queued: "map snd (tw_notes ?w) = map note_text later_notes" by (simp add: example_behind_def comp_def)
  have id: "fm_wspaceId example_behind = 5" by (simp add: example_behind_def)
  have fresh: "up_to_date ?sys later_db example_behind k \<or>
      refreshed 5 later_db (cache_view example_behind) later_notes k" for k
  proof (cases "k \<in> {7, 8, 9}")
    case True
    then show ?thesis using behind_refreshed by simp
  next
    case False
    then have "later_db k = None" using later_db_simps(3) by blast
    with False show ?thesis by (simp add: up_to_date_def behind_view db_view_def)
  qed
  have on: "\<not> fm_ignoreDB example_behind" "length later_notes < 5"
    by (simp_all add: example_behind_def example_fm_def later_notes_def)
  obtain r s' where run: "handleDBNotifications ?sys 5 example_behind = (r, s')" by fastforce
  have "False \<or> r = Inr () \<and> tw_notes (world s') = [] \<and> serving ?sys (Some 1) later_db s' \<and> in_sync ?sys later_db s'"
    by (rule burst_synchronises [OF server_file_laws server_server_laws behind_serving later_db_wf _ on(1) consume queued _ on(2) _ run])
      (use later_table_own later_notes_sound fresh in \<open>simp_all only: id simp_thms\<close>)
  then have s': "handleDBNotifications ?sys 5 example_behind = (Inr (), s')" "in_sync ?sys later_db s'" using run by simp_all
  then have "cache_view s' 8 = db_view later_db 8" "cache_view s' 9 = db_view later_db 9"
    "later_db 7 = Some e \<Longrightarrow> on_disk ?sys s' (fe_name e) = Some (fe_data e)" for e
    by (simp_all add: in_sync_def)
  with s'(1) show ?thesis by (simp add: db_view_def later_db_def rows_db_def)
qed

section \<open>A file that is gone\<close>

text \<open>
  C25. A notification of an insertion into the session's workspace, for a file that is not cached, ends in
  undefined behaviour when the query for the file is refused or finds no row, for instance because the
  insertion was undone meanwhile: the lookup enters a null pointer under the id, and watching the file
  dereferences the pointer. Nothing catches that.
\<close>

theorem missing_file_undefined:
  assumes "fm_hasSource s" and "ds_dbcon s = Some con"
    and "note_ok n" and "dn_type n = CHR ''i''" and "dn_wspace n = fm_wspaceId s"
    and "omap_find (ds_filesById s) (dn_file n) = None"
    and "pq_exec_params sys con (loadFiles_query (by_id (dn_file n))) [] 1 (world s) = (res, w)"
    and "\<not> dataReturned res \<or> pg_rows res = []"
  shows "ends_ub (fst (processDBNotification sys (note_text n) s))"
proof -
  let ?k = "dn_file n"
  obtain s1 where s1: "fm_ignoreFSNotifications s = (Inr (), s1)" "world s1 = world s" "ds_filesById s1 = ds_filesById s"
    "ds_dbcon s1 = ds_dbcon s" "fm_hasSource s1"
    using assms(1)
    by (intro that [of "if fm_ignoreFS s then s else s\<lparr>fm_ignoreFS := True, fm_timers := fm_timers s + 1\<rparr>"])
      (simp_all add: fm_ignoreFSNotifications_def act_simps)
  have load: "loadFiles sys (by_id ?k) s1 = (Inr (), s1\<lparr>world := w\<rparr>)"
    using assms(2,7,8) s1
    by (auto simp: loadFiles_def bind_apply ds_connection_apply executeQueryParams_def os_do_def rowsReturned_def ret_apply skip_apply)
  have "omap_find (ds_filesById (s1\<lparr>world := w\<rparr>)) ?k = None" using assms(6) s1(3) by simp
  note index = filesById_index_unknown [OF this]
  obtain e t where "insert_notification sys ?k s = (Inl e, t)" "is_ub e"
    using s1(1,5) load index
    by (simp add: insert_notification_def on_source_def act_simps by_id_def watchFile_def deref_def)
  then have "ends_ub (fst (try_catch is_std_exception (insert_notification sys ?k) (\<lambda>e. skip) s))"
    using std_not_ub [of e] by (auto simp: try_catch_def)
  moreover have "processDBNotification sys (note_text n) s = try_catch is_std_exception (insert_notification sys ?k) (\<lambda>e. skip) s"
    unfolding note_text_def using assms(3-5) decode_notification [of "dn_type n" "dn_rest n" ?k "dn_wspace n" sys s]
    by (simp add: note_ok_def handle_notification_def)
  ultimately show ?thesis by simp
qed

theorem missing_file_undefined_witness:
  "ends_ub (fst (processDBNotification (server_sys later_table) ''i3/5/x'' example_behind))"
proof -
  let ?n = "\<lparr>dn_type = CHR ''i'', dn_file = 3, dn_wspace = 5, dn_rest = ''x''\<rparr>"
  have "dec 3 = ''3''" "dec 5 = ''5''" by code_simp+
  then have "note_text ?n = ''i3/5/x''" by (simp add: note_text_def)
  moreover have "later_table 3 = None" by (simp add: later_table_def later_db_def rows_db_def)
  then have "pq_exec_params (server_sys later_table) (Some 1) (loadFiles_query (by_id 3)) [] 1 (world example_behind)
      = (rows_reply [], world example_behind)"
    by (simp add: server_sys_def asked_id file_rows_def)
  moreover have "note_ok ?n" by (simp add: note_ok_def LONG_MIN_def LONG_MAX_def)
  moreover have "fm_wspaceId example_behind = 5" "fm_hasSource example_behind" "ds_dbcon example_behind = Some (Some 1)"
    "omap_find (ds_filesById example_behind) 3 = None"
    by (simp_all add: example_behind_def omap_find_def)
  ultimately show ?thesis
    using missing_file_undefined [of example_behind "Some 1" ?n "server_sys later_table" "rows_reply []"] by (simp add: rows_reply_def)
qed

end
