(* ===== verification/Cpp_Double.thy ===== *)
theory Cpp_Double
  imports "HOL-Library.Word"
begin

text \<open>
  A \<open>double\<close> is its 64 bits: a sign, an exponent of 11 bits and a fraction of 52 bits (IEEE 754). Here are
  the operations that the reader of JSON texts uses: comparison, the cast to an integer, and the
  conversion of an integer, which is exact below \<open>2 ^ 53\<close>.
\<close>

section \<open>Fields\<close>

definition double_exponent :: "64 word \<Rightarrow> nat" where
  "double_exponent w = unat w div 2 ^ 52 mod 2 ^ 11"

definition double_fraction :: "64 word \<Rightarrow> nat" where
  "double_fraction w = unat w mod 2 ^ 52"

definition double_negative :: "64 word \<Rightarrow> bool" where
  "double_negative w \<longleftrightarrow> 2 ^ 63 \<le> unat w"

definition isnan :: "64 word \<Rightarrow> bool" where
  "isnan w \<longleftrightarrow> double_exponent w = 2047 \<and> double_fraction w \<noteq> 0"

definition double_eq :: "64 word \<Rightarrow> 64 word \<Rightarrow> bool" where
  "double_eq v w \<longleftrightarrow> \<not> isnan v \<and> \<not> isnan w \<and> (v = w \<or> {v, w} \<subseteq> {0, 2 ^ 63})"

section \<open>Conversions\<close>

text \<open>The integer part of the magnitude.\<close>

definition double_magnitude :: "64 word \<Rightarrow> nat" where
  "double_magnitude w =
     (let e = double_exponent w; m = 2 ^ 52 + double_fraction w in
      if e = 0 then 0 else if 1075 \<le> e then m * 2 ^ (e - 1075) else m div 2 ^ (1075 - e))"

text \<open>The cast to a signed integer of \<open>n\<close> bits truncates; out of range it is undefined.\<close>

definition double_to_int :: "nat \<Rightarrow> 64 word \<Rightarrow> int option" where
  "double_to_int n w =
     (let i = (if double_negative w then - int (double_magnitude w) else int (double_magnitude w)) in
      if double_exponent w \<noteq> 2047 \<and> - (2 ^ (n - 1)) \<le> i \<and> i < 2 ^ (n - 1) then Some i else None)"

text \<open>The conversion of an \<open>int64_t\<close>, rounding to nearest, ties to even.\<close>

fun bit_count :: "nat \<Rightarrow> nat" where
  "bit_count n = (if n = 0 then 0 else Suc (bit_count (n div 2)))"

declare bit_count.simps [simp del]

definition round_shift :: "nat \<Rightarrow> nat \<Rightarrow> nat" where
  "round_shift a d =
     (let q = a div 2 ^ d; r = a mod 2 ^ d in if 2 ^ d < 2 * r \<or> (2 ^ d = 2 * r \<and> odd q) then q + 1 else q)"

definition double_of_nat :: "nat \<Rightarrow> nat" where
  "double_of_nat a =
     (let b = bit_count a;
          m = (if b \<le> 53 then a * 2 ^ (53 - b) else round_shift a (b - 53)) in
      if a = 0 then 0 else (b + 1022) * 2 ^ 52 + (m - 2 ^ 52))"

definition int_to_double :: "int \<Rightarrow> 64 word" where
  "int_to_double n = (if n < 0 then 2 ^ 63 else 0) + word_of_nat (double_of_nat (nat \<bar>n\<bar>))"

section \<open>Integers below \<open>2 ^ 53\<close>\<close>

lemma bit_count_bounds: "0 < a \<Longrightarrow> 2 ^ (bit_count a - 1) \<le> a \<and> a < 2 ^ bit_count a \<and> 0 < bit_count a"
proof (induction a rule: bit_count.induct)
  case (1 a)
  show ?case
  proof (cases "a = 1")
    case True
    then show ?thesis by (simp add: bit_count.simps)
  next
    case False
    with "1.prems" have half: "0 < a div 2" by simp
    with "1.IH" "1.prems" have ih: "2 ^ (bit_count (a div 2) - 1) \<le> a div 2" "a div 2 < 2 ^ bit_count (a div 2)"
      "0 < bit_count (a div 2)" by auto
    then have "2 ^ bit_count (a div 2) = 2 * (2 ^ (bit_count (a div 2) - 1) :: nat)"
      by (cases "bit_count (a div 2)") simp_all
    moreover have "bit_count a = Suc (bit_count (a div 2))" using "1.prems" by (subst bit_count.simps) simp
    moreover have "2 * (a div 2) \<le> a" "a \<le> 2 * (a div 2) + 1" by simp_all
    ultimately show ?thesis using ih unfolding \<open>bit_count a = _\<close> power_Suc diff_Suc_1 by linarith
  qed
qed

lemma bit_count_le: "a < 2 ^ k \<Longrightarrow> bit_count a \<le> k"
proof (rule ccontr)
  assume a: "a < 2 ^ k" "\<not> bit_count a \<le> k"
  then have "0 < a" by (cases "a = 0") (simp_all add: bit_count.simps)
  then have "2 ^ (bit_count a - 1) \<le> a" using bit_count_bounds by blast
  moreover have "(2::nat) ^ k \<le> 2 ^ (bit_count a - 1)" using a by (intro power_increasing) simp_all
  ultimately show False using a(1) by linarith
qed

lemma int_to_double_bits:
  fixes n :: int
  assumes "n \<noteq> 0" and "\<bar>n\<bar> < 2 ^ 53"
  defines "a \<equiv> nat \<bar>n\<bar>" and "w \<equiv> int_to_double n"
  shows "double_exponent w = bit_count a + 1022" "2 ^ 52 + double_fraction w = a * 2 ^ (53 - bit_count a)"
    "double_negative w \<longleftrightarrow> n < 0" "bit_count a \<le> 53"
proof -
  let ?b = "bit_count a"
  let ?m = "a * 2 ^ (53 - ?b)"
  define N where "N = (?b + 1022) * 2 ^ 52 + (?m - 2 ^ 52)"
  have a: "0 < a" "a < 2 ^ 53" using assms by (simp_all add: a_def)
  note b = bit_count_bounds [OF a(1)]
  show b53: "?b \<le> 53" by (rule bit_count_le [OF a(2)])
  have p: "2 ^ (?b - 1) * 2 ^ (53 - ?b) = (2::nat) ^ 52" "2 ^ ?b * 2 ^ (53 - ?b) = (2::nat) ^ 53"
    using b b53 by (simp_all flip: power_add)
  have m: "2 ^ 52 \<le> ?m" "?m < 2 ^ 53"
    unfolding p [symmetric] using b by (auto intro!: mult_le_mono1 mult_less_mono1)
  have small: "N < 2 ^ 63" unfolding N_def using m b53 by simp
  have N: "double_of_nat a = N" using a b53 by (simp add: double_of_nat_def Let_def N_def)
  have unat: "unat w = (if n < 0 then 2 ^ 63 else 0) + N"
    unfolding w_def int_to_double_def a_def [symmetric] N using small
    by (simp add: unat_word_ariths(1) unat_of_nat)
  have r: "?m - 2 ^ 52 < 2 ^ 52" using m by simp
  have div: "N div 2 ^ 52 = ?b + 1022"
    unfolding N_def by (subst div_mult_self3) (use r in simp_all)
  moreover have "N mod 2 ^ 52 = ?m - 2 ^ 52"
    unfolding N_def by (subst mod_mult_self3) (use r in simp_all)
  note div = div this
  have shift: "(2 ^ 63 + N) div 2 ^ 52 = 2 ^ 11 + N div 2 ^ 52" "(2 ^ 63 + N) mod 2 ^ 52 = N mod 2 ^ 52"
    using div_mult_self3 [of "2 ^ 52" "2 ^ 11" N] mod_mult_self3 [of "2 ^ 11" "2 ^ 52" N] by simp_all
  have "3070 + ?b = 2048 + (?b + 1022)" by simp
  then have "(3070 + ?b) mod 2048 = ?b + 1022" using b53 by (simp only: mod_add_self1) simp
  with shift(1) show "double_exponent w = ?b + 1022"
    using div b53 by (simp add: double_exponent_def unat)
  show "2 ^ 52 + double_fraction w = ?m"
    using shift(2) div m by (simp add: double_fraction_def unat)
  show "double_negative w \<longleftrightarrow> n < 0" using small by (simp add: double_negative_def unat)
qed

end
