(* ===== verification/Json_Value.thy ===== *)
theory Json_Value
  imports Std_Map Cpp_String Cpp_Double
begin

text \<open>
  The JSON values of \<open>vendor/json.hpp\<close> (\<open>nlohmann::basic_json\<close>) and the operations the program
  uses on them: element access by key and index (which turns a null value into an object or an
  array), \<open>push_back\<close>, \<open>find\<close>, \<open>value\<close> with a default, the conversions to string, boolean and
  number, the initializer-list constructor, \<open>dump\<close> with \<open>escape_string\<close>, and the reader's
  \<open>get_string\<close>. A type mismatch is the \<open>std::domain_error\<close> the library throws. Floating-point
  numbers are kept as their 64 bits; how a stream prints one is the parameter \<open>show_float\<close>.
\<close>

section \<open>Values\<close>

datatype json =
    JNull
  | JBool bool
  | JInt int
  | JFloat "64 word"
  | JString string
  | JArray "json list"
  | JObject "(string \<times> json) list"

fun type_name :: "json \<Rightarrow> string" where
  "type_name JNull = ''null''"
| "type_name (JObject _) = ''object''"
| "type_name (JArray _) = ''array''"
| "type_name (JString _) = ''string''"
| "type_name (JBool _) = ''boolean''"
| "type_name (JInt _) = ''number''"
| "type_name (JFloat _) = ''number''"

text \<open>A value without a null value at its top is unchanged; null becomes an empty object or array.\<close>

fun null_to_object :: "json \<Rightarrow> json" where
  "null_to_object JNull = JObject []"
| "null_to_object j = j"

fun null_to_array :: "json \<Rightarrow> json" where
  "null_to_array JNull = JArray []"
| "null_to_array j = j"

section \<open>Element access\<close>

text \<open>
  The non-constant \<open>operator[]\<close> returns a reference: the value found, and the container with a
  null value entered for a missing key. \<open>json_set\<close> is an assignment through that reference.
\<close>

definition json_index :: "string \<Rightarrow> json \<Rightarrow> exn + json \<times> json" where
  "json_index key j =
     (case null_to_object j of
        JObject m \<Rightarrow> (case omap_index JNull key m of (v, m') \<Rightarrow> Inr (v, JObject m'))
      | j' \<Rightarrow> Inl (DomainError (''cannot use operator[] with '' @ type_name j')))"

definition json_set :: "string \<Rightarrow> json \<Rightarrow> json \<Rightarrow> exn + json" where
  "json_set key v j =
     (case null_to_object j of
        JObject m \<Rightarrow> Inr (JObject (omap_put key v m))
      | j' \<Rightarrow> Inl (DomainError (''cannot use operator[] with '' @ type_name j')))"

text \<open>The constant \<open>operator[]\<close>: a missing key is undefined behaviour.\<close>

definition json_at_key :: "string \<Rightarrow> json \<Rightarrow> exn + json" where
  "json_at_key key j =
     (case j of
        JObject m \<Rightarrow> (case omap_find m key of Some v \<Rightarrow> Inr v | None \<Rightarrow> Inl (UB ''operator[] of a missing key''))
      | _ \<Rightarrow> Inl (DomainError (''cannot use operator[] with '' @ type_name j)))"

text \<open>\<open>j[idx]\<close> on an array that is too short fills it with null values.\<close>

definition json_nth :: "nat \<Rightarrow> json \<Rightarrow> exn + json \<times> json" where
  "json_nth idx j =
     (case null_to_array j of
        JArray xs \<Rightarrow>
          let xs' = xs @ replicate (Suc idx - length xs) JNull in Inr (xs' ! idx, JArray xs')
      | j' \<Rightarrow> Inl (DomainError (''cannot use operator[] with '' @ type_name j')))"

definition json_push_back :: "json \<Rightarrow> json \<Rightarrow> exn + json" where
  "json_push_back v j =
     (case null_to_array j of
        JArray xs \<Rightarrow> Inr (JArray (xs @ [v]))
      | j' \<Rightarrow> Inl (DomainError (''cannot use push_back() with '' @ type_name j')))"

text \<open>\<open>find(key)\<close>, \<open>None\<close> for \<open>end()\<close>.\<close>

definition json_find :: "string \<Rightarrow> json \<Rightarrow> json option" where
  "json_find key j = (case j of JObject m \<Rightarrow> omap_find m key | _ \<Rightarrow> None)"

section \<open>Conversions\<close>

definition get_string_value :: "json \<Rightarrow> exn + string" where
  "get_string_value j =
     (case j of JString s \<Rightarrow> Inr s | _ \<Rightarrow> Inl (DomainError (''type must be string, but is '' @ type_name j)))"

definition get_boolean_value :: "json \<Rightarrow> exn + bool" where
  "get_boolean_value j =
     (case j of JBool b \<Rightarrow> Inr b | _ \<Rightarrow> Inl (DomainError (''type must be boolean, but is '' @ type_name j)))"

text \<open>The integer type is \<open>int\<close>.\<close>

definition get_int_value :: "json \<Rightarrow> exn + int" where
  "get_int_value j =
     (case j of
        JInt n \<Rightarrow> Inr (to_int32 n)
      | JFloat w \<Rightarrow>
          (case double_to_int 32 w of Some n \<Rightarrow> Inr n | None \<Rightarrow> Inl (UB ''cast of a double out of the range of int''))
      | _ \<Rightarrow> Inl (DomainError (''type must be number, but is '' @ type_name j)))"

text \<open>\<open>value(key, default)\<close> with the implicit conversion \<open>conv\<close> of the element found.\<close>

definition json_value :: "(json \<Rightarrow> exn + 'a) \<Rightarrow> string \<Rightarrow> 'a \<Rightarrow> json \<Rightarrow> exn + 'a" where
  "json_value conv key default_value j =
     (case j of
        JObject _ \<Rightarrow> (case json_find key j of Some v \<Rightarrow> conv v | None \<Rightarrow> Inr default_value)
      | _ \<Rightarrow> Inl (DomainError (''cannot use value() with '' @ type_name j)))"

section \<open>Initializer lists\<close>

fun is_pair :: "json \<Rightarrow> bool" where
  "is_pair (JArray [JString _, _]) = True"
| "is_pair _ = False"

fun pair_of :: "json \<Rightarrow> string \<times> json" where
  "pair_of (JArray [JString k, v]) = (k, v)"
| "pair_of j = ([], j)"

text \<open>\<open>emplace\<close> keeps the first value of a key.\<close>

definition json_init :: "json list \<Rightarrow> json" where
  "json_init es =
     (if list_all is_pair es
      then JObject (fold (\<lambda>e m. omap_insert (fst (pair_of e)) (snd (pair_of e)) m) es [])
      else JArray es)"

text \<open>\<open>{ {k, v}, ... }\<close> as the program writes it.\<close>

definition json_object :: "(string \<times> json) list \<Rightarrow> json" where
  "json_object kvs = json_init (map (\<lambda>(k, v). json_init [JString k, v]) kvs)"

section \<open>Escaping\<close>

definition short_escape :: "char \<Rightarrow> char option" where
  "short_escape c =
     (if c = CHR 0x22 then Some CHR 0x22
      else if c = CHR 0x5C then Some CHR 0x5C
      else if c = CHR 0x08 then Some (CHR ''b'')
      else if c = CHR 0x0C then Some (CHR ''f'')
      else if c = CHR 0x0A then Some (CHR ''n'')
      else if c = CHR 0x0D then Some (CHR ''r'')
      else if c = CHR 0x09 then Some (CHR ''t'')
      else None)"

definition is_control :: "char \<Rightarrow> bool" where
  "is_control c \<longleftrightarrow> (of_char c :: nat) \<le> 0x1f"

definition extra_space :: "string \<Rightarrow> nat" where
  "extra_space s = foldl (\<lambda>result c.
     if short_escape c \<noteq> None then result + 1
     else if is_control c then result + 5 else result) 0 s"

definition hexify :: "nat \<Rightarrow> char" where
  "hexify v = (if v < 10 then char_of (48 + v) else char_of (97 + v - 10))"

text \<open>
  One round of the loop: the buffer and the position. The buffer starts out filled with
  backslashes, so that only what follows a backslash is written.
\<close>

definition escape_step :: "string \<times> nat \<Rightarrow> char \<Rightarrow> string \<times> nat" where
  "escape_step b c = (case b of (result, pos) \<Rightarrow>
     if c = CHR 0x5C then (result, pos + 2)
     else
       (case short_escape c of
          Some e \<Rightarrow> (result[pos + 1 := e], pos + 2)
        | None \<Rightarrow>
            if is_control c then
              (result[pos + 1 := CHR ''u'', pos + 2 := CHR ''0'', pos + 3 := CHR ''0'',
                      pos + 4 := hexify (of_char c div 16), pos + 5 := hexify (of_char c mod 16)], pos + 6)
            else (result[pos := c], pos + 1)))"

definition escape_string :: "string \<Rightarrow> string" where
  "escape_string s =
     (let space = extra_space s in
      if space = 0 then s
      else fst (foldl escape_step (replicate (length s + space) CHR 0x5C, 0) s))"

text \<open>What it computes, character by character.\<close>

definition escape_char :: "char \<Rightarrow> string" where
  "escape_char c =
     (case short_escape c of
        Some e \<Rightarrow> [CHR 0x5C, e]
      | None \<Rightarrow>
          if is_control c
          then CHR 0x5C # ''u00'' @ [hexify (of_char c div 16), hexify (of_char c mod 16)]
          else [c])"

section \<open>Serialization\<close>

text \<open>
  \<open>dump(o, pretty_print, indent_step, current_indent)\<close>; indents are \<open>unsigned int\<close>. The members
  after the first are preceded by a comma. \<open>dump()\<close> without an argument is \<open>json_dump\<close>.
\<close>

definition spaces :: "nat \<Rightarrow> string" where
  "spaces n = replicate n CHR '' ''"

definition deeper :: "bool \<Rightarrow> nat \<Rightarrow> nat \<Rightarrow> nat" where
  "deeper pretty step indent = (if pretty then (indent + step) mod 2 ^ 32 else indent)"

definition line_break :: "bool \<Rightarrow> string" where
  "line_break pretty = (if pretty then [CHR 0x0A] else [])"

fun dump :: "(64 word \<Rightarrow> string) \<Rightarrow> bool \<Rightarrow> nat \<Rightarrow> nat \<Rightarrow> json \<Rightarrow> string"
  and dump_members :: "(64 word \<Rightarrow> string) \<Rightarrow> bool \<Rightarrow> nat \<Rightarrow> nat \<Rightarrow> bool \<Rightarrow> (string \<times> json) list \<Rightarrow> string"
  and dump_elements :: "(64 word \<Rightarrow> string) \<Rightarrow> bool \<Rightarrow> nat \<Rightarrow> nat \<Rightarrow> bool \<Rightarrow> json list \<Rightarrow> string" where
  "dump sf pretty step cur (JObject m) =
     (if m = [] then ''{}''
      else ''{'' @ line_break pretty @ dump_members sf pretty step (deeper pretty step cur) True m @
           line_break pretty @ spaces cur @ ''}'')"
| "dump sf pretty step cur (JArray xs) =
     (if xs = [] then ''[]''
      else ''['' @ line_break pretty @ dump_elements sf pretty step (deeper pretty step cur) True xs @
           line_break pretty @ spaces cur @ '']'')"
| "dump sf pretty step cur (JString s) = [CHR 0x22] @ escape_string s @ [CHR 0x22]"
| "dump sf pretty step cur (JBool b) = (if b then ''true'' else ''false'')"
| "dump sf pretty step cur (JInt n) = dec n"
| "dump sf pretty step cur (JFloat w) = sf w"
| "dump sf pretty step cur JNull = ''null''"
| "dump_members sf pretty step ind first [] = []"
| "dump_members sf pretty step ind first ((k, v) # m) =
     (if first then [] else '','' @ line_break pretty) @ spaces ind @ [CHR 0x22] @ escape_string k @
     [CHR 0x22, CHR '':''] @ (if pretty then '' '' else []) @ dump sf pretty step ind v @
     dump_members sf pretty step ind False m"
| "dump_elements sf pretty step ind first [] = []"
| "dump_elements sf pretty step ind first (x # xs) =
     (if first then [] else '','' @ line_break pretty) @ spaces ind @ dump sf pretty step ind x @
     dump_elements sf pretty step ind False xs"

definition json_dump :: "(64 word \<Rightarrow> string) \<Rightarrow> json \<Rightarrow> string" where
  "json_dump sf j = dump sf False 0 0 j"

section \<open>Reading a string literal\<close>

text \<open>\<open>to_unicode\<close>: the UTF-8 encoding of a code point or of a surrogate pair.\<close>

definition utf8 :: "nat \<Rightarrow> exn + string" where
  "utf8 cp =
     (if cp < 0x80 then Inr [char_of cp]
      else if cp \<le> 0x7ff then Inr [char_of (0xC0 + cp div 64 mod 32), char_of (0x80 + cp mod 64)]
      else if cp \<le> 0xffff then
        Inr [char_of (0xE0 + cp div 4096 mod 16), char_of (0x80 + cp div 64 mod 64), char_of (0x80 + cp mod 64)]
      else if cp \<le> 0x10ffff then
        Inr [char_of (0xF0 + cp div 262144 mod 8), char_of (0x80 + cp div 4096 mod 64),
             char_of (0x80 + cp div 64 mod 64), char_of (0x80 + cp mod 64)]
      else Inl (OutOfRange ''code points above 0x10FFFF are invalid''))"

definition to_unicode :: "nat \<Rightarrow> nat \<Rightarrow> exn + string" where
  "to_unicode codepoint1 codepoint2 =
     (if 0xD800 \<le> codepoint1 \<and> codepoint1 \<le> 0xDBFF then
        if 0xDC00 \<le> codepoint2 \<and> codepoint2 \<le> 0xDFFF
        then utf8 (codepoint1 * 1024 + codepoint2 - 0x35FDC00)
        else Inl (InvalidArgument ''missing or wrong low surrogate'')
      else utf8 codepoint1)"

definition hex_digit :: "char \<Rightarrow> nat option" where
  "hex_digit c = (let n = of_char c :: nat in
     if 48 \<le> n \<and> n \<le> 57 then Some (n - 48)
     else if 97 \<le> n \<and> n \<le> 102 then Some (n - 87)
     else if 65 \<le> n \<and> n \<le> 70 then Some (n - 55) else None)"

fun strtoul16 :: "nat \<Rightarrow> string \<Rightarrow> nat" where
  "strtoul16 n [] = n"
| "strtoul16 n (c # cs) = (case hex_digit c of None \<Rightarrow> n | Some d \<Rightarrow> strtoul16 (16 * n + d) cs)"

definition cons_result :: "exn + string \<Rightarrow> exn + string \<Rightarrow> exn + string" where
  "cons_result a b = (case a of Inl e \<Rightarrow> Inl e | Inr x \<Rightarrow> (case b of Inl e \<Rightarrow> Inl e | Inr y \<Rightarrow> Inr (x @ y)))"

definition simple_escape :: "char \<Rightarrow> string" where
  "simple_escape c =
     (if c = CHR ''t'' then [CHR 0x09] else if c = CHR ''b'' then [CHR 0x08]
      else if c = CHR ''f'' then [CHR 0x0C] else if c = CHR ''n'' then [CHR 0x0A]
      else if c = CHR ''r'' then [CHR 0x0D] else if c = CHR 0x5C then [CHR 0x5C]
      else if c = CHR ''/'' then [CHR ''/''] else if c = CHR 0x22 then [CHR 0x22] else [])"

text \<open>
  The characters between the quotes. An escape the scanner does not accept adds nothing; a high
  surrogate must be followed by another \<open>\u\<close> escape (at the end of the literal comes its quote).
\<close>

function get_string :: "string \<Rightarrow> exn + string" where
  "get_string [] = Inr []"
| "get_string (c # cs) =
     (if c = CHR 0x5C then
        (case cs of
           [] \<Rightarrow> Inr []
         | e # rest \<Rightarrow>
             if e = CHR ''u'' then
               let codepoint = strtoul16 0 (take 4 rest) in
               if 0xD800 \<le> codepoint \<and> codepoint \<le> 0xDBFF then
                 if take 2 (drop 4 rest) \<noteq> [CHR 0x5C, CHR ''u'']
                 then Inl (InvalidArgument ''missing low surrogate'')
                 else cons_result (to_unicode codepoint (strtoul16 0 (take 4 (drop 6 rest))))
                        (get_string (drop 10 rest))
               else cons_result (to_unicode codepoint 0) (get_string (drop 4 rest))
             else cons_result (Inr (simple_escape e)) (get_string rest))
      else cons_result (Inr [c]) (get_string cs))"
  by pat_completeness auto
termination
  by (relation "measure length") auto

section \<open>Escaping, character by character\<close>

lemma short_escape_control: "short_escape c = None \<Longrightarrow> c \<noteq> CHR 0x5C \<and> c \<noteq> CHR 0x22"
  by (auto simp: short_escape_def)

lemma length_escape_char:
  "length (escape_char c) = 1 + (if short_escape c \<noteq> None then 1 else if is_control c then 5 else 0)"
  by (auto simp: escape_char_def split: option.splits)

lemma extra_space_sum: "extra_space s = (\<Sum>c\<leftarrow>s. length (escape_char c) - 1)"
proof -
  have "foldl (\<lambda>result c. if short_escape c \<noteq> None then result + 1
     else if is_control c then result + 5 else result) n s = n + (\<Sum>c\<leftarrow>s. length (escape_char c) - 1)" for n
    by (induction s arbitrary: n) (simp_all add: length_escape_char)
  then show ?thesis by (simp add: extra_space_def)
qed

lemma extra_space_length: "length s + extra_space s = length (concat (map escape_char s))"
  unfolding extra_space_sum
  by (induction s) (simp_all add: length_escape_char)

lemma no_extra_space: "extra_space s = 0 \<Longrightarrow> concat (map escape_char s) = s"
  unfolding extra_space_sum
  by (induction s) (auto simp: length_escape_char escape_char_def split: if_splits option.splits)

lemma update_after: "(xs @ ys)[length xs + k := y] = xs @ ys[k := y]"
  by (simp add: list_update_append)

lemma replicate_cons:
  "replicate (2 + n) x = x # x # replicate n x"
  "replicate (6 + n) x = x # x # x # x # x # x # replicate n x"
  by (simp_all add: numeral_eq_Suc)

lemma escape_step_control:
  assumes "short_escape c = None" and "is_control c"
  shows "escape_step (done @ replicate (6 + n) CHR 0x5C, length done) c =
    (done @ escape_char c @ replicate n CHR 0x5C, length done + 6)"
proof -
  have "c \<noteq> CHR 0x5C" using short_escape_control [OF assms(1)] by simp
  then show ?thesis
    by (simp only: escape_step_def escape_char_def assms replicate_cons update_after prod.case option.case
        if_False if_True) simp
qed

lemma escape_step_fills:
  "escape_step (done @ replicate (length (escape_char c) + n) CHR 0x5C, length done) c =
    (done @ escape_char c @ replicate n CHR 0x5C, length done + length (escape_char c))"
proof (cases "short_escape c")
  case None
  show ?thesis
  proof (cases "is_control c")
    case True
    then have "length (escape_char c) = 6" using None by (simp add: length_escape_char)
    with escape_step_control [OF None True] show ?thesis by simp
  next
    case False
    with None short_escape_control [OF None] show ?thesis
      by (simp add: escape_step_def escape_char_def list_update_append)
  qed
next
  case (Some e)
  then have len: "length (escape_char c) = 2" by (simp add: length_escape_char)
  have "c = CHR 0x5C \<Longrightarrow> e = CHR 0x5C" using Some by (simp add: short_escape_def)
  then show ?thesis
    unfolding len replicate_cons
    using Some update_after [of "done" _ 1] by (simp add: escape_step_def escape_char_def)
qed

lemma escape_loop:
  "foldl escape_step (done @ replicate (length (concat (map escape_char s)) + n) CHR 0x5C, length done) s =
    (done @ concat (map escape_char s) @ replicate n CHR 0x5C,
     length done + length (concat (map escape_char s)))"
proof (induction s arbitrary: "done")
  case (Cons c s)
  have "foldl escape_step (done @ replicate (length (concat (map escape_char (c # s))) + n) CHR 0x5C, length done) (c # s)
    = foldl escape_step ((done @ escape_char c) @ replicate (length (concat (map escape_char s)) + n) CHR 0x5C,
        length (done @ escape_char c)) s"
    using escape_step_fills [of "done" c "length (concat (map escape_char s)) + n"] by (simp add: add.assoc)
  with Cons.IH [of "done @ escape_char c"] show ?case by (simp add: add.assoc)
qed simp

lemma escape_string_concat: "escape_string s = concat (map escape_char s)"
proof (cases "extra_space s = 0")
  case False
  with escape_loop [of "[]" s 0] show ?thesis
    by (simp add: escape_string_def extra_space_length Let_def)
qed (simp add: escape_string_def no_extra_space)

section \<open>Reading back what was escaped\<close>

lemma hex_digit_hexify: "d < 16 \<Longrightarrow> hex_digit (hexify d) = Some d"
  by (auto simp: hex_digit_def hexify_def of_char_of)

lemma control_code:
  assumes "is_control c"
  shows "strtoul16 0 [CHR ''0'', CHR ''0'', hexify (of_char c div 16), hexify (of_char c mod 16)] = of_char c"
proof -
  have "hex_digit CHR ''0'' = Some 0" by (simp add: hex_digit_def)
  moreover have "(of_char c :: nat) div 16 < 16" using assms by (simp add: is_control_def)
  ultimately show ?thesis by (simp add: hex_digit_hexify)
qed

lemma to_unicode_control: "is_control c \<Longrightarrow> to_unicode (of_char c) 0 = Inr [c]"
  by (simp add: to_unicode_def utf8_def is_control_def)

lemma short_escape_simple: "short_escape c = Some e \<Longrightarrow> simple_escape e = [c] \<and> e \<noteq> CHR ''u''"
  by (auto simp: short_escape_def simple_escape_def split: if_splits)

lemma cons_result_Inr: "cons_result (Inr x) (Inr y) = Inr (x @ y)"
  by (simp add: cons_result_def)

declare get_string.simps [simp del]

lemma get_string_escape_char: "get_string (escape_char c @ r) = cons_result (Inr [c]) (get_string r)"
proof (cases "short_escape c")
  case None
  show ?thesis
  proof (cases "is_control c")
    case True
    then have "(of_char c :: nat) < 32" by (simp add: is_control_def)
    with None True control_code [OF True] to_unicode_control [OF True] show ?thesis
      by (simp add: escape_char_def get_string.simps Let_def)
  next
    case False
    with None short_escape_control [OF None] show ?thesis
      by (simp add: escape_char_def get_string.simps)
  qed
next
  case (Some e)
  with short_escape_simple [OF Some] show ?thesis
    by (simp add: escape_char_def get_string.simps)
qed

lemma get_string_concat: "get_string (concat (map escape_char s)) = Inr s"
  by (induction s) (simp_all add: get_string_escape_char cons_result_Inr get_string.simps(1))

text \<open>A quote that is not the second character of an escape would end the literal early.\<close>

fun bare_quote :: "string \<Rightarrow> bool" where
  "bare_quote [] = False"
| "bare_quote (c # cs) =
     (if c = CHR 0x22 then True
      else if c = CHR 0x5C then (case cs of [] \<Rightarrow> False | _ # r \<Rightarrow> bare_quote r)
      else bare_quote cs)"

lemma hexify_plain: "d < 16 \<Longrightarrow> hexify d \<noteq> CHR 0x22 \<and> hexify d \<noteq> CHR 0x5C \<and> \<not> is_control (hexify d)"
proof -
  assume d: "d < 16"
  then have "hex_digit (hexify d) = Some d" by (rule hex_digit_hexify)
  then show ?thesis
    by (auto simp: hex_digit_def is_control_def Let_def split: if_splits)
qed

lemma short_escape_printable: "short_escape c = Some e \<Longrightarrow> \<not> is_control e"
  by (auto simp: short_escape_def is_control_def split: if_splits)

lemma escape_char_printable: "d \<in> set (escape_char c) \<Longrightarrow> \<not> is_control d"
proof (cases "short_escape c")
  case None
  assume d: "d \<in> set (escape_char c)"
  have plain: "\<not> is_control (CHR 0x5C)" "\<not> is_control (CHR ''u'')" "\<not> is_control (CHR ''0'')"
    by (simp_all add: is_control_def)
  have "(of_char c :: nat) < 256" by (rule nat_of_char_less_256)
  then have "(of_char c :: nat) div 16 < 16" by linarith
  with None d plain hexify_plain [of "of_char c div 16"] hexify_plain [of "of_char c mod 16"] show ?thesis
    by (auto simp: escape_char_def split: if_splits)
next
  case (Some e)
  assume "d \<in> set (escape_char c)"
  with Some short_escape_printable [OF Some] show ?thesis
    by (auto simp: escape_char_def is_control_def)
qed

lemma bare_quote_escape_char: "bare_quote (escape_char c @ r) = bare_quote r"
proof (cases "short_escape c")
  case None
  show ?thesis
  proof (cases "is_control c")
    case True
    then have "(of_char c :: nat) div 16 < 16" by (simp add: is_control_def)
    with None True hexify_plain [of "of_char c div 16"] hexify_plain [of "of_char c mod 16"] show ?thesis
      by (simp add: escape_char_def)
  next
    case False
    with None short_escape_control [OF None] show ?thesis by (simp add: escape_char_def)
  qed
qed (simp add: escape_char_def)

section \<open>Laws of element access\<close>

definition object_inv :: "json \<Rightarrow> bool" where
  "object_inv j \<longleftrightarrow> (case j of JObject m \<Rightarrow> omap_inv m | _ \<Rightarrow> True)"

lemma json_set_find:
  assumes "json_set key v j = Inr j'" and "object_inv j"
  shows "object_inv j' \<and> (\<forall>k. json_find k j' = (if k = key then Some v else json_find k j))"
  using assms
  by (cases j) (auto simp: json_set_def json_find_def object_inv_def om.find_put)

lemma json_set_null: "json_set key v JNull = Inr (JObject [(key, v)])"
  by (simp add: json_set_def)

lemma json_set_ok: "json_set key v (JObject m) = Inr (JObject (omap_put key v m))"
  by (simp add: json_set_def)

lemma json_init_pair: "json_init [JString k, v] = JArray [JString k, v]"
  by (simp add: json_init_def)

lemma json_object_fold:
  "json_object kvs = JObject (fold (\<lambda>(k, v) m. omap_insert k v m) kvs [])"
proof -
  have "list_all is_pair (map (\<lambda>(k, v). json_init [JString k, v]) kvs)"
    by (induction kvs) (auto simp: json_init_pair)
  moreover have "fold (\<lambda>e m. omap_insert (fst (pair_of e)) (snd (pair_of e)) m)
      (map (\<lambda>(k, v). json_init [JString k, v]) kvs) m = fold (\<lambda>(k, v) m. omap_insert k v m) kvs m" for m
    by (induction kvs arbitrary: m) (auto simp: json_init_pair)
  ultimately show ?thesis unfolding json_object_def by (simp add: json_init_def)
qed

section \<open>Properties\<close>

text \<open>
  C21. \<open>escape_string\<close> fills its preallocated buffer exactly: the result is the concatenation of
  the escapes of the characters, and its length is the one \<open>extra_space\<close> computed.
\<close>

theorem escape_string_exact:
  "escape_string s = concat (map escape_char s) \<and> length (escape_string s) = length s + extra_space s"
  by (simp add: escape_string_concat extra_space_length)

text \<open>
  C20. A string literal written with \<open>escape_string\<close> is read back by \<open>get_string\<close>, for every
  sequence of bytes; the literal has no control character and no quote that would end it early.
\<close>

theorem escape_round_trip:
  "get_string (escape_string s) = Inr s \<and> \<not> bare_quote (escape_string s) \<and>
   list_all (\<lambda>c. \<not> is_control c) (escape_string s)"
proof -
  have "\<not> bare_quote (concat (map escape_char s))"
    by (induction s) (simp_all add: bare_quote_escape_char)
  moreover have "list_all (\<lambda>c. \<not> is_control c) (concat (map escape_char s))"
    by (auto simp: list_all_iff dest: escape_char_printable)
  ultimately show ?thesis by (simp add: escape_string_concat get_string_concat)
qed

end
