(* ===== verification/Env_Watcher.thy ===== *)
theory Env_Watcher
  imports Json_Value Host_System
begin

text \<open>
  \<open>src/EnvironmentWatcher.{hpp,cpp}\<close>: R values as JSON, and the difference between two captures
  of the global environment. R and Rcpp are not under \<open>src/\<close>: a record \<open>'w rapi\<close> holds the
  accessors the code uses, which read the world, and the two ways it runs R code. An R object is
  an address.

  R environments may contain each other, and the code follows them without a bound; the model
  gives the mutually recursive functions a stack depth, and running out of it is the stack
  overflow that ends the process.
\<close>

unbundle bit_operations_syntax

section \<open>The R interface\<close>

record 'w rapi =
  r_global_env :: sexp
  r_type :: "sexp \<Rightarrow> 'w \<Rightarrow> nat"
  r_is_object :: "sexp \<Rightarrow> 'w \<Rightarrow> bool"
  r_is_S4 :: "sexp \<Rightarrow> 'w \<Rightarrow> bool"
  r_is_factor :: "sexp \<Rightarrow> 'w \<Rightarrow> bool"
  r_is_array :: "sexp \<Rightarrow> 'w \<Rightarrow> bool"
  r_is_matrix :: "sexp \<Rightarrow> 'w \<Rightarrow> bool"
  r_length :: "sexp \<Rightarrow> 'w \<Rightarrow> nat"
  r_attr :: "sexp \<Rightarrow> string \<Rightarrow> 'w \<Rightarrow> sexp"
  r_has_attr :: "sexp \<Rightarrow> string \<Rightarrow> 'w \<Rightarrow> bool"
  r_attr_names :: "sexp \<Rightarrow> 'w \<Rightarrow> string list"
  r_element :: "sexp \<Rightarrow> nat \<Rightarrow> 'w \<Rightarrow> sexp option"
  r_strings :: "sexp \<Rightarrow> 'w \<Rightarrow> exn + string list"
  r_ints :: "sexp \<Rightarrow> 'w \<Rightarrow> exn + int list"
  r_logicals :: "sexp \<Rightarrow> 'w \<Rightarrow> exn + int list"
  r_doubles :: "sexp \<Rightarrow> 'w \<Rightarrow> exn + 64 word list"
  r_coerce_strings :: "sexp \<Rightarrow> 'w \<Rightarrow> sexp"
  r_date :: "sexp \<Rightarrow> 'w \<Rightarrow> exn + int \<times> int \<times> int"
  r_timestamp :: "sexp \<Rightarrow> 'w \<Rightarrow> exn + 64 word"
  r_environment :: "sexp \<Rightarrow> 'w \<Rightarrow> exn + sexp"
  r_ls :: "sexp \<Rightarrow> 'w \<Rightarrow> string list"
  r_get :: "sexp \<Rightarrow> string \<Rightarrow> 'w \<Rightarrow> exn + sexp"
  r_define_function :: "sexp \<Rightarrow> 'w \<Rightarrow> (exn + sexp) \<times> 'w"

definition NILSXP :: nat where "NILSXP = 0"
definition CLOSXP :: nat where "CLOSXP = 3"
definition ENVSXP :: nat where "ENVSXP = 4"
definition SPECIALSXP :: nat where "SPECIALSXP = 7"
definition BUILTINSXP :: nat where "BUILTINSXP = 8"
definition LGLSXP :: nat where "LGLSXP = 10"
definition INTSXP :: nat where "INTSXP = 13"
definition REALSXP :: nat where "REALSXP = 14"
definition CPLXSXP :: nat where "CPLXSXP = 15"
definition STRSXP :: nat where "STRSXP = 16"
definition VECSXP :: nat where "VECSXP = 19"
definition RAWSXP :: nat where "RAWSXP = 24"

lemmas sexp_types = NILSXP_def CLOSXP_def ENVSXP_def SPECIALSXP_def BUILTINSXP_def LGLSXP_def INTSXP_def
  REALSXP_def CPLXSXP_def STRSXP_def VECSXP_def RAWSXP_def

text \<open>Reading the world through an accessor, total or throwing.\<close>

definition rd :: "('w \<Rightarrow> 'a) \<Rightarrow> (('w, 'z) hw_scheme, 'a) act" where
  "rd f = os_read f"

definition rdx :: "('w \<Rightarrow> exn + 'a) \<Rightarrow> (('w, 'z) hw_scheme, 'a) act" where
  "rdx f = bind (os_read f) lift"

definition put :: "string \<Rightarrow> json \<Rightarrow> json \<Rightarrow> ('s, json) act" where
  "put k v j = lift (json_set k v j)"

definition push :: "json \<Rightarrow> json \<Rightarrow> ('s, json) act" where
  "push v j = lift (json_push_back v j)"

definition nth_or_ub :: "'a list \<Rightarrow> nat \<Rightarrow> ('s, 'a) act" where
  "nth_or_ub xs i = (if i < length xs then ret (xs ! i) else throw (UB ''index out of range''))"

definition kMaxLen :: nat where "kMaxLen = 100"

section \<open>JSON values of R vectors\<close>

text \<open>A \<open>double\<close> that is not finite is stored as null.\<close>

definition is_finite :: "64 word \<Rightarrow> bool" where
  "is_finite w \<longleftrightarrow> drop_bit 52 w AND 0x7FF \<noteq> 0x7FF"

definition json_double :: "64 word \<Rightarrow> json" where
  "json_double w = (if is_finite w then JFloat w else JNull)"

definition json_strings :: "string list \<Rightarrow> json" where "json_strings xs = JArray (map JString xs)"
definition json_ints :: "int list \<Rightarrow> json" where "json_ints xs = JArray (map JInt xs)"
definition json_doubles :: "64 word list \<Rightarrow> json" where "json_doubles xs = JArray (map json_double xs)"

definition R_PosInf :: "64 word" where "R_PosInf = 0x7FF0000000000000"
definition R_NegInf :: "64 word" where "R_NegInf = 0xFFF0000000000000"

text \<open>No \<open>double\<close> equals \<open>R_NaN\<close>, so the first branch of the code is never taken.\<close>

definition numeric_element :: "64 word \<Rightarrow> json" where
  "numeric_element d =
     (if d = R_PosInf then JString ''Inf'' else if d = R_NegInf then JString ''-Inf'' else json_double d)"

definition rvectorToJsonArray :: "'w rapi \<Rightarrow> sexp \<Rightarrow> (('w, 'z) hw_scheme, json) act" where
  "rvectorToJsonArray api robj =
     bind (rd (r_type api robj)) (\<lambda>t.
     if t = LGLSXP then bind (rdx (r_logicals api robj)) (\<lambda>xs. ret (json_ints xs))
     else if t = INTSXP then bind (rdx (r_ints api robj)) (\<lambda>xs. ret (json_ints xs))
     else if t = REALSXP then bind (rdx (r_doubles api robj)) (\<lambda>xs. ret (json_doubles xs))
     else if t = STRSXP then bind (rdx (r_strings api robj)) (\<lambda>xs. ret (json_strings xs))
     else ret JNull)"

definition isOrderedFactor :: "string list \<Rightarrow> bool" where
  "isOrderedFactor classNames \<longleftrightarrow>
     1 < length classNames \<and> classNames ! 0 = ''ordered'' \<and> classNames ! 1 = ''factor''"

definition columnType :: "'w rapi \<Rightarrow> sexp \<Rightarrow> (('w, 'z) hw_scheme, string) act" where
  "columnType api robj =
     bind (rd (r_is_factor api robj)) (\<lambda>factor.
     if factor then
       bind (rd (r_attr api robj ''class'')) (\<lambda>c.
       bind (rdx (r_strings api c)) (\<lambda>classVal.
       ret (if isOrderedFactor classVal then ''of'' else ''f'')))
     else
       bind (rd (r_type api robj)) (\<lambda>t.
       ret (if t = LGLSXP then ''b'' else if t = INTSXP then ''i'' else if t = REALSXP then ''d''
            else if t = STRSXP then ''s'' else ''-'')))"

section \<open>Leaf objects\<close>

definition setFactorData :: "'w rapi \<Rightarrow> sexp \<Rightarrow> json \<Rightarrow> (('w, 'z) hw_scheme, json) act" where
  "setFactorData api robj jobj =
     bind (put ''type'' (JString ''f'') jobj) (\<lambda>jobj.
     bind (rd (r_attr api robj ''levels'')) (\<lambda>l.
     bind (rdx (r_strings api l)) (\<lambda>levs.
     bind (put ''levels'' (json_strings levs) jobj) (\<lambda>jobj.
     bind (rdx (r_ints api robj)) (\<lambda>codes.
     put ''value'' (json_ints codes) jobj)))))"

text \<open>\<open>snprintf(datebuf, 16, "%4d-%02d-%02d", ...)\<close>.\<close>

definition pad :: "nat \<Rightarrow> char \<Rightarrow> string \<Rightarrow> string" where
  "pad n c s = replicate (n - length s) c @ s"

definition dec02 :: "int \<Rightarrow> string" where
  "dec02 x = (if x < 0 then CHR ''-'' # pad 1 (CHR ''0'') (dec_nat (nat (- x))) else pad 2 (CHR ''0'') (dec_nat (nat x)))"

definition format_date :: "int \<times> int \<times> int \<Rightarrow> string" where
  "format_date ymd = (case ymd of (y, m, d) \<Rightarrow>
     take 15 (pad 4 (CHR '' '') (dec y) @ ''-'' @ dec02 m @ ''-'' @ dec02 d))"

text \<open>One cell of a data frame; a string column always gives its first element.\<close>

definition frame_cell :: "'w rapi \<Rightarrow> sexp \<Rightarrow> nat \<Rightarrow> (('w, 'z) hw_scheme, json) act" where
  "frame_cell api val row =
     bind (rd (r_type api val)) (\<lambda>t.
     if t = LGLSXP then bind (rdx (r_logicals api val)) (\<lambda>xs. bind (nth_or_ub xs row) (\<lambda>x. ret (JInt x)))
     else if t = INTSXP then bind (rdx (r_ints api val)) (\<lambda>xs. bind (nth_or_ub xs row) (\<lambda>x. ret (JInt x)))
     else if t = REALSXP then bind (rdx (r_doubles api val)) (\<lambda>xs. bind (nth_or_ub xs row) (\<lambda>x. ret (json_double x)))
     else if t = STRSXP then bind (rdx (r_strings api val)) (\<lambda>xs. bind (nth_or_ub xs 0) (\<lambda>x. ret (JString x)))
     else ret JNull)"

fun frame_row :: "'w rapi \<Rightarrow> sexp list \<Rightarrow> nat \<Rightarrow> nat list \<Rightarrow> json \<Rightarrow> (('w, 'z) hw_scheme, json) act" where
  "frame_row api colObjs row [] aRow = ret aRow"
| "frame_row api colObjs row (col # cols) aRow =
     bind (nth_or_ub colObjs col) (\<lambda>val.
     bind (frame_cell api val row) (\<lambda>c.
     bind (push c aRow) (frame_row api colObjs row cols)))"

fun frame_rows :: "'w rapi \<Rightarrow> sexp list \<Rightarrow> nat \<Rightarrow> nat list \<Rightarrow> json \<Rightarrow> (('w, 'z) hw_scheme, json) act" where
  "frame_rows api colObjs ncol [] rows = ret rows"
| "frame_rows api colObjs ncol (row # rest) rows =
     bind (frame_row api colObjs row [0..<ncol] JNull) (\<lambda>aRow.
     bind (push aRow rows) (frame_rows api colObjs ncol rest))"

fun frame_columns :: "'w rapi \<Rightarrow> sexp \<Rightarrow> nat list \<Rightarrow> sexp list \<Rightarrow> json \<Rightarrow> (('w, 'z) hw_scheme, sexp list \<times> json) act" where
  "frame_columns api robj [] colObjs colTypes = ret (colObjs, colTypes)"
| "frame_columns api robj (i # is) colObjs colTypes =
     bind (rd (r_element api robj i)) (\<lambda>e.
     bind (unwrap (UB ''VECTOR_ELT out of range'') e) (\<lambda>element.
     bind (rd (r_type api element)) (\<lambda>t.
     bind (if t = CPLXSXP then rd (r_coerce_strings api element) else ret element) (\<lambda>element.
     bind (columnType api element) (\<lambda>ct.
     bind (push (JString ct) colTypes) (frame_columns api robj is (colObjs @ [element])))))))"

definition setDataFrameData :: "'w rapi \<Rightarrow> sexp \<Rightarrow> json \<Rightarrow> (('w, 'z) hw_scheme, json) act" where
  "setDataFrameData api robj jobj =
     bind (rd (r_length api robj)) (\<lambda>colCount.
     bind (rd (r_attr api robj ''names'')) (\<lambda>n.
     bind (rdx (r_strings api n)) (\<lambda>colNames.
     bind (put ''cols'' (json_strings colNames) jobj) (\<lambda>jobj.
     bind (put ''ncol'' (JInt (int colCount)) jobj) (\<lambda>jobj.
     bind (rd (r_attr api robj ''row.names'')) (\<lambda>rowList.
     bind (rd (r_length api rowList)) (\<lambda>rl.
     bind (if 0 < rl then bind (rdx (r_strings api rowList)) (\<lambda>rn. put ''row.names'' (json_strings rn) jobj)
           else ret jobj) (\<lambda>jobj.
     bind (frame_columns api robj [0..<colCount] [] JNull) (\<lambda>(colObjs, colTypes).
     bind (put ''types'' colTypes jobj) (\<lambda>jobj.
     bind (nth_or_ub colObjs 0) (\<lambda>first.
     bind (rd (r_length api first)) (\<lambda>rowCount.
     bind (put ''nrow'' (JInt (int rowCount)) jobj) (\<lambda>jobj.
     bind (frame_rows api colObjs (length colNames) [0..<min kMaxLen rowCount] JNull) (\<lambda>rows.
     put ''rows'' rows jobj))))))))))))))"

definition setFunctionData :: "'w rapi \<Rightarrow> sexp \<Rightarrow> json \<Rightarrow> (('w, 'z) hw_scheme, json) act" where
  "setFunctionData api robj jobj =
     bind (put ''class'' (JString ''function'') jobj) (\<lambda>jobj.
     bind (put ''notAVector'' (JBool True) jobj) (\<lambda>jobj.
     bind (put ''primitive'' (JBool False) jobj) (\<lambda>jobj.
     try_catch is_std_exception
       (bind (os_do (r_define_function api robj)) (\<lambda>r.
        bind (lift r) (\<lambda>val.
        bind (rdx (r_strings api val)) (\<lambda>svec.
        put ''body'' (JString (concat (map (\<lambda>l. l @ [CHR 0x0A]) svec))) jobj))))
       (\<lambda>e. ret jobj))))"

fun dim_names :: "'w rapi \<Rightarrow> sexp \<Rightarrow> nat list \<Rightarrow> json \<Rightarrow> (('w, 'z) hw_scheme, json) act" where
  "dim_names api mlist [] dnames = ret dnames"
| "dim_names api mlist (i # is) dnames =
     bind (rd (r_element api mlist i)) (\<lambda>e.
     bind (unwrap (UB ''VECTOR_ELT out of range'') e) (\<lambda>cl.
     bind (rvectorToJsonArray api cl) (\<lambda>a.
     bind (push a dnames) (dim_names api mlist is))))"

text \<open>The loop over the dimension names is bounded by the length of the array itself.\<close>

definition setDimNames :: "'w rapi \<Rightarrow> sexp \<Rightarrow> json \<Rightarrow> (('w, 'z) hw_scheme, json) act" where
  "setDimNames api robj jobj =
     bind (rd (r_attr api robj ''dim'')) (\<lambda>d.
     bind (rdx (r_ints api d)) (\<lambda>dims.
     bind (nth_or_ub dims 0) (\<lambda>d0.
     bind (put ''nrow'' (JInt d0) jobj) (\<lambda>jobj.
     bind (nth_or_ub dims 1) (\<lambda>d1.
     bind (put ''ncol'' (JInt d1) jobj) (\<lambda>jobj.
     bind (if 2 < length dims then bind (rvectorToJsonArray api robj) (\<lambda>a. put ''dims'' a jobj) else ret jobj) (\<lambda>jobj.
     bind (rd (r_has_attr api robj ''dimnames'')) (\<lambda>has.
     if has then
       bind (rd (r_attr api robj ''dimnames'')) (\<lambda>mlist.
       bind (rd (r_length api robj)) (\<lambda>len.
       bind (dim_names api mlist [0..<len] JNull) (\<lambda>dnames. put ''dimnames'' dnames jobj)))
     else ret jobj))))))))"

definition primitive_value :: "'w rapi \<Rightarrow> sexp \<Rightarrow> nat \<Rightarrow> json \<Rightarrow> (('w, 'z) hw_scheme, json \<times> bool) act" where
  "primitive_value api robj t jobj =
     (let head = (\<lambda>cls ty. bind (put ''class'' (JString cls) jobj) (put ''type'' (JString ty))) in
      if t = NILSXP then bind (head ''NULL'' ''n'') (\<lambda>jobj. ret (jobj, True))
      else if t = LGLSXP then
        bind (head ''logical'' ''b'') (\<lambda>jobj.
        bind (rdx (r_logicals api robj)) (\<lambda>xs.
        bind (put ''value'' (JArray (map (\<lambda>x. JBool (x \<noteq> 0)) xs)) jobj) (\<lambda>jobj. ret (jobj, False))))
      else if t = INTSXP then
        bind (head ''integer vector'' ''i'') (\<lambda>jobj.
        bind (rdx (r_ints api robj)) (\<lambda>xs.
        bind (put ''value'' (json_ints xs) jobj) (\<lambda>jobj. ret (jobj, False))))
      else if t = REALSXP then
        bind (head ''numeric vector'' ''d'') (\<lambda>jobj.
        bind (rdx (r_doubles api robj)) (\<lambda>xs.
        bind (put ''value'' (if xs = [] then JNull else JArray (map numeric_element xs)) jobj) (\<lambda>jobj.
        ret (jobj, False))))
      else if t = STRSXP then
        bind (head ''string'' ''s'') (\<lambda>jobj.
        bind (rdx (r_strings api robj)) (\<lambda>xs.
        bind (put ''value'' (json_strings xs) jobj) (\<lambda>jobj. ret (jobj, False))))
      else if t = CPLXSXP then
        bind (head ''complex'' ''c'') (\<lambda>jobj.
        bind (rdx (r_strings api robj)) (\<lambda>xs.
        bind (put ''value'' (json_strings xs) jobj) (\<lambda>jobj. ret (jobj, False))))
      else if t = RAWSXP then bind (head ''raw'' ''r'') (\<lambda>jobj. ret (jobj, False))
      else
        bind (put ''class'' (JString ''unsupported type'') jobj) (\<lambda>jobj.
        bind (put ''primitive'' (JBool False) jobj) (\<lambda>jobj. ret (jobj, True))))"

definition setPrimitiveData :: "'w rapi \<Rightarrow> sexp \<Rightarrow> json \<Rightarrow> (('w, 'z) hw_scheme, json) act" where
  "setPrimitiveData api robj jobj =
     bind (put ''primitive'' (JBool True) jobj) (\<lambda>jobj.
     bind (rd (r_type api robj)) (\<lambda>t.
     bind (primitive_value api robj t jobj) (\<lambda>(jobj, notVector).
     bind (if notVector then put ''notAVector'' (JBool True) jobj
           else bind (rd (r_length api robj)) (\<lambda>n. put ''length'' (JInt (int n)) jobj)) (\<lambda>jobj.
     bind (rd (r_is_array api robj)) (\<lambda>array.
     if array then
       bind (put ''primitive'' (JBool False) jobj) (\<lambda>jobj.
       bind (setDimNames api robj jobj) (\<lambda>jobj.
       bind (rd (r_is_matrix api robj)) (\<lambda>m.
       put ''class'' (JString (if m then ''matrix'' else ''array'')) jobj)))
     else ret jobj)))))"

section \<open>Summaries\<close>

text \<open>\<open>ExecuteCallback\<close>: the flag it returns is ignored here; its result is the second component.\<close>

type_synonym 's callback = "string \<Rightarrow> ('s, bool \<times> sexp) act"

definition is_cxx_exception :: "exn \<Rightarrow> bool" where
  "is_cxx_exception e \<longleftrightarrow> (case e of Exit _ \<Rightarrow> False | Abort _ \<Rightarrow> False | UB _ \<Rightarrow> False | _ \<Rightarrow> True)"

definition join_lines :: "string list \<Rightarrow> string" where
  "join_lines strs = foldl (\<lambda>summary str. (if summary \<noteq> [] then summary @ [CHR 0x0A] else summary) @ str) [] strs"

definition addSummary ::
    "'w rapi \<Rightarrow> ('w, 'z) hw_scheme callback \<Rightarrow> string \<Rightarrow> json \<Rightarrow> (('w, 'z) hw_scheme, json) act" where
  "addSummary api exec varName jobj =
     bind (exec (''capture.output(str('' @ StripQuotes varName @ ''))'')) (\<lambda>(_, result).
     try_catch is_cxx_exception
       (bind (rdx (r_strings api result)) (\<lambda>strs. put ''summary'' (JString (join_lines strs)) jobj))
       (\<lambda>e. ret jobj))"

section \<open>Composite objects\<close>

definition object_class :: "string list \<Rightarrow> ('s, string) act" where
  "object_class klazzNames =
     (if isOrderedFactor klazzNames then ret ''ordered factor'' else nth_or_ub klazzNames 0)"

text \<open>
  \<open>valueToJson\<close> calls the composite setters, which call it on the parts. They take the recursive
  call as the argument \<open>rec varName robj jobj includeListChildren\<close>.
\<close>

type_synonym 's to_json = "string \<Rightarrow> sexp \<Rightarrow> json \<Rightarrow> bool \<Rightarrow> ('s, json) act"

fun generic_attributes ::
    "'w rapi \<Rightarrow> ('w, 'z) hw_scheme to_json \<Rightarrow> sexp \<Rightarrow> string list \<Rightarrow> json \<Rightarrow> json \<Rightarrow>
      (('w, 'z) hw_scheme, json \<times> json) act" where
  "generic_attributes api rec robj [] nameArray valueArray = ret (nameArray, valueArray)"
| "generic_attributes api rec robj (aName # rest) nameArray valueArray =
     (if aName = ''class'' then generic_attributes api rec robj rest nameArray valueArray
      else
        bind (push (JString aName) nameArray) (\<lambda>nameArray.
        bind (rd (r_attr api robj aName)) (\<lambda>attrVal.
        bind (rec aName attrVal JNull True) (\<lambda>attrJval.
        bind (put ''name'' (JString aName) attrJval) (\<lambda>attrJval.
        bind (push attrJval valueArray) (\<lambda>valueArray.
        generic_attributes api rec robj rest nameArray valueArray))))))"

definition setGenericObjectData ::
    "'w rapi \<Rightarrow> ('w, 'z) hw_scheme to_json \<Rightarrow> sexp \<Rightarrow> json \<Rightarrow> (('w, 'z) hw_scheme, json) act" where
  "setGenericObjectData api rec robj jobj =
     bind (rd (r_attr_names api robj)) (\<lambda>attrNames.
     bind (generic_attributes api rec robj attrNames JNull JNull) (\<lambda>(nameArray, valueArray).
     bind (put ''generic'' (JBool True) jobj) (\<lambda>jobj.
     bind (put ''names'' nameArray jobj) (\<lambda>jobj.
     bind (put ''value'' valueArray jobj) (\<lambda>jobj.
     put ''length'' (JInt (case valueArray of JArray xs \<Rightarrow> int (length xs) | _ \<Rightarrow> 0)) jobj)))))"

definition setObjectData ::
    "'w rapi \<Rightarrow> ('w, 'z) hw_scheme to_json \<Rightarrow> sexp \<Rightarrow> json \<Rightarrow> (('w, 'z) hw_scheme, json) act" where
  "setObjectData api rec robj jobj =
     bind (rd (r_attr api robj ''class'')) (\<lambda>c.
     bind (rdx (r_strings api c)) (\<lambda>klazzNames.
     bind (object_class klazzNames) (\<lambda>klass.
     bind (put ''class'' (JString klass) jobj) (\<lambda>jobj.
     bind (rd (r_is_S4 api robj)) (\<lambda>s4.
     bind (if s4 then put ''S4'' (JBool True) jobj else ret jobj) (\<lambda>jobj.
     bind (rd (r_is_factor api robj)) (\<lambda>factor.
     if factor then setFactorData api robj jobj
     else if klass = ''Date'' then
       bind (rdx (r_date api robj)) (\<lambda>ymd.
       bind (put ''value'' (JString (format_date ymd)) jobj) (put ''type'' (JString ''date'')))
     else if klass = ''POSIXct'' then
       bind (rdx (r_doubles api robj)) (\<lambda>xs.
       bind (nth_or_ub xs 0) (\<lambda>x.
       bind (put ''value'' (json_double x) jobj) (put ''type'' (JString ''date''))))
     else if klass = ''POSIXlt'' then
       bind (rdx (r_timestamp api robj)) (\<lambda>x.
       bind (put ''value'' (json_double x) jobj) (put ''type'' (JString ''date'')))
     else if klass = ''data.frame'' then setDataFrameData api robj jobj
     else setGenericObjectData api rec robj jobj)))))))"

fun list_children ::
    "'w rapi \<Rightarrow> ('w, 'z) hw_scheme to_json \<Rightarrow> sexp \<Rightarrow> nat list \<Rightarrow> json \<Rightarrow> json \<Rightarrow>
      (('w, 'z) hw_scheme, json) act" where
  "list_children api rec robj [] nameArray children = ret children"
| "list_children api rec robj (i # is) nameArray children =
     bind (rd (r_element api robj i)) (\<lambda>e.
     bind (unwrap (UB ''VECTOR_ELT out of range'') e) (\<lambda>aChild.
     bind (rec [] aChild JNull False) (\<lambda>childObj.
     bind (lift (json_nth i nameArray)) (\<lambda>(name, nameArray).
     bind (put ''name'' name childObj) (\<lambda>childObj.
     bind (push childObj children) (\<lambda>children.
     list_children api rec robj is nameArray children))))))"

definition setListData ::
    "'w rapi \<Rightarrow> ('w, 'z) hw_scheme to_json \<Rightarrow> sexp \<Rightarrow> json \<Rightarrow> bool \<Rightarrow> (('w, 'z) hw_scheme, json) act" where
  "setListData api rec robj jobj includeListChildren =
     bind (rd (r_length api robj)) (\<lambda>len.
     bind (put ''class'' (JString ''list'') jobj) (\<lambda>jobj.
     bind (rd (r_attr api robj ''names'')) (\<lambda>names.
     bind (rvectorToJsonArray api names) (\<lambda>nameArray.
     bind (put ''names'' nameArray jobj) (\<lambda>jobj.
     bind (put ''length'' (JInt (int len)) jobj) (\<lambda>jobj.
     if includeListChildren then
       bind (list_children api rec robj [0..<min len kMaxLen] nameArray JNull) (\<lambda>children.
       put ''value'' children jobj)
     else ret jobj))))))"

fun environment_children ::
    "'w rapi \<Rightarrow> ('w, 'z) hw_scheme to_json \<Rightarrow> sexp \<Rightarrow> string list \<Rightarrow> json \<Rightarrow> (('w, 'z) hw_scheme, json) act" where
  "environment_children api rec cenv [] childArray = ret childArray"
| "environment_children api rec cenv (varName # rest) childArray =
     bind (put ''name'' (JString varName) JNull) (\<lambda>cobj.
     bind (rdx (r_get api cenv varName)) (\<lambda>childVal.
     bind (rec varName childVal cobj True) (\<lambda>cobj.
     bind (push cobj childArray) (\<lambda>childArray.
     environment_children api rec cenv rest childArray))))"

definition setEnvironmentData ::
    "'w rapi \<Rightarrow> ('w, 'z) hw_scheme to_json \<Rightarrow> sexp \<Rightarrow> json \<Rightarrow> (('w, 'z) hw_scheme, json) act" where
  "setEnvironmentData api rec robj jobj =
     bind (rdx (r_environment api robj)) (\<lambda>cenv.
     bind (rd (r_ls api cenv)) (\<lambda>cnames.
     bind (environment_children api rec cenv (take kMaxLen cnames) JNull) (\<lambda>childArray.
     put ''value'' childArray jobj)))"

definition value_step ::
    "'w rapi \<Rightarrow> ('w, 'z) hw_scheme callback \<Rightarrow> ('w, 'z) hw_scheme to_json \<Rightarrow> ('w, 'z) hw_scheme to_json" where
  "value_step api exec rec varName robj jobj includeListChildren =
     bind (put ''name'' (JString varName) jobj) (\<lambda>jobj.
     bind (rd (r_is_object api robj)) (\<lambda>obj.
     if obj then bind (setObjectData api rec robj jobj) (addSummary api exec varName)
     else
       bind (rd (r_type api robj)) (\<lambda>t.
       if t = VECSXP then
         bind (setListData api rec robj jobj includeListChildren) (addSummary api exec varName)
       else if t = ENVSXP then setEnvironmentData api rec robj jobj
       else if t = CLOSXP \<or> t = SPECIALSXP \<or> t = BUILTINSXP then setFunctionData api robj jobj
       else setPrimitiveData api robj jobj)))"

primrec valueToJson ::
    "'w rapi \<Rightarrow> ('w, 'z) hw_scheme callback \<Rightarrow> nat \<Rightarrow> ('w, 'z) hw_scheme to_json" where
  "valueToJson api exec 0 = (\<lambda>varName robj jobj includeListChildren. throw (Abort ''stack overflow''))"
| "valueToJson api exec (Suc depth) = value_step api exec (valueToJson api exec depth)"

section \<open>The watcher\<close>

type_synonym variable = "string \<times> sexp"

fun get_variables :: "'w rapi \<Rightarrow> string list \<Rightarrow> (('w, 'z) hw_scheme, variable list) act" where
  "get_variables api [] = ret []"
| "get_variables api (aName # rest) =
     bind (rdx (r_get api (r_global_env api) aName)) (\<lambda>v.
     bind (get_variables api rest) (\<lambda>vs. ret ((aName, v) # vs)))"

definition compareVariablesByName :: "variable \<Rightarrow> variable \<Rightarrow> bool" where
  "compareVariablesByName v1 v2 \<longleftrightarrow> fst v1 < fst v2"

text \<open>\<open>operator<\<close> of \<open>std::pair\<close>; objects compare by address.\<close>

definition variable_less :: "variable \<Rightarrow> variable \<Rightarrow> bool" where
  "variable_less v1 v2 \<longleftrightarrow> fst v1 < fst v2 \<or> \<not> fst v2 < fst v1 \<and> snd v1 < snd v2"

definition sort_variables :: "variable list \<Rightarrow> variable list" where
  "sort_variables vs = sort_key fst vs"

text \<open>\<open>std::set_difference\<close> on two sorted ranges.\<close>

fun set_difference :: "('a \<Rightarrow> 'a \<Rightarrow> bool) \<Rightarrow> 'a list \<Rightarrow> 'a list \<Rightarrow> 'a list" where
  "set_difference lt [] ys = []"
| "set_difference lt (x # xs) [] = x # xs"
| "set_difference lt (x # xs) (y # ys) =
     (if lt x y then x # set_difference lt xs (y # ys)
      else if lt y x then set_difference lt (x # xs) ys
      else set_difference lt xs ys)"

text \<open>
  The watcher's \<open>_lastVars\<close> is a field of the state that holds the watcher; \<open>upd\<close> is that field's
  update. If \<open>get\<close> throws, the variables before it have been captured.
\<close>

definition captureEnvironment ::
    "'w rapi \<Rightarrow> ((variable list \<Rightarrow> variable list) \<Rightarrow> ('w, 'z) hw_scheme \<Rightarrow> ('w, 'z) hw_scheme) \<Rightarrow>
      (('w, 'z) hw_scheme, unit) act" where
  "captureEnvironment api upd =
     seq (modify (upd (\<lambda>_. [])))
     (bind (rd (r_ls api (r_global_env api))) (\<lambda>names.
      seq (for_each names (\<lambda>aName.
             bind (rdx (r_get api (r_global_env api) aName)) (\<lambda>v.
             modify (upd (\<lambda>vs. vs @ [(aName, v)])))))
      (modify (upd sort_variables))))"

definition toJson_variable ::
    "'w rapi \<Rightarrow> ('w, 'z) hw_scheme callback \<Rightarrow> nat \<Rightarrow> string \<Rightarrow> (('w, 'z) hw_scheme, json) act" where
  "toJson_variable api exec depth varName =
     bind (rdx (r_get api (r_global_env api) varName)) (\<lambda>robj.
     valueToJson api exec depth varName robj JNull True)"

fun toJson_names ::
    "'w rapi \<Rightarrow> ('w, 'z) hw_scheme callback \<Rightarrow> nat \<Rightarrow> string list \<Rightarrow> json \<Rightarrow> (('w, 'z) hw_scheme, json) act" where
  "toJson_names api exec depth [] results = ret results"
| "toJson_names api exec depth (aName # rest) results =
     bind (toJson_variable api exec depth aName) (\<lambda>v.
     bind (put aName v results) (toJson_names api exec depth rest))"

definition toJson :: "'w rapi \<Rightarrow> ('w, 'z) hw_scheme callback \<Rightarrow> nat \<Rightarrow> (('w, 'z) hw_scheme, json) act" where
  "toJson api exec depth =
     bind (rd (r_ls api (r_global_env api))) (\<lambda>names. toJson_names api exec depth names JNull)"

fun add_variables ::
    "'w rapi \<Rightarrow> ('w, 'z) hw_scheme callback \<Rightarrow> nat \<Rightarrow> variable list \<Rightarrow> json \<Rightarrow> (('w, 'z) hw_scheme, json) act" where
  "add_variables api exec depth [] jsonAdded = ret jsonAdded"
| "add_variables api exec depth (aVar # rest) jsonAdded =
     bind (valueToJson api exec depth (fst aVar) (snd aVar) JNull False) (\<lambda>varValue.
     bind (put (fst aVar) varValue jsonAdded) (add_variables api exec depth rest))"

definition delta_removed :: "variable list \<Rightarrow> variable list \<Rightarrow> variable list" where
  "delta_removed lastVars newVars = set_difference compareVariablesByName lastVars newVars"

definition delta_added :: "variable list \<Rightarrow> variable list \<Rightarrow> variable list" where
  "delta_added lastVars newVars = set_difference variable_less newVars lastVars"

text \<open>The result, and \<open>_lastVars\<close>, which it sorts.\<close>

definition jsonDelta ::
    "'w rapi \<Rightarrow> ('w, 'z) hw_scheme callback \<Rightarrow> nat \<Rightarrow> variable list \<Rightarrow>
      (('w, 'z) hw_scheme, json \<times> variable list) act" where
  "jsonDelta api exec depth lastVars =
     bind (rd (r_ls api (r_global_env api))) (\<lambda>names.
     bind (get_variables api names) (\<lambda>vars.
     let newVars = sort_variables vars; lastVars = sort_variables lastVars;
         removed = delta_removed lastVars newVars; added = delta_added lastVars newVars in
     bind (put ''removed'' (json_strings (map fst removed)) JNull) (\<lambda>results.
     bind (add_variables api exec depth added JNull) (\<lambda>jsonAdded.
     bind (put ''assigned'' jsonAdded results) (\<lambda>results. ret (results, lastVars))))))"

end
