(* ===== verification/Env_Watcher_Laws.thy ===== *)
theory Env_Watcher_Laws
  imports Env_Watcher Sample_Host
begin

text \<open>
  Properties of the environment watcher: the difference of two captures, the shape of the JSON of a
  variable, the bounds on what is sent, and what the code does on data it mishandles.
\<close>

section \<open>set_difference\<close>

text \<open>
  The contract of a comparison function of the standard library, on strictly increasing ranges: a
  strict weak order.
\<close>

locale strict_weak_order =
  fixes lt :: "'a \<Rightarrow> 'a \<Rightarrow> bool"
  assumes asym: "lt x y \<Longrightarrow> \<not> lt y x"
    and trans: "lt x y \<Longrightarrow> lt y z \<Longrightarrow> lt x z"
    and incomparable: "lt x z \<Longrightarrow> \<not> lt x y \<Longrightarrow> \<not> lt y x \<Longrightarrow> lt y z"
begin

lemma set_difference_filter_aux:
  "l = lt \<Longrightarrow> sorted_wrt lt xs \<Longrightarrow> sorted_wrt lt ys \<Longrightarrow>
    set_difference l xs ys = filter (\<lambda>x. \<forall>y\<in>set ys. lt x y \<or> lt y x) xs"
proof (induction l xs ys rule: set_difference.induct)
  case (3 l x xs y ys)
  note prems = "3.prems" and IH = "3.IH"
  consider "lt x y" | "\<not> lt x y" "lt y x" | "\<not> lt x y" "\<not> lt y x" by blast
  then show ?case
  proof cases
    case 1
    with prems have "\<forall>y'\<in>set (y # ys). lt x y'" using trans by auto
    with 1 prems IH(1) show ?thesis by simp
  next
    case 2
    with prems have "\<forall>x'\<in>set (x # xs). lt y x'" using trans by auto
    with 2 prems IH(2) show ?thesis by (auto intro!: filter_cong)
  next
    case 3
    with prems have "\<forall>x'\<in>set xs. lt y x'" using incomparable by auto
    with 3 prems IH(3) show ?thesis by (auto intro!: filter_cong)
  qed
qed auto

lemmas set_difference_filter = set_difference_filter_aux [OF refl]

lemma set_difference_sorted: "sorted_wrt lt xs \<Longrightarrow> sorted_wrt lt ys \<Longrightarrow> sorted_wrt lt (set_difference lt xs ys)"
  by (simp add: set_difference_filter sorted_wrt_filter)

end

interpretation by_name: strict_weak_order compareVariablesByName
  by unfold_locales (auto simp: compareVariablesByName_def)

interpretation by_pair: strict_weak_order variable_less
  by unfold_locales (auto simp: variable_less_def)

section \<open>The difference of two captures\<close>

lemma sort_variables_set: "set (sort_variables vs) = set vs"
  by (simp add: sort_variables_def)

lemma sort_variables_names:
  assumes "distinct (map fst vs)"
  shows "sorted_wrt (<) (map fst (sort_variables vs))"
proof -
  have "distinct (map fst (sort_variables vs))"
    using assms by (simp add: sort_variables_def distinct_map)
  then show ?thesis by (simp add: sort_variables_def strict_sorted_iff)
qed

lemma sorted_by_name: "sorted_wrt (<) (map fst vs) \<Longrightarrow> sorted_wrt compareVariablesByName vs"
  unfolding sorted_wrt_map
  by (erule sorted_wrt_mono_rel [rotated]) (simp add: compareVariablesByName_def)

lemma sorted_by_pair: "sorted_wrt (<) (map fst vs) \<Longrightarrow> sorted_wrt variable_less vs"
  unfolding sorted_wrt_map
  by (erule sorted_wrt_mono_rel [rotated]) (simp add: variable_less_def)

lemma variable_less_neq: "(variable_less v w \<or> variable_less w v) = (v \<noteq> w)"
  by (cases v; cases w) (auto simp: variable_less_def)

lemma delta_sets:
  assumes "distinct (map fst old)" and "distinct (map fst new)"
  shows "set (map fst (delta_removed (sort_variables old) (sort_variables new))) = fst ` set old - fst ` set new \<and>
    sorted_wrt (<) (map fst (delta_removed (sort_variables old) (sort_variables new))) \<and>
    set (delta_added (sort_variables old) (sort_variables new)) = set new - set old \<and>
    sorted_wrt (<) (map fst (delta_added (sort_variables old) (sort_variables new)))"
proof -
  note o = sort_variables_names [OF assms(1)] and n = sort_variables_names [OF assms(2)]
  have r: "delta_removed (sort_variables old) (sort_variables new)
      = filter (\<lambda>x. fst x \<notin> fst ` set new) (sort_variables old)"
    unfolding delta_removed_def by_name.set_difference_filter [OF sorted_by_name [OF o] sorted_by_name [OF n]]
    by (rule filter_cong) (auto simp: compareVariablesByName_def sort_variables_set simp flip: neq_iff)
  have a: "delta_added (sort_variables old) (sort_variables new) = filter (\<lambda>x. x \<notin> set old) (sort_variables new)"
    unfolding delta_added_def by_pair.set_difference_filter [OF sorted_by_pair [OF n] sorted_by_pair [OF o]]
    by (rule filter_cong) (auto simp: variable_less_neq sort_variables_set)
  have "sorted_wrt (<) (map fst (filter P (sort_variables vs)))" if "sorted_wrt (<) (map fst (sort_variables vs))" for P vs
    using that by (simp add: sorted_wrt_map sorted_wrt_filter)
  then show ?thesis
    unfolding r a using o n by (auto simp: sort_variables_set)
qed

text \<open>
  The difference between the captured and the current variables is exact: \<open>removed\<close> are the
  names that are gone, \<open>added\<close> the variables that are new or bound to another object, each in
  order of name and once.
\<close>

theorem delta_exact:
  assumes "distinct (map fst old)" and "distinct (map fst new)"
  shows "set (map fst (delta_removed (sort_variables old) (sort_variables new))) = fst ` set old - fst ` set new \<and>
    sorted_wrt (<) (map fst (delta_removed (sort_variables old) (sort_variables new))) \<and>
    set (delta_added (sort_variables old) (sort_variables new)) = set new - set old \<and>
    sorted_wrt (<) (map fst (delta_added (sort_variables old) (sort_variables new)))"
  using assms by (rule delta_sets)

theorem delta_exact_witness:
  "set (delta_added (sort_variables [(''y'', 2), (''x'', 1)]) (sort_variables [(''x'', 3), (''y'', 2)])) = {(''x'', 3)}"
  using delta_exact [of "[(''y'', 2), (''x'', 1)]" "[(''x'', 3), (''y'', 2)]"]
  by (simp add: insert_Diff_if)

section \<open>What an action returns\<close>

definition gives :: "('a \<Rightarrow> bool) \<Rightarrow> ('s, 'a) act \<Rightarrow> bool" where
  "gives Q m \<longleftrightarrow> (\<forall>s a s'. m s = (Inr a, s') \<longrightarrow> Q a)"

named_theorems gives_rules \<open>one rule per control structure\<close>

lemma givesD: "gives Q m \<Longrightarrow> m s = (Inr a, s') \<Longrightarrow> Q a"
  by (auto simp: gives_def)

lemma gives_ret: "Q a \<Longrightarrow> gives Q (ret a)"
  by (simp add: gives_def ret_def)

lemma gives_throw: "gives Q (throw e)"
  by (simp add: gives_def throw_def)

lemma gives_any: "gives (\<lambda>_. True) m"
  by (simp add: gives_def)

lemma gives_bind: "gives R m \<Longrightarrow> (\<And>a. R a \<Longrightarrow> gives Q (f a)) \<Longrightarrow> gives Q (bind m f)"
  by (fastforce simp: gives_def bind_def split: prod.splits sum.splits)

lemma gives_step: "(\<And>a. gives Q (f a)) \<Longrightarrow> gives Q (bind m f)"
  by (rule gives_bind [OF gives_any]) simp

lemma gives_weaken: "gives Q m \<Longrightarrow> (\<And>a. Q a \<Longrightarrow> R a) \<Longrightarrow> gives R m"
  by (auto simp: gives_def)

lemma gives_if: "(b \<Longrightarrow> gives Q m) \<Longrightarrow> (\<not> b \<Longrightarrow> gives Q n) \<Longrightarrow> gives Q (if b then m else n)"
  by simp

lemma gives_try: "gives Q m \<Longrightarrow> (\<And>e. gives Q (h e)) \<Longrightarrow> gives Q (try_catch C m h)"
  by (fastforce simp: gives_def try_catch_def split: prod.splits sum.splits if_splits)

lemma gives_case_prod: "(\<And>a b. x = (a, b) \<Longrightarrow> gives Q (f a b)) \<Longrightarrow> gives Q (case x of (a, b) \<Rightarrow> f a b)"
  by (cases x) simp

section \<open>The name of a variable\<close>

definition named :: "string \<Rightarrow> json \<Rightarrow> bool" where
  "named v j \<longleftrightarrow> (\<exists>m. j = JObject m \<and> omap_inv m \<and> omap_find m ''name'' = Some (JString v))"

lemma put_named: "named v j \<Longrightarrow> k \<noteq> ''name'' \<Longrightarrow> gives (named v) (put k x j)"
  by (auto simp: gives_def put_def lift_def json_set_def named_def om.find_put)

lemma put_name: "j = JNull \<or> (\<exists>v. named v j) \<Longrightarrow> gives (named v) (put ''name'' (JString v) j)"
  by (auto simp: gives_def put_def lift_def json_set_def named_def om.find_put)

lemma named_put_bind:
  "named v j \<Longrightarrow> k \<noteq> ''name'' \<Longrightarrow> (\<And>j'. named v j' \<Longrightarrow> gives Q (f j')) \<Longrightarrow> gives Q (bind (put k x j) f)"
  by (rule gives_bind [OF put_named])

lemma named_cond_bind:
  "named v j \<Longrightarrow> k \<noteq> ''name'' \<Longrightarrow> (\<And>j'. named v j' \<Longrightarrow> gives Q (f j')) \<Longrightarrow>
    gives Q (bind (if c then put k x j else ret j) f)"
  by (auto intro: named_put_bind)

lemma named_cond_read_bind:
  "named v j \<Longrightarrow> k \<noteq> ''name'' \<Longrightarrow> (\<And>j'. named v j' \<Longrightarrow> gives Q (f j')) \<Longrightarrow>
    gives Q (bind (if c then bind m (\<lambda>a. put k (g a) j) else ret j) f)"
  by (cases c) (simp_all add: bind_assoc, rule gives_step, rule named_put_bind)

lemma named_cond_read_put_bind:
  "named v j \<Longrightarrow> k \<noteq> ''name'' \<Longrightarrow> k' \<noteq> ''name'' \<Longrightarrow> (\<And>j'. named v j' \<Longrightarrow> gives Q (f j')) \<Longrightarrow>
    gives Q (bind (if c then put k x j else bind m (\<lambda>a. put k' (g a) j)) f)"
  by (cases c) (simp_all add: bind_assoc named_put_bind, rule gives_step, rule named_put_bind)

lemma named_try:
  "named v j \<Longrightarrow> gives (named v) m \<Longrightarrow> gives (named v) (try_catch C m (\<lambda>e. ret j))"
  by (intro gives_try gives_ret)

lemmas named_rules = named_put_bind named_cond_bind named_cond_read_bind named_cond_read_put_bind named_try
  gives_step gives_if gives_ret gives_throw put_named gives_case_prod

lemma setFactorData_named: "named v j \<Longrightarrow> gives (named v) (setFactorData api robj j)"
  unfolding setFactorData_def by (rule named_rules | assumption | simp)+

lemma setDataFrameData_named: "named v j \<Longrightarrow> gives (named v) (setDataFrameData api robj j)"
  unfolding setDataFrameData_def by (rule named_rules | assumption | simp)+

lemma setFunctionData_named: "named v j \<Longrightarrow> gives (named v) (setFunctionData api robj j)"
  unfolding setFunctionData_def by (rule named_rules | assumption | simp)+

lemma setDimNames_named: "named v j \<Longrightarrow> gives (named v) (setDimNames api robj j)"
  unfolding setDimNames_def by (rule named_rules | assumption | simp)+

lemma primitive_value_named: "named v j \<Longrightarrow> gives (\<lambda>(j, b). named v j) (primitive_value api robj t j)"
  unfolding primitive_value_def Let_def bind_assoc
  by (rule named_rules | assumption | simp)+

lemma setPrimitiveData_named: "named v j \<Longrightarrow> gives (named v) (setPrimitiveData api robj j)"
  unfolding setPrimitiveData_def
  by (rule named_put_bind, assumption, simp, rule gives_step, rule gives_bind, rule primitive_value_named, assumption)
    (rule named_rules gives_bind [OF setDimNames_named] | assumption | clarsimp)+

lemma addSummary_named: "named v j \<Longrightarrow> gives (named v) (addSummary api exec n j)"
  unfolding addSummary_def by (rule named_rules | assumption | simp)+

lemma setGenericObjectData_named: "named v j \<Longrightarrow> gives (named v) (setGenericObjectData api rec robj j)"
  unfolding setGenericObjectData_def by (rule named_rules | assumption | simp)+

lemma setListData_named: "named v j \<Longrightarrow> gives (named v) (setListData api rec robj j b)"
  unfolding setListData_def by (rule named_rules | assumption | simp)+

lemma setEnvironmentData_named: "named v j \<Longrightarrow> gives (named v) (setEnvironmentData api rec robj j)"
  unfolding setEnvironmentData_def by (rule named_rules | assumption | simp)+

lemma setObjectData_named: "named v j \<Longrightarrow> gives (named v) (setObjectData api rec robj j)"
  unfolding setObjectData_def
  by (rule setFactorData_named setDataFrameData_named setGenericObjectData_named named_rules | assumption | simp)+

lemma valueToJson_named:
  "j = JNull \<or> (\<exists>w. named w j) \<Longrightarrow> gives (named v) (valueToJson api exec depth v robj j b)"
proof (cases depth)
  case (Suc d)
  assume j: "j = JNull \<or> (\<exists>w. named w j)"
  have obj: "gives (named v) (bind (setObjectData api rec robj j') (addSummary api exec v))"
    and lst: "gives (named v) (bind (setListData api rec robj j' b) (addSummary api exec v))"
    if "named v j'" for rec j'
    by (rule gives_bind, rule setObjectData_named, rule that, rule addSummary_named, assumption)
      (rule gives_bind, rule setListData_named, rule that, rule addSummary_named, assumption)
  show ?thesis
    unfolding Suc valueToJson.simps value_step_def
    by (rule gives_bind, rule put_name, rule j)
      (rule obj lst gives_step gives_if setEnvironmentData_named setFunctionData_named setPrimitiveData_named | assumption)+
qed (simp add: gives_throw)

text \<open>
  C31. Whatever the R object is, the JSON of a variable is an object, in key order, whose \<open>name\<close> is the
  name of the variable: no branch of the serializer replaces it or fails to produce an object.
\<close>

theorem variable_json_is_named:
  assumes "toJson_variable api exec depth varName s = (Inr j, s')"
  shows "\<exists>m. j = JObject m \<and> omap_inv m \<and> omap_find m ''name'' = Some (JString varName)"
proof -
  have "gives (named varName) (toJson_variable api exec depth varName)"
    unfolding toJson_variable_def by (rule gives_step, rule valueToJson_named) simp
  from givesD [OF this assms] show ?thesis by (simp add: named_def)
qed

section \<open>The JSON of a difference\<close>

definition assigned_keys :: "string set \<Rightarrow> json \<Rightarrow> bool" where
  "assigned_keys K j \<longleftrightarrow>
     (K = {} \<and> j = JNull) \<or> (\<exists>m. j = JObject m \<and> omap_inv m \<and> dom (omap_find m) = K)"

lemma put_assigned: "assigned_keys K j \<Longrightarrow> gives (assigned_keys (insert k K)) (put k x j)"
  by (auto simp: gives_def put_def lift_def json_set_def assigned_keys_def om.find_put split: if_splits)

lemma add_variables_keys:
  "assigned_keys K j \<Longrightarrow> gives (assigned_keys (fst ` set vs \<union> K)) (add_variables api exec depth vs j)"
proof (induction vs arbitrary: K j)
  case (Cons v vs)
  show ?case
    unfolding add_variables.simps
  proof (rule gives_step, rule gives_bind [OF put_assigned [OF Cons.prems]])
    fix j' assume "assigned_keys (insert (fst v) K) j'"
    from Cons.IH [OF this] show "gives (assigned_keys (fst ` set (v # vs) \<union> K)) (add_variables api exec depth vs j')"
      by simp
  qed
qed (simp add: gives_ret)

lemma get_variables_run:
  "get_variables api names s = (Inr vs, t) \<Longrightarrow>
    t = s \<and> map fst vs = names \<and> (\<forall>(n, v)\<in>set vs. r_get api (r_global_env api) n (world s) = Inr v)"
  by (induction names arbitrary: vs)
    (auto simp: ret_apply bind_apply rdx_def os_read_def lift_apply split: prod.splits sum.splits)

text \<open>
  C16. The message of a difference: \<open>removed\<close> is exactly the captured names that no longer exist, and
  the keys of \<open>assigned\<close> are exactly the names of the variables that are new or rebound.
\<close>

theorem jsonDelta_message:
  assumes "distinct (map fst lastVars)" and "distinct (r_ls api (r_global_env api) (world s))"
    and "jsonDelta api exec depth lastVars s = (Inr (j, lastVars'), s')"
  shows "set lastVars' = set lastVars \<and>
    (\<exists>new removed assigned. map fst new = r_ls api (r_global_env api) (world s) \<and>
       (\<forall>(n, v)\<in>set new. r_get api (r_global_env api) n (world s) = Inr v) \<and>
       json_find ''removed'' j = Some (json_strings removed) \<and>
       set removed = fst ` set lastVars - fst ` set new \<and> sorted_wrt (<) removed \<and>
       json_find ''assigned'' j = Some assigned \<and> assigned_keys (fst ` (set new - set lastVars)) assigned)"
proof -
  let ?names = "r_ls api (r_global_env api) (world s)"
  obtain new t where new: "get_variables api ?names s = (Inr new, t)"
    using assms(3) by (auto simp: jsonDelta_def rd_def os_read_def bind_apply split: prod.splits sum.splits)
  let ?old = "sort_variables lastVars"
  let ?new = "sort_variables new"
  let ?removed = "map fst (delta_removed ?old ?new)"
  have names: "map fst new = ?names"
    and bound: "\<forall>(n, v)\<in>set new. r_get api (r_global_env api) n (world s) = Inr v"
    using get_variables_run [OF new] by simp_all
  from assms(3) new obtain assigned where
    asg: "add_variables api exec depth (delta_added ?old ?new) JNull t = (Inr assigned, s')"
    and j: "json_set ''assigned'' assigned (JObject [(''removed'', json_strings ?removed)]) = Inr j"
    and last: "lastVars' = ?old"
    by (auto simp: jsonDelta_def rd_def os_read_def bind_apply Let_def put_def json_set_null lift_def ret_apply
        split: prod.splits sum.splits)
  have "distinct (map fst new)" using names assms(2) by simp
  note exact = delta_sets [OF assms(1) this]
  have "assigned_keys (fst ` set (delta_added ?old ?new) \<union> {}) assigned"
    by (rule givesD [OF add_variables_keys asg]) (simp add: assigned_keys_def)
  then have "assigned_keys (fst ` (set new - set lastVars)) assigned" using exact by simp
  moreover have "json_find ''removed'' j = Some (json_strings ?removed) \<and> json_find ''assigned'' j = Some assigned"
    using json_set_find [OF j] by (simp add: object_inv_def json_find_def)
  ultimately show ?thesis
    using exact names bound last
    by (intro conjI exI [of _ new] exI [of _ ?removed] exI [of _ assigned]) (simp_all add: sort_variables_set)
qed

section \<open>Data frames\<close>

text \<open>Pushing \<open>n\<close> elements onto \<open>j0\<close>, which is null or an array.\<close>

definition grown :: "json \<Rightarrow> nat \<Rightarrow> json \<Rightarrow> bool" where
  "grown j0 n j \<longleftrightarrow>
     (j0 = JNull \<longrightarrow> (if n = 0 then j = JNull else \<exists>xs. j = JArray xs \<and> length xs = n)) \<and>
     (\<forall>ys. j0 = JArray ys \<longrightarrow> (\<exists>xs. j = JArray xs \<and> length xs = length ys + n))"

lemma grown_refl: "grown j 0 j"
  by (simp add: grown_def)

lemma push_grown:
  assumes "\<And>j'. gives (grown j' n) (f j')"
  shows "gives (grown j (Suc n)) (bind (push x j) f)"
proof (cases "json_push_back x j")
  case (Inl e)
  then show ?thesis by (simp add: push_def gives_throw)
next
  case (Inr j')
  then have "grown j' n k \<Longrightarrow> grown j (Suc n) k" for k
    by (cases j) (auto simp: grown_def json_push_back_def)
  with assms [of j'] Inr show ?thesis by (simp add: push_def gives_def)
qed

lemma frame_row_grown: "gives (grown j (length cols)) (frame_row api colObjs row cols j)"
  by (induction cols arbitrary: j) (auto intro!: gives_ret gives_step push_grown simp: grown_refl)

lemma frame_rows_grown: "gives (grown j (length rows)) (frame_rows api colObjs ncol rows j)"
  by (induction rows arbitrary: j) (auto intro!: gives_ret gives_step push_grown simp: grown_refl)

text \<open>
  At most \<open>kMaxLen\<close> rows of a data frame are sent: exactly the first \<open>min 100 nrow\<close>, each with one
  entry per column name.
\<close>

theorem data_frame_rows_bounded:
  "gives (\<lambda>j. if rowCount = 0 then j = JNull
      else \<exists>rows. j = JArray rows \<and> length rows = min 100 rowCount)
     (frame_rows api colObjs ncol [0..<min kMaxLen rowCount] JNull) \<and>
   gives (\<lambda>j. if ncol = 0 then j = JNull else \<exists>cells. j = JArray cells \<and> length cells = ncol)
     (frame_row api colObjs row [0..<ncol] JNull)"
  by (intro conjI gives_weaken [OF frame_rows_grown] gives_weaken [OF frame_row_grown])
    (auto simp: grown_def kMaxLen_def split: if_splits)

text \<open>
  A string column of a data frame is sent wrongly: whatever the row, its cell is the column's first
  string (the code indexes with 0 instead of the row).
\<close>

theorem string_column_repeats_first:
  assumes "r_type api val (world s) = STRSXP" and "r_strings api val (world s) = Inr (x # xs)"
  shows "frame_cell api val row s = (Inr (JString x), s)"
  using assms
  by (simp add: frame_cell_def rd_def rdx_def act_simps nth_or_ub_def sexp_types)

section \<open>Environments that contain themselves\<close>

lemma put_object: "put k v (JObject m) s = (Inr (JObject (omap_put k v m)), s)"
  by (simp add: put_def lift_def json_set_ok ret_apply)

lemma put_null: "put k v JNull s = (Inr (JObject [(k, v)]), s)"
  by (simp add: put_def lift_def json_set_null ret_apply)

text \<open>
  An environment (not an object) that has itself as the value of \<open>x\<close>, one of the first \<open>kMaxLen\<close> of its
  variables, which are those that are sent.
\<close>

definition contains_itself :: "'w rapi \<Rightarrow> sexp \<Rightarrow> string \<Rightarrow> 'w \<Rightarrow> bool" where
  "contains_itself api e x w \<longleftrightarrow> \<not> r_is_object api e w \<and> r_type api e w = ENVSXP \<and> r_environment api e w = Inr e \<and>
     x \<in> set (take kMaxLen (r_ls api e w)) \<and> r_get api e x w = Inr e"

definition throws :: "('s, 'a) act \<Rightarrow> 's \<Rightarrow> bool" where
  "throws m s \<longleftrightarrow> (\<exists>ex s'. m s = (Inl ex, s'))"

lemma throws_bind: "(\<And>a t. m s = (Inr a, t) \<Longrightarrow> throws (f a) t) \<Longrightarrow> throws (bind m f) s"
  by (auto simp: throws_def bind_apply split: prod.splits sum.splits)

lemma throws_first: "throws m s \<Longrightarrow> throws (bind m f) s"
  by (auto simp: throws_def bind_apply)

text \<open>The loop over the variables throws, at the latest at the one that is the environment itself.\<close>

lemma environment_children_throws:
  fixes rec :: "('w, 'z) hw_scheme to_json" and x :: string
  assumes get: "\<And>w. r_get api e x w = Inr e" and rec: "\<And>m s. throws (rec x e (JObject m) True) s"
  shows "x \<in> set names \<Longrightarrow> throws (environment_children api rec e names children) s"
proof (induction names arbitrary: children s)
  case (Cons n names children s)
  let ?rest = "\<lambda>v. bind (rec n v (JObject [(''name'', JString n)]) True) (\<lambda>cobj.
      bind (push cobj children) (environment_children api rec e names))"
  have rest: "throws (?rest v) t" if v: "n = x \<Longrightarrow> v = e" for v t
  proof (cases "n = x")
    case True
    with v rec [of "[(''name'', JString n)]" t] show ?thesis by (auto simp: throws_def bind_apply)
  next
    case False
    with Cons show ?thesis by (intro throws_bind) simp
  qed
  have run: "environment_children api rec e (n # names) children s = (case r_get api e n (world s) of
      Inl ex \<Rightarrow> (Inl ex, s) | Inr v \<Rightarrow> ?rest v s)"
    by (simp add: bind_apply put_null rdx_def os_read_def lift_apply split: sum.splits)
  show ?case
  proof (cases "r_get api e n (world s)")
    case (Inl ex)
    with run show ?thesis by (simp add: throws_def)
  next
    case (Inr v)
    with get [of "world s"] have "throws (?rest v) s" by (intro rest) simp
    with run Inr show ?thesis by (simp add: throws_def)
  qed
qed simp

text \<open>
  C32. An environment that holds itself, which R allows. If in every state of R the environment, which is
  not an object, has itself among the first \<open>kMaxLen\<close> of its variables, the ones that are sent, then the
  serializer never returns a value for it, however deep the stack; and if it is its own first variable,
  what happens is the overflow of the stack, before anything else was done. (Otherwise a variable before
  may throw first.)
\<close>

theorem self_containing_environment_overflows:
  assumes "\<And>w. contains_itself api e x w"
  shows "\<exists>ex s'. valueToJson api exec depth varName e JNull b s = (Inl ex, s') \<and>
    (hd (r_ls api e (world s)) = x \<longrightarrow> ex = Abort ''stack overflow'' \<and> s' = s)"
proof -
  have env: "\<not> r_is_object api e w" "r_type api e w = ENVSXP" "r_environment api e w = Inr e"
    "x \<in> set (take kMaxLen (r_ls api e w))" "r_get api e x w = Inr e" for w
    using assms [of w] by (simp_all add: contains_itself_def)
  have step: "value_step api exec rec v e j c t = (case put ''name'' (JString v) j t of
      (Inl ex, t') \<Rightarrow> (Inl ex, t')
    | (Inr j', t') \<Rightarrow> bind (environment_children api rec e (take kMaxLen (r_ls api e (world t'))) JNull) (\<lambda>ca. put ''value'' ca j') t')"
    for rec v j c and t :: "('a, 'b) hw_scheme"
    using env(1-3)
    by (cases "put ''name'' (JString v) j t"; cases "fst (put ''name'' (JString v) j t)")
      (simp_all add: value_step_def setEnvironmentData_def rd_def rdx_def bind_apply os_read_def lift_apply ret_apply sexp_types)
  have "throws (valueToJson api exec depth v e j c) t" for v j c t
  proof (induction depth arbitrary: v j c t)
    case (Suc depth v j c t)
    have "throws (environment_children api (valueToJson api exec depth) e (take kMaxLen (r_ls api e (world t'))) JNull) t'" for t'
      by (rule environment_children_throws [where x = x]) (use env(4,5) Suc.IH in simp_all)
    then have "throws (bind (environment_children api (valueToJson api exec depth) e (take kMaxLen (r_ls api e (world t'))) JNull) f) t'"
      for t' f by (rule throws_first)
    then show ?case by (auto simp: step throws_def split: prod.splits sum.splits)
  qed (simp add: throws_def throw_apply)
  note never = this
  have "valueToJson api exec depth v e j c s = (Inl (Abort ''stack overflow''), s)"
    if first: "hd (r_ls api e (world s)) = x" and "j = JNull \<or> (\<exists>m. j = JObject m)" for v j c
    using that(2)
  proof (induction depth arbitrary: v j c)
    case (Suc depth)
    obtain m where name: "put ''name'' (JString v) j s = (Inr (JObject m), s)"
      using Suc.prems by (auto simp: put_null put_object)
    have "valueToJson api exec depth x e (JObject [(''name'', JString x)]) True s = (Inl (Abort ''stack overflow''), s)"
      by (rule Suc.IH) simp
    moreover obtain xs where "take kMaxLen (r_ls api e (world s)) = x # xs"
      using env(4) [of "world s"] first by (cases "r_ls api e (world s)") (auto simp: kMaxLen_def)
    ultimately show ?case
      using env(5) by (simp add: step name bind_apply rdx_def os_read_def lift_apply ret_apply put_null)
  qed (simp add: throw_apply)
  with never [of varName JNull b s] show ?thesis unfolding throws_def by blast
qed

section \<open>A small R heap\<close>

text \<open>
  For the examples: address 1 is the global environment with a character vector \<open>s\<close> (address 3)
  and an environment \<open>e\<close> (address 2) that holds itself; everything else is \<open>NULL\<close>.
\<close>

definition toy_api :: "toy rapi" where
  "toy_api = \<lparr>r_global_env = 1,
     r_type = (\<lambda>x w. if x = 1 \<or> x = 2 then ENVSXP else if x = 3 then STRSXP else NILSXP),
     r_is_object = (\<lambda>x w. False), r_is_S4 = (\<lambda>x w. False), r_is_factor = (\<lambda>x w. False),
     r_is_array = (\<lambda>x w. False), r_is_matrix = (\<lambda>x w. False),
     r_length = (\<lambda>x w. if x = 3 then 2 else 0), r_attr = (\<lambda>x a w. 0), r_has_attr = (\<lambda>x a w. False),
     r_attr_names = (\<lambda>x w. []), r_element = (\<lambda>x i w. None),
     r_strings = (\<lambda>x w. Inr (if x = 3 then [''a'', ''b''] else [])),
     r_ints = (\<lambda>x w. Inr []), r_logicals = (\<lambda>x w. Inr []), r_doubles = (\<lambda>x w. Inr []),
     r_coerce_strings = (\<lambda>x w. x), r_date = (\<lambda>x w. Inr (1970, 1, 1)), r_timestamp = (\<lambda>x w. Inr 0),
     r_environment = (\<lambda>x w. Inr x),
     r_ls = (\<lambda>x w. if x = 1 then [''s'', ''e''] else if x = 2 then [''self''] else []),
     r_get = (\<lambda>x n w. Inr (if x = 1 \<and> n = ''s'' then 3 else if (x = 1 \<and> n = ''e'') \<or> x = 2 then 2 else 0)),
     r_define_function = (\<lambda>x w. (Inr 0, w))\<rparr>"

definition toy_hw :: "toy hw" where
  "toy_hw = \<lparr>world = toy_world\<rparr>"

definition no_callback :: "'s callback" where
  "no_callback cmd = ret (True, 0)"

theorem string_column_repeats_first_witness:
  "frame_cell toy_api 3 1 toy_hw = (Inr (JString ''a''), toy_hw)"
  by (rule string_column_repeats_first) (simp_all add: toy_api_def toy_hw_def)

theorem self_containing_environment_overflows_witness:
  "valueToJson toy_api no_callback 50 ''e'' 2 JNull True toy_hw = (Inl (Abort ''stack overflow''), toy_hw)"
proof -
  have "contains_itself toy_api 2 ''self'' w" for w by (simp add: contains_itself_def toy_api_def kMaxLen_def)
  from self_containing_environment_overflows [OF this, of no_callback 50 "''e''" True toy_hw] show ?thesis
    by (auto simp: toy_api_def)
qed

theorem variable_json_is_named_witness:
  "\<exists>m. fst (toJson_variable toy_api no_callback 5 ''s'' toy_hw) = Inr (JObject m) \<and>
    omap_find m ''name'' = Some (JString ''s'')"
proof -
  let ?j = "JObject [(''class'', JString ''string''), (''length'', JInt 2), (''name'', JString ''s''),
    (''primitive'', JBool True), (''type'', JString ''s''), (''value'', JArray [JString ''a'', JString ''b''])]"
  have "toJson_variable toy_api no_callback 5 ''s'' toy_hw = (Inr ?j, toy_hw)" by code_simp
  from variable_json_is_named [OF this] this show ?thesis by auto
qed

theorem jsonDelta_message_witness:
  "\<exists>j s'. jsonDelta toy_api no_callback 5 [(''gone'', 9), (''e'', 2)] toy_hw = (Inr (j, [(''e'', 2), (''gone'', 9)]), s') \<and>
    json_find ''removed'' j = Some (json_strings [''gone''])"
proof -
  let ?run = "jsonDelta toy_api no_callback 5 [(''gone'', 9), (''e'', 2)] toy_hw"
  have last: "map_sum id snd (fst ?run) = Inr [(''e'', 2), (''gone'', 9)]" by code_simp
  have removed: "map_sum id (\<lambda>x. json_find ''removed'' (fst x)) (fst ?run) = Inr (Some (json_strings [''gone'']))"
    by code_simp
  from last obtain j s' where run: "?run = (Inr (j, [(''e'', 2), (''gone'', 9)]), s')"
    by (cases ?run; cases "fst ?run") auto
  have "distinct (map fst [(''gone'', 9 :: sexp), (''e'', 2)])" by simp
  moreover have "distinct (r_ls toy_api (r_global_env toy_api) (world toy_hw))" by (simp add: toy_api_def)
  ultimately obtain removed where "json_find ''removed'' j = Some (json_strings removed)"
    using jsonDelta_message [OF _ _ run] by blast
  with run removed show ?thesis by auto
qed

end
