(* ===== verification/Json_Command.thy ===== *)
theory Json_Command
  imports Json_Value
begin

text \<open>
  \<open>src/JsonCommand.hpp\<close>: a request of the client. The constructor's chain of tests assigns the
  type only for the messages it knows; for any other \<open>_type\<close> stays uninitialised, which is
  \<open>None\<close> here, and reading it is undefined behaviour.
\<close>

section \<open>Types\<close>

datatype command_type =
    Unknown | Open | Close | ClearFileChanges | ExecScript | ExecFile | Help | ListVariables | GetVariable
  | ToggleWatch | SaveData

record json_command =
  jc_cmd :: json
  jc_type :: "command_type option"

section \<open>Construction\<close>

text \<open>The tests run one after the other, each overwriting the type.\<close>

definition command_type_of :: "string \<Rightarrow> command_type option" where
  "command_type_of cmdStr =
     foldl (\<lambda>ty (name, t). if cmdStr = name then Some t else ty) None
       [(''open'', Open), (''close'', Close), (''saveEnv'', SaveData), (''clearFileChanges'', ClearFileChanges),
        (''execScript'', ExecScript), (''execFile'', ExecFile), (''help'', Help),
        (''listVariables'', ListVariables), (''getVariable'', GetVariable), (''toggleVariableWatch'', ToggleWatch)]"

text \<open>\<open>cmd["msg"]\<close> is looked up in the argument, a copy of what \<open>_cmd\<close> holds.\<close>

definition new_JsonCommand :: "json \<Rightarrow> exn + json_command" where
  "new_JsonCommand cmd =
     (case json_index ''msg'' cmd of
        Inl e \<Rightarrow> Inl e
      | Inr (v, _) \<Rightarrow>
          (case get_string_value v of
             Inl e \<Rightarrow> Inl e
           | Inr cmdStr \<Rightarrow> Inr \<lparr>jc_cmd = cmd, jc_type = command_type_of cmdStr\<rparr>))"

definition jc_get_type :: "json_command \<Rightarrow> exn + command_type" where
  "jc_get_type c = (case jc_type c of None \<Rightarrow> Inl (UB ''uninitialised _type'') | Some t \<Rightarrow> Inr t)"

section \<open>Access\<close>

definition jc_raw :: "json_command \<Rightarrow> json" where
  "jc_raw c = jc_cmd c"

definition argument :: "json_command \<Rightarrow> exn + string" where
  "argument c = json_value get_string_value ''argument'' [] (jc_cmd c)"

definition startTimeStr :: "json_command \<Rightarrow> exn + string" where
  "startTimeStr c = json_value get_string_value ''startTime'' [] (jc_cmd c)"

definition watchVariables :: "json_command \<Rightarrow> exn + bool" where
  "watchVariables c = json_value get_boolean_value ''watchVariables'' False (jc_cmd c)"

text \<open>A command without client data has the empty object as client data.\<close>

definition clientData :: "json_command \<Rightarrow> exn + json" where
  "clientData c =
     (case json_find ''clientData'' (jc_cmd c) of
        None \<Rightarrow> Inr (JObject [])
      | Some _ \<Rightarrow> json_at_key ''clientData'' (jc_cmd c))"

text \<open>\<open>_cmd[key]\<close> enters a null for a key that is missing.\<close>

definition valueForKey :: "string \<Rightarrow> json_command \<Rightarrow> (exn + string) \<times> json_command" where
  "valueForKey key c =
     (case json_index key (jc_cmd c) of
        Inl e \<Rightarrow> (Inl e, c)
      | Inr (v, cmd) \<Rightarrow> (if v = JNull then Inr [] else get_string_value v, c\<lparr>jc_cmd := cmd\<rparr>))"

section \<open>Lemmas\<close>

lemma command_type_of_simps [simp]:
  "command_type_of ''open'' = Some Open" "command_type_of ''close'' = Some Close"
  "command_type_of ''saveEnv'' = Some SaveData" "command_type_of ''clearFileChanges'' = Some ClearFileChanges"
  "command_type_of ''execScript'' = Some ExecScript" "command_type_of ''execFile'' = Some ExecFile"
  "command_type_of ''help'' = Some Help" "command_type_of ''listVariables'' = Some ListVariables"
  "command_type_of ''getVariable'' = Some GetVariable" "command_type_of ''toggleVariableWatch'' = Some ToggleWatch"
  by (simp_all add: command_type_of_def)

text \<open>The names the constructor knows.\<close>

definition command_names :: "string set" where
  "command_names = {''open'', ''close'', ''saveEnv'', ''clearFileChanges'', ''execScript'', ''execFile'', ''help'',
     ''listVariables'', ''getVariable'', ''toggleVariableWatch''}"

lemma command_type_of_None: "command_type_of s = None \<longleftrightarrow> s \<notin> command_names"
  by (simp add: command_type_of_def command_names_def)

lemma new_JsonCommand_object:
  "json_find ''msg'' (JObject m) = Some (JString t) \<Longrightarrow>
    new_JsonCommand (JObject m) = Inr \<lparr>jc_cmd = JObject m, jc_type = command_type_of t\<rparr>"
  by (simp add: new_JsonCommand_def json_index_def json_find_def omap_index_def get_string_value_def)

lemma new_JsonCommand_missing:
  "json_find ''msg'' (JObject m) = None \<Longrightarrow>
    new_JsonCommand (JObject m) = Inl (DomainError ''type must be string, but is null'')"
  by (simp add: new_JsonCommand_def json_index_def json_find_def omap_index_def get_string_value_def)

lemma clientData_not_null: "clientData c = Inr JNull \<Longrightarrow> json_find ''clientData'' (jc_cmd c) = Some JNull"
  by (auto simp: clientData_def json_at_key_def json_find_def split: option.splits json.splits)

end
