(* ===== verification/Json_Reader.thy ===== *)
theory Json_Reader
  imports Json_Value
begin

text \<open>
  The lexer and the parser of \<open>vendor/json.hpp\<close>, which read the requests of the client. The scanner
  is a finite automaton generated by re2c; each of its loops is a function here, on the text that
  follows the cursor. The text is read as a whole; the lexer of a stream, which refills its buffer line by
  line, is in \<open>Json_Stream\<close>. Numbers are converted by \<open>std::strtod\<close>, a parameter, and then
  to an integer where nothing is lost.
\<close>

section \<open>Tokens\<close>

datatype token =
    Uninitialized
  | LiteralTrue
  | LiteralFalse
  | LiteralNull
  | ValueString
  | ValueNumber
  | BeginArray
  | BeginObject
  | EndArray
  | EndObject
  | NameSeparator
  | ValueSeparator
  | ParseError
  | EndOfInput

definition quoted :: "string \<Rightarrow> string" where
  "quoted t = [CHR 0x27] @ t @ [CHR 0x27]"

fun token_type_name :: "token \<Rightarrow> string" where
  "token_type_name Uninitialized = ''<uninitialized>''"
| "token_type_name LiteralTrue = ''true literal''"
| "token_type_name LiteralFalse = ''false literal''"
| "token_type_name LiteralNull = ''null literal''"
| "token_type_name ValueString = ''string literal''"
| "token_type_name ValueNumber = ''number literal''"
| "token_type_name BeginArray = quoted ''[''"
| "token_type_name BeginObject = quoted ''{''"
| "token_type_name EndArray = quoted '']''"
| "token_type_name EndObject = quoted ''}''"
| "token_type_name NameSeparator = quoted '':''"
| "token_type_name ValueSeparator = quoted '',''"
| "token_type_name ParseError = ''<parse error>''"
| "token_type_name EndOfInput = ''end of input''"

section \<open>The scanner\<close>

text \<open>
  The last token: its class, its characters (from \<open>m_start\<close> to \<open>m_cursor\<close>) and what follows the cursor: a
  text, or for the lexer of a stream its state.
\<close>

record 'r lexer =
  l_token :: token
  l_text :: string
  l_rest :: 'r

text \<open>The bits 32 and 64 of the table \<open>yybm\<close>; bit 128 are the digits.\<close>

definition is_ws :: "char \<Rightarrow> bool" where
  "is_ws c \<longleftrightarrow> c \<in> {CHR 0x09, CHR 0x0A, CHR 0x0D, CHR '' ''}"

definition is_string_char :: "char \<Rightarrow> bool" where
  "is_string_char c \<longleftrightarrow> 0x10 \<le> (of_char c :: nat) \<and> c \<noteq> CHR 0x22 \<and> c \<noteq> CHR 0x5C"

definition is_hex :: "char \<Rightarrow> bool" where
  "is_hex c \<longleftrightarrow> hex_digit c \<noteq> None"

text \<open>
  Labels 31 to 40: from the characters of a string literal to what follows its closing quote;
  \<open>None\<close> is the jump to label 33, which goes back to the marker.
\<close>

function string_end :: "string \<Rightarrow> string option" where
  "string_end s =
     (case s of
        [] \<Rightarrow> None
      | c # cs \<Rightarrow>
          if is_string_char c then string_end cs
          else if c = CHR 0x22 then Some cs
          else if c = CHR 0x5C then
            (case cs of
               [] \<Rightarrow> None
             | e # r \<Rightarrow>
                 if e \<in> {CHR 0x22, CHR 0x5C, CHR ''/'', CHR ''b'', CHR ''f'', CHR ''n'', CHR ''r'', CHR ''t''} then string_end r
                 else if e = CHR ''u'' \<and> 4 \<le> length r \<and> list_all is_hex (take 4 r) then string_end (drop 4 r)
                 else None)
          else None)"
  by pat_completeness auto
termination
  by (relation "measure length") auto

declare string_end.simps [simp del]

text \<open>Labels 44 to 46: an exponent without its letter.\<close>

definition exponent_end :: "string \<Rightarrow> string option" where
  "exponent_end s =
     (let ds = (case s of [] \<Rightarrow> [] | c # cs \<Rightarrow> if c = CHR ''+'' \<or> c = CHR ''-'' then cs else s) in
      case ds of [] \<Rightarrow> None | d # r \<Rightarrow> if is_digit d then Some (dropWhile is_digit r) else None)"

text \<open>An exponent, if there is one; otherwise the marker is at \<open>s\<close>.\<close>

definition skip_exponent :: "string \<Rightarrow> string" where
  "skip_exponent s =
     (case s of
        [] \<Rightarrow> []
      | c # cs \<Rightarrow> if c = CHR ''e'' \<or> c = CHR ''E'' then (case exponent_end cs of None \<Rightarrow> s | Some r \<Rightarrow> r) else s)"

text \<open>Labels 24, 42, 43, 48 and 50: what may follow the integer part.\<close>

definition skip_fraction :: "string \<Rightarrow> string" where
  "skip_fraction s =
     (case s of
        c # d # r \<Rightarrow> if c = CHR ''.'' \<and> is_digit d then skip_exponent (dropWhile is_digit r) else skip_exponent s
      | _ \<Rightarrow> skip_exponent s)"

text \<open>A number without its sign; \<open>None\<close> if there is no digit.\<close>

definition number_end :: "string \<Rightarrow> string option" where
  "number_end s =
     (case s of
        [] \<Rightarrow> None
      | d # ds \<Rightarrow>
          if d = CHR ''0'' then Some (skip_fraction ds)
          else if is_digit d then Some (skip_fraction (dropWhile is_digit ds))
          else None)"

text \<open>The state after a token that started at \<open>s\<close> and ended before \<open>rest\<close>.\<close>

definition lexed :: "token \<Rightarrow> string \<Rightarrow> string \<Rightarrow> string lexer" where
  "lexed t s rest = \<lparr>l_token = t, l_text = take (length s - length rest) s, l_rest = rest\<rparr>"

definition scan_literal :: "token \<Rightarrow> string \<Rightarrow> string \<Rightarrow> string \<Rightarrow> string lexer" where
  "scan_literal t word s cs =
     (if take (length word) cs = word then lexed t s (drop (length word) cs) else lexed ParseError s cs)"

text \<open>\<open>scan\<close>; a text ends with the null character that \<open>c_str\<close> adds.\<close>

function scan :: "string \<Rightarrow> string lexer" where
  "scan s =
     (case s of
        [] \<Rightarrow> lexed EndOfInput [] []
      | c # cs \<Rightarrow>
          if is_ws c then scan (dropWhile is_ws cs)
          else if c = CHR 0x00 then lexed EndOfInput s cs
          else if c = CHR ''['' then lexed BeginArray s cs
          else if c = CHR '']'' then lexed EndArray s cs
          else if c = CHR ''{'' then lexed BeginObject s cs
          else if c = CHR ''}'' then lexed EndObject s cs
          else if c = CHR '','' then lexed ValueSeparator s cs
          else if c = CHR '':'' then lexed NameSeparator s cs
          else if c = CHR ''n'' then scan_literal LiteralNull ''ull'' s cs
          else if c = CHR ''t'' then scan_literal LiteralTrue ''rue'' s cs
          else if c = CHR ''f'' then scan_literal LiteralFalse ''alse'' s cs
          else if c = CHR ''-'' then
            (case number_end cs of None \<Rightarrow> lexed ParseError s cs | Some r \<Rightarrow> lexed ValueNumber s r)
          else if is_digit c then
            (case number_end s of None \<Rightarrow> lexed ParseError s cs | Some r \<Rightarrow> lexed ValueNumber s r)
          else if c = CHR 0x22 then
            (case string_end cs of None \<Rightarrow> lexed ParseError s cs | Some r \<Rightarrow> lexed ValueString s r)
          else if c = CHR 0xEF then
            (if take 2 cs = [CHR 0xBB, CHR 0xBF] then scan (drop 2 cs) else lexed ParseError s cs)
          else lexed ParseError s cs)"
  by pat_completeness auto
termination
proof (relation "measure length")
  show "wf (measure (length :: string \<Rightarrow> nat))" by simp
next
  fix s c and cs :: string
  assume "s = c # cs"
  then show "(dropWhile is_ws cs, s) \<in> measure length"
    using length_dropWhile_le [of is_ws cs] by simp
qed auto

declare scan.simps [simp del]

section \<open>The parser\<close>

text \<open>\<open>get_token\<close> of the parser, for a scanner \<open>sc\<close>.\<close>

definition next_token :: "('r \<Rightarrow> 'r lexer) \<Rightarrow> 'r lexer \<Rightarrow> 'r lexer" where
  "next_token sc l = sc (l_rest l)"

definition unexpected_text :: "'r lexer \<Rightarrow> string" where
  "unexpected_text l =
     ''parse error - unexpected '' @
     (if l_token l = ParseError then quoted (l_text l) else token_type_name (l_token l))"

definition expect :: "token \<Rightarrow> 'r lexer \<Rightarrow> exn + unit" where
  "expect t l =
     (if t \<noteq> l_token l then Inl (InvalidArgument (unexpected_text l @ ''; expected '' @ token_type_name t)) else Inr ())"

definition unexpect :: "token \<Rightarrow> 'r lexer \<Rightarrow> exn + unit" where
  "unexpect t l = (if t = l_token l then Inl (InvalidArgument (unexpected_text l)) else Inr ())"

text \<open>
  \<open>strtod\<close> gives the value and the number of characters read; it is applied to the token and what
  the buffer has after it.
\<close>

definition get_number :: "(string \<Rightarrow> 64 word \<times> nat) \<Rightarrow> string \<Rightarrow> string \<Rightarrow> 64 word" where
  "get_number strtod token_text after =
     (case strtod (token_text @ after) of
        (float_val, read) \<Rightarrow> if read = length token_text then float_val else 0x7FF8000000000000)"

text \<open>The literal without its quotes.\<close>

definition token_string :: "'r lexer \<Rightarrow> exn + string" where
  "token_string l = get_string (butlast (tl (l_text l)))"

text \<open>The value of a number that was read as \<open>w\<close>: an integer if that loses nothing.\<close>

definition number_value :: "64 word \<Rightarrow> int \<Rightarrow> json" where
  "number_value w int_val =
     (if double_eq w (int_to_double int_val) \<and> w \<noteq> 2 ^ 63 then JInt int_val else JFloat w)"

definition parse_number :: "(string \<Rightarrow> 64 word \<times> nat) \<Rightarrow> string \<Rightarrow> string \<Rightarrow> exn + json" where
  "parse_number strtod token_text after =
     (let w = get_number strtod token_text after in
      if isnan w then Inl (InvalidArgument (''parse error - '' @ token_text @ '' is not a number''))
      else
        (case double_to_int 64 w of
           None \<Rightarrow> Inl (UB ''cast of a double out of the range of int64_t'')
         | Some int_val \<Rightarrow> Inr (number_value w int_val)))"

text \<open>An exception ends the parser; \<open>None\<close> means that the fuel was used up.\<close>

type_synonym 'a parsed = "(exn + 'a) option"

definition raising :: "exn + 'a \<Rightarrow> ('a \<Rightarrow> 'b parsed) \<Rightarrow> 'b parsed" where
  "raising r f = (case r of Inl e \<Rightarrow> Some (Inl e) | Inr x \<Rightarrow> f x)"

definition parsing :: "'a parsed \<Rightarrow> ('a \<Rightarrow> 'b parsed) \<Rightarrow> 'b parsed" where
  "parsing p f = (case p of None \<Rightarrow> None | Some r \<Rightarrow> raising r f)"

definition skip_separator :: "('r \<Rightarrow> 'r lexer) \<Rightarrow> 'r lexer \<Rightarrow> 'r lexer" where
  "skip_separator sc l = (if l_token l = ValueSeparator then next_token sc l else l)"

text \<open>
  \<open>parse_internal\<close> without a callback, and one round of its two loops: the members read so far and
  the elements read so far are the argument before the last. \<open>sc\<close> is the scanner and \<open>num\<close> the value of
  a number token.
\<close>

fun parse_internal :: "('r \<Rightarrow> 'r lexer) \<Rightarrow> ('r lexer \<Rightarrow> exn + json) \<Rightarrow> nat \<Rightarrow> 'r lexer \<Rightarrow> (json \<times> 'r lexer) parsed"
  and parse_members :: "('r \<Rightarrow> 'r lexer) \<Rightarrow> ('r lexer \<Rightarrow> exn + json) \<Rightarrow> nat \<Rightarrow> (string \<times> json) list \<Rightarrow> 'r lexer \<Rightarrow>
    (json \<times> 'r lexer) parsed"
  and parse_elements :: "('r \<Rightarrow> 'r lexer) \<Rightarrow> ('r lexer \<Rightarrow> exn + json) \<Rightarrow> nat \<Rightarrow> json list \<Rightarrow> 'r lexer \<Rightarrow>
    (json \<times> 'r lexer) parsed" where
  "parse_internal sc num 0 l = None"
| "parse_internal sc num (Suc n) l =
     (let l1 = next_token sc l in
      case l_token l of
        BeginObject \<Rightarrow>
          (if l_token l1 = EndObject then Some (Inr (JObject [], next_token sc l1))
           else raising (unexpect ValueSeparator l1) (\<lambda>_. parse_members sc num n [] l1))
      | BeginArray \<Rightarrow>
          (if l_token l1 = EndArray then Some (Inr (JArray [], next_token sc l1))
           else raising (unexpect ValueSeparator l1) (\<lambda>_. parse_elements sc num n [] l1))
      | LiteralNull \<Rightarrow> Some (Inr (JNull, l1))
      | ValueString \<Rightarrow> raising (token_string l) (\<lambda>s. Some (Inr (JString s, l1)))
      | LiteralTrue \<Rightarrow> Some (Inr (JBool True, l1))
      | LiteralFalse \<Rightarrow> Some (Inr (JBool False, l1))
      | ValueNumber \<Rightarrow> raising (num l) (\<lambda>v. Some (Inr (v, l1)))
      | _ \<Rightarrow> raising (unexpect (l_token l) l) (\<lambda>_. None))"
| "parse_members sc num 0 members l = None"
| "parse_members sc num (Suc n) members l =
     (let k = skip_separator sc l; colon = next_token sc k in
      raising (expect ValueString k) (\<lambda>_.
      raising (token_string k) (\<lambda>key.
      raising (expect NameSeparator colon) (\<lambda>_.
      parsing (parse_internal sc num n (next_token sc colon)) (\<lambda>(v, l').
        if l_token l' = ValueSeparator then parse_members sc num n (omap_put key v members) l'
        else raising (expect EndObject l') (\<lambda>_. Some (Inr (JObject (omap_put key v members), next_token sc l'))))))))"
| "parse_elements sc num 0 elements l = None"
| "parse_elements sc num (Suc n) elements l =
     parsing (parse_internal sc num n (skip_separator sc l)) (\<lambda>(v, l').
       if l_token l' = ValueSeparator then parse_elements sc num n (elements @ [v]) l'
       else raising (expect EndArray l') (\<lambda>_. Some (Inr (JArray (elements @ [v]), next_token sc l'))))"

text \<open>\<open>parse\<close>, with the fuel \<open>n\<close>, from the state in which the scanner starts.\<close>

definition parse_fuel :: "('r \<Rightarrow> 'r lexer) \<Rightarrow> ('r lexer \<Rightarrow> exn + json) \<Rightarrow> nat \<Rightarrow> 'r \<Rightarrow> json parsed" where
  "parse_fuel sc num n s =
     parsing (parse_internal sc num n (sc s)) (\<lambda>(result, l).
       raising (expect EndOfInput l) (\<lambda>_. Some (Inr result)))"

text \<open>A number in a text, and parsing a text with as much fuel as its length asks for.\<close>

definition text_number :: "(string \<Rightarrow> 64 word \<times> nat) \<Rightarrow> string lexer \<Rightarrow> exn + json" where
  "text_number strtod l = parse_number strtod (l_text l) (l_rest l)"

definition json_parse :: "(string \<Rightarrow> 64 word \<times> nat) \<Rightarrow> string \<Rightarrow> exn + json" where
  "json_parse strtod s = the (parse_fuel scan (text_number strtod) (2 * length s + 1) s)"

end
