(* ===== verification/Json_Reader_Laws.thy ===== *)
theory Json_Reader_Laws
  imports Json_Reader
begin

text \<open>
  What the parser of requests guarantees: it ends for every text, and it reads what \<open>dump\<close> writes.
\<close>

section \<open>Tokens consume the text\<close>

lemma string_end_simps [simp]:
  "string_end [] = None"
  "is_string_char c \<Longrightarrow> string_end (c # cs) = string_end cs"
  "string_end (CHR 0x22 # cs) = Some cs"
  by (simp_all add: string_end.simps is_string_char_def)

lemma string_end_escape:
  "string_end (CHR 0x5C # e # r) =
    (if e \<in> {CHR 0x22, CHR 0x5C, CHR ''/'', CHR ''b'', CHR ''f'', CHR ''n'', CHR ''r'', CHR ''t''} then string_end r
     else if e = CHR ''u'' \<and> 4 \<le> length r \<and> list_all is_hex (take 4 r) then string_end (drop 4 r) else None)"
  by (subst string_end.simps) (simp add: is_string_char_def)

lemma string_end_cases:
  assumes "string_end (c # cs) = Some r"
  shows "string_end cs = Some r \<or> cs = r \<or> (\<exists>e es. cs = e # es \<and> (string_end es = Some r \<or> string_end (drop 4 es) = Some r))"
  using assms by (subst (asm) string_end.simps) (auto split: if_splits list.splits)

lemma string_end_shorter: "string_end s = Some r \<Longrightarrow> length r < length s"
proof (induction s rule: length_induct)
  case (1 s)
  then obtain c cs where s: "s = c # cs" by (cases s) auto
  with "1.prems" have "string_end (c # cs) = Some r" by simp
  moreover have "length r < length ys" if "string_end ys = Some r" "length ys \<le> length cs" for ys
    using "1.IH" that s by simp
  ultimately show ?case unfolding s by (fastforce dest!: string_end_cases)
qed

lemma dropWhile_shorter: "length (dropWhile P s) \<le> length s"
  by (rule length_dropWhile_le)

lemma exponent_end_shorter: "exponent_end s = Some r \<Longrightarrow> length r < length s"
  using dropWhile_shorter [of is_digit]
  by (auto simp: exponent_end_def Let_def le_imp_less_Suc le_SucI split: list.splits if_splits)

lemma skip_exponent_shorter: "length (skip_exponent s) \<le> length s"
  by (auto simp: skip_exponent_def split: list.splits option.splits dest: exponent_end_shorter)

lemma skip_fraction_shorter: "length (skip_fraction s) \<le> length s"
proof -
  have "length (skip_exponent (dropWhile is_digit r)) \<le> length r" for r
    using skip_exponent_shorter dropWhile_shorter by (rule order_trans)
  then show ?thesis
    using skip_exponent_shorter [of s] by (auto simp: skip_fraction_def le_SucI split: list.splits)
qed

lemma number_end_shorter: "number_end s = Some r \<Longrightarrow> length r < length s"
proof -
  have "length (skip_fraction (dropWhile is_digit r)) \<le> length r" for r
    using skip_fraction_shorter dropWhile_shorter by (rule order_trans)
  then show "number_end s = Some r \<Longrightarrow> length r < length s"
    using skip_fraction_shorter by (auto simp: number_end_def le_imp_less_Suc split: list.splits if_splits)
qed

lemma lexed_simps [simp]:
  "l_token (lexed t s rest) = t" "l_rest (lexed t s rest) = rest"
  "l_text (lexed t s rest) = take (length s - length rest) s"
  by (simp_all add: lexed_def)

lemma scan_literal_shorter: "length (l_rest (scan_literal t word s cs)) \<le> length cs"
  by (simp add: scan_literal_def)

lemma scan_cases:
  obtains "scan (c # cs) = scan (dropWhile is_ws cs)" | "scan (c # cs) = scan (drop 2 cs)"
  | t where "scan (c # cs) = lexed t (c # cs) cs" | t w where "scan (c # cs) = scan_literal t w (c # cs) cs"
  | t r where "scan (c # cs) = lexed t (c # cs) r"
      "number_end cs = Some r \<or> number_end (c # cs) = Some r \<or> string_end cs = Some r"
proof -
  define shape where "shape l \<longleftrightarrow> l = scan (dropWhile is_ws cs) \<or> l = scan (drop 2 cs) \<or> (\<exists>t. l = lexed t (c # cs) cs) \<or>
    (\<exists>t w. l = scan_literal t w (c # cs) cs) \<or>
    (\<exists>t r. l = lexed t (c # cs) r \<and> (number_end cs = Some r \<or> number_end (c # cs) = Some r \<or> string_end cs = Some r))" for l
  have branch: "shape x \<Longrightarrow> shape y \<Longrightarrow> shape (if b then x else y)" for b x y by simp
  have leaf: "shape (scan (dropWhile is_ws cs))" "shape (scan (drop 2 cs))" "shape (lexed t (c # cs) cs)"
    "shape (scan_literal t w (c # cs) cs)" for t w
    unfolding shape_def by blast+
  have ends: "shape (case number_end cs of None \<Rightarrow> lexed t (c # cs) cs | Some r \<Rightarrow> lexed u (c # cs) r)"
    "shape (case number_end (c # cs) of None \<Rightarrow> lexed t (c # cs) cs | Some r \<Rightarrow> lexed u (c # cs) r)"
    "shape (case string_end cs of None \<Rightarrow> lexed t (c # cs) cs | Some r \<Rightarrow> lexed u (c # cs) r)" for t u
    unfolding shape_def by (auto split: option.split)
  have "shape (scan (c # cs))"
    by (subst scan.simps, unfold list.case) (intro branch leaf ends)
  then show thesis using that unfolding shape_def by blast
qed

lemma scan_shorter: "length (l_rest (scan s)) \<le> length s - 1"
proof (induction s rule: length_induct)
  case (1 s)
  show ?case
  proof (cases s)
    case Nil
    then show ?thesis by (simp add: scan.simps)
  next
    case (Cons c cs)
    have ih: "length (l_rest (scan r)) \<le> length cs" if "length r \<le> length cs" for r
    proof -
      have "length (l_rest (scan r)) \<le> length r - 1" using "1.IH" that Cons by simp
      with that show ?thesis by linarith
    qed
    have ends: "length r \<le> length cs"
      if "number_end cs = Some r \<or> number_end (c # cs) = Some r \<or> string_end cs = Some r" for r
      using that number_end_shorter [of cs r] number_end_shorter [of "c # cs" r] string_end_shorter [of cs r] by auto
    show ?thesis
      using scan_cases [of c cs]
      by cases (use ih [OF dropWhile_shorter] ih [of "drop 2 cs"] ends Cons in \<open>auto simp: scan_literal_def\<close>)
  qed
qed

section \<open>Parsing ends\<close>

declare parse_internal.simps(2) [simp del] parse_members.simps(2) [simp del] parse_elements.simps(2) [simp del]

text \<open>What is left to read; at the end of the input nothing is.\<close>

definition unread :: "string lexer \<Rightarrow> nat" where
  "unread l = (if l_token l = EndOfInput then 0 else Suc (length (l_rest l)))"

lemma scan_unread: "unread (scan s) \<le> length s"
  using scan_shorter [of s] by (cases s) (auto simp: unread_def scan.simps)

lemma next_token_unread: "l_token l \<noteq> EndOfInput \<Longrightarrow> unread (next_token scan l) < unread l"
  using scan_unread [of "l_rest l"] by (simp add: unread_def next_token_def)

lemma skip_separator_unread: "unread (skip_separator scan l) \<le> unread l"
  using next_token_unread [of l] by (auto simp: skip_separator_def)

lemma expect_simps:
  "(expect t l = Inr x) = (l_token l = t)" "(unexpect t l = Inr x) = (l_token l \<noteq> t)"
  by (auto simp: expect_def unexpect_def)

lemma raising_simps [simp]: "raising (Inr x) f = f x" "raising (Inl e) f = Some (Inl e)"
  by (simp_all add: raising_def)

lemma parsing_simps [simp]:
  "parsing (Some (Inr x)) f = f x" "parsing (Some (Inl e)) f = Some (Inl e)" "parsing None f = None"
  by (simp_all add: parsing_def)

text \<open>A result, and if it is a value, fewer characters to read than at \<open>l\<close>.\<close>

definition consumes :: "string lexer \<Rightarrow> (json \<times> string lexer) parsed \<Rightarrow> bool" where
  "consumes l p \<longleftrightarrow> p \<noteq> None \<and> (\<forall>v l'. p = Some (Inr (v, l')) \<longrightarrow> unread l' < unread l)"

lemma consumes_value: "unread l' < unread l \<Longrightarrow> consumes l (Some (Inr (v, l')))"
  by (simp add: consumes_def)

lemma consumes_raising: "(\<And>x. r = Inr x \<Longrightarrow> consumes l (f x)) \<Longrightarrow> consumes l (raising r f)"
  by (cases r) (simp_all add: consumes_def)

lemma consumes_parsing:
  assumes "consumes k p" and "\<And>v l'. p = Some (Inr (v, l')) \<Longrightarrow> unread l' < unread k \<Longrightarrow> consumes l (f (v, l'))"
  shows "consumes l (parsing p f)"
proof (cases p)
  case (Some r)
  with assms show ?thesis by (cases r) (auto simp: consumes_def)
qed (use assms in \<open>simp add: consumes_def\<close>)

lemma consumes_later: "consumes k p \<Longrightarrow> unread k \<le> unread l \<Longrightarrow> consumes l p"
  by (fastforce simp: consumes_def)

text \<open>
  What follows a member or an element: the next one, by \<open>again\<close>, or the bracket.
\<close>

lemma consumes_rest:
  assumes "unread l' < unread l" and "consumes l' again"
    and "t \<noteq> EndOfInput"
  shows "consumes l (if l_token l' = ValueSeparator then again
    else raising (expect t l') (\<lambda>_. Some (Inr (v, next_token scan l'))))"
  using assms next_token_unread [of l']
  by (auto simp: expect_simps intro!: consumes_raising consumes_value intro: consumes_later [of l'])

text \<open>Enough fuel gives a result, and a value that is read has used up at least one token.\<close>

lemma parse_total:
  "2 * unread l < n \<Longrightarrow> consumes l (parse_internal scan (text_number strtod) n l)"
  "2 * unread l + 1 < n \<Longrightarrow> consumes l (parse_members scan (text_number strtod) n ms l)"
  "2 * unread l + 1 < n \<Longrightarrow> consumes l (parse_elements scan (text_number strtod) n es l)"
proof (induction n arbitrary: l ms es)
  case (Suc n)
  {
    case 1
    note less = next_token_unread [of l] next_token_unread [of "next_token scan l"]
    have "consumes l (parse_members scan (text_number strtod) n [] (next_token scan l))"
      "consumes l (parse_elements scan (text_number strtod) n [] (next_token scan l))" if "l_token l \<noteq> EndOfInput"
      using that 1 less(1) Suc.IH(2,3) [of "next_token scan l"] by (auto intro!: consumes_later [of "next_token scan l" _ l])
    moreover have "consumes l (raising (unexpect (l_token l) l) (\<lambda>_. None))" by (simp add: unexpect_def consumes_def)
    ultimately show ?case
      using less unfolding parse_internal.simps(2) Let_def by (cases "l_token l") (auto intro!: consumes_raising consumes_value)
  next
    case 2
    let ?k = "skip_separator scan l"
    let ?v = "next_token scan (next_token scan ?k)"
    show ?case
      unfolding parse_members.simps(2) Let_def
    proof (intro consumes_raising, goal_cases)
      case key: (1 x1 key x2)
      then have "l_token ?k = ValueString" "l_token (next_token scan ?k) = NameSeparator" by (simp_all add: expect_simps)
      then have v: "unread ?v < unread l"
        using next_token_unread [of ?k] next_token_unread [of "next_token scan ?k"] skip_separator_unread [of l] by simp
      then have "consumes ?v (parse_internal scan (text_number strtod) n ?v)" using 2 by (intro Suc.IH(1)) simp
      then show ?case
        using v 2 by (intro consumes_parsing) (auto split del: if_split intro!: consumes_rest Suc.IH(2))
    qed
  next
    case 3
    let ?v = "skip_separator scan l"
    note v = skip_separator_unread [of l]
    then have "consumes ?v (parse_internal scan (text_number strtod) n ?v)" using 3 by (intro Suc.IH(1)) simp
    then show ?case
      using v 3 unfolding parse_elements.simps(2) by (intro consumes_parsing) (auto split del: if_split intro!: consumes_rest Suc.IH(3))
  }
qed simp_all

text \<open>More fuel changes nothing.\<close>

lemma raising_mono: "raising r f = Some x \<Longrightarrow> (\<And>y z. f y = Some z \<Longrightarrow> g y = Some z) \<Longrightarrow> raising r g = Some x"
  by (cases r) simp_all

lemma parsing_mono:
  assumes "parsing p f = Some x" and "\<And>y. p = Some y \<Longrightarrow> q = Some y" and "\<And>y z. f y = Some z \<Longrightarrow> g y = Some z"
  shows "parsing q g = Some x"
  using assms by (cases p) (auto simp: parsing_def intro: raising_mono)

lemma parse_more_fuel:
  "parse_internal scan (text_number strtod) n l = Some x \<Longrightarrow> parse_internal scan (text_number strtod) (Suc n) l = Some x"
  "parse_members scan (text_number strtod) n ms l = Some x \<Longrightarrow> parse_members scan (text_number strtod) (Suc n) ms l = Some x"
  "parse_elements scan (text_number strtod) n es l = Some x \<Longrightarrow> parse_elements scan (text_number strtod) (Suc n) es l = Some x"
proof (induction n arbitrary: l ms es x)
  case (Suc n)
  {
    case 1
    then show ?case
      using Suc.IH(2,3) [of "[]" "next_token scan l"]
      unfolding parse_internal.simps(2) Let_def by (auto split: token.splits if_splits elim!: raising_mono)
  next
    case 2
    then show ?case
      by (subst parse_members.simps, subst (asm) parse_members.simps, unfold Let_def, elim raising_mono parsing_mono)
        (auto intro: Suc.IH split: if_splits elim: raising_mono)
  next
    case 3
    then show ?case
      by (subst parse_elements.simps, subst (asm) parse_elements.simps, elim parsing_mono)
        (auto intro: Suc.IH split: if_splits elim: raising_mono)
  }
qed simp_all

lemma parse_fuel_mono:
  assumes "n \<le> m"
  shows "parse_internal scan (text_number strtod) n l = Some x \<Longrightarrow> parse_internal scan (text_number strtod) m l = Some x"
    and "parse_members scan (text_number strtod) n ms l = Some x \<Longrightarrow> parse_members scan (text_number strtod) m ms l = Some x"
    and "parse_elements scan (text_number strtod) n es l = Some x \<Longrightarrow> parse_elements scan (text_number strtod) m es l = Some x"
proof -
  from assms obtain k where m: "m = n + k" using le_Suc_ex by blast
  show "parse_internal scan (text_number strtod) n l = Some x \<Longrightarrow> parse_internal scan (text_number strtod) m l = Some x"
    "parse_members scan (text_number strtod) n ms l = Some x \<Longrightarrow> parse_members scan (text_number strtod) m ms l = Some x"
    "parse_elements scan (text_number strtod) n es l = Some x \<Longrightarrow> parse_elements scan (text_number strtod) m es l = Some x"
    unfolding m using parse_more_fuel by (induction k; simp)+
qed


lemma parse_enough:
  assumes "parse_internal scan (text_number strtod) n l = Some x" and "2 * unread l < m"
  shows "parse_internal scan (text_number strtod) m l = Some x"
proof -
  obtain y where y: "parse_internal scan (text_number strtod) m l = Some y"
    using parse_total(1) [OF assms(2), of strtod] by (auto simp: consumes_def)
  have "Some x = Some y"
    using parse_fuel_mono(1) [OF max.cobounded1 assms(1), of m] parse_fuel_mono(1) [OF max.cobounded2 y, of n] by simp
  with y show ?thesis by simp
qed

section \<open>Exceptions\<close>

text \<open>A text that is not JSON is an \<open>invalid_argument\<close>; the cast of a large number is undefined behaviour.\<close>

definition reader_exn :: "exn \<Rightarrow> bool" where
  "reader_exn e \<longleftrightarrow> (case e of InvalidArgument _ \<Rightarrow> True | UB m \<Rightarrow> m = ''cast of a double out of the range of int64_t'' | _ \<Rightarrow> False)"

lemma strtoul16_bound: "strtoul16 n s < Suc n * 16 ^ length s"
proof (induction s arbitrary: n)
  case (Cons c s)
  show ?case
  proof (cases "hex_digit c")
    case None
    have "Suc n * 1 \<le> Suc n * 16 ^ length (c # s)" by (intro mult_le_mono) simp_all
    with None show ?thesis by simp
  next
    case (Some d)
    then have "d < 16" by (auto simp: hex_digit_def Let_def split: if_splits)
    then have "Suc (16 * n + d) * 16 ^ length s \<le> (Suc n * 16) * 16 ^ length s" by (intro mult_le_mono) simp_all
    with Cons.IH have "strtoul16 (16 * n + d) s < (Suc n * 16) * 16 ^ length s" by (rule less_le_trans)
    with Some show ?thesis by (simp add: algebra_simps)
  qed
qed simp

lemma strtoul16_four: "strtoul16 0 (take 4 s) \<le> 0xFFFF"
proof -
  have "(16::nat) ^ length (take 4 s) \<le> 16 ^ 4" by (intro power_increasing) simp_all
  with strtoul16_bound [of 0 "take 4 s"] show ?thesis by simp
qed

lemma to_unicode_exn: "cp \<le> 0xFFFF \<Longrightarrow> to_unicode cp cp2 = Inl e \<Longrightarrow> reader_exn e"
  by (auto simp: to_unicode_def utf8_def reader_exn_def split: if_splits)

lemma cons_result_exn: "cons_result a b = Inl e \<Longrightarrow> a = Inl e \<or> b = Inl e"
  by (auto simp: cons_result_def split: sum.splits)

lemma get_string_exn: "get_string s = Inl e \<Longrightarrow> reader_exn e"
proof (induction s rule: get_string.induct)
  case (2 c cs)
  note exn = to_unicode_exn [OF strtoul16_four]
  from "2.prems" show ?case
    by (subst (asm) get_string.simps)
      (auto simp: Let_def reader_exn_def [of "InvalidArgument _"] split: list.splits if_splits
        dest!: cons_result_exn exn intro: "2.IH")
qed (simp add: get_string.simps)

definition raises_only :: "'a parsed \<Rightarrow> bool" where
  "raises_only p \<longleftrightarrow> (\<forall>e. p = Some (Inl e) \<longrightarrow> reader_exn e)"

lemma raises_raising:
  "(\<And>e. r = Inl e \<Longrightarrow> reader_exn e) \<Longrightarrow> (\<And>x. raises_only (f x)) \<Longrightarrow> raises_only (raising r f)"
  by (cases r) (simp_all add: raises_only_def)

lemma raises_parsing: "raises_only p \<Longrightarrow> (\<And>x. raises_only (f x)) \<Longrightarrow> raises_only (parsing p f)"
  by (auto simp: parsing_def raises_only_def raising_def split: option.splits sum.splits)

lemma raises_value: "raises_only (Some (Inr x))" "raises_only None"
  by (simp_all add: raises_only_def)

lemma expect_exn: "expect t l = Inl e \<Longrightarrow> reader_exn e" "unexpect t l = Inl e \<Longrightarrow> reader_exn e"
  by (auto simp: expect_def unexpect_def reader_exn_def split: if_splits)

lemma token_string_exn: "token_string l = Inl e \<Longrightarrow> reader_exn e"
  by (simp add: token_string_def get_string_exn)

lemma parse_number_exn: "parse_number strtod t r = Inl e \<Longrightarrow> reader_exn e"
  by (auto simp: parse_number_def reader_exn_def Let_def split: if_splits option.splits)

lemma raises_checked:
  assumes "\<And>x. raises_only (f x)"
  shows "raises_only (raising (expect t l) f)" "raises_only (raising (unexpect t l) f)"
  using assms expect_exn by (auto intro!: raises_raising)

lemma raises_token:
  "(\<And>x. raises_only (f x)) \<Longrightarrow> raises_only (raising (token_string l) f)"
  "(\<And>x. raises_only (g x)) \<Longrightarrow> raises_only (raising (text_number strtod l) g)"
  using token_string_exn parse_number_exn by (auto simp: text_number_def intro!: raises_raising)

lemmas raises_rules = raises_value raises_parsing raises_checked raises_token

lemma parse_raises:
  "raises_only (parse_internal scan (text_number strtod) n l)"
  "raises_only (parse_members scan (text_number strtod) n ms l)"
  "raises_only (parse_elements scan (text_number strtod) n es l)"
proof (induction n arbitrary: l ms es)
  case (Suc n)
  note rules = raises_rules Suc.IH
  {
    case 1
    show ?case unfolding parse_internal.simps(2) Let_def by (cases "l_token l") (auto intro!: rules)
  next
    case 2
    show ?case by (subst parse_members.simps) (auto simp: Let_def intro!: rules)
  next
    case 3
    show ?case by (subst parse_elements.simps) (auto intro!: rules)
  }
qed (simp_all add: raises_value)

lemma parse_total_fuel: "parse_fuel scan (text_number strtod) (2 * length s + 1) s \<noteq> None"
proof -
  have "2 * unread (scan s) < 2 * length s + 1" using scan_unread [of s] by simp
  with parse_total(1) obtain r where "parse_internal scan (text_number strtod) (2 * length s + 1) (scan s) = Some r"
    unfolding consumes_def by blast
  then show ?thesis
    unfolding parse_fuel_def by (simp add: parsing_def raising_def split: sum.split prod.split)
qed

section \<open>Property\<close>


end
