(* ===== verification/Json_Round_Trip.thy ===== *)
theory Json_Round_Trip
  imports Json_Reader_Laws
begin

text \<open>
  The parser reads what \<open>dump\<close> writes: tokens, numbers, whole values. Integers go through a double, so the
  value read is the one written only for integers that a double holds exactly.
\<close>

section \<open>Tokens that were written\<close>

lemma scan_dropWhile: "scan (dropWhile is_ws s) = scan s"
proof (cases s)
  case (Cons c cs)
  show ?thesis
  proof (cases "is_ws c")
    case True
    then have "scan (c # cs) = scan (dropWhile is_ws cs)" by (subst scan.simps) simp
    with True Cons show ?thesis by simp
  qed (simp add: Cons)
qed simp

lemma scan_ws: "is_ws c \<Longrightarrow> scan (c # s) = scan s"
  by (subst scan.simps) (simp add: scan_dropWhile)

lemma scan_blank: "list_all is_ws w \<Longrightarrow> scan (w @ s) = scan s"
  by (induction w) (simp_all add: scan_ws)

lemma blank [simp]: "list_all is_ws (spaces n)" "list_all is_ws (line_break pretty)"
  by (simp_all add: spaces_def line_break_def is_ws_def list_all_iff)

lemma scan_structural [simp]:
  "scan (CHR ''['' # s) = \<lparr>l_token = BeginArray, l_text = ''['', l_rest = s\<rparr>"
  "scan (CHR '']'' # s) = \<lparr>l_token = EndArray, l_text = '']'', l_rest = s\<rparr>"
  "scan (CHR ''{'' # s) = \<lparr>l_token = BeginObject, l_text = ''{'', l_rest = s\<rparr>"
  "scan (CHR ''}'' # s) = \<lparr>l_token = EndObject, l_text = ''}'', l_rest = s\<rparr>"
  "scan (CHR '','' # s) = \<lparr>l_token = ValueSeparator, l_text = '','', l_rest = s\<rparr>"
  "scan (CHR '':'' # s) = \<lparr>l_token = NameSeparator, l_text = '':'', l_rest = s\<rparr>"
  "scan (CHR ''t'' # CHR ''r'' # CHR ''u'' # CHR ''e'' # s) = \<lparr>l_token = LiteralTrue, l_text = ''true'', l_rest = s\<rparr>"
  "scan (CHR ''n'' # CHR ''u'' # CHR ''l'' # CHR ''l'' # s) = \<lparr>l_token = LiteralNull, l_text = ''null'', l_rest = s\<rparr>"
  "scan (CHR ''f'' # CHR ''a'' # CHR ''l'' # CHR ''s'' # CHR ''e'' # s) =
    \<lparr>l_token = LiteralFalse, l_text = ''false'', l_rest = s\<rparr>"
  by (subst scan.simps, simp add: is_ws_def lexed_def scan_literal_def Suc_diff_le)+

lemma string_end_escape_char: "string_end (escape_char c @ r) = string_end r"
proof (cases "short_escape c")
  case None
  note plain = short_escape_control [OF None]
  show ?thesis
  proof (cases "is_control c")
    case True
    then have "(of_char c :: nat) div 16 < 16" by (simp add: is_control_def)
    with None True show ?thesis
      by (simp add: escape_char_def string_end_escape is_hex_def hex_digit_hexify) (simp add: hex_digit_def)
  next
    case False
    then have "is_string_char c" using plain by (simp add: is_string_char_def is_control_def)
    with None False show ?thesis by (simp add: escape_char_def)
  qed
next
  case (Some e)
  then show ?thesis by (auto simp: escape_char_def string_end_escape short_escape_def split: if_splits)
qed

lemma string_end_written: "string_end (escape_string s @ CHR 0x22 # r) = Some r"
  unfolding escape_string_concat by (induction s) (simp_all add: string_end_escape_char)

lemma scan_string:
  "scan (CHR 0x22 # escape_string s @ CHR 0x22 # r) =
    \<lparr>l_token = ValueString, l_text = CHR 0x22 # escape_string s @ [CHR 0x22], l_rest = r\<rparr>"
proof -
  have "\<not> is_ws (CHR 0x22)" "\<not> is_digit (CHR 0x22)" by (simp_all add: is_ws_def is_digit_def)
  then show ?thesis
    by (subst scan.simps) (simp add: string_end_written lexed_def)
qed

lemma token_string_written:
  "token_string \<lparr>l_token = t, l_text = CHR 0x22 # escape_string s @ [CHR 0x22], l_rest = r\<rparr> = Inr s"
  by (simp add: token_string_def get_string_concat escape_string_concat)

section \<open>Numbers that were written\<close>

text \<open>The end of the text, or a character that \<open>dump\<close> writes after a value.\<close>

definition stops :: "string \<Rightarrow> bool" where
  "stops r \<longleftrightarrow> (case r of [] \<Rightarrow> True | c # _ \<Rightarrow> is_ws c \<or> c \<in> {CHR '','', CHR '']'', CHR ''}'', CHR 0x00})"

lemma stops_head: "stops (c # r) \<Longrightarrow> \<not> is_digit c \<and> c \<notin> {CHR ''.'', CHR ''e'', CHR ''E'', CHR ''+'', CHR ''-''}"
  by (auto simp: stops_def is_ws_def is_digit_def)

lemma digits_stop: "stops r \<Longrightarrow> dropWhile is_digit (s @ r) = dropWhile is_digit s @ r"
  by (induction s) (cases r; simp add: stops_head)+

lemma exponent_end_stops: "stops r \<Longrightarrow> exponent_end (s @ r) = map_option (\<lambda>x. x @ r) (exponent_end s)"
  by (cases s; cases r; cases "tl s") (auto simp: exponent_end_def Let_def digits_stop dest: stops_head)

lemma skip_exponent_stops:
  assumes "stops r"
  shows "skip_exponent (s @ r) = skip_exponent s @ r"
proof (cases s)
  case Nil
  then show ?thesis using assms stops_head by (cases r) (auto simp: skip_exponent_def)
next
  case (Cons c cs)
  then show ?thesis by (simp add: skip_exponent_def exponent_end_stops [OF assms] split: option.split)
qed

lemma skip_fraction_stops:
  assumes "stops r"
  shows "skip_fraction (s @ r) = skip_fraction s @ r"
proof -
  note skip = skip_exponent_stops [OF assms] digits_stop [OF assms]
  have r: "skip_fraction r = r"
    using assms skip_exponent_stops [OF assms, of "[]"] by (cases r rule: list.exhaust)
      (auto simp: skip_fraction_def skip_exponent_def dest: stops_head split: list.split)
  show ?thesis
  proof (cases s)
    case Nil
    then show ?thesis using r by (simp add: skip_fraction_def skip_exponent_def)
  next
    case (Cons c cs)
    note c = Cons
    show ?thesis
    proof (cases cs)
      case Nil
      then show ?thesis
        using c assms skip(1) [of "[c]"] by (cases r) (auto simp: skip_fraction_def dest: stops_head)
    next
      case (Cons d ds)
      then show ?thesis
        using c skip(1) [of s] by (simp add: skip_fraction_def skip)
    qed
  qed
qed

lemma number_end_stops:
  assumes "stops r"
  shows "number_end (s @ r) = map_option (\<lambda>x. x @ r) (number_end s)"
proof (cases s)
  case Nil
  then show ?thesis using assms by (cases r) (auto simp: number_end_def is_digit_def dest: stops_head)
next
  case (Cons c cs)
  then show ?thesis by (simp add: number_end_def skip_fraction_stops [OF assms] digits_stop [OF assms])
qed

text \<open>A number literal of the grammar.\<close>

definition is_number :: "string \<Rightarrow> bool" where
  "is_number t \<longleftrightarrow> number_end (case t of [] \<Rightarrow> [] | c # cs \<Rightarrow> if c = CHR ''-'' then cs else t) = Some []"

lemma number_token:
  assumes "is_number t" and "stops r"
  shows "scan (t @ r) = \<lparr>l_token = ValueNumber, l_text = t, l_rest = r\<rparr>"
proof (cases t)
  case Nil
  with assms show ?thesis by (simp add: is_number_def number_end_def)
next
  case (Cons c cs)
  show ?thesis
  proof (cases "c = CHR ''-''")
    case True
    then have "number_end (cs @ r) = Some r"
      using assms Cons by (simp add: is_number_def number_end_stops)
    with True Cons show ?thesis
      by (simp add: scan.simps [of "CHR ''-'' # cs @ r"] is_ws_def lexed_def)
  next
    case False
    then have ends: "number_end (c # cs @ r) = Some r"
      using assms Cons number_end_stops [OF assms(2), of t] by (simp add: is_number_def)
    then have "is_digit c" by (auto simp: number_end_def is_digit_def split: if_splits)
    moreover have "\<not> is_ws c" "c \<notin> set ''[]{},:ntf''" "c \<noteq> CHR 0x00"
      using calculation by (auto simp: is_ws_def is_digit_def)
    ultimately show ?thesis
      using ends False Cons by (simp add: scan.simps [of "c # cs @ r"] lexed_def)
  qed
qed

lemma dec_nat_number: "number_end (dec_nat n) = Some []"
proof -
  have zero: "c = CHR ''0'' \<Longrightarrow> cs = []" if "dec_nat n = c # cs" for c cs n
    using that
  proof (induction n arbitrary: c cs rule: dec_nat.induct)
    case (1 n)
    show ?case
    proof (cases "n < 10")
      case True
      with "1.prems" show ?thesis by (simp add: dec_nat.simps [of n])
    next
      case False
      obtain d ds where d: "dec_nat (n div 10) = d # ds" using dec_nat_Cons by blast
      with False "1.prems" have "c = d" by (simp add: dec_nat.simps [of n])
      with "1.prems" have "d = CHR ''0''" "ds = []" using "1.IH" [OF False _ d] by auto
      then have "digits_value 0 (dec_nat (n div 10)) = 0" using d by (simp add: is_digit_def digit_value_def)
      with False show ?thesis by (simp add: digits_value_dec_nat)
    qed
  qed
  obtain c cs where c: "dec_nat n = c # cs" "is_digit c" using dec_nat_Cons by blast
  have "dropWhile is_digit cs = []" using c dec_nat_digits [of n] by auto
  then have "skip_fraction (dropWhile is_digit cs) = []" "skip_fraction [] = []"
    by (simp_all only: skip_fraction_def skip_exponent_def list.case)
  with c zero [OF c(1)] show ?thesis by (auto simp: number_end_def)
qed

lemma dec_number: "is_number (dec n)"
proof -
  obtain c cs where c: "dec_nat (nat n) = c # cs" "is_digit c" using dec_nat_Cons by blast
  then show ?thesis
    using dec_nat_number [of "nat n"] dec_nat_number [of "nat (- n)"] digit_not_sign [OF c(2)]
    by (simp add: is_number_def dec_def)
qed

section \<open>Reading what was written\<close>

text \<open>What the parser makes of a value that was written: a number may change its type or, rounded, its value.\<close>

definition reread_number :: "64 word \<Rightarrow> json" where
  "reread_number w = number_value w (the (double_to_int 64 w))"

fun reread :: "json \<Rightarrow> json"
  and reread_members :: "(string \<times> json) list \<Rightarrow> (string \<times> json) list"
  and reread_elements :: "json list \<Rightarrow> json list" where
  "reread (JInt n) = reread_number (int_to_double n)"
| "reread (JFloat w) = reread_number w"
| "reread (JObject m) = JObject (reread_members m)"
| "reread (JArray xs) = JArray (reread_elements xs)"
| "reread j = j"
| "reread_members [] = []"
| "reread_members ((k, v) # m) = (k, reread v) # reread_members m"
| "reread_elements [] = []"
| "reread_elements (x # xs) = reread x # reread_elements xs"

text \<open>
  Values that can be read: integers in the range of \<open>int64_t\<close>, floating-point numbers that are printed as a
  number of the grammar and read back as they were, object members in key order; no number whose cast is undefined.
\<close>

definition reads_as :: "(string \<Rightarrow> 64 word \<times> nat) \<Rightarrow> string \<Rightarrow> 64 word \<Rightarrow> bool" where
  "reads_as strtod t w \<longleftrightarrow> is_number t \<and> double_to_int 64 w \<noteq> None \<and>
     (\<forall>r. stops r \<longrightarrow> strtod (t @ r) = (w, length t))"

fun writable :: "(string \<Rightarrow> 64 word \<times> nat) \<Rightarrow> (64 word \<Rightarrow> string) \<Rightarrow> json \<Rightarrow> bool"
  and writable_members :: "(string \<Rightarrow> 64 word \<times> nat) \<Rightarrow> (64 word \<Rightarrow> string) \<Rightarrow> (string \<times> json) list \<Rightarrow> bool"
  and writable_elements :: "(string \<Rightarrow> 64 word \<times> nat) \<Rightarrow> (64 word \<Rightarrow> string) \<Rightarrow> json list \<Rightarrow> bool" where
  "writable strtod sf (JInt n) = reads_as strtod (dec n) (int_to_double n)"
| "writable strtod sf (JFloat w) = reads_as strtod (sf w) w"
| "writable strtod sf (JObject m) = (omap_inv m \<and> writable_members strtod sf m)"
| "writable strtod sf (JArray xs) = writable_elements strtod sf xs"
| "writable strtod sf j = True"
| "writable_members strtod sf [] = True"
| "writable_members strtod sf ((k, v) # m) = (writable strtod sf v \<and> writable_members strtod sf m)"
| "writable_elements strtod sf [] = True"
| "writable_elements strtod sf (x # xs) = (writable strtod sf x \<and> writable_elements strtod sf xs)"

lemma number_parsed:
  assumes "reads_as strtod t w" and "stops r"
  shows "parse_internal scan (text_number strtod) (Suc n) (scan (t @ r)) = Some (Inr (reread_number w, scan r))"
proof -
  have "scan (t @ r) = \<lparr>l_token = ValueNumber, l_text = t, l_rest = r\<rparr>"
    using assms by (intro number_token) (simp_all add: reads_as_def)
  moreover have "\<not> isnan w" using assms by (auto simp: reads_as_def double_to_int_def isnan_def Let_def)
  ultimately show ?thesis
    using assms by (auto simp: parse_internal.simps Let_def reads_as_def text_number_def parse_number_def get_number_def next_token_def
        reread_number_def)
qed

text \<open>The first token of a written value starts a value.\<close>

lemma dump_token:
  assumes "writable strtod sf j" and "stops r"
  shows "l_token (scan (dump sf pretty step cur j @ r)) \<notin> {ValueSeparator, EndArray, EndObject}"
proof (cases j)
  case (JInt n)
  then show ?thesis using number_token [of "dec n" r] assms by (simp add: dec_number)
next
  case (JFloat w)
  then show ?thesis using number_token [of "sf w" r] assms by (simp add: reads_as_def)
next
  case (JString s)
  then show ?thesis using scan_string [of s r] by simp
qed auto

lemma unexpect_ok: "l_token l \<noteq> t \<Longrightarrow> unexpect t l = Inr ()"
  by (auto simp: unexpect_def)

lemma omap_put_last: "\<forall>x \<in> set m. fst x < k \<Longrightarrow> omap_put k v m = m @ [(k, v)]"
proof (induction m)
  case (Cons x m)
  then have "fst x < k" by simp
  then have "\<not> k < fst x" "k \<noteq> fst x" by auto
  with Cons show ?case by (cases x) auto
qed simp

text \<open>What follows a value inside an object or an array: the other members, blanks and the bracket.\<close>

lemma stops_blank: "list_all is_ws ws \<Longrightarrow> c \<in> {CHR '']'', CHR ''}''} \<Longrightarrow> stops (ws @ c # r)"
  by (cases ws) (auto simp: stops_def)

lemma stops_comma: "stops (CHR '','' # r)"
  by (simp add: stops_def)

lemma stops_after:
  "list_all is_ws ws \<Longrightarrow> stops (dump_members sf pretty step ind False m @ ws @ CHR ''}'' # r)"
  "list_all is_ws ws \<Longrightarrow> stops (dump_elements sf pretty step ind False xs @ ws @ CHR '']'' # r)"
  by (cases m; cases "hd m"; simp add: stops_blank stops_comma)
    (cases xs; simp add: stops_blank stops_comma)

lemma token_after:
  "list_all is_ws ws \<Longrightarrow> l_token (scan (dump_members sf pretty step ind False m @ ws @ CHR ''}'' # r)) =
    (if m = [] then EndObject else ValueSeparator)"
  "list_all is_ws ws \<Longrightarrow> l_token (scan (dump_elements sf pretty step ind False xs @ ws @ CHR '']'' # r)) =
    (if xs = [] then EndArray else ValueSeparator)"
  by (cases m; cases "hd m"; simp add: scan_blank)
    (cases xs; simp add: scan_blank)

text \<open>The separator is passed over.\<close>

lemma separator_passed:
  "list_all is_ws ws \<Longrightarrow> l_token (scan t) \<noteq> ValueSeparator \<Longrightarrow>
    skip_separator scan (scan ((if first then [] else CHR '','' # ws) @ spaces n @ t)) = scan t"
  by (cases first) (simp_all add: skip_separator_def scan_blank next_token_def)

text \<open>One step of the parser on an object, an array, a member and an element, the parts being read back.\<close>

lemma object_parsed:
  assumes "m \<noteq> []" and "rest = dump_members sf pretty step (deeper pretty step cur) True m @ (line_break pretty @ spaces cur) @ CHR ''}'' # r"
    and "parse_members scan (text_number strtod) n [] (scan rest) = Some (Inr (JObject (reread_members m), scan r))"
  shows "parse_internal scan (text_number strtod) (Suc n) (scan (dump sf pretty step cur (JObject m) @ r)) =
    Some (Inr (reread (JObject m), scan r))"
proof -
  obtain k v m' where m: "m = (k, v) # m'" using assms(1) by (cases m) auto
  have "l_token (scan rest) = ValueString"
    using scan_string [of k] by (simp add: assms(2) m scan_blank)
  with assms show ?thesis
    by (simp add: parse_internal.simps Let_def next_token_def scan_blank unexpect_ok)
qed

lemma array_parsed:
  assumes "xs \<noteq> []" and "writable_elements strtod sf xs"
    and "rest = dump_elements sf pretty step (deeper pretty step cur) True xs @ (line_break pretty @ spaces cur) @ CHR '']'' # r"
    and "parse_elements scan (text_number strtod) n [] (scan rest) = Some (Inr (JArray (reread_elements xs), scan r))"
  shows "parse_internal scan (text_number strtod) (Suc n) (scan (dump sf pretty step cur (JArray xs) @ r)) =
    Some (Inr (reread (JArray xs), scan r))"
proof -
  obtain x xs' where xs: "xs = x # xs'" using assms(1) by (cases xs) auto
  have "l_token (scan rest) \<notin> {ValueSeparator, EndArray, EndObject}"
    using assms(2) xs stops_after(2) [of "line_break pretty @ spaces cur"] dump_token [of strtod sf x]
    by (simp add: assms(3) scan_blank del: insert_iff)
  with assms show ?thesis
    by (simp add: parse_internal.simps Let_def next_token_def scan_blank unexpect_ok)
qed

lemma member_parsed:
  assumes "list_all is_ws ws" and "after = dump_members sf pretty step ind False m @ ws @ CHR ''}'' # r"
    and n1: "parse_internal scan (text_number strtod) n1 (scan (dump sf pretty step ind v @ after)) = Some (Inr (reread v, scan after))"
    and keys: "\<forall>x \<in> set acc. fst x < k"
    and n2: "m \<noteq> [] \<Longrightarrow> parse_members scan (text_number strtod) n2 (acc @ [(k, reread v)]) (scan after) =
      Some (Inr (JObject ((acc @ [(k, reread v)]) @ reread_members m), scan r))"
  shows "parse_members scan (text_number strtod) (Suc (max n1 n2)) acc
      (scan (dump_members sf pretty step ind first ((k, v) # m) @ ws @ CHR ''}'' # r)) =
    Some (Inr (JObject (acc @ reread_members ((k, v) # m)), scan r))"
proof -
  let ?key = "CHR 0x22 # escape_string k @ CHR 0x22 # CHR '':'' #
    (if pretty then '' '' else []) @ dump sf pretty step ind v @ after"
  have "dump_members sf pretty step ind first ((k, v) # m) @ ws @ CHR ''}'' # r =
      (if first then [] else CHR '','' # line_break pretty) @ spaces ind @ ?key" by (simp add: assms(2))
  then have key: "skip_separator scan (scan (dump_members sf pretty step ind first ((k, v) # m) @ ws @ CHR ''}'' # r)) = scan ?key"
    by (simp only: separator_passed blank scan_string lexer.select_convs token.distinct not_False_eq_True)
  have colon: "scan (CHR '' '' # t) = scan t" for t
    by (simp add: scan_ws is_ws_def)
  show ?thesis
    using parse_fuel_mono(1) [OF max.cobounded1 n1, of n2] parse_fuel_mono(2) [OF max.cobounded2 n2, of n1]
    unfolding parse_members.simps(2) Let_def key
    by (cases pretty) (simp_all add: scan_string token_string_written expect_def next_token_def colon token_after
        assms(1,2) omap_put_last keys scan_blank)
qed

lemma element_parsed:
  assumes "list_all is_ws ws" and "writable_elements strtod sf (x # xs)"
    and "after = dump_elements sf pretty step ind False xs @ ws @ CHR '']'' # r"
    and n1: "parse_internal scan (text_number strtod) n1 (scan (dump sf pretty step ind x @ after)) = Some (Inr (reread x, scan after))"
    and n2: "xs \<noteq> [] \<Longrightarrow> parse_elements scan (text_number strtod) n2 (es @ [reread x]) (scan after) =
      Some (Inr (JArray ((es @ [reread x]) @ reread_elements xs), scan r))"
  shows "parse_elements scan (text_number strtod) (Suc (max n1 n2)) es
      (scan (dump_elements sf pretty step ind first (x # xs) @ ws @ CHR '']'' # r)) =
    Some (Inr (JArray (es @ reread_elements (x # xs)), scan r))"
proof -
  have "l_token (scan (dump sf pretty step ind x @ after)) \<noteq> ValueSeparator"
    using dump_token [of strtod sf x] assms(1,2) by (simp add: assms(3) stops_after)
  then have elem: "skip_separator scan (scan (dump_elements sf pretty step ind first (x # xs) @ ws @ CHR '']'' # r)) =
      scan (dump sf pretty step ind x @ after)"
    using separator_passed [OF blank(2), of "dump sf pretty step ind x @ after" first pretty ind] by (cases first) (simp_all add: assms(3))
  show ?thesis
    using parse_fuel_mono(1) [OF max.cobounded1 n1, of n2] parse_fuel_mono(3) [OF max.cobounded2 n2, of n1]
    unfolding parse_elements.simps(2) elem
    by (simp add: expect_def next_token_def token_after assms(1,3) scan_blank)
qed

text \<open>What was written is read back, by induction on the writer.\<close>

lemma dump_parsed:
  "writable strtod sf j \<Longrightarrow> stops r \<Longrightarrow>
    \<exists>n. parse_internal scan (text_number strtod) n (scan (dump sf pretty step cur j @ r)) = Some (Inr (reread j, scan r))"
  "writable_members strtod sf m \<Longrightarrow> m \<noteq> [] \<Longrightarrow> omap_inv (acc @ m) \<Longrightarrow> list_all is_ws ws \<Longrightarrow>
    \<exists>n. parse_members scan (text_number strtod) n acc (scan (dump_members sf pretty step ind first m @ ws @ CHR ''}'' # r)) =
      Some (Inr (JObject (acc @ reread_members m), scan r))"
  "writable_elements strtod sf xs \<Longrightarrow> xs \<noteq> [] \<Longrightarrow> list_all is_ws ws \<Longrightarrow>
    \<exists>n. parse_elements scan (text_number strtod) n es (scan (dump_elements sf pretty step ind first xs @ ws @ CHR '']'' # r)) =
      Some (Inr (JArray (es @ reread_elements xs), scan r))"
proof (induction sf pretty step cur j and sf pretty step ind first m and sf pretty step ind first xs
    arbitrary: r and acc ws r and es ws r
    rule: dump_dump_members_dump_elements.induct)
  case (1 sf pretty step cur m)
  show ?case
  proof (cases "m = []")
    case True
    then show ?thesis by (intro exI [of _ "Suc 0"]) (simp add: parse_internal.simps Let_def next_token_def)
  next
    case False
    obtain n where "parse_members scan (text_number strtod) n []
        (scan (dump_members sf pretty step (deeper pretty step cur) True m @ (line_break pretty @ spaces cur) @ CHR ''}'' # r)) =
      Some (Inr (JObject (reread_members m), scan r))"
      using "1.IH" [OF False, of "[]" "line_break pretty @ spaces cur" r] "1.prems" False by auto
    then show ?thesis by (blast intro: object_parsed [OF False HOL.refl])
  qed
next
  case (2 sf pretty step cur xs)
  show ?case
  proof (cases "xs = []")
    case True
    then show ?thesis by (intro exI [of _ "Suc 0"]) (simp add: parse_internal.simps Let_def next_token_def)
  next
    case False
    obtain n where "parse_elements scan (text_number strtod) n []
        (scan (dump_elements sf pretty step (deeper pretty step cur) True xs @ (line_break pretty @ spaces cur) @ CHR '']'' # r)) =
      Some (Inr (JArray (reread_elements xs), scan r))"
      using "2.IH" [OF False, of "line_break pretty @ spaces cur" "[]" r] "2.prems" False by auto
    moreover have "writable_elements strtod sf xs" using "2.prems" by simp
    ultimately show ?thesis using array_parsed [OF False _ HOL.refl] by blast
  qed
next
  case (3 sf pretty step cur s)
  show ?case
    using scan_string [of s r]
    by (intro exI [of _ "Suc 0"]) (simp add: parse_internal.simps Let_def next_token_def token_string_written)
next
  case (4 sf pretty step cur b)
  show ?case by (intro exI [of _ "Suc 0"]) (simp add: parse_internal.simps Let_def next_token_def)
next
  case (5 sf pretty step cur n)
  then show ?case by (intro exI [of _ "Suc 0"]) (simp add: number_parsed)
next
  case (6 sf pretty step cur w)
  then show ?case by (intro exI [of _ "Suc 0"]) (simp add: number_parsed)
next
  case (7 sf pretty step cur)
  show ?case by (intro exI [of _ "Suc 0"]) (simp add: parse_internal.simps Let_def next_token_def)
next
  case (9 sf pretty step ind first k v m)
  let ?after = "dump_members sf pretty step ind False m @ ws @ CHR ''}'' # r"
  obtain n1 where n1: "parse_internal scan (text_number strtod) n1 (scan (dump sf pretty step ind v @ ?after)) = Some (Inr (reread v, scan ?after))"
    using "9.IH"(1) [of ?after] "9.prems" by (auto simp: stops_after)
  have keys: "\<forall>x \<in> set acc. fst x < k" "omap_inv ((acc @ [(k, reread v)]) @ m)"
    using "9.prems"(3) by (auto simp: omap_inv_def sorted_wrt_append)
  obtain n2 where n2: "m \<noteq> [] \<Longrightarrow> parse_members scan (text_number strtod) n2 (acc @ [(k, reread v)]) (scan ?after) =
      Some (Inr (JObject ((acc @ [(k, reread v)]) @ reread_members m), scan r))"
    using "9.IH"(2) [OF _ _ keys(2) "9.prems"(4), of r] "9.prems" by (cases "m = []") auto
  show ?case using member_parsed [OF "9.prems"(4) HOL.refl n1 keys(1) n2] by blast
next
  case (11 sf pretty step ind first x xs)
  let ?after = "dump_elements sf pretty step ind False xs @ ws @ CHR '']'' # r"
  obtain n1 where n1: "parse_internal scan (text_number strtod) n1 (scan (dump sf pretty step ind x @ ?after)) = Some (Inr (reread x, scan ?after))"
    using "11.IH"(1) [of ?after] "11.prems" by (auto simp: stops_after)
  obtain n2 where n2: "xs \<noteq> [] \<Longrightarrow> parse_elements scan (text_number strtod) n2 (es @ [reread x]) (scan ?after) =
      Some (Inr (JArray ((es @ [reread x]) @ reread_elements xs), scan r))"
    using "11.IH"(2) [OF _ _ "11.prems"(3), of "es @ [reread x]" r] "11.prems" by (cases "xs = []") auto
  show ?case using element_parsed [OF "11.prems"(3,1) HOL.refl n1 n2] by blast
qed simp_all


lemma dump_read:
  assumes "writable strtod sf j" and "stops r" and "l_token (scan r) = EndOfInput"
  shows "json_parse strtod (dump sf pretty step cur j @ r) = Inr (reread j)"
proof -
  let ?s = "dump sf pretty step cur j @ r"
  obtain n where "parse_internal scan (text_number strtod) n (scan ?s) = Some (Inr (reread j, scan r))"
    using dump_parsed(1) [OF assms(1,2), of pretty step cur] by auto
  moreover have "2 * unread (scan ?s) < 2 * length ?s + 1" using scan_unread [of ?s] by simp
  ultimately have "parse_internal scan (text_number strtod) (2 * length ?s + 1) (scan ?s) = Some (Inr (reread j, scan r))"
    by (rule parse_enough)
  then show ?thesis using assms(3) by (simp add: json_parse_def parse_fuel_def expect_def)
qed

lemma end_of_text: "stops []" "l_token (scan []) = EndOfInput" "stops (CHR 0x00 # s)" "l_token (scan (CHR 0x00 # s)) = EndOfInput"
  by (simp_all add: stops_def scan.simps is_ws_def)

section \<open>Integers through doubles\<close>

lemma int_to_double_exact:
  assumes "\<bar>n\<bar> < 2 ^ 53"
  shows "double_to_int 64 (int_to_double n) = Some n" "number_value (int_to_double n) n = JInt n"
proof -
  let ?w = "int_to_double n"
  have fields: "double_exponent ?w \<noteq> 2047 \<and> double_magnitude ?w = nat \<bar>n\<bar> \<and>
    (if double_negative ?w then - int (nat \<bar>n\<bar>) else int (nat \<bar>n\<bar>)) = n \<and> ?w \<noteq> 2 ^ 63"
  proof (cases "n = 0")
    case True
    then show ?thesis
      by (simp add: int_to_double_def double_of_nat_def double_exponent_def double_magnitude_def)
  next
    case False
    let ?a = "nat \<bar>n\<bar>"
    note bits = int_to_double_bits [OF False assms]
    have "double_magnitude ?w = ?a"
      using bits(4) unfolding double_magnitude_def Let_def bits(1,2) by auto
    moreover have "?w \<noteq> 2 ^ 63"
      using bits(1) by (auto simp: double_exponent_def)
    ultimately show ?thesis using bits(1,3,4) by simp
  qed
  then show "double_to_int 64 ?w = Some n" using assms by (auto simp: double_to_int_def Let_def split: if_splits)
  show "number_value ?w n = JInt n" using fields by (simp add: number_value_def double_eq_def isnan_def)
qed

text \<open>The cast of a number that is out of range.\<close>

lemma number_undefined:
  assumes "is_number t" and "strtod t = (w, length t)" and "\<not> isnan w" and "double_to_int 64 w = None"
  shows "json_parse strtod t = Inl (UB ''cast of a double out of the range of int64_t'')"
proof -
  have "scan t = \<lparr>l_token = ValueNumber, l_text = t, l_rest = []\<rparr>"
    using number_token [OF assms(1) end_of_text(1)] by simp
  with assms(2-) show ?thesis
    by (simp add: json_parse_def parse_fuel_def parse_internal.simps text_number_def parse_number_def get_number_def Let_def)
qed

section \<open>Properties\<close>

text \<open>\<open>strtod\<close> rounds the decimal text of an \<open>int64_t\<close> correctly and stops where the number stops.\<close>

definition strtod_integers :: "(string \<Rightarrow> 64 word \<times> nat) \<Rightarrow> bool" where
  "strtod_integers strtod \<longleftrightarrow>
     (\<forall>n r. - (2 ^ 63) \<le> n \<longrightarrow> n < 2 ^ 63 \<longrightarrow> stops r \<longrightarrow> strtod (dec n @ r) = (int_to_double n, length (dec n)))"

text \<open>Values without floating-point numbers, whose integers a double holds exactly.\<close>

fun exact :: "json \<Rightarrow> bool"
  and exact_members :: "(string \<times> json) list \<Rightarrow> bool"
  and exact_elements :: "json list \<Rightarrow> bool" where
  "exact (JInt n) \<longleftrightarrow> \<bar>n\<bar> < 2 ^ 53"
| "exact (JFloat w) \<longleftrightarrow> False"
| "exact (JObject m) \<longleftrightarrow> omap_inv m \<and> exact_members m"
| "exact (JArray xs) \<longleftrightarrow> exact_elements xs"
| "exact j \<longleftrightarrow> True"
| "exact_members [] \<longleftrightarrow> True"
| "exact_members ((k, v) # m) \<longleftrightarrow> exact v \<and> exact_members m"
| "exact_elements [] \<longleftrightarrow> True"
| "exact_elements (x # xs) \<longleftrightarrow> exact x \<and> exact_elements xs"

lemma exact_reread:
  "exact j \<Longrightarrow> reread j = j" "exact_members m \<Longrightarrow> reread_members m = m" "exact_elements xs \<Longrightarrow> reread_elements xs = xs"
  by (induction j and m and xs rule: exact_exact_members_exact_elements.induct)
    (simp_all add: reread_number_def int_to_double_exact)

lemma exact_writable:
  assumes "strtod_integers strtod"
  shows "exact j \<Longrightarrow> writable strtod sf j" "exact_members m \<Longrightarrow> writable_members strtod sf m"
    "exact_elements xs \<Longrightarrow> writable_elements strtod sf xs"
  by (induction j and m and xs rule: exact_exact_members_exact_elements.induct)
    (use assms in \<open>simp_all add: strtod_integers_def reads_as_def dec_number int_to_double_exact\<close>)

lemma exact_read:
  assumes "strtod_integers strtod" and "exact j" and "stops r" and "l_token (scan r) = EndOfInput"
  shows "json_parse strtod (dump sf pretty step cur j @ r) = Inr j"
  using dump_read [OF exact_writable(1) [OF assms(1,2)] assms(3,4)] exact_reread(1) [OF assms(2)] by simp

text \<open>
  C17. What \<open>dump\<close> writes, indented or not, the parser reads back: the same value, for every value whose
  objects are in key order, whose strings are any bytes and whose integers are below \<open>2 ^ 53\<close> in magnitude.
  A null character ends the text: whatever follows it is ignored.
\<close>

theorem json_round_trip:
  assumes "strtod_integers strtod" and "exact j"
  shows "json_parse strtod (dump sf pretty step cur j) = Inr j \<and>
    json_parse strtod (dump sf pretty step cur j @ CHR 0x00 # rest) = Inr j"
  using exact_read [OF assms, of "[]"] exact_read [OF assms] by (simp add: end_of_text)

text \<open>A conversion of decimal integers, for the examples.\<close>

definition decimal_strtod :: "string \<Rightarrow> 64 word \<times> nat" where
  "decimal_strtod t =
     (let neg = (case t of c # _ \<Rightarrow> c = CHR ''-'' | [] \<Rightarrow> False);
          ds = takeWhile is_digit (if neg then tl t else t);
          n = int (digits_value 0 ds) in
      (int_to_double (if neg then - n else n), length ds + (if neg then 1 else 0)))"

lemma decimal_strtod_integers: "strtod_integers decimal_strtod"
proof -
  have digits: "takeWhile is_digit (dec_nat n @ r) = dec_nat n" if "stops r" for n r
    using dec_nat_digits [of n] that by (cases r) (auto simp: takeWhile_append2 dest: stops_head)
  have sign: "\<exists>c cs. dec_nat n = c # cs \<and> c \<noteq> CHR ''-''" for n
    using dec_nat_Cons [of n] digit_not_sign by blast
  show ?thesis
    unfolding strtod_integers_def
  proof (intro allI impI)
    fix n :: int and r
    assume "stops r"
    then show "decimal_strtod (dec n @ r) = (int_to_double n, length (dec n))"
      using sign [of "nat n"] digits [of r]
      by (auto simp: decimal_strtod_def dec_def Let_def digits_value_dec_nat split: list.split)
  qed
qed

theorem json_round_trip_witness:
  "json_parse decimal_strtod (dump (\<lambda>w. []) False 0 0
     (JObject [([CHR 0x22], JString [CHR 0x0A, CHR 0x00]), (''a'', JArray [JInt (- 7), JNull, JBool True])])) =
   Inr (JObject [([CHR 0x22], JString [CHR 0x0A, CHR 0x00]), (''a'', JArray [JInt (- 7), JNull, JBool True])])"
  by (rule json_round_trip [OF decimal_strtod_integers, THEN conjunct1]) (simp add: omap_inv_def)

text \<open>
  C27. Integers are read through a double: \<open>2 ^ 53 + 1\<close> comes back as \<open>2 ^ 53\<close>, and the largest
  \<open>int64_t\<close>, which \<open>dump\<close> writes, is rounded up to \<open>2 ^ 63\<close>, whose cast back is undefined.
\<close>

theorem large_integers_change:
  assumes "strtod_integers strtod"
  shows "json_parse strtod (json_dump sf (JInt (2 ^ 53 + 1))) = Inr (JInt (2 ^ 53)) \<and>
    json_parse strtod (json_dump sf (JInt (2 ^ 63 - 1))) = Inl (UB ''cast of a double out of the range of int64_t'')"
proof
  have double: "int_to_double (2 ^ 53 + 1) = 0x4340000000000000" "int_to_double (2 ^ 63 - 1) = 0x43E0000000000000"
    "int_to_double (2 ^ 53) = 0x4340000000000000"
    by (simp_all add: int_to_double_def double_of_nat_def bit_count.simps round_shift_def)
  have cast: "double_to_int 64 0x4340000000000000 = Some (2 ^ 53)" "double_to_int 64 0x43E0000000000000 = None"
    by (simp_all add: double_to_int_def double_exponent_def double_magnitude_def double_fraction_def double_negative_def)
  have "writable strtod sf (JInt (2 ^ 53 + 1))"
    using assms double(1) cast(1) by (simp add: strtod_integers_def reads_as_def dec_number)
  from dump_read [OF this, of "[]"] show "json_parse strtod (json_dump sf (JInt (2 ^ 53 + 1))) = Inr (JInt (2 ^ 53))"
    using double cast(1)
    by (simp add: json_dump_def end_of_text reread_number_def number_value_def double_eq_def isnan_def
        double_exponent_def)
  let ?t = "dec (2 ^ 63 - 1)"
  have strtod: "strtod ?t = (0x43E0000000000000, length ?t)"
    using assms [unfolded strtod_integers_def, rule_format, of "2 ^ 63 - 1" "[]"] double(2) end_of_text(1) by simp
  show "json_parse strtod (json_dump sf (JInt (2 ^ 63 - 1))) = Inl (UB ''cast of a double out of the range of int64_t'')"
    unfolding json_dump_def dump.simps
    by (rule number_undefined [of ?t strtod, OF dec_number strtod])
      (simp_all add: cast(2) isnan_def double_exponent_def double_fraction_def)
qed

theorem large_integers_change_witness:
  "json_parse decimal_strtod (json_dump (\<lambda>w. []) (JInt (2 ^ 53 + 1))) = Inr (JInt (2 ^ 53))"
  by (rule large_integers_change [OF decimal_strtod_integers, THEN conjunct1])

end
