(* ===== verification/Json_Stream.thy ===== *)
theory Json_Stream
  imports Json_Round_Trip
begin

text \<open>
  The lexer as the session uses it, on a stream: \<open>vendor/json.hpp\<close> keeps the line it is working on in a buffer,
  and \<open>yyfill\<close> appends the next line where the generated automaton asks for more characters. The functions
  follow the labels of the automaton, its markers and its refills. What they read is what \<open>scan\<close>
  reads in the whole text.
\<close>

section \<open>The input stream\<close>

record istream =
  is_text :: string
  is_eof :: bool
  is_fail :: bool

text \<open>\<open>std::getline\<close> into an empty string: nothing extracted is a failure.\<close>

definition getline :: "istream \<Rightarrow> string \<times> istream" where
  "getline i =
     (if is_eof i \<or> is_fail i then ([], i\<lparr>is_fail := True\<rparr>)
      else
        (let line = takeWhile (\<lambda>c. c \<noteq> CHR 0x0A) (is_text i);
             rest = dropWhile (\<lambda>c. c \<noteq> CHR 0x0A) (is_text i) in
         if rest = [] then (line, \<lparr>is_text = [], is_eof = True, is_fail = (line = [])\<rparr>)
         else (line, i\<lparr>is_text := tl rest\<rparr>)))"

section \<open>The buffer\<close>

text \<open>
  Positions are relative to \<open>m_start\<close>; \<open>sl_text\<close> is the buffer from there on. \<open>m_limit\<close> is the end of the
  buffer at first and one before it after a refill. What \<open>c_str\<close> adds is read at the end.
\<close>

record stream_lexer =
  sl_text :: string
  sl_cursor :: nat
  sl_marker :: nat
  sl_filled :: bool
  sl_stream :: istream

definition stream_start :: "string \<Rightarrow> stream_lexer" where
  "stream_start s =
     (case getline \<lparr>is_text = s, is_eof = False, is_fail = False\<rparr> of
        (line, i) \<Rightarrow> \<lparr>sl_text = line, sl_cursor = 0, sl_marker = 0, sl_filled = False, sl_stream = i\<rparr>)"

definition yyfill :: "stream_lexer \<Rightarrow> stream_lexer" where
  "yyfill s =
     (if is_fail (sl_stream s) then s
      else
        (case getline (sl_stream s) of
           (line, i) \<Rightarrow> s\<lparr>sl_text := sl_text s @ CHR 0x0A # line, sl_filled := True, sl_stream := i\<rparr>))"

text \<open>\<open>m_limit - m_cursor < n\<close>; for 1 it is written \<open>m_limit <= m_cursor\<close>.\<close>

definition fill_below :: "nat \<Rightarrow> stream_lexer \<Rightarrow> stream_lexer" where
  "fill_below n s = (if length (sl_text s) < sl_cursor s + n + (if sl_filled s then 1 else 0) then yyfill s else s)"

definition yych :: "stream_lexer \<Rightarrow> char" where
  "yych s = (if sl_cursor s < length (sl_text s) then sl_text s ! sl_cursor s else CHR 0x00)"

definition advance :: "stream_lexer \<Rightarrow> stream_lexer" where
  "advance s = s\<lparr>sl_cursor := Suc (sl_cursor s)\<rparr>"

definition mark :: "stream_lexer \<Rightarrow> stream_lexer" where
  "mark s = s\<lparr>sl_marker := sl_cursor s\<rparr>"

definition backtrack :: "stream_lexer \<Rightarrow> stream_lexer" where
  "backtrack s = s\<lparr>sl_cursor := sl_marker s\<rparr>"

section \<open>What is still to be read\<close>

text \<open>The lines that refills will append, each after a line feed; the last refill finds nothing.\<close>

definition pending :: "istream \<Rightarrow> string" where
  "pending i =
     (if is_fail i then []
      else if is_eof i then [CHR 0x0A]
      else CHR 0x0A # is_text i @ (if is_text i = [] \<or> last (is_text i) = CHR 0x0A then [] else [CHR 0x0A]))"

definition whole :: "stream_lexer \<Rightarrow> string" where
  "whole s = sl_text s @ pending (sl_stream s)"

definition remaining :: "stream_lexer \<Rightarrow> string" where
  "remaining s = drop (sl_cursor s) (whole s)"

lemma line_split:
  assumes "dropWhile (\<lambda>c. c \<noteq> x) t \<noteq> []"
  shows "t = takeWhile (\<lambda>c. c \<noteq> x) t @ x # tl (dropWhile (\<lambda>c. c \<noteq> x) t)"
proof -
  have "hd (dropWhile (\<lambda>c. c \<noteq> x) t) = x" using assms hd_dropWhile by blast
  then have "dropWhile (\<lambda>c. c \<noteq> x) t = x # tl (dropWhile (\<lambda>c. c \<noteq> x) t)" using assms by (metis list.collapse)
  then show ?thesis by (metis takeWhile_dropWhile_id)
qed

lemma getline_pending:
  assumes "\<not> is_fail i" and "getline i = (line, i')"
  shows "pending i = CHR 0x0A # line @ pending i'"
proof (cases "is_eof i")
  case True
  with assms show ?thesis by (auto simp: getline_def pending_def)
next
  case eof: False
  let ?rest = "dropWhile (\<lambda>c. c \<noteq> CHR 0x0A) (is_text i)"
  show ?thesis
  proof (cases "?rest = []")
    case True
    then have "takeWhile (\<lambda>c. c \<noteq> CHR 0x0A) (is_text i) = is_text i" by (metis append_Nil2 takeWhile_dropWhile_id)
    then have "line = is_text i" "i' = \<lparr>is_text = [], is_eof = True, is_fail = (is_text i = [])\<rparr>"
      using assms eof True unfolding getline_def Let_def by (auto simp del: takeWhile_eq_all_conv)
    moreover have "is_text i \<noteq> [] \<Longrightarrow> last (is_text i) \<noteq> CHR 0x0A" using True by (auto simp: dropWhile_eq_Nil_conv)
    ultimately show ?thesis using assms(1) eof by (auto simp: pending_def)
  next
    case False
    define p r where "p = takeWhile (\<lambda>c. c \<noteq> CHR 0x0A) (is_text i)" and "r = tl ?rest"
    have "is_text i = p @ CHR 0x0A # r" unfolding p_def r_def by (rule line_split [OF False])
    moreover have "getline i = (p, i\<lparr>is_text := r\<rparr>)"
      using assms(1) eof False unfolding getline_def Let_def p_def r_def by (simp del: dropWhile_eq_Nil_conv)
    ultimately show ?thesis using assms eof by (auto simp: pending_def)
  qed
qed

lemma whole_yyfill: "whole (yyfill s) = whole s" "sl_cursor (yyfill s) = sl_cursor s" "sl_marker (yyfill s) = sl_marker s"
  "length (sl_text s) \<le> length (sl_text (yyfill s))"
  by (auto simp: whole_def yyfill_def getline_pending split: prod.split)

lemma fill_below_simps [simp]:
  "whole (fill_below n s) = whole s" "sl_cursor (fill_below n s) = sl_cursor s"
  "sl_marker (fill_below n s) = sl_marker s" "remaining (fill_below n s) = remaining s"
  "length (sl_text s) \<le> length (sl_text (fill_below n s))"
  by (simp_all add: remaining_def fill_below_def whole_yyfill)

lemma move_simps [simp]:
  "whole (advance s) = whole s" "sl_cursor (advance s) = Suc (sl_cursor s)" "sl_marker (advance s) = sl_marker s"
  "sl_text (advance s) = sl_text s"
  "whole (mark s) = whole s" "sl_cursor (mark s) = sl_cursor s" "sl_marker (mark s) = sl_cursor s" "sl_text (mark s) = sl_text s"
  "whole (backtrack s) = whole s" "sl_cursor (backtrack s) = sl_marker s" "sl_marker (backtrack s) = sl_marker s"
  "sl_text (backtrack s) = sl_text s" "remaining (mark s) = remaining s"
  by (simp_all add: whole_def advance_def mark_def backtrack_def remaining_def)

lemma yych_inside: "yych s \<noteq> CHR 0x00 \<Longrightarrow> sl_cursor s < length (sl_text s)"
  by (auto simp: yych_def split: if_splits)

lemma yych_remaining: "sl_cursor s < length (sl_text s) \<Longrightarrow> remaining s = yych s # remaining (advance s)"
  by (simp add: remaining_def yych_def whole_def advance_def Cons_nth_drop_Suc nth_append flip: Cons_nth_drop_Suc)

lemma whole_longer: "length (sl_text s) \<le> length (whole s)"
  by (simp add: whole_def)


section \<open>The automaton\<close>

text \<open>What is left decreases with every character that is read.\<close>

definition left :: "stream_lexer \<Rightarrow> nat" where
  "left s = length (whole s) - sl_cursor s"

lemma left_simps [simp]:
  "left (fill_below n s) = left s" "left (mark s) = left s" "left (advance s) = left s - 1"
  by (simp_all add: left_def)

lemma left_inside: "yych s \<noteq> CHR 0x00 \<Longrightarrow> 0 < left s"
  using yych_inside [of s] whole_longer [of s] by (simp add: left_def)

lemma string_char_left: "is_string_char (yych s) \<Longrightarrow> 0 < left s"
  by (rule left_inside) (auto simp: is_string_char_def)

lemma digit_left: "is_digit (yych s) \<Longrightarrow> 0 < left s"
  by (rule left_inside) (auto simp: is_digit_def)

lemma ws_left: "is_ws (yych s) \<Longrightarrow> 0 < left s"
  by (rule left_inside) (auto simp: is_ws_def)

text \<open>Labels 37 to 40: the digits of a \<open>\u\<close> escape.\<close>

fun lex_hex :: "nat \<Rightarrow> stream_lexer \<Rightarrow> bool \<times> stream_lexer" where
  "lex_hex 0 s = (True, s)"
| "lex_hex (Suc k) s =
     (let s1 = fill_below 1 (advance s) in if is_hex (yych s1) then lex_hex k s1 else (False, s1))"

lemma lex_hex_left: "left (snd (lex_hex k s)) \<le> left s"
  by (induction k s rule: lex_hex.induct) (auto simp: Let_def intro: le_trans)

text \<open>Labels 32 to 36; the result is whether the string is closed.\<close>

function lex_string :: "stream_lexer \<Rightarrow> bool \<times> stream_lexer" where
  "lex_string s =
     (if is_string_char (yych s) then lex_string (fill_below 1 (advance s))
      else if (of_char (yych s) :: nat) \<le> 0x0F then (False, backtrack s)
      else if yych s = CHR 0x22 then (True, advance s)
      else
        (let s1 = fill_below 1 (advance s); e = yych s1 in
         if e \<in> {CHR 0x22, CHR 0x5C, CHR ''/'', CHR ''b'', CHR ''f'', CHR ''n'', CHR ''r'', CHR ''t''}
         then lex_string (fill_below 1 (advance s1))
         else if e = CHR ''u'' then
           (let hex = lex_hex 4 s1 in
            if fst hex then lex_string (fill_below 1 (advance (snd hex))) else (False, backtrack (snd hex)))
         else (False, backtrack s1)))"
  by pat_completeness auto
termination
proof (relation "measure left", goal_cases)
  case (2 s)
  then show ?case using string_char_left [of s] by simp
next
  case (3 s s1 e)
  have "yych s \<noteq> CHR 0x00" using 3 by auto
  then show ?case using 3 left_inside [of s] by simp
next
  case (4 s s1 e hex)
  have "yych s \<noteq> CHR 0x00" using 4 by auto
  then show ?case using 4 left_inside [of s] lex_hex_left [of 4 s1] by simp
qed simp

declare lex_string.simps [simp del]

text \<open>Labels 46, 48 and 42: digits of the exponent, of the fraction and of the integer part.\<close>

function exponent_digits :: "stream_lexer \<Rightarrow> stream_lexer" where
  "exponent_digits s = (if is_digit (yych s) then exponent_digits (fill_below 1 (advance s)) else s)"
  by pat_completeness auto
termination
  by (relation "measure left") (use digit_left in auto)

text \<open>Labels 44 and 45, at the letter of the exponent.\<close>

definition lex_exponent :: "stream_lexer \<Rightarrow> stream_lexer" where
  "lex_exponent s =
     (let s1 = advance s; s2 = (if yych s1 = CHR ''+'' \<or> yych s1 = CHR ''-'' then advance s1 else s1) in
      if is_digit (yych s2) then exponent_digits s2 else backtrack s2)"

definition at_exponent :: "stream_lexer \<Rightarrow> bool" where
  "at_exponent s \<longleftrightarrow> yych s = CHR ''e'' \<or> yych s = CHR ''E''"

function fraction_digits :: "stream_lexer \<Rightarrow> stream_lexer" where
  "fraction_digits s =
     (if is_digit (yych s) then fraction_digits (fill_below 3 (mark (advance s)))
      else if at_exponent s then lex_exponent s else s)"
  by pat_completeness auto
termination
  by (relation "measure left") (use digit_left in auto)

text \<open>Label 43, at the point; labels 24, 42 and 50 after the integer part.\<close>

definition lex_point :: "stream_lexer \<Rightarrow> stream_lexer" where
  "lex_point s = (let s1 = advance s in if is_digit (yych s1) then fraction_digits s1 else backtrack s1)"

definition after_integer :: "stream_lexer \<Rightarrow> stream_lexer" where
  "after_integer s =
     (if yych s = CHR ''.'' then lex_point s else if at_exponent s then lex_exponent s else s)"

function integer_digits :: "stream_lexer \<Rightarrow> stream_lexer" where
  "integer_digits s =
     (if is_digit (yych s) then integer_digits (fill_below 3 (mark (advance s))) else after_integer s)"
  by pat_completeness auto
termination
  by (relation "measure left") (use digit_left in auto)

declare exponent_digits.simps [simp del] fraction_digits.simps [simp del] integer_digits.simps [simp del]

text \<open>Labels 20 to 22, 51 to 60, 6 and 64: the characters of a literal after the first.\<close>

fun lex_word :: "string \<Rightarrow> stream_lexer \<Rightarrow> bool \<times> stream_lexer" where
  "lex_word [] s = (True, s)"
| "lex_word (c # cs) s = (if yych s = c then lex_word cs (advance s) else (False, backtrack s))"

text \<open>Label 5, at a blank or behind one.\<close>

function skip_blanks :: "stream_lexer \<Rightarrow> stream_lexer" where
  "skip_blanks s = (if is_ws (yych s) then skip_blanks (fill_below 1 (advance s)) else s)"
  by pat_completeness auto
termination
  by (relation "measure left") (use ws_left in auto)

declare skip_blanks.simps [simp del]


section \<open>The automaton reads what the scanner reads\<close>

text \<open>A position in the buffer, and a move that keeps the whole text.\<close>

definition inside :: "stream_lexer \<Rightarrow> bool" where
  "inside s \<longleftrightarrow> sl_cursor s \<le> length (sl_text s)"

definition moved :: "stream_lexer \<Rightarrow> stream_lexer \<Rightarrow> bool" where
  "moved s s' \<longleftrightarrow> whole s' = whole s \<and> length (sl_text s) \<le> length (sl_text s') \<and> sl_marker s' = sl_marker s"

lemma moved_simps [simp]: "moved s s" "moved s (advance s)" "moved s (fill_below n s)" "moved s (backtrack s)"
  by (simp_all add: moved_def)

lemma moved_trans [trans]: "moved s t \<Longrightarrow> moved t u \<Longrightarrow> moved s u"
  by (auto simp: moved_def)

lemma inside_fill [simp]: "inside s \<Longrightarrow> inside (fill_below n s)" "inside s \<Longrightarrow> inside (mark s)"
  by (simp_all add: inside_def le_trans [OF _ fill_below_simps(5)])

lemma remaining_advance: "remaining (advance (fill_below n s)) = remaining (advance s)"
  by (simp add: remaining_def)

lemma peek:
  assumes "yych s \<noteq> CHR 0x00"
  shows "remaining s = yych s # remaining (advance s) \<and> inside (advance s)"
  using yych_inside [OF assms] by (simp add: yych_remaining inside_def)

text \<open>A character that a line feed and a null character are not.\<close>

lemma peek_not:
  assumes "inside s" and "\<not> P (yych s)" and "\<not> P (CHR 0x0A)"
  shows "case remaining s of [] \<Rightarrow> True | c # r \<Rightarrow> \<not> P c"
proof (cases "sl_cursor s < length (sl_text s)")
  case True
  with assms show ?thesis by (simp add: yych_remaining)
next
  case False
  then have "remaining s = pending (sl_stream s)" using assms(1) by (simp add: remaining_def whole_def inside_def)
  with assms show ?thesis by (simp add: pending_def)
qed

lemma no_digit: "inside s \<Longrightarrow> \<not> is_digit (yych s) \<Longrightarrow> dropWhile is_digit (remaining s) = remaining s"
  using peek_not [of s is_digit] by (cases "remaining s") (auto simp: is_digit_def)

lemma digit: "is_digit (yych s) \<Longrightarrow> yych s \<noteq> CHR 0x00"
  by (auto simp: is_digit_def)

lemma exponent_digits_reads:
  "inside s \<Longrightarrow> moved s (exponent_digits s) \<and> inside (exponent_digits s) \<and>
    remaining (exponent_digits s) = dropWhile is_digit (remaining s)"
proof (induction s rule: exponent_digits.induct)
  case (1 s)
  show ?case
  proof (cases "is_digit (yych s)")
    case True
    note step = peek [OF digit [OF True]]
    have "moved s (fill_below 1 (advance s))" using fill_below_simps(5) [of "advance s" 1] by (simp add: moved_def)
    with "1.IH" [OF True] step True show ?thesis
      by (subst (1 2 3) exponent_digits.simps) (auto simp: le_trans intro: moved_trans)
  next
    case False
    with "1.prems" show ?thesis by (subst (1 2 3) exponent_digits.simps) (simp add: no_digit)
  qed
qed

lemma backtrack_reads:
  assumes "moved s s'" and "inside s" and "sl_marker s = sl_cursor s"
  shows "moved s (backtrack s')" "inside (backtrack s')" "remaining (backtrack s') = remaining s"
  using assms by (auto simp: moved_def inside_def remaining_def)

lemma lex_exponent_reads:
  assumes "inside s" and "at_exponent s" and "sl_marker s = sl_cursor s"
  shows "moved s (lex_exponent s) \<and> inside (lex_exponent s) \<and> remaining (lex_exponent s) = skip_exponent (remaining s)"
proof -
  let ?s1 = "advance s"
  let ?s2 = "if yych ?s1 = CHR ''+'' \<or> yych ?s1 = CHR ''-'' then advance ?s1 else ?s1"
  have e: "remaining s = yych s # remaining ?s1" "inside ?s1"
    using peek [of s] assms(2) by (auto simp: at_exponent_def)
  define ds where "ds = (case remaining ?s1 of [] \<Rightarrow> [] | c # cs \<Rightarrow> if c = CHR ''+'' \<or> c = CHR ''-'' then cs else remaining ?s1)"
  have s2: "inside ?s2" "remaining ?s2 = ds" "moved s ?s2"
  proof -
    have "moved s (advance ?s1)" using moved_trans [of s ?s1 "advance ?s1"] by simp
    then show "moved s ?s2" by simp
    show "inside ?s2" using e(2) peek [of ?s1] by auto
    show "remaining ?s2 = ds"
    proof (cases "yych ?s1 = CHR ''+'' \<or> yych ?s1 = CHR ''-''")
      case True
      with peek [of ?s1] show ?thesis by (auto simp: ds_def)
    next
      case False
      with peek_not [OF e(2), of "\<lambda>c. c = CHR ''+'' \<or> c = CHR ''-''"] show ?thesis
        by (auto simp: ds_def split: list.split)
    qed
  qed
  have result: "skip_exponent (remaining s) =
      (case ds of [] \<Rightarrow> remaining s | d # r \<Rightarrow> if is_digit d then dropWhile is_digit r else remaining s)"
    using assms(2) by (auto simp: e(1) skip_exponent_def exponent_end_def ds_def [symmetric] at_exponent_def Let_def split: list.split)
  show ?thesis
  proof (cases "is_digit (yych ?s2)")
    case True
    with peek [OF digit [OF True]] s2(2) have "skip_exponent (remaining s) = dropWhile is_digit ds"
      unfolding result by (cases ds) auto
    with True exponent_digits_reads [OF s2(1)] s2 show ?thesis
      by (auto simp: lex_exponent_def Let_def intro: moved_trans)
  next
    case False
    then have "skip_exponent (remaining s) = remaining s"
      using peek_not [of ?s2 is_digit, OF s2(1) False] s2(2) unfolding result by (cases ds) (auto simp: is_digit_def)
    with False backtrack_reads [OF s2(3) assms(1,3)] show ?thesis by (auto simp: lex_exponent_def Let_def)
  qed
qed


lemma fraction_digits_reads:
  "inside s \<Longrightarrow> is_digit (yych s) \<or> sl_marker s = sl_cursor s \<Longrightarrow>
    whole (fraction_digits s) = whole s \<and> length (sl_text s) \<le> length (sl_text (fraction_digits s)) \<and>
    inside (fraction_digits s) \<and> remaining (fraction_digits s) = skip_exponent (dropWhile is_digit (remaining s))"
proof (induction s rule: fraction_digits.induct)
  case (1 s)
  show ?case
  proof (cases "is_digit (yych s)")
    case True
    let ?n = "fill_below 3 (mark (advance s))"
    note step = peek [OF digit [OF True]]
    have "inside ?n" "sl_marker ?n = sl_cursor ?n" "remaining ?n = remaining (advance s)" "whole ?n = whole s"
      "length (sl_text s) \<le> length (sl_text ?n)"
      using step fill_below_simps(5) [of "mark (advance s)" 3] by auto
    with "1.IH" [OF True] step True show ?thesis
      by (subst (1 2 3 4) fraction_digits.simps) auto
  next
    case False
    with "1.prems" have rest: "dropWhile is_digit (remaining s) = remaining s" by (simp add: no_digit)
    show ?thesis
    proof (cases "at_exponent s")
      case True
      with False "1.prems" rest lex_exponent_reads [of s] show ?thesis
        by (subst (1 2 3 4) fraction_digits.simps) (auto simp: moved_def)
    next
      case no: False
      have "skip_exponent (remaining s) = remaining s"
        using peek_not [OF "1.prems"(1), of "\<lambda>c. c = CHR ''e'' \<or> c = CHR ''E''"] no
        by (cases "remaining s") (auto simp: skip_exponent_def at_exponent_def)
      with False no "1.prems" rest show ?thesis
        by (subst (1 2 3 4) fraction_digits.simps) auto
    qed
  qed
qed

lemma after_integer_reads:
  assumes "inside s" and "sl_marker s = sl_cursor s"
  shows "whole (after_integer s) = whole s \<and> length (sl_text s) \<le> length (sl_text (after_integer s)) \<and>
    inside (after_integer s) \<and> remaining (after_integer s) = skip_fraction (remaining s)"
proof (cases "yych s = CHR ''.''")
  case True
  then have point: "remaining s = CHR ''.'' # remaining (advance s)" "inside (advance s)" using peek [of s] by auto
  show ?thesis
  proof (cases "is_digit (yych (advance s))")
    case d: True
    have "remaining (advance s) = yych (advance s) # remaining (advance (advance s))"
      using peek [OF digit [OF d]] by simp
    with d point have "skip_fraction (remaining s) = skip_exponent (dropWhile is_digit (remaining (advance s)))"
      by (simp add: skip_fraction_def)
    with fraction_digits_reads [OF point(2)] d True show ?thesis by (simp add: after_integer_def lex_point_def)
  next
    case False
    have "skip_fraction (remaining s) = remaining s"
      using peek_not [OF point(2), of is_digit] False point(1)
      by (auto simp: skip_fraction_def skip_exponent_def is_digit_def split: list.splits)
    with backtrack_reads [of s "advance s"] assms False True show ?thesis
      by (simp add: after_integer_def lex_point_def moved_def)
  qed
next
  case False
  have no_point: "skip_fraction (remaining s) = skip_exponent (remaining s)"
    using peek_not [OF assms(1), of "\<lambda>c. c = CHR ''.''"] False by (auto simp: skip_fraction_def split: list.splits)
  show ?thesis
  proof (cases "at_exponent s")
    case True
    with lex_exponent_reads [OF assms(1) True assms(2)] False no_point show ?thesis
      by (simp add: after_integer_def moved_def)
  next
    case no: False
    have "skip_exponent (remaining s) = remaining s"
      using peek_not [OF assms(1), of "\<lambda>c. c = CHR ''e'' \<or> c = CHR ''E''"] no
      by (cases "remaining s") (auto simp: skip_exponent_def at_exponent_def)
    with no False no_point assms show ?thesis by (simp add: after_integer_def)
  qed
qed

lemma integer_digits_reads:
  "inside s \<Longrightarrow> sl_marker s = sl_cursor s \<Longrightarrow>
    whole (integer_digits s) = whole s \<and> length (sl_text s) \<le> length (sl_text (integer_digits s)) \<and>
    inside (integer_digits s) \<and> remaining (integer_digits s) = skip_fraction (dropWhile is_digit (remaining s))"
proof (induction s rule: integer_digits.induct)
  case (1 s)
  show ?case
  proof (cases "is_digit (yych s)")
    case True
    let ?n = "fill_below 3 (mark (advance s))"
    note step = peek [OF digit [OF True]]
    have "inside ?n" "sl_marker ?n = sl_cursor ?n" "remaining ?n = remaining (advance s)" "whole ?n = whole s"
      "length (sl_text s) \<le> length (sl_text ?n)"
      using step fill_below_simps(5) [of "mark (advance s)" 3] by auto
    with "1.IH" [OF True] step True show ?thesis
      by (subst (1 2 3 4) integer_digits.simps) auto
  next
    case False
    with "1.prems" after_integer_reads [of s] show ?thesis
      by (subst (1 2 3 4) integer_digits.simps) (simp add: no_digit)
  qed
qed


lemma hex: "is_hex (yych s) \<Longrightarrow> yych s \<noteq> CHR 0x00" "\<not> is_hex (CHR 0x0A)"
  by (auto simp: is_hex_def hex_digit_def)

lemma moved_fill: "moved s u \<Longrightarrow> moved s (fill_below n (advance u))"
  using moved_trans [of s u "advance u"] moved_trans [of s "advance u" "fill_below n (advance u)"] by simp

text \<open>The digits of an escape: whether they are there, and then the position of the last one.\<close>

definition hex_read :: "nat \<Rightarrow> string \<Rightarrow> bool \<times> stream_lexer \<Rightarrow> bool" where
  "hex_read k r p \<longleftrightarrow> fst p = (k \<le> length r \<and> list_all is_hex (take k r)) \<and>
     (fst p \<longrightarrow> remaining (advance (snd p)) = drop k r \<and> inside (advance (snd p)))"

lemma lex_hex_reads:
  "inside (advance s) \<Longrightarrow> moved s (snd (lex_hex k s)) \<and> hex_read k (remaining (advance s)) (lex_hex k s)"
proof (induction k s rule: lex_hex.induct)
  case (2 k s)
  let ?s1 = "fill_below 1 (advance s)"
  have s1: "inside ?s1" "remaining ?s1 = remaining (advance s)" "moved s ?s1"
    using "2.prems" moved_fill [of s s 1] by simp_all
  show ?case
  proof (cases "is_hex (yych ?s1)")
    case True
    note step = peek [OF hex(1) [OF True]]
    then obtain c r where c: "remaining (advance s) = c # r" "is_hex c" "remaining (advance ?s1) = r"
      using True s1(2) by auto
    have "lex_hex (Suc k) s = lex_hex k ?s1" using True by (simp add: Let_def)
    with "2.IH" [OF refl True] step s1(3) moved_trans [of s ?s1] show ?thesis
      unfolding c by (simp add: hex_read_def c(2))
  next
    case False
    then have run: "lex_hex (Suc k) s = (False, ?s1)" by (simp add: Let_def)
    from peek_not [OF s1(1) False hex(2)] s1 show ?thesis
      unfolding run by (cases "remaining (advance s)") (simp_all add: hex_read_def)
  qed
qed (simp add: hex_read_def)

lemma string_end_stops:
  "(case t of [] \<Rightarrow> True | c # r \<Rightarrow> \<not> is_string_char c \<and> c \<noteq> CHR 0x22 \<and> c \<noteq> CHR 0x5C) \<Longrightarrow> string_end t = None"
  by (cases t) (simp_all add: string_end.simps)

text \<open>A string literal: whether it is closed, and the position behind the quote or at the marker \<open>m\<close>.\<close>

definition string_read :: "string option \<Rightarrow> nat \<Rightarrow> bool \<times> stream_lexer \<Rightarrow> bool" where
  "string_read e m p \<longleftrightarrow> inside (snd p) \<and>
     (case e of Some r \<Rightarrow> fst p \<and> remaining (snd p) = r | None \<Rightarrow> \<not> fst p \<and> sl_cursor (snd p) = m)"

definition string_lexed :: "stream_lexer \<Rightarrow> bool" where
  "string_lexed s \<longleftrightarrow> inside s \<and> sl_marker s \<le> length (sl_text s) \<longrightarrow>
     moved s (snd (lex_string s)) \<and> string_read (string_end (remaining s)) (sl_marker s) (lex_string s)"

lemma string_goes_on:
  assumes "moved s u" and "inside (advance u)" and "string_end (remaining s) = string_end (remaining (advance u))"
    and "lex_string s = lex_string (fill_below 1 (advance u))" and "string_lexed (fill_below 1 (advance u))"
  shows "string_lexed s"
proof -
  let ?n = "fill_below 1 (advance u)"
  have n: "moved s ?n" using assms(1) by (rule moved_fill)
  then have "sl_marker ?n = sl_marker s" "sl_marker s \<le> length (sl_text s) \<Longrightarrow> sl_marker ?n \<le> length (sl_text ?n)"
    by (simp_all add: moved_def)
  with assms n show ?thesis using moved_trans [of s ?n] by (simp add: string_lexed_def)
qed

lemma string_stops:
  assumes "lex_string s = (False, backtrack u)" and "moved s u" and "string_end (remaining s) = None"
  shows "string_lexed s"
  using assms moved_trans [of s u "backtrack u"] by (auto simp: string_lexed_def string_read_def inside_def moved_def)

text \<open>An escape sequence, the lexer being correct behind it.\<close>

abbreviation simple_escapes :: "char set" where
  "simple_escapes \<equiv> {CHR 0x22, CHR 0x5C, CHR ''/'', CHR ''b'', CHR ''f'', CHR ''n'', CHR ''r'', CHR ''t''}"

lemma lex_string_escape:
  assumes "yych s = CHR 0x5C" and "s1 = fill_below 1 (advance s)"
    and "yych s1 \<in> simple_escapes \<Longrightarrow> string_lexed (fill_below 1 (advance s1))"
    and "yych s1 \<notin> simple_escapes \<Longrightarrow> yych s1 = CHR ''u'' \<Longrightarrow> fst (lex_hex 4 s1) \<Longrightarrow> string_lexed (fill_below 1 (advance (snd (lex_hex 4 s1))))"
  shows "string_lexed s"
proof -
  have s1: "inside s1" "remaining s = CHR 0x5C # remaining s1" "moved s s1"
    using peek [of s] assms(1) moved_fill [of s s 1] by (simp_all add: assms(2))
  have run: "lex_string s =
      (if yych s1 \<in> simple_escapes then lex_string (fill_below 1 (advance s1))
       else if yych s1 = CHR ''u'' then
         (if fst (lex_hex 4 s1) then lex_string (fill_below 1 (advance (snd (lex_hex 4 s1))))
          else (False, backtrack (snd (lex_hex 4 s1))))
       else (False, backtrack s1))"
    by (subst lex_string.simps) (simp add: assms(1,2) Let_def is_string_char_def)
  consider (simple) "yych s1 \<in> simple_escapes" | (unicode) "yych s1 \<notin> simple_escapes" "yych s1 = CHR ''u''"
    | (wrong) "yych s1 \<notin> simple_escapes" "yych s1 \<noteq> CHR ''u''" by blast
  then show ?thesis
  proof cases
    case simple
    then have "yych s1 \<noteq> CHR 0x00" by auto
    note e = peek [OF this, THEN conjunct1] peek [OF this, THEN conjunct2]
    have "string_end (remaining s) = string_end (remaining (advance s1))"
      using simple unfolding s1(2) e(1) by (simp add: string_end_escape)
    with simple show ?thesis by (intro string_goes_on [OF s1(3) e(2)] assms(3)) (simp_all only: run if_True)
  next
    case unicode
    then have "yych s1 \<noteq> CHR 0x00" by simp
    note e = peek [OF this, THEN conjunct1] peek [OF this, THEN conjunct2]
    note hex = lex_hex_reads [OF e(2), of 4]
    have s2: "moved s (snd (lex_hex 4 s1))" using hex s1(3) moved_trans by blast
    have ends: "string_end (remaining s) = (if fst (lex_hex 4 s1) then string_end (drop 4 (remaining (advance s1))) else None)"
      using hex unfolding s1(2) e(1) unicode(2) by (simp add: string_end_escape hex_read_def)
    show ?thesis
    proof (cases "fst (lex_hex 4 s1)")
      case True
      with hex ends show ?thesis
        by (intro string_goes_on [OF s2] assms(4) unicode) (simp_all add: hex_read_def run unicode)
    next
      case False
      with ends show ?thesis by (intro string_stops [OF _ s2]) (simp_all add: run unicode)
    qed
  next
    case wrong
    have "string_end (remaining s) = None"
      using peek_not [OF s1(1), of "\<lambda>c. c \<in> simple_escapes \<or> c = CHR ''u''"] wrong unfolding s1(2)
      by (cases "remaining s1") (auto simp: string_end_escape string_end.simps [of "[CHR 0x5C]"] is_string_char_def)
    with wrong show ?thesis by (intro string_stops [OF _ s1(3)]) (simp_all only: run if_False)
  qed
qed

lemma lex_string_lexed: "string_lexed s"
proof (induction s rule: lex_string.induct)
  case (1 s)
  consider (plain) "is_string_char (yych s)" | (low) "\<not> is_string_char (yych s)" "(of_char (yych s) :: nat) \<le> 0x0F"
    | (quote) "\<not> is_string_char (yych s)" "\<not> (of_char (yych s) :: nat) \<le> 0x0F" "yych s = CHR 0x22"
    | (escape) "\<not> is_string_char (yych s)" "\<not> (of_char (yych s) :: nat) \<le> 0x0F" "yych s \<noteq> CHR 0x22" by blast
  then show ?case
  proof cases
    case plain
    then have "yych s \<noteq> CHR 0x00" by (auto simp: is_string_char_def)
    with plain peek [of s] show ?thesis
      by (intro string_goes_on [of s s] "1.IH"(1)) (simp_all add: lex_string.simps [of s])
  next
    case low
    have "string_end (remaining s) = None" if "inside s"
      using peek_not [OF that, of "\<lambda>c. \<not> (of_char c :: nat) \<le> 0x0F"] low
      by (intro string_end_stops) (auto simp: is_string_char_def split: list.splits)
    with low string_stops [of s s] show ?thesis by (auto simp: lex_string.simps [of s] string_lexed_def)
  next
    case quote
    then show ?thesis using peek [of s] by (simp add: lex_string.simps [of s] string_read_def string_lexed_def)
  next
    case escape
    then have "yych s = CHR 0x5C" by (auto simp: is_string_char_def)
    from "1.IH"(2,3) [OF escape HOL.refl HOL.refl] show ?thesis
      by (intro lex_string_escape [OF \<open>yych s = CHR 0x5C\<close> HOL.refl]) (blast+)
  qed
qed

lemma lex_string_reads:
  "inside s \<Longrightarrow> sl_marker s \<le> length (sl_text s) \<Longrightarrow>
    moved s (snd (lex_string s)) \<and> string_read (string_end (remaining s)) (sl_marker s) (lex_string s)"
  using lex_string_lexed [of s] by (simp add: string_lexed_def)


lemma lex_word_reads:
  "inside s \<Longrightarrow> sl_marker s \<le> length (sl_text s) \<Longrightarrow> CHR 0x00 \<notin> set w \<Longrightarrow> CHR 0x0A \<notin> set w \<Longrightarrow>
    moved s (snd (lex_word w s)) \<and> inside (snd (lex_word w s)) \<and>
    fst (lex_word w s) = (take (length w) (remaining s) = w) \<and>
    (if fst (lex_word w s) then remaining (snd (lex_word w s)) = drop (length w) (remaining s)
     else sl_cursor (snd (lex_word w s)) = sl_marker s)"
proof (induction w s rule: lex_word.induct)
  case (2 c cs s)
  show ?case
  proof (cases "yych s = c")
    case True
    with "2.prems" have "yych s \<noteq> CHR 0x00" by auto
    note step = peek [OF this]
    then have "remaining s = c # remaining (advance s)" "inside (advance s)" "moved s (advance s)" using True by simp_all
    with "2.IH" [OF True] "2.prems" True moved_trans [of s "advance s"] show ?thesis by simp
  next
    case False
    have "take (length (c # cs)) (remaining s) \<noteq> c # cs"
      using peek_not [OF "2.prems"(1), of "\<lambda>d. d = c"] False "2.prems"(4) by (cases "remaining s") auto
    with False "2.prems"(1,2) show ?thesis by (simp add: inside_def)
  qed
qed simp

text \<open>After the first character of a literal.\<close>

lemma lex_word_marked:
  assumes "yych s \<noteq> CHR 0x00" and "CHR 0x00 \<notin> set w" and "CHR 0x0A \<notin> set w" and "lex_word w (mark (advance s)) = (ok, s')"
  shows "whole s' = whole s \<and> inside s' \<and> ok = (take (length w) (remaining (advance s)) = w) \<and>
    remaining s' = (if ok then drop (length w) (remaining (advance s)) else remaining (advance s))"
proof -
  have "inside (mark (advance s))" "sl_marker (mark (advance s)) \<le> length (sl_text (mark (advance s)))"
    using peek [OF assms(1)] by (simp_all add: inside_def)
  from lex_word_reads [OF this assms(2,3), unfolded assms(4) fst_conv snd_conv] show ?thesis
    by (auto simp: moved_def remaining_def)
qed

lemma left_remaining: "left s = length (remaining s)"
  by (simp add: left_def remaining_def)

lemma skip_blanks_reads:
  "inside s \<Longrightarrow> inside (skip_blanks s) \<and> (\<exists>w. list_all is_ws w \<and> remaining s = w @ remaining (skip_blanks s))"
proof (induction s rule: skip_blanks.induct)
  case (1 s)
  show ?case
  proof (cases "is_ws (yych s)")
    case True
    then have "yych s \<noteq> CHR 0x00" by (auto simp: is_ws_def)
    note step = peek [OF this]
    then have "inside (fill_below 1 (advance s))" by simp
    from "1.IH" [OF True this] obtain w where "inside (skip_blanks s)" "list_all is_ws w"
      "remaining (advance s) = w @ remaining (skip_blanks s)"
      using True by (auto simp: skip_blanks.simps [of s])
    with step True show ?thesis by (intro conjI exI [of _ "yych s # w"]) auto
  next
    case False
    with "1.prems" show ?thesis by (intro conjI exI [of _ "[]"]) (simp_all add: skip_blanks.simps [of s])
  qed
qed

section \<open>The scanner of a stream\<close>

text \<open>\<open>m_start = m_cursor\<close>. A token ends at the cursor.\<close>

definition start_token :: "stream_lexer \<Rightarrow> stream_lexer" where
  "start_token s = s\<lparr>sl_text := drop (sl_cursor s) (sl_text s), sl_cursor := 0, sl_marker := 0\<rparr>"

definition stream_token :: "token \<Rightarrow> stream_lexer \<Rightarrow> stream_lexer lexer" where
  "stream_token t s = \<lparr>l_token = t, l_text = take (sl_cursor s) (sl_text s), l_rest = s\<rparr>"

definition stream_literal :: "token \<Rightarrow> string \<Rightarrow> stream_lexer \<Rightarrow> stream_lexer lexer" where
  "stream_literal t w s = (case lex_word w (mark (advance s)) of (ok, s') \<Rightarrow> stream_token (if ok then t else ParseError) s')"

text \<open>Labels 41 and 42.\<close>

definition stream_digits :: "stream_lexer \<Rightarrow> stream_lexer" where
  "stream_digits s = integer_digits (fill_below 3 (mark (advance s)))"

definition stream_string :: "stream_lexer \<Rightarrow> stream_lexer lexer" where
  "stream_string s =
     (let s1 = mark (advance s) in
      if (of_char (yych s1) :: nat) \<le> 0x0F then stream_token ParseError s1
      else (case lex_string s1 of (ok, s2) \<Rightarrow> stream_token (if ok then ValueString else ParseError) s2))"

definition stream_negative :: "stream_lexer \<Rightarrow> stream_lexer lexer" where
  "stream_negative s =
     (let s1 = advance s in
      if yych s1 = CHR ''0'' then stream_token ValueNumber (after_integer (mark (advance s1)))
      else if is_digit (yych s1) then stream_token ValueNumber (stream_digits s1)
      else stream_token ParseError s1)"

definition byte_order_mark :: "stream_lexer \<Rightarrow> bool \<times> stream_lexer" where
  "byte_order_mark s = lex_word [CHR 0xBB, CHR 0xBF] (mark (advance s))"

lemma remaining_start: "inside s \<Longrightarrow> remaining (start_token s) = remaining s"
  by (simp add: remaining_def whole_def start_token_def inside_def)

lemma start_inside: "inside (start_token s)"
  by (simp add: inside_def start_token_def)

text \<open>A new token starts further on.\<close>

lemma start_skip_blanks:
  assumes "inside t"
  shows "left (start_token (skip_blanks t)) \<le> left t"
proof -
  obtain w where "remaining t = w @ remaining (skip_blanks t)" "inside (skip_blanks t)"
    using skip_blanks_reads [OF assms] by blast
  then show ?thesis by (simp add: left_remaining remaining_start)
qed

lemma skip_blanks_left:
  assumes "yych s \<noteq> CHR 0x00"
  shows "left (start_token (skip_blanks (fill_below n (advance s)))) < left s" "left (start_token (skip_blanks (advance s))) < left s"
  using start_skip_blanks [of "fill_below n (advance s)"] start_skip_blanks [of "advance s"] peek [OF assms] left_inside [OF assms]
  by simp_all

lemma byte_order_mark_reads:
  assumes "yych s \<noteq> CHR 0x00" and "byte_order_mark s = (ok, s')"
  shows "whole s' = whole s \<and> inside s' \<and> ok = (take 2 (remaining (advance s)) = [CHR 0xBB, CHR 0xBF]) \<and>
    remaining s' = (if ok then drop 2 (remaining (advance s)) else remaining (advance s))"
  using lex_word_marked [OF assms(1) _ _ assms(2) [unfolded byte_order_mark_def]] by (simp add: numeral_2_eq_2)

lemma byte_order_mark_left:
  assumes "yych s \<noteq> CHR 0x00"
  shows "left (start_token (snd (byte_order_mark s))) < left s"
proof -
  obtain ok s' where mark: "byte_order_mark s = (ok, s')" by fastforce
  with byte_order_mark_reads [OF assms mark] left_inside [OF assms] left_simps(3) [of s] show ?thesis
    by (auto simp: left_remaining remaining_start split: if_splits)
qed

function stream_scan :: "stream_lexer \<Rightarrow> stream_lexer lexer" where
  "stream_scan s0 =
     (let s = fill_below 5 (start_token s0); c = yych s in
      if c \<in> {CHR 0x09, CHR 0x0D, CHR '' ''} then stream_scan (skip_blanks (advance s))
      else if c = CHR 0x0A then stream_scan (skip_blanks (fill_below 1 (advance s)))
      else if c = CHR 0x00 then stream_token EndOfInput (advance s)
      else if c = CHR ''['' then stream_token BeginArray (advance s)
      else if c = CHR '']'' then stream_token EndArray (advance s)
      else if c = CHR ''{'' then stream_token BeginObject (advance s)
      else if c = CHR ''}'' then stream_token EndObject (advance s)
      else if c = CHR '','' then stream_token ValueSeparator (advance s)
      else if c = CHR '':'' then stream_token NameSeparator (advance s)
      else if c = CHR ''n'' then stream_literal LiteralNull ''ull'' s
      else if c = CHR ''t'' then stream_literal LiteralTrue ''rue'' s
      else if c = CHR ''f'' then stream_literal LiteralFalse ''alse'' s
      else if c = CHR ''-'' then stream_negative s
      else if c = CHR ''0'' then stream_token ValueNumber (after_integer (mark (advance s)))
      else if is_digit c then stream_token ValueNumber (integer_digits (mark (advance s)))
      else if c = CHR 0x22 then stream_string s
      else if c = CHR 0xEF then
        (if fst (byte_order_mark s) then stream_scan (snd (byte_order_mark s))
         else stream_token ParseError (snd (byte_order_mark s)))
      else stream_token ParseError (advance s))"
  by pat_completeness auto
termination
proof (relation "measure (\<lambda>s. left (start_token s))", goal_cases)
  case (2 s0 s c)
  then have "yych s \<noteq> CHR 0x00" by auto
  with 2(1) show ?case using skip_blanks_left(2) [of s] by simp
next
  case (3 s0 s c)
  then have "yych s \<noteq> CHR 0x00" by auto
  with 3(1) show ?case using skip_blanks_left(1) [of s 1] by simp
next
  case (4 s0 s c)
  then have "yych s \<noteq> CHR 0x00" by auto
  with 4(1) show ?case using byte_order_mark_left [of s] by simp
qed simp

declare stream_scan.simps [simp del]


section \<open>Both scanners give the same tokens\<close>

text \<open>Only the end of the input is passed, and then nothing is pending.\<close>

definition readable :: "stream_lexer \<Rightarrow> bool" where
  "readable s \<longleftrightarrow> inside s \<or> pending (sl_stream s) = []"

definition same_token :: "stream_lexer lexer \<Rightarrow> string lexer \<Rightarrow> bool" where
  "same_token l k \<longleftrightarrow> l_token l = l_token k \<and> l_text l = l_text k \<and> remaining (l_rest l) = l_rest k \<and> readable (l_rest l)"

lemma stream_token_same:
  assumes "whole s = w" and "inside s" and "remaining s = r"
  shows "same_token (stream_token t s) (lexed t w r)"
  using assms by (auto simp: same_token_def stream_token_def readable_def remaining_def inside_def whole_def)

lemma number_end_none: "inside s \<Longrightarrow> \<not> is_digit (yych s) \<Longrightarrow> number_end (remaining s) = None"
  using peek_not [of s is_digit] by (auto simp: number_end_def is_digit_def split: list.split)

lemma number_end_digit:
  assumes "is_digit (yych s)"
  shows "number_end (remaining s) =
    Some (if yych s = CHR ''0'' then skip_fraction (remaining (advance s)) else skip_fraction (dropWhile is_digit (remaining (advance s))))"
  using peek [OF digit [OF assms]] assms by (simp add: number_end_def)

text \<open>Behind a digit, the first of the integer part.\<close>

lemma integer_reads:
  assumes "is_digit (yych s)"
  shows "whole (after_integer (mark (advance s))) = whole s \<and> inside (after_integer (mark (advance s))) \<and>
      remaining (after_integer (mark (advance s))) = skip_fraction (remaining (advance s))"
    and "whole (integer_digits (fill_below n (mark (advance s)))) = whole s \<and> inside (integer_digits (fill_below n (mark (advance s)))) \<and>
      remaining (integer_digits (fill_below n (mark (advance s)))) = skip_fraction (dropWhile is_digit (remaining (advance s)))"
    and "whole (integer_digits (mark (advance s))) = whole s \<and> inside (integer_digits (mark (advance s))) \<and>
      remaining (integer_digits (mark (advance s))) = skip_fraction (dropWhile is_digit (remaining (advance s)))"
  using peek [OF digit [OF assms]] after_integer_reads [of "mark (advance s)"]
    integer_digits_reads [of "fill_below n (mark (advance s))"] integer_digits_reads [of "mark (advance s)"]
  by simp_all

lemma stream_negative_same:
  assumes "yych s = CHR ''-''" and "whole s = CHR ''-'' # cs" and "remaining s = CHR ''-'' # cs"
  shows "same_token (stream_negative s)
    (case number_end cs of None \<Rightarrow> lexed ParseError (CHR ''-'' # cs) cs | Some r \<Rightarrow> lexed ValueNumber (CHR ''-'' # cs) r)"
proof -
  have step: "remaining (advance s) = cs" "inside (advance s)" using peek [of s] assms by auto
  show ?thesis
  proof (cases "is_digit (yych (advance s))")
    case True
    have "number_end cs = Some (if yych (advance s) = CHR ''0'' then skip_fraction (remaining (advance (advance s)))
        else skip_fraction (dropWhile is_digit (remaining (advance (advance s)))))"
      using number_end_digit [OF True] step(1) by simp
    then show ?thesis
      using True integer_reads(1) [OF True] integer_reads(2) [OF True, of 3] assms(2)
      by (auto simp: stream_negative_def Let_def stream_digits_def intro!: stream_token_same)
  next
    case False
    moreover have "yych (advance s) \<noteq> CHR ''0''" using False by (auto simp: is_digit_def)
    ultimately show ?thesis
      using number_end_none [OF step(2) False] step assms(2)
      by (auto simp: stream_negative_def Let_def intro!: stream_token_same)
  qed
qed

lemma stream_string_same:
  assumes "yych s = CHR 0x22" and "whole s = CHR 0x22 # cs" and "remaining s = CHR 0x22 # cs"
  shows "same_token (stream_string s)
    (case string_end cs of None \<Rightarrow> lexed ParseError (CHR 0x22 # cs) cs | Some r \<Rightarrow> lexed ValueString (CHR 0x22 # cs) r)"
proof -
  let ?s1 = "mark (advance s)"
  have step: "remaining ?s1 = cs" "inside ?s1" "whole ?s1 = CHR 0x22 # cs" using peek [of s] assms by auto
  show ?thesis
  proof (cases "(of_char (yych ?s1) :: nat) \<le> 0x0F")
    case True
    have "string_end cs = None"
      using peek_not [OF step(2), of "\<lambda>c. \<not> (of_char c :: nat) \<le> 0x0F"] True step(1)
      by (intro string_end_stops) (auto simp: is_string_char_def split: list.splits)
    with True step show ?thesis by (auto simp: stream_string_def Let_def intro!: stream_token_same)
  next
    case False
    obtain ok s2 where run: "lex_string ?s1 = (ok, s2)" by fastforce
    have read: "moved ?s1 s2" "string_read (string_end cs) (sl_cursor (advance s)) (ok, s2)"
      using lex_string_reads [OF step(2)] step(2) run step(1) by (simp_all add: inside_def)
    then have "remaining s2 = cs" if "\<not> ok"
      using that step(1) by (auto simp: string_read_def moved_def remaining_def split: option.splits)
    with False run read step(3) show ?thesis
      by (auto simp: stream_string_def Let_def string_read_def moved_def split: option.splits intro!: stream_token_same)
  qed
qed

lemma stream_literal_same:
  assumes "yych s \<noteq> CHR 0x00" and "whole s = c # cs" and "remaining s = c # cs" and "CHR 0x00 \<notin> set w" and "CHR 0x0A \<notin> set w"
  shows "same_token (stream_literal t w s) (scan_literal t w (c # cs) cs)"
proof -
  let ?s1 = "mark (advance s)"
  have step: "remaining ?s1 = cs" "inside ?s1" "whole ?s1 = c # cs" using peek [OF assms(1)] assms by auto
  obtain ok s2 where run: "lex_word w ?s1 = (ok, s2)" by fastforce
  have "whole s2 = c # cs" "inside s2" "ok = (take (length w) cs = w)" "remaining s2 = (if ok then drop (length w) cs else cs)"
    using lex_word_marked [OF assms(1,4,5) run] step assms(2) by simp_all
  then show ?thesis
    using run by (auto simp: stream_literal_def scan_literal_def intro!: stream_token_same)
qed


lemma scan_blank_prefix: "list_all is_ws w \<Longrightarrow> scan (w @ r) = scan r"
proof (induction w)
  case (Cons c w)
  have "scan (c # w @ r) = scan (dropWhile is_ws (w @ r))" using Cons.prems by (subst scan.simps) simp
  also have "\<dots> = scan (w @ r)"
  proof (cases "w @ r")
    case Nil
    then show ?thesis by simp
  next
    case cons: (Cons d t)
    show ?thesis
    proof (cases "is_ws d")
      case True
      then show ?thesis unfolding cons by (subst (2) scan.simps) simp
    qed (simp add: cons)
  qed
  finally show ?case using Cons by simp
qed simp

lemma remaining_readable: "readable s \<Longrightarrow> remaining (start_token s) = remaining s"
  by (auto simp: readable_def remaining_start) (simp add: remaining_def whole_def start_token_def)

lemma skip_blanks_scan:
  assumes "inside t"
  shows "inside (skip_blanks t)" "scan (remaining (skip_blanks t)) = scan (remaining t)"
proof -
  obtain w where "inside (skip_blanks t)" "list_all is_ws w" "remaining t = w @ remaining (skip_blanks t)"
    using skip_blanks_reads [OF assms] by blast
  then show "inside (skip_blanks t)" "scan (remaining (skip_blanks t)) = scan (remaining t)"
    by (simp_all add: scan_blank_prefix)
qed

text \<open>At a null character the token is a null character of the text or the end of it.\<close>

lemma fill_empty: "whole (fill_below 5 (start_token s)) = [] \<or> sl_text (fill_below 5 (start_token s)) \<noteq> []"
  by (auto simp: fill_below_def yyfill_def start_token_def whole_def pending_def split: prod.split)

lemma stream_end_same:
  assumes "s = fill_below 5 (start_token s0)" and "yych s = CHR 0x00"
  shows "same_token (stream_token EndOfInput (advance s)) (scan (remaining s))"
proof -
  have cursor: "sl_cursor s = 0" using assms(1) by (simp add: start_token_def)
  show ?thesis
  proof (cases "sl_text s")
    case Nil
    then have "whole s = []" using fill_empty [of s0] assms(1) by auto
    with Nil cursor show ?thesis
      by (simp add: same_token_def stream_token_def remaining_def whole_def readable_def scan.simps advance_def)
  next
    case (Cons c cs)
    with assms(2) cursor have "c = CHR 0x00" by (simp add: yych_def)
    moreover from Cons cursor have "inside (advance s)" "whole s = c # remaining (advance s)" "remaining s = c # remaining (advance s)"
      by (simp_all add: inside_def remaining_def whole_def advance_def)
    ultimately show ?thesis by (subst scan.simps) (auto simp: is_ws_def intro!: stream_token_same)
  qed
qed

text \<open>After the refill the scanner looks at the first character \<open>c\<close> of the text \<open>c # cs\<close> that is left.\<close>

definition dispatched :: "stream_lexer \<Rightarrow> stream_lexer \<Rightarrow> char \<Rightarrow> string \<Rightarrow> bool" where
  "dispatched s0 s c cs \<longleftrightarrow> fill_below 5 (start_token s0) = s \<and> yych s = c \<and> c \<noteq> CHR 0x00 \<and>
     whole s = c # cs \<and> remaining s = c # cs \<and> remaining (advance s) = cs \<and> inside (advance s)"

lemma dispatched_parts:
  assumes "dispatched s0 s c cs"
  shows "fill_below 5 (start_token s0) = s" "yych s = c" "c \<noteq> CHR 0x00" "whole s = c # cs" "remaining s = c # cs"
    "remaining (advance s) = cs" "inside (advance s)"
  using assms by (simp_all add: dispatched_def)

lemma dispatch:
  assumes "readable s0" and "fill_below 5 (start_token s0) = s" and "yych s \<noteq> CHR 0x00"
  shows "dispatched s0 s (yych s) (remaining (advance s))" "remaining s0 = yych s # remaining (advance s)"
proof -
  have same: "remaining s = remaining s0" using remaining_readable [OF assms(1)] by (simp flip: assms(2))
  note step = peek [OF assms(3)]
  then have "whole s = yych s # remaining (advance s)" by (simp add: remaining_def start_token_def flip: assms(2))
  then show "dispatched s0 s (yych s) (remaining (advance s))" using step assms by (simp add: dispatched_def)
  show "remaining s0 = yych s # remaining (advance s)" using step same by simp
qed

lemma stream_scan_keyword:
  assumes "dispatched s0 s c cs" and "c \<in> {CHR ''n'', CHR ''t'', CHR ''f''}"
  shows "same_token (stream_scan s0) (scan (c # cs))"
proof -
  note d = dispatched_parts [OF assms(1)]
  define t w where "t = (if c = CHR ''n'' then LiteralNull else if c = CHR ''t'' then LiteralTrue else LiteralFalse)"
    and "w = (if c = CHR ''n'' then ''ull'' else if c = CHR ''t'' then ''rue'' else ''alse'')"
  have "stream_scan s0 = stream_literal t w s"
    using assms(2) by (subst stream_scan.simps) (auto simp: Let_def d(1,2) t_def w_def)
  moreover have "scan (c # cs) = scan_literal t w (c # cs) cs"
    using assms(2) by (subst scan.simps) (auto simp: is_ws_def t_def w_def)
  moreover have "CHR 0x00 \<notin> set w" "CHR 0x0A \<notin> set w" using assms(2) by (auto simp: w_def)
  ultimately show ?thesis using stream_literal_same [OF _ d(4,5)] d(2,3) by simp
qed

lemma stream_scan_negative:
  assumes "dispatched s0 s c cs" and "c = CHR ''-''"
  shows "same_token (stream_scan s0) (scan (c # cs))"
proof -
  note d = dispatched_parts [OF assms(1)]
  have "stream_scan s0 = stream_negative s"
    using assms(2) by (subst stream_scan.simps) (simp add: Let_def d(1,2))
  moreover have "scan (c # cs) = (case number_end cs of None \<Rightarrow> lexed ParseError (c # cs) cs | Some r \<Rightarrow> lexed ValueNumber (c # cs) r)"
    using assms(2) by (subst scan.simps) (simp add: is_ws_def)
  ultimately show ?thesis using stream_negative_same [of s cs] d(2,4,5) unfolding assms(2) by simp
qed

lemma stream_scan_digit:
  assumes "dispatched s0 s c cs" and "is_digit c"
  shows "same_token (stream_scan s0) (scan (c # cs))"
proof -
  note d = dispatched_parts [OF assms(1)]
  have "c \<notin> {CHR 0x09, CHR 0x0D, CHR '' '', CHR 0x0A, CHR 0x00, CHR ''['', CHR '']'', CHR ''{'', CHR ''}'', CHR '','', CHR '':'',
      CHR ''n'', CHR ''t'', CHR ''f'', CHR ''-''}"
    using assms(2) by (intro notI) (auto simp: is_digit_def)
  note other = this [simplified]
  have run: "stream_scan s0 = stream_token ValueNumber
      (if c = CHR ''0'' then after_integer (mark (advance s)) else integer_digits (mark (advance s)))"
    using assms(2) other by (subst stream_scan.simps) (simp add: Let_def d(1,2))
  have read: "scan (c # cs) = (case number_end (c # cs) of None \<Rightarrow> lexed ParseError (c # cs) cs | Some r \<Rightarrow> lexed ValueNumber (c # cs) r)"
    using assms(2) other by (subst scan.simps) (simp add: is_ws_def)
  have digit: "is_digit (yych s)" using assms(2) d(2) by simp
  have "number_end (c # cs) = Some (if c = CHR ''0'' then skip_fraction cs else skip_fraction (dropWhile is_digit cs))"
    using number_end_digit [OF digit] d(2,5,6) by simp
  then show ?thesis
    using integer_reads(1,3) [OF digit] d(2,4,6) unfolding run read
    by (auto intro!: stream_token_same)
qed

lemma stream_scan_quote:
  assumes "dispatched s0 s c cs" and "c = CHR 0x22"
  shows "same_token (stream_scan s0) (scan (c # cs))"
proof -
  note d = dispatched_parts [OF assms(1)]
  have "stream_scan s0 = stream_string s"
    using assms(2) by (subst stream_scan.simps) (simp add: Let_def is_digit_def d(1,2))
  moreover have "scan (c # cs) = (case string_end cs of None \<Rightarrow> lexed ParseError (c # cs) cs | Some r \<Rightarrow> lexed ValueString (c # cs) r)"
    using assms(2) by (subst scan.simps) (simp add: is_ws_def is_digit_def)
  ultimately show ?thesis using stream_string_same [of s cs] d(2,4,5) unfolding assms(2) by simp
qed

text \<open>A byte order mark is passed over, and the scanner starts again.\<close>

lemma stream_scan_mark:
  assumes "dispatched s0 s c cs" and "c = CHR 0xEF" and "byte_order_mark s = (ok, s')"
    and "ok \<Longrightarrow> readable s' \<Longrightarrow> same_token (stream_scan s') (scan (remaining s'))"
  shows "same_token (stream_scan s0) (scan (c # cs))"
proof -
  note d = dispatched_parts [OF assms(1)]
  have run: "stream_scan s0 = (if ok then stream_scan s' else stream_token ParseError s')"
    using assms(2,3) by (subst stream_scan.simps) (simp add: Let_def is_digit_def d(1,2))
  have read: "scan (c # cs) = (if take 2 cs = [CHR 0xBB, CHR 0xBF] then scan (drop 2 cs) else lexed ParseError (c # cs) cs)"
    using assms(2) by (subst scan.simps) (simp add: is_ws_def is_digit_def)
  have s': "whole s' = c # cs" "inside s'" "ok = (take 2 cs = [CHR 0xBB, CHR 0xBF])" "remaining s' = (if ok then drop 2 cs else cs)"
    using byte_order_mark_reads [OF _ assms(3)] d(2-4,6) by simp_all
  show ?thesis
  proof (cases ok)
    case True
    with assms(4) s' show ?thesis by (simp add: run read readable_def)
  next
    case False
    with s' show ?thesis unfolding run read by (auto intro!: stream_token_same)
  qed
qed

lemma stream_scan_single:
  assumes "dispatched s0 s c cs" and "\<not> is_digit c"
    and "c \<notin> {CHR 0x09, CHR 0x0D, CHR '' '', CHR 0x0A, CHR ''n'', CHR ''t'', CHR ''f'', CHR ''-'', CHR 0x22, CHR 0xEF}"
  shows "same_token (stream_scan s0) (scan (c # cs))"
proof -
  note d = dispatched_parts [OF assms(1)]
  have zero: "c \<noteq> CHR ''0''" using assms(2) by (auto simp: is_digit_def)
  define single where "single =
    (if c = CHR ''['' then BeginArray else if c = CHR '']'' then EndArray else if c = CHR ''{'' then BeginObject
     else if c = CHR ''}'' then EndObject else if c = CHR '','' then ValueSeparator
     else if c = CHR '':'' then NameSeparator else ParseError)"
  have "stream_scan s0 = stream_token single (advance s)"
    using assms(2,3) d(3) zero unfolding single_def by (subst stream_scan.simps) (simp add: Let_def d(1,2))
  moreover have "scan (c # cs) = lexed single (c # cs) cs"
    using assms(2,3) d(3) unfolding single_def by (subst scan.simps) (simp add: is_ws_def)
  moreover have "same_token (stream_token single (advance s)) (lexed single (c # cs) cs)"
    by (rule stream_token_same) (simp_all add: d)
  ultimately show ?thesis by simp
qed

text \<open>Blanks are passed over too; a line feed may need the next line.\<close>

lemma stream_scan_blank:
  assumes "dispatched s0 s c cs" and "c \<in> {CHR 0x09, CHR 0x0D, CHR '' '', CHR 0x0A}"
    and "t = (if c = CHR 0x0A then fill_below 1 (advance s) else advance s)"
    and "readable (skip_blanks t) \<Longrightarrow> same_token (stream_scan (skip_blanks t)) (scan (remaining (skip_blanks t)))"
  shows "same_token (stream_scan s0) (scan (c # cs))"
proof -
  note d = dispatched_parts [OF assms(1)]
  have t: "inside t" "remaining t = cs" using assms(3) d(6,7) by simp_all
  have "stream_scan s0 = stream_scan (skip_blanks t)"
  proof (cases "c = CHR 0x0A")
    case True
    then show ?thesis unfolding assms(3) by (subst stream_scan.simps) (simp add: Let_def d(1,2))
  next
    case False
    with assms(2) have "c \<in> {CHR 0x09, CHR 0x0D, CHR '' ''}" by blast
    with False show ?thesis unfolding assms(3) by (subst stream_scan.simps) (simp only: Let_def d(1,2) d(3) if_True if_False)
  qed
  moreover have "scan (c # cs) = scan cs" using assms(2) scan_blank_prefix [of "[c]" cs] by (auto simp: is_ws_def)
  ultimately show ?thesis using assms(4) skip_blanks_scan [OF t(1)] t(2) by (simp add: readable_def)
qed

text \<open>The tokens of a stream are those of the text that is left in it.\<close>

lemma stream_scan_reads: "readable s0 \<Longrightarrow> same_token (stream_scan s0) (scan (remaining s0))"
proof (induction s0 rule: stream_scan.induct)
  case (1 s0)
  define s c cs where "s = fill_below 5 (start_token s0)" and "c = yych s" and "cs = remaining (advance s)"
  show ?case
  proof (cases "c = CHR 0x00")
    case True
    then have "stream_scan s0 = stream_token EndOfInput (advance s)"
      by (subst stream_scan.simps) (simp add: Let_def c_def s_def)
    with stream_end_same [OF s_def] True remaining_readable [OF "1.prems"] show ?thesis by (simp add: c_def s_def)
  next
    case False
    with dispatch [OF "1.prems" s_def [symmetric]] have d: "dispatched s0 s c cs" "remaining s0 = c # cs"
      by (simp_all add: c_def cs_def)
    obtain ok s' where mark: "byte_order_mark s = (ok, s')" by fastforce
    consider "c \<in> {CHR 0x09, CHR 0x0D, CHR '' ''}" | "c = CHR 0x0A" | "c \<in> {CHR ''n'', CHR ''t'', CHR ''f''}"
      | "c = CHR ''-''" | "is_digit c" | "c = CHR 0x22" | "c = CHR 0xEF"
      | (other) "\<not> is_digit c"
        "c \<notin> {CHR 0x09, CHR 0x0D, CHR '' '', CHR 0x0A, CHR ''n'', CHR ''t'', CHR ''f'', CHR ''-'', CHR 0x22, CHR 0xEF}"
      by (cases "is_digit c") auto
    then have "same_token (stream_scan s0) (scan (c # cs))"
    proof cases
      case 1
      then show ?thesis using "1.IH"(1) [OF s_def c_def 1] by (intro stream_scan_blank [OF d(1)]) auto
    next
      case 2
      then show ?thesis using "1.IH"(2) [OF s_def c_def _ 2] by (intro stream_scan_blank [OF d(1)]) auto
    next
      case 7
      then show ?thesis using "1.IH"(3) [OF s_def c_def] mark by (intro stream_scan_mark [OF d(1) _ mark]) (simp_all add: is_digit_def)
    qed (fact stream_scan_keyword [OF d(1)] stream_scan_negative [OF d(1)] stream_scan_digit [OF d(1)]
        stream_scan_quote [OF d(1)] stream_scan_single [OF d(1)])+
    with d(2) show ?thesis by simp
  qed
qed

section \<open>Scanners that give the same tokens give the same value\<close>

text \<open>
  Two scanners, related by what they have left, for which the parser cannot tell a difference: the same
  tokens with the same characters, and the same value of a number.
\<close>

definition alike ::
  "('a \<Rightarrow> 'b \<Rightarrow> bool) \<Rightarrow> ('a lexer \<Rightarrow> exn + json) \<Rightarrow> ('b lexer \<Rightarrow> exn + json) \<Rightarrow> 'a lexer \<Rightarrow> 'b lexer \<Rightarrow> bool" where
  "alike rel num1 num2 l k \<longleftrightarrow> l_token l = l_token k \<and> l_text l = l_text k \<and> rel (l_rest l) (l_rest k) \<and>
     (l_token k = ValueNumber \<longrightarrow> num1 l = num2 k)"

fun alike_results :: "('a \<Rightarrow> 'b \<Rightarrow> bool) \<Rightarrow> (json \<times> 'a) parsed \<Rightarrow> (json \<times> 'b) parsed \<Rightarrow> bool" where
  "alike_results eq (Some (Inr (v, l))) (Some (Inr (w, k))) \<longleftrightarrow> v = w \<and> eq l k"
| "alike_results eq (Some (Inl e)) (Some (Inl f)) \<longleftrightarrow> e = f"
| "alike_results eq None None \<longleftrightarrow> True"
| "alike_results eq _ _ \<longleftrightarrow> False"

lemma alike_raising:
  "(\<And>x. r = Inr x \<Longrightarrow> alike_results eq (f x) (g x)) \<Longrightarrow> alike_results eq (raising r f) (raising r g)"
  by (cases r) simp_all

lemma alike_parsing:
  assumes "alike_results eq p q" and "\<And>v l k. eq l k \<Longrightarrow> alike_results eq' (f (v, l)) (g (v, k))"
  shows "alike_results eq' (parsing p f) (parsing q g)"
  using assms by (induction eq p q rule: alike_results.induct) auto

lemma alike_parsing_same:
  assumes "alike_results eq p q" and "\<And>v l k. eq l k \<Longrightarrow> f (v, l) = g (v, k)"
  shows "parsing p f = parsing q g"
  using assms by (induction eq p q rule: alike_results.induct) auto

locale alike_scanners =
  fixes sc1 :: "'a \<Rightarrow> 'a lexer" and sc2 :: "'b \<Rightarrow> 'b lexer"
    and num1 :: "'a lexer \<Rightarrow> exn + json" and num2 :: "'b lexer \<Rightarrow> exn + json"
    and rel :: "'a \<Rightarrow> 'b \<Rightarrow> bool"
  assumes scans: "rel r1 r2 \<Longrightarrow> alike rel num1 num2 (sc1 r1) (sc2 r2)"
begin

abbreviation same_lexers :: "'a lexer \<Rightarrow> 'b lexer \<Rightarrow> bool" where
  "same_lexers \<equiv> alike rel num1 num2"

lemma next_alike: "same_lexers l k \<Longrightarrow> same_lexers (next_token sc1 l) (next_token sc2 k)"
  using scans by (simp add: next_token_def alike_def)

lemma separator_alike: "same_lexers l k \<Longrightarrow> same_lexers (skip_separator sc1 l) (skip_separator sc2 k)"
  using next_alike [of l k] by (simp add: skip_separator_def) (simp add: alike_def)

lemma checks_alike:
  assumes "same_lexers l k"
  shows "expect t l = expect t k" "unexpect t l = unexpect t k" "token_string l = token_string k" "l_token l = l_token k"
    "unexpected_text l = unexpected_text k"
  using assms by (simp_all add: alike_def expect_def unexpect_def unexpected_text_def token_string_def)

lemma parse_alike:
  "same_lexers l k \<Longrightarrow> alike_results same_lexers (parse_internal sc1 num1 n l) (parse_internal sc2 num2 n k)"
  "same_lexers l k \<Longrightarrow> alike_results same_lexers (parse_members sc1 num1 n members l) (parse_members sc2 num2 n members k)"
  "same_lexers l k \<Longrightarrow> alike_results same_lexers (parse_elements sc1 num1 n elements l) (parse_elements sc2 num2 n elements k)"
proof (induction n arbitrary: l k members elements)
  case 0
  { case 1 show ?case by simp next case 2 show ?case by simp next case 3 show ?case by simp }
next
  case (Suc n)
  {
    case 1
    note l1 = next_alike [OF 1]
    have num: "l_token k = ValueNumber \<Longrightarrow> num1 l = num2 k" using 1 by (simp add: alike_def)
    show ?case
      using Suc.IH(2,3) [OF l1] next_alike [OF l1] l1 num
      by (cases "l_token k")
        (auto simp: parse_internal.simps(2) Let_def checks_alike [OF 1] checks_alike [OF l1] unexpect_def
          intro!: alike_raising split: if_splits)
  next
    case 2
    let ?k1 = "skip_separator sc1 l" and ?k2 = "skip_separator sc2 k"
    note sep = separator_alike [OF 2]
    note colon = next_alike [OF sep]
    show ?case
      unfolding parse_members.simps(2) Let_def checks_alike [OF sep] checks_alike [OF colon]
      by (intro alike_raising alike_parsing [OF Suc.IH(1)] next_alike colon)
        (auto simp: checks_alike intro!: alike_raising Suc.IH(2) next_alike)
  next
    case 3
    show ?case
      unfolding parse_elements.simps(2)
      by (intro alike_parsing [OF Suc.IH(1)] separator_alike 3)
        (auto simp: checks_alike intro!: alike_raising Suc.IH(3) next_alike)
  }
qed

lemma parse_fuel_alike:
  assumes "rel r1 r2"
  shows "parse_fuel sc1 num1 n r1 = parse_fuel sc2 num2 n r2"
  unfolding parse_fuel_def
  by (rule alike_parsing_same [OF parse_alike(1) [OF scans [OF assms]]]) (simp add: checks_alike)

end


section \<open>A line feed at the end of the text\<close>

text \<open>A refill after the last line adds a line feed. It is no part of a token.\<close>

lemma takeWhile_line: "\<not> P (CHR 0x0A) \<Longrightarrow> dropWhile P (r @ [CHR 0x0A]) = dropWhile P r @ [CHR 0x0A]"
  by (induction r) simp_all

lemma exponent_end_line: "exponent_end (r @ [CHR 0x0A]) = map_option (\<lambda>t. t @ [CHR 0x0A]) (exponent_end r)"
proof -
  define ds where "ds t = (case t of [] \<Rightarrow> [] | c # cs \<Rightarrow> if c = CHR ''+'' \<or> c = CHR ''-'' then cs else t)" for t :: string
  have "ds (r @ [CHR 0x0A]) = ds r @ [CHR 0x0A]" by (cases r) (simp_all add: ds_def)
  moreover have "exponent_end t = (case ds t of [] \<Rightarrow> None | d # r \<Rightarrow> if is_digit d then Some (dropWhile is_digit r) else None)" for t
    by (simp add: exponent_end_def ds_def)
  ultimately show ?thesis by (cases "ds r") (simp_all add: takeWhile_line is_digit_def)
qed

lemma skip_exponent_line: "skip_exponent (r @ [CHR 0x0A]) = skip_exponent r @ [CHR 0x0A]"
  by (cases r) (simp_all add: skip_exponent_def exponent_end_line split: option.split)

lemma skip_fraction_line: "skip_fraction (r @ [CHR 0x0A]) = skip_fraction r @ [CHR 0x0A]"
proof (cases r)
  case (Cons c cs)
  then show ?thesis
    using skip_exponent_line [of r]
    by (cases cs) (simp_all add: skip_fraction_def takeWhile_line skip_exponent_line is_digit_def)
qed (simp add: skip_fraction_def skip_exponent_def)

lemma number_end_line: "number_end (r @ [CHR 0x0A]) = map_option (\<lambda>t. t @ [CHR 0x0A]) (number_end r)"
  by (cases r) (simp_all add: number_end_def skip_fraction_line takeWhile_line is_digit_def)

lemma take_line: "CHR 0x0A \<notin> set w \<Longrightarrow> take (length w) (r @ [CHR 0x0A]) = w \<longleftrightarrow> take (length w) r = w"
proof (cases "length w \<le> length r")
  case False
  assume "CHR 0x0A \<notin> set w"
  moreover have "take (length w) (r @ [CHR 0x0A]) = r @ [CHR 0x0A]" "take (length w) r = r" using False by simp_all
  ultimately show ?thesis using False by (metis in_set_conv_decomp le_refl)
qed simp

lemma hex_line: "4 \<le> length (r @ [CHR 0x0A]) \<and> list_all is_hex (take 4 (r @ [CHR 0x0A])) \<longleftrightarrow> 4 \<le> length r \<and> list_all is_hex (take 4 r)"
proof (cases "4 \<le> length r")
  case False
  then have "take 4 (r @ [CHR 0x0A]) = r @ [CHR 0x0A]" by simp
  with False show ?thesis using hex(2) by simp
qed simp

lemma string_end_line: "string_end (r @ [CHR 0x0A]) = map_option (\<lambda>t. t @ [CHR 0x0A]) (string_end r)"
proof (induction r rule: string_end.induct)
  case (1 s)
  show ?case
  proof (cases s)
    case Nil
    then show ?thesis by (simp add: string_end.simps is_string_char_def)
  next
    case (Cons c cs)
    show ?thesis
    proof (cases "c = CHR 0x5C")
      case True
      show ?thesis
      proof (cases cs)
        case Nil
        with Cons True show ?thesis by (simp add: string_end_escape) (simp add: string_end.simps is_string_char_def)
      next
        case (Cons e r)
        note s = \<open>s = c # cs\<close> Cons True
        have "\<not> is_string_char c" "c \<noteq> CHR 0x22" using True by (simp_all add: is_string_char_def)
        note ih = "1.IH"(2) [OF \<open>s = c # cs\<close> this True Cons] "1.IH"(3) [OF \<open>s = c # cs\<close> this True Cons]
        have "string_end (s @ [CHR 0x0A]) = string_end (CHR 0x5C # e # (r @ [CHR 0x0A]))" by (simp add: s)
        then show ?thesis
          using ih unfolding string_end_escape hex_line by (simp add: s string_end_escape)
      qed
    next
      case False
      then show ?thesis
        using "1.IH"(1) [OF Cons] unfolding Cons append_Cons by (subst (1 2) string_end.simps) simp
    qed
  qed
qed

definition line_end :: "string \<Rightarrow> string \<Rightarrow> bool" where
  "line_end r t \<longleftrightarrow> t = r \<or> t = r @ [CHR 0x0A]"

definition same_line :: "string lexer \<Rightarrow> string lexer \<Rightarrow> bool" where
  "same_line l k \<longleftrightarrow> l_token l = l_token k \<and> l_text l = l_text k \<and> line_end (l_rest l) (l_rest k)"

lemma lexed_line: "length r \<le> length w \<Longrightarrow> same_line (lexed t w r) (lexed t (w @ [CHR 0x0A]) (r @ [CHR 0x0A]))"
  by (simp add: same_line_def line_end_def)

lemma scan_literal_line:
  assumes "CHR 0x0A \<notin> set w"
  shows "same_line (scan_literal t w (c # cs) cs) (scan_literal t w (c # (cs @ [CHR 0x0A])) (cs @ [CHR 0x0A]))"
proof -
  note same = take_line [OF assms, of cs]
  show ?thesis
  proof (cases "take (length w) cs = w")
    case True
    then have "length w \<le> length cs" by (metis length_take min.cobounded1)
    with lexed_line [of "drop (length w) cs" "c # cs" t] show ?thesis
      unfolding scan_literal_def same by (simp add: True)
  next
    case False
    with lexed_line [of cs "c # cs" ParseError] show ?thesis unfolding scan_literal_def same by simp
  qed
qed

lemma case_line:
  assumes "end' = map_option (\<lambda>t. t @ [CHR 0x0A]) end" and "\<And>r. end = Some r \<Longrightarrow> length r \<le> length (c # cs)"
  shows "same_line (case end of None \<Rightarrow> lexed t (c # cs) cs | Some r \<Rightarrow> lexed u (c # cs) r)
    (case end' of None \<Rightarrow> lexed t (c # (cs @ [CHR 0x0A])) (cs @ [CHR 0x0A]) | Some r \<Rightarrow> lexed u (c # (cs @ [CHR 0x0A])) r)"
  using assms lexed_line [of _ "c # cs"] by (cases "end") auto

lemma scan_line: "same_line (scan s) (scan (s @ [CHR 0x0A]))"
proof (induction s rule: length_induct)
  case (1 s)
  show ?case
  proof (cases s)
    case Nil
    then show ?thesis
      by (subst (2) scan.simps) (simp add: is_ws_def same_line_def line_end_def)
  next
    case (Cons c cs)
    have branch: "same_line (if b then x else y) (if b then x' else y')"
      if "b \<Longrightarrow> same_line x x'" "\<not> b \<Longrightarrow> same_line y y'" for b x x' y y'
      using that by simp
    have blanks: "same_line (scan (dropWhile is_ws cs)) (scan (dropWhile is_ws (cs @ [CHR 0x0A])))"
    proof (cases "dropWhile is_ws cs")
      case Nil
      then have "dropWhile is_ws (cs @ [CHR 0x0A]) = []" by (simp add: is_ws_def)
      then show ?thesis unfolding Nil by (simp add: same_line_def line_end_def)
    next
      case cons: (Cons d ds)
      then have "dropWhile is_ws (cs @ [CHR 0x0A]) = dropWhile is_ws cs @ [CHR 0x0A]"
        by (metis dropWhile_append3 dropWhile_append1 dropWhile_eq_Nil_conv list.distinct(1))
      then show ?thesis using "1.IH" Cons dropWhile_shorter [of is_ws cs] by simp
    qed
    have mark: "same_line (if take 2 cs = [CHR 0xBB, CHR 0xBF] then scan (drop 2 cs) else lexed ParseError (c # cs) cs)
      (if take 2 (cs @ [CHR 0x0A]) = [CHR 0xBB, CHR 0xBF] then scan (drop 2 (cs @ [CHR 0x0A]))
       else lexed ParseError (c # (cs @ [CHR 0x0A])) (cs @ [CHR 0x0A]))"
    proof (cases "take 2 cs = [CHR 0xBB, CHR 0xBF]")
      case True
      then have "2 \<le> length cs" by (metis length_take min.cobounded1 One_nat_def Suc_1 list.size(3,4) add.right_neutral add_Suc_right)
      with True "1.IH" Cons show ?thesis by simp
    next
      case False
      with take_line [of "[CHR 0xBB, CHR 0xBF]" cs] lexed_line [of cs "c # cs"] show ?thesis by (simp add: numeral_2_eq_2)
    qed
    have leaf: "same_line (lexed t (c # cs) cs) (lexed t (c # (cs @ [CHR 0x0A])) (cs @ [CHR 0x0A]))" for t
      using lexed_line [of cs "c # cs" t] by simp
    have number: "number_end (c # (cs @ [CHR 0x0A])) = map_option (\<lambda>t. t @ [CHR 0x0A]) (number_end (c # cs))"
      using number_end_line [of "c # cs"] by simp
    have short: "length r \<le> length (c # cs)"
      if "number_end cs = Some r \<or> number_end (c # cs) = Some r \<or> string_end cs = Some r" for r
      using that number_end_shorter [of cs r] number_end_shorter [of "c # cs" r] string_end_shorter [of cs r] by auto
    show ?thesis
      unfolding Cons append_Cons
      by (subst (1 2) scan.simps, unfold list.case)
        (intro branch blanks leaf mark scan_literal_line case_line number number_end_line string_end_line,
          use short in auto)
  qed
qed

section \<open>Numbers\<close>

text \<open>\<open>get_number\<close> sees the token and the rest of the buffer.\<close>

definition stream_number :: "(string \<Rightarrow> 64 word \<times> nat) \<Rightarrow> stream_lexer lexer \<Rightarrow> exn + json" where
  "stream_number strtod l = parse_number strtod (l_text l) (drop (sl_cursor (l_rest l)) (sl_text (l_rest l)))"

text \<open>The characters of a number token, which is not empty and starts with no blank.\<close>

definition number_text :: "string lexer \<Rightarrow> bool" where
  "number_text l \<longleftrightarrow> (l_token l = ValueNumber \<longrightarrow> (\<exists>c cs. l_text l = c # cs \<and> \<not> is_space c))"

lemma scan_number_text: "number_text (scan s)"
proof (induction s rule: length_induct)
  case (1 s)
  show ?case
  proof (cases s)
    case Nil
    then show ?thesis by (simp add: number_text_def scan.simps)
  next
    case (Cons c cs)
    have branch: "number_text (if b then x else y)" if "b \<Longrightarrow> number_text x" "\<not> b \<Longrightarrow> number_text y" for b x y
      using that by simp
    have again: "number_text (scan (dropWhile is_ws cs))" "number_text (scan (drop 2 cs))"
      using "1.IH" dropWhile_shorter [of is_ws cs] by (simp_all add: Cons)
    have other: "t \<noteq> ValueNumber \<Longrightarrow> number_text (lexed t x y)" for t x y by (simp add: number_text_def)
    have literal: "t \<noteq> ValueNumber \<Longrightarrow> number_text (scan_literal t w x y)" for t w x y
      by (simp add: number_text_def scan_literal_def)
    have number: "number_text (lexed ValueNumber (c # cs) r)"
      if "c = CHR ''-'' \<or> is_digit c" "length r < length (c # cs)" for r
    proof -
      have "\<not> is_space c" using that(1) is_digit_not_space by (auto simp: is_space_def)
      with that(2) show ?thesis by (cases "length (c # cs) - length r") (auto simp: number_text_def)
    qed
    have numbers: "number_text (case number_end t of None \<Rightarrow> lexed ParseError (c # cs) cs | Some r \<Rightarrow> lexed ValueNumber (c # cs) r)"
      if "c = CHR ''-'' \<or> is_digit c" "length t \<le> length (c # cs)" for t
      using number [OF that(1)] that(2) number_end_shorter [of t] other [of ParseError] by (cases "number_end t") force+
    have string: "number_text (case string_end cs of None \<Rightarrow> lexed ParseError (c # cs) cs | Some r \<Rightarrow> lexed ValueString (c # cs) r)"
      using other by (cases "string_end cs") simp_all
    show ?thesis
      unfolding Cons
      by (subst scan.simps, unfold list.case)
        (intro branch again literal numbers string other; simp)
  qed
qed

text \<open>\<open>strtod\<close> stops at the end of a line.\<close>

definition strtod_lines :: "(string \<Rightarrow> 64 word \<times> nat) \<Rightarrow> bool" where
  "strtod_lines strtod \<longleftrightarrow> (\<forall>c x y. \<not> is_space c \<longrightarrow> strtod (c # x @ CHR 0x0A # y) = strtod (c # x))"

lemma decimal_strtod_lines: "strtod_lines decimal_strtod"
proof -
  have "takeWhile is_digit (x @ CHR 0x0A # y) = takeWhile is_digit x" for x y
    by (induction x) (simp_all add: is_digit_def)
  from this [of "c # x" for c x] this show ?thesis
    unfolding strtod_lines_def decimal_strtod_def Let_def by simp
qed

text \<open>The text a stream still has: it, or it and the line feed of the last refill.\<close>

definition stream_has :: "stream_lexer \<Rightarrow> string \<Rightarrow> bool" where
  "stream_has s r \<longleftrightarrow> readable s \<and> remaining s = r"

lemma pending_line: "pending i = [] \<or> (\<exists>y. pending i = CHR 0x0A # y)"
  by (simp add: pending_def)

lemma remaining_buffer:
  assumes "readable s"
  shows "remaining s = drop (sl_cursor s) (sl_text s) @ pending (sl_stream s)"
  using assms by (auto simp: readable_def inside_def remaining_def whole_def)

lemma stream_start_has:
  "stream_has (stream_start t) (t @ (if t = [] \<or> last t = CHR 0x0A then [] else [CHR 0x0A]))"
proof -
  let ?i = "\<lparr>is_text = t, is_eof = False, is_fail = False\<rparr>"
  obtain line i where get: "getline ?i = (line, i)" by fastforce
  have "pending ?i = CHR 0x0A # line @ pending i" by (rule getline_pending [OF _ get]) simp
  moreover have "pending ?i = CHR 0x0A # t @ (if t = [] \<or> last t = CHR 0x0A then [] else [CHR 0x0A])"
    by (simp add: pending_def)
  ultimately show ?thesis
    by (simp add: stream_has_def stream_start_def get readable_def inside_def remaining_def whole_def)
qed

locale line_strtod =
  fixes strtod :: "string \<Rightarrow> 64 word \<times> nat"
  assumes lines: "strtod_lines strtod"
begin

lemma same_number:
  assumes "number_text k" and "l_token k = ValueNumber" and "r' = r \<or> (\<exists>y. r' = r @ CHR 0x0A # y)"
  shows "parse_number strtod (l_text k) r = parse_number strtod (l_text k) r'"
proof -
  obtain c cs where c: "l_text k = c # cs" "\<not> is_space c" using assms(1,2) by (auto simp: number_text_def)
  have "strtod (c # x @ CHR 0x0A # y) = strtod (c # x)" for x y
    using lines c(2) by (simp add: strtod_lines_def)
  from this [of "cs @ r"] have "strtod (l_text k @ r') = strtod (l_text k @ r)" using assms(3) c(1) by auto
  then show ?thesis by (simp add: parse_number_def get_number_def)
qed

end

sublocale line_strtod \<subseteq> stream: alike_scanners stream_scan scan "stream_number strtod" "text_number strtod" stream_has
proof (unfold_locales, goal_cases)
  case (1 s r)
  then have same: "same_token (stream_scan s) (scan r)" using stream_scan_reads [of s] by (simp add: stream_has_def)
  let ?l = "l_rest (stream_scan s)"
  have "l_rest (scan r) = drop (sl_cursor ?l) (sl_text ?l) @ pending (sl_stream ?l)"
    using same remaining_buffer [of ?l] by (simp add: same_token_def)
  with pending_line [of "sl_stream ?l"] have "l_token (scan r) = ValueNumber \<Longrightarrow>
      stream_number strtod (stream_scan s) = text_number strtod (scan r)"
    using same same_number [OF scan_number_text [of r]] by (auto simp: stream_number_def text_number_def same_token_def)
  with same show ?case by (simp add: alike_def same_token_def stream_has_def)
qed

sublocale line_strtod \<subseteq> line: alike_scanners scan scan "text_number strtod" "text_number strtod" line_end
proof (unfold_locales, goal_cases)
  case (1 r t)
  then have same: "same_line (scan r) (scan t)" using scan_line [of r] by (auto simp: line_end_def same_line_def)
  then have "l_token (scan t) = ValueNumber \<Longrightarrow> text_number strtod (scan r) = text_number strtod (scan t)"
    using same_number [OF scan_number_text [of t], of "l_rest (scan t)" "l_rest (scan r)"]
    by (auto simp: text_number_def same_line_def line_end_def)
  with same show ?case by (simp add: alike_def same_line_def)
qed

section \<open>Parsing a stream\<close>

text \<open>\<open>istr >> doc\<close>, where \<open>istr\<close> is a stream on the text.\<close>

definition stream_parse :: "(string \<Rightarrow> 64 word \<times> nat) \<Rightarrow> string \<Rightarrow> exn + json" where
  "stream_parse strtod t = the (parse_fuel stream_scan (stream_number strtod) (2 * length t + 1) (stream_start t))"

context line_strtod begin

lemma stream_parses:
  "parse_fuel stream_scan (stream_number strtod) n (stream_start t) = parse_fuel scan (text_number strtod) n t"
  using stream.parse_fuel_alike [OF stream_start_has] line.parse_fuel_alike [of t "t @ [CHR 0x0A]"]
  by (simp add: line_end_def)

lemma stream_parse_text: "stream_parse strtod t = json_parse strtod t"
  by (simp add: stream_parse_def json_parse_def stream_parses)

end

interpretation decimal: line_strtod decimal_strtod
  by unfold_locales (rule decimal_strtod_lines)

section \<open>Property\<close>

text \<open>
  C19. Reading a request from its stream, whose lexer holds one line at a time and refills its buffer while it is
  in the middle of a token, ends and gives what reading the whole text at once gives: the same value
  or the same exception, for every text. What it relies on is that \<open>strtod\<close> stops at a line feed.
\<close>

theorem stream_reads_text:
  assumes "strtod_lines strtod"
  shows "parse_fuel stream_scan (stream_number strtod) (2 * length t + 1) (stream_start t) = Some (stream_parse strtod t) \<and>
    stream_parse strtod t = json_parse strtod t"
  using line_strtod.stream_parses [OF line_strtod.intro [OF assms]] line_strtod.stream_parse_text [OF line_strtod.intro [OF assms]]
    parse_total_fuel [of strtod t]
  unfolding stream_parse_def by (metis option.collapse)

text \<open>An object that \<open>dump\<close> writes on four lines.\<close>

theorem stream_reads_text_witness:
  "stream_parse decimal_strtod (dump (\<lambda>w. []) True 2 0 (JObject [(''a'', JInt 1), (''b'', JString ''x'')])) =
    Inr (JObject [(''a'', JInt 1), (''b'', JString ''x'')])"
proof -
  have "exact (JObject [(''a'', JInt 1), (''b'', JString ''x'')])" by (simp add: omap_inv_def)
  from exact_read [OF decimal_strtod_integers this end_of_text(1,2)] show ?thesis
    unfolding stream_reads_text [OF decimal_strtod_lines, THEN conjunct2] append_Nil2 .
qed

end
