(* ===== verification/R_Session.thy ===== *)
theory R_Session
  imports Json_Command Json_Stream Wire_Protocol Env_Watcher File_Manager Scope_Guards
begin

text \<open>
  \<open>src/RSession.cpp\<close>: the session that runs R for one client. Its state extends that of the file
  manager it owns. The client is a socket: what was written to it is \<open>rs_out\<close>, and the blocks that
  arrive are arguments of the read callback \<open>handleJsonStatic\<close>. The two kinds of one-shot timer
  events the session schedules are kept in the list \<open>rs_events\<close>.

  While R evaluates, it calls the session back for each piece of console output
  (\<open>RSessionCallbacks::WriteConsole\<close>); an evaluation is the outside call, which gives the new world
  and the writes, followed by the callback on each write in order.
\<close>

section \<open>The environment\<close>

text \<open>
  Next to the operating system and R's accessors, the model takes \<open>strtod\<close>, the printing of
  floating-point numbers, and the parts of RInside that the session alone uses: the
  two-argument \<open>parseEval\<close> (its status, and the object it stored, if it stored one) and
  \<open>parseEvalNT\<close>. \<open>env_depth\<close> is the stack depth of \<open>valueToJson\<close>.
\<close>

record 'w env =
  env_sys :: "'w sys"
  env_api :: "'w rapi"
  env_strtod :: "string \<Rightarrow> 64 word \<times> nat"
  env_show_float :: "64 word \<Rightarrow> string"
  env_eval_status :: "string \<Rightarrow> 'w \<Rightarrow> ((int \<times> sexp option) \<times> console_write list) \<times> 'w"
  env_eval_nt :: "string \<Rightarrow> 'w \<Rightarrow> console_write list \<times> 'w"
  env_depth :: nat

text \<open>\<open>istr >> doc\<close>.\<close>

definition env_parse :: "'w env \<Rightarrow> string \<Rightarrow> exn + json" where
  "env_parse env = stream_parse (env_strtod env)"

section \<open>State\<close>

datatype session_event =
    ExecCompleteArgs json_command int file_info
  | DelayCommandArgs string

text \<open>A libevent object: the null pointer, alive, or freed with the pointer left as it was.\<close>

datatype object_ptr = Null | Live | Freed

record 'w session = "'w fm" +
  rs_eventBase :: bool
  rs_eventBuffer :: object_ptr
  rs_outBuffer :: bool
  rs_inputBuffer :: input_buffer
  rs_tmpDir :: "temporary_directory option"
  rs_envWatcher :: bool
  rs_lastVars :: "variable list"
  rs_consoleOutBuffer :: string
  rs_stdOutCapture :: string
  rs_wspaceId :: int
  rs_sessionRecId :: int
  rs_socket :: int
  rs_currentQueryId :: int
  rs_open :: bool
  rs_ignoreOutput :: bool
  rs_captureStdOut :: bool
  rs_sourceInProgress :: bool
  rs_watchVariables :: bool
  rs_properlyClosed :: bool
  rs_out :: string
  rs_events :: "session_event list"
  rs_loopbreak :: bool

definition no_file :: file_info where
  "no_file = \<lparr>info_id = 0, info_version = 0, info_name = []\<rparr>"

text \<open>\<open>FileInfo(const FileInfo *ptr)\<close>.\<close>

definition file_info_from :: "file_info option \<Rightarrow> file_info" where
  "file_info_from ptr = (case ptr of None \<Rightarrow> no_file | Some i \<Rightarrow> i)"

definition kError_Execfile_InvalidInput :: int where "kError_Execfile_InvalidInput = 103"
definition kError_ExecFile_MarkdownFailed :: int where "kError_ExecFile_MarkdownFailed = 104"
definition kErrfor_UnknownFile :: int where "kErrfor_UnknownFile = 105"

section \<open>Sending\<close>

definition json_text :: "'w env \<Rightarrow> json \<Rightarrow> string" where
  "json_text env j = json_dump (env_show_float env) j"

text \<open>A session without a socket (as in the unit tests) only logs the message.\<close>

definition sendJsonToClientSource :: "string \<Rightarrow> (('w, 'z) session_scheme, unit) act" where
  "sendJsonToClientSource json =
     (if length json < 1 then skip
      else
        bind (gets rs_socket) (\<lambda>socket.
        if 0 < socket then
          bind (gets (\<lambda>s. rs_outBuffer s \<and> rs_eventBuffer s = Live)) (\<lambda>ready.
          if ready then modify (\<lambda>s. s\<lparr>rs_out := rs_out s @ frame_message json\<rparr>)
          else throw (UB ''evbuffer_add or bufferevent_write_buffer on a dead object''))
        else skip))"

definition formatErrorAsJson :: "'w env \<Rightarrow> int \<Rightarrow> string \<Rightarrow> int \<Rightarrow> string" where
  "formatErrorAsJson env errorCode details queryId =
     (let response = json_object
        [(''msg'', JString ''error''), (''errorCode'', JInt errorCode), (''errorDetails'', JString details)] in
      json_text env
        (if 0 < queryId then (case json_set ''queryId'' (JInt queryId) response of Inr j \<Rightarrow> j | Inl _ \<Rightarrow> response)
         else response))"

definition formatStringAsJson :: "'w env \<Rightarrow> string \<Rightarrow> bool \<Rightarrow> (('w, 'z) session_scheme, string) act" where
  "formatStringAsJson env input is_error =
     (if length input < 1 then ret []
      else
        bind (gets rs_sourceInProgress) (\<lambda>sourcing.
        bind (gets rs_currentQueryId) (\<lambda>queryId.
        let output = (if sourcing then strip_value_echo (env_sys env) input else input);
            response = json_object
              [(''msg'', JString ''results''), (''string'', JString output),
               (if is_error then ''stderr'' else ''stdout'', JBool True)] in
        bind (if 0 < queryId then lift (json_set ''queryId'' (JInt queryId) response) else ret response) (\<lambda>response.
        ret (json_text env response)))))"

definition sendTextToClient :: "'w env \<Rightarrow> string \<Rightarrow> bool \<Rightarrow> (('w, 'z) session_scheme, unit) act" where
  "sendTextToClient env text is_error =
     bind (formatStringAsJson env text is_error) sendJsonToClientSource"

definition sendOutputBufferToClient :: "'w env \<Rightarrow> bool \<Rightarrow> (('w, 'z) session_scheme, unit) act" where
  "sendOutputBufferToClient env is_error =
     bind (gets rs_consoleOutBuffer) (\<lambda>text.
     if 0 < length text then
       seq (sendTextToClient env text is_error) (modify (\<lambda>s. s\<lparr>rs_consoleOutBuffer := []\<rparr>))
     else skip)"

section \<open>Console output\<close>

definition consoleCallback :: "'w env \<Rightarrow> string \<Rightarrow> bool \<Rightarrow> bool \<Rightarrow> (('w, 'z) session_scheme, unit) act" where
  "consoleCallback env text is_error R_Visible =
     bind (gets (\<lambda>s. s)) (\<lambda>s.
     if rs_captureStdOut s then modify (\<lambda>s. s\<lparr>rs_stdOutCapture := rs_stdOutCapture s @ text\<rparr>)
     else if rs_ignoreOutput s then skip
     else if is_error then bind (formatStringAsJson env text True) sendJsonToClientSource
     else if R_Visible \<or> rs_sourceInProgress s
       then modify (\<lambda>s. s\<lparr>rs_consoleOutBuffer := rs_consoleOutBuffer s @ text\<rparr>)
     else skip)"

text \<open>\<open>RSessionCallbacks::WriteConsole\<close>.\<close>

definition WriteConsole :: "'w env \<Rightarrow> console_write \<Rightarrow> (('w, 'z) session_scheme, unit) act" where
  "WriteConsole env w = consoleCallback env (cw_text w) (0 < cw_type w) (cw_visible w)"

section \<open>Evaluating R code\<close>

definition console :: "'w env \<Rightarrow> ('w \<Rightarrow> ('a \<times> console_write list) \<times> 'w) \<Rightarrow> (('w, 'z) session_scheme, 'a) act" where
  "console env f = bind (os_do f) (\<lambda>(a, writes). seq (for_each writes (WriteConsole env)) (ret a))"

definition with_unit :: "('w \<Rightarrow> console_write list \<times> 'w) \<Rightarrow> 'w \<Rightarrow> (unit \<times> console_write list) \<times> 'w" where
  "with_unit f w = (case f w of (writes, w') \<Rightarrow> (((), writes), w'))"

definition parseEvalQNT :: "'w env \<Rightarrow> string \<Rightarrow> (('w, 'z) session_scheme, unit) act" where
  "parseEvalQNT env cmd = console env (with_unit (r_parse_eval_qnt (env_sys env) cmd))"

definition parseEvalNT :: "'w env \<Rightarrow> string \<Rightarrow> (('w, 'z) session_scheme, unit) act" where
  "parseEvalNT env cmd = console env (with_unit (env_eval_nt env cmd))"

definition parseEvalR :: "'w env \<Rightarrow> string \<Rightarrow> (('w, 'z) session_scheme, parse_eval_result) act" where
  "parseEvalR env cmd = console env (r_parse_eval_r (env_sys env) cmd)"

definition parseEval :: "'w env \<Rightarrow> string \<Rightarrow> (('w, 'z) session_scheme, sexp) act" where
  "parseEval env cmd = bind (console env (r_parse_eval (env_sys env) cmd)) lift"

definition put_ignoreOutput :: "bool \<Rightarrow> ('w, 'z) session_scheme \<Rightarrow> ('w, 'z) session_scheme" where
  "put_ignoreOutput b s = s\<lparr>rs_ignoreOutput := b\<rparr>"

interpretation ignore: flag rs_ignoreOutput put_ignoreOutput
  by unfold_locales (simp add: put_ignoreOutput_def)

definition setIgnoreOutput :: "bool \<Rightarrow> (('w, 'z) session_scheme, unit) act" where
  "setIgnoreOutput b = modify (put_ignoreOutput b)"

text \<open>\<open>NotifySuspender\<close>: its destructor clears the flag whatever it was before.\<close>

definition NotifySuspender :: "(('w, 'z) session_scheme, 'a) act \<Rightarrow> (('w, 'z) session_scheme, 'a) act" where
  "NotifySuspender m = guarded (put_ignoreOutput True) (put_ignoreOutput False) m"

text \<open>When the evaluation stores no object, \<open>result = sr\<close> reads an uninitialised variable.\<close>

definition executeCallback :: "'w env \<Rightarrow> ('w, 'z) session_scheme callback" where
  "executeCallback env cmd =
     bind (BooleanWatcher put_ignoreOutput (console env (env_eval_status env cmd))) (\<lambda>(rc, sr).
     bind (unwrap (UB ''uninitialised SEXP'') sr) (\<lambda>result. ret (rc = 0, result)))"

text \<open>\<open>rc2.pngoff()\<close> makes R write the images it has open.\<close>

definition flushOutputBuffer :: "'w env \<Rightarrow> (('w, 'z) session_scheme, unit) act" where
  "flushOutputBuffer env =
     seq (setIgnoreOutput True)
     (seq (parseEvalQNT env ''rc2.pngoff()'')
     (seq (setIgnoreOutput False)
     (sendOutputBufferToClient env False)))"

section \<open>Acknowledging executions\<close>

definition addImagesToJson :: "json \<Rightarrow> (('w, 'z) session_scheme, json) act" where
  "addImagesToJson json =
     bind checkWatch (\<lambda>(imageIds, batchId).
     bind (if 0 < length imageIds then put ''images'' (json_ints imageIds) json else ret json) (\<lambda>json.
     if 0 < batchId then put ''imgBatch'' (JInt batchId) json else ret json))"

definition acknowledgeExecComplete ::
    "'w env \<Rightarrow> json_command \<Rightarrow> int \<Rightarrow> bool \<Rightarrow> (('w, 'z) session_scheme, string) act" where
  "acknowledgeExecComplete env command queryId expectShowOutput =
     seq (cleanupImageWatch (env_sys env))
     (bind (put ''msg'' (JString ''execComplete'') JNull) (\<lambda>results.
      bind (lift (startTimeStr command)) (\<lambda>startTime.
      bind (put ''startTime'' (JString startTime) results) (\<lambda>results.
      bind (if 0 < queryId then put ''queryId'' (JInt queryId) results else ret results) (\<lambda>results.
      bind (lift (clientData command)) (\<lambda>data.
      bind (if data \<noteq> JNull then put ''clientData'' data results else ret results) (\<lambda>results.
      bind (put ''expectShowOutput'' (JBool expectShowOutput) results) (\<lambda>results.
      bind (addImagesToJson results) (\<lambda>results.
      ret (json_text env results))))))))))"

definition scheduleExecComplete ::
    "json_command \<Rightarrow> int \<Rightarrow> file_info option \<Rightarrow> (('w, 'z) session_scheme, unit) act" where
  "scheduleExecComplete command queryId info =
     modify (\<lambda>s. s\<lparr>rs_events := rs_events s @ [ExecCompleteArgs command queryId (file_info_from info)]\<rparr>)"

definition scheduleDelayedCommand :: "string \<Rightarrow> (('w, 'z) session_scheme, unit) act" where
  "scheduleDelayedCommand json = modify (\<lambda>s. s\<lparr>rs_events := rs_events s @ [DelayCommandArgs json]\<rparr>)"

text \<open>A file that is gone leaves \<open>args->finfo\<close> as it was when the execution ended.\<close>

definition handleExecComplete ::
    "'w env \<Rightarrow> json_command \<Rightarrow> int \<Rightarrow> file_info \<Rightarrow> (('w, 'z) session_scheme, unit) act" where
  "handleExecComplete env command queryId finfo =
     (let gotFileInfo = 0 < info_id finfo in
      bind (acknowledgeExecComplete env command queryId gotFileInfo) (\<lambda>s.
      seq (sendJsonToClientSource s)
      (if gotFileInfo then
         bind (fileInfoForId (info_id finfo)) (\<lambda>found.
         let finfo = (case found of None \<Rightarrow> finfo | Some i \<Rightarrow> i) in
         sendJsonToClientSource (json_text env (json_object
           [(''msg'', JString ''showoutput''), (''fileId'', JInt (info_id finfo)),
            (''fileName'', JString (info_name finfo)), (''fileVersion'', JInt (info_version finfo))])))
       else skip)))"

end
