(* ===== verification/Session_Commands.thy ===== *)
theory Session_Commands
  imports R_Session
begin

text \<open>
  The commands of a session (\<open>src/RSession.cpp\<close>): opening and closing, scripts, files of the three
  supported kinds, variables, help, and the dispatch from a block of bytes that arrives on the
  socket to the handler of the command in it.
\<close>

section \<open>Variables\<close>

text \<open>\<open>envWatcher->...\<close>\<close>

definition on_watcher :: "(('w, 'z) session_scheme, 'a) act \<Rightarrow> (('w, 'z) session_scheme, 'a) act" where
  "on_watcher m = bind (gets rs_envWatcher) (\<lambda>b. if b then m else throw (UB ''null EnvironmentWatcher''))"

definition capture :: "'w env \<Rightarrow> (('w, 'z) session_scheme, unit) act" where
  "capture env = on_watcher (captureEnvironment (env_api env) rs_lastVars_update)"

definition watch_jsonDelta :: "'w env \<Rightarrow> (('w, 'z) session_scheme, json) act" where
  "watch_jsonDelta env =
     on_watcher
       (bind (gets rs_lastVars) (\<lambda>lastVars.
        bind (jsonDelta (env_api env) (executeCallback env) (env_depth env) lastVars) (\<lambda>(j, lastVars).
        seq (modify (\<lambda>s. s\<lparr>rs_lastVars := lastVars\<rparr>)) (ret j))))"

definition watch_toJson :: "'w env \<Rightarrow> (('w, 'z) session_scheme, json) act" where
  "watch_toJson env = on_watcher (toJson (env_api env) (executeCallback env) (env_depth env))"

definition handleListVariablesCommand :: "'w env \<Rightarrow> bool \<Rightarrow> json_command \<Rightarrow> (('w, 'z) session_scheme, unit) act" where
  "handleListVariablesCommand env delta command =
     bind (if delta then watch_jsonDelta env else watch_toJson env) (\<lambda>vars.
     let results = json_object [(''variables'', vars), (''msg'', JString ''variableupdate''), (''delta'', JBool delta)] in
     bind (lift (clientData command)) (\<lambda>data.
     bind (if data \<noteq> JNull then put ''clientData'' data results else ret results) (\<lambda>results.
     sendJsonToClientSource (json_text env results))))"

definition handleGetVariableCommand :: "'w env \<Rightarrow> json_command \<Rightarrow> (('w, 'z) session_scheme, unit) act" where
  "handleGetVariableCommand env command =
     bind (lift (argument command)) (\<lambda>name.
     bind (on_watcher (toJson_variable (env_api env) (executeCallback env) (env_depth env) name)) (\<lambda>value.
     bind (lift (startTimeStr command)) (\<lambda>startTime.
     sendJsonToClientSource (json_text env (json_object
       [(''msg'', JString ''variablevalue''), (''name'', JString name), (''value'', value),
        (''startTime'', JString startTime)])))))"

section \<open>Help\<close>

definition handleHelpCommand :: "'w env \<Rightarrow> json_command \<Rightarrow> (('w, 'z) session_scheme, unit) act" where
  "handleHelpCommand env command =
     bind (lift (argument command)) (\<lambda>topic.
     seq (setIgnoreOutput True)
     (seq
       (try_catch is_runtime_error
         (bind (parseEval env (''help('' @ [CHR 0x22] @ escape_quotes topic @ [CHR 0x22] @ '')'')) (\<lambda>result.
          bind (rdx (r_help_paths (env_sys env) result)) (\<lambda>paths.
          sendJsonToClientSource (json_text env (json_object
            [(''msg'', JString ''help''), (''topic'', JString topic), (''paths'', json_strings paths)])))))
         (\<lambda>err. skip))
       (setIgnoreOutput False)))"

section \<open>Closing\<close>

definition handleSaveEnvCommand :: "'w env \<Rightarrow> (('w, 'z) session_scheme, unit) act" where
  "handleSaveEnvCommand env = seq (parseEvalQNT env ''save.image()'') (fm_saveRData (env_sys env))"

text \<open>\<open>event_base_loopbreak\<close> of a null base does nothing.\<close>

definition loopbreak :: "(('w, 'z) session_scheme, unit) act" where
  "loopbreak = modify (\<lambda>s. s\<lparr>rs_loopbreak := rs_loopbreak s \<or> rs_eventBase s\<rparr>)"

definition handleCloseCommand :: "'w env \<Rightarrow> (('w, 'z) session_scheme, unit) act" where
  "handleCloseCommand env =
     bind (gets rs_properlyClosed) (\<lambda>closed.
     if closed then skip
     else
       seq (modify (\<lambda>s. s\<lparr>rs_properlyClosed := True\<rparr>))
       (seq (handleSaveEnvCommand env) loopbreak))"

section \<open>Scripts\<close>

definition list_delta_command :: string where
  "list_delta_command =
     ''{'' @ [CHR 0x22] @ ''msg'' @ [CHR 0x22] @ '':'' @ [CHR 0x22] @ ''listVariables'' @ [CHR 0x22] @ '', '' @
     [CHR 0x22] @ ''delta'' @ [CHR 0x22] @ '':true}''"

definition handleExecuteScript :: "'w env \<Rightarrow> json_command \<Rightarrow> (('w, 'z) session_scheme, unit) act" where
  "handleExecuteScript env command =
     bind (lift (argument command)) (\<lambda>script.
     bind (gets rs_watchVariables) (\<lambda>watching.
     bind (if watching then ret True else lift (watchVariables command)) (\<lambda>sendDelta.
     seq (do_if sendDelta (capture env))
     (seq resetWatch
     (bind (parseEvalR env script) (\<lambda>result.
      seq (flushOutputBuffer env)
      (if result = PE_SUCCESS then
         bind (gets rs_currentQueryId) (\<lambda>queryId.
         seq (scheduleExecComplete command queryId None)
         (do_if sendDelta (scheduleDelayedCommand list_delta_command)))
       else if result = PE_INCOMPLETE then
         sendTextToClient env (''Incomplete R statement'' @ [CHR 0x0A]) True
       else skip)))))))"

section \<open>Files\<close>

definition tmpDir_path :: "(('w, 'z) session_scheme, string) act" where
  "tmpDir_path = bind (gets rs_tmpDir) (\<lambda>d. bind (unwrap (UB ''null TemporaryDirectory'') d) (\<lambda>td. ret (td_path td)))"

text \<open>\<open>fs::file_size(p, ec)\<close> returns \<open>(uintmax_t)-1\<close> on an error.\<close>

definition file_size_noexcept :: "'w sys \<Rightarrow> string \<Rightarrow> (('w, 'z) hw_scheme, int) act" where
  "file_size_noexcept sys p = os_read (\<lambda>w. case sys_file_size sys p w of Inl _ \<Rightarrow> 2 ^ 64 - 1 | Inr n \<Rightarrow> n)"

text \<open>\<open>fs::exists(p) && fs::file_size(p, ec) > 0\<close>\<close>

definition has_content :: "'w sys \<Rightarrow> string \<Rightarrow> (('w, 'z) hw_scheme, bool) act" where
  "has_content sys p =
     bind (fs_read (sys_exists sys p)) (\<lambda>there.
     if there then bind (file_size_noexcept sys p) (\<lambda>n. ret (0 < n)) else ret False)"

definition sendError :: "'w env \<Rightarrow> int \<Rightarrow> string \<Rightarrow> (('w, 'z) session_scheme, unit) act" where
  "sendError env code details =
     bind (gets rs_currentQueryId) (\<lambda>queryId. sendJsonToClientSource (formatErrorAsJson env code details queryId))"

text \<open>
  The scope of the suspender. \<open>_impl->captureStdOut = ""\<close> stores a non-null pointer in a \<open>bool\<close>,
  so it sets the flag again and leaves \<open>stdOutCapture\<close> as it was.
\<close>

definition render_scope :: "'w env \<Rightarrow> string \<Rightarrow> string \<Rightarrow> string \<Rightarrow> (('w, 'z) session_scheme, bool) act" where
  "render_scope env rcmd tmpHtmlPath htmlPath =
     seq (modify (\<lambda>s. s\<lparr>rs_captureStdOut := True\<rparr>))
     (seq (modify (\<lambda>s. s\<lparr>rs_captureStdOut := True\<rparr>))
     (seq (parseEvalQNT env rcmd)
     (seq (modify (\<lambda>s. s\<lparr>rs_captureStdOut := False\<rparr>))
     (seq (flushOutputBuffer env)
     (bind (fs_read (sys_exists (env_sys env) tmpHtmlPath)) (\<lambda>there.
      if there then seq (fs_do (sys_copy_file (env_sys env) tmpHtmlPath htmlPath)) (ret True)
      else ret False))))))"

text \<open>The temporary directory is created with \<open>erase\<close> false, so its destructor does nothing.\<close>

definition executeRMarkdown :: "'w env \<Rightarrow> string \<Rightarrow> json_command \<Rightarrow> (('w, 'z) session_scheme, unit) act" where
  "executeRMarkdown env fileName command =
     (let sys = env_sys env; app = path_append sys; htmlName = path_stem sys fileName @ ''.html'' in
      bind (new_TemporaryDirectory sys False) (\<lambda>tmp.
      bind tmpDir_path (\<lambda>dir.
      let htmlPath = app dir htmlName; srcPath = app dir fileName; destPath = app (td_path tmp) fileName;
          tmpHtmlPath = app (td_path tmp) htmlName in
      seq (fs_do (sys_copy_file sys srcPath destPath))
      (bind (NotifySuspender (render_scope env
               (''setwd('' @ [CHR 0x27] @ td_path tmp @ [CHR 0x27] @ '');render('' @ [CHR 0x22] @
                escape_quotes fileName @ [CHR 0x22] @ '', output_format=html_document());'')
               tmpHtmlPath htmlPath)) (\<lambda>generatedHtml.
       seq (parseEvalQNT env
              (''setwd('' @ [CHR 0x22] @ dir @ [CHR 0x22] @ '');options(dev='' @ [CHR 0x22] @ ''rc2.pngdev'' @
               [CHR 0x22] @ '', bitmapType='' @ [CHR 0x22] @ ''cairo'' @ [CHR 0x22] @ '')''))
       (bind (has_content sys htmlPath) (\<lambda>fileGenerated.
        if generatedHtml \<and> fileGenerated then
          NotifySuspender
            (bind (findOrAddFile sys htmlName) (\<lambda>finfo.
             bind (gets rs_currentQueryId) (\<lambda>queryId.
             scheduleExecComplete command queryId (Some finfo))))
        else
          bind (gets rs_stdOutCapture) (\<lambda>captured.
          sendError env kError_ExecFile_MarkdownFailed (''failed to generate html:'' @ captured)))))))))"

text \<open>
  The PDF of a Sweave file: what is copied to the working directory and registered, or the log
  file. \<open>logPath /= baseName = ".log"\<close> assigns before it appends, so the log is called \<open>.log\<close>.
\<close>

definition sweave_collect ::
    "'w sys \<Rightarrow> string \<Rightarrow> string \<Rightarrow> string \<Rightarrow> string \<Rightarrow> (('w, 'z) session_scheme, file_info) act" where
  "sweave_collect sys dir scratchPath srcPath baseName =
     (let basePdfName = baseName @ ''.pdf''; genPdfPath = path_append sys scratchPath basePdfName;
          destPdfPath = path_append sys dir basePdfName in
      bind (has_content sys genPdfPath) (\<lambda>generated.
      if generated then
        seq (fs_do (sys_copy_file sys genPdfPath destPdfPath)) (findOrAddFile sys basePdfName)
      else
        let errorPath = path_append sys scratchPath (baseName @ ''.log'') in
        bind (fs_read (sys_exists sys errorPath)) (\<lambda>there.
        seq (do_if there
               (fs_do (sys_copy_file sys errorPath (path_append sys (path_parent sys srcPath) ''.log''))))
        (ret no_file))))"

text \<open>
  The child process that runs \<open>texi2pdf\<close> is the outside call; the parent waits for it and ignores
  its status, and a failed \<open>fork\<close> is only logged.
\<close>

definition sweave_typeset ::
    "'w sys \<Rightarrow> string \<Rightarrow> string \<Rightarrow> string \<Rightarrow> string \<Rightarrow> (('w, 'z) session_scheme, file_info) act" where
  "sweave_typeset sys dir scratchPath srcPath baseName =
     (let texPath = path_append sys scratchPath (baseName @ ''.tex'') in
      bind (fs_read (sys_exists sys texPath)) (\<lambda>there.
      if \<not> there then ret no_file
      else
        seq (setIgnoreOutput True)
        (bind (os_do (sys_run_texi2pdf sys texPath)) (\<lambda>_.
         seq (setIgnoreOutput False)
         (sweave_collect sys dir scratchPath srcPath baseName)))))"

definition quoted :: "string \<Rightarrow> string" where
  "quoted s = [CHR 0x27] @ s @ [CHR 0x27]"

text \<open>The handler of \<open>executeSweave\<close> returns from the function, before the directory is restored.\<close>

definition executeSweave :: "'w env \<Rightarrow> string \<Rightarrow> json_command \<Rightarrow> (('w, 'z) session_scheme, unit) act" where
  "executeSweave env filePath command =
     (let sys = env_sys env in
      bind tmpDir_path (\<lambda>dir.
      let srcPath = path_append sys dir filePath; baseName = path_stem sys srcPath;
          scratchPath = path_append sys dir ''.rc2sw'' in
      seq (fs_do (sys_create_directories sys scratchPath))
      (seq (parseEvalNT env (''setwd('' @ quoted (escape_quotes scratchPath) @ '')''))
      (bind
        (try_catch is_runtime_error
          (seq (parseEval env
                 (''Sweave('' @ quoted (''../'' @ escape_quotes filePath) @ '', encoding='' @ quoted ''UTF-8'' @ '')''))
           (ret True))
          (\<lambda>e. seq (sendOutputBufferToClient env True)
               (bind (gets rs_currentQueryId) (\<lambda>queryId.
                seq (scheduleExecComplete command queryId None) (ret False)))))
        (\<lambda>woven.
         if \<not> woven then skip
         else
           bind (sweave_typeset sys dir scratchPath srcPath baseName) (\<lambda>finfo.
           seq (parseEvalNT env (''setwd('' @ quoted (escape_quotes (path_parent sys scratchPath)) @ '')''))
           (seq (setIgnoreOutput False)
           (seq (flushOutputBuffer env)
           (bind (gets rs_currentQueryId) (\<lambda>queryId.
            scheduleExecComplete command queryId (Some finfo)))))))))))"

definition clearFileChanges :: "(('w, 'z) session_scheme, unit) act" where
  "clearFileChanges = seq (addImagesToJson JNull) skip"

definition executeRFile :: "'w env \<Rightarrow> string \<Rightarrow> json_command \<Rightarrow> (('w, 'z) session_scheme, unit) act" where
  "executeRFile env fpath command =
     seq (modify (\<lambda>s. s\<lparr>rs_sourceInProgress := True\<rparr>))
     (seq (parseEvalQNT env (''source(file='' @ [CHR 0x22] @ escape_quotes fpath @ [CHR 0x22] @ '', echo=TRUE)''))
     (seq (flushOutputBuffer env)
     (seq (modify (\<lambda>s. s\<lparr>rs_sourceInProgress := False\<rparr>))
     (bind (gets rs_currentQueryId) (\<lambda>queryId.
      seq (scheduleExecComplete command queryId None)
      (bind (gets rs_watchVariables) (\<lambda>watching.
       do_if watching (scheduleDelayedCommand list_delta_command))))))))"

definition executeFile :: "'w env \<Rightarrow> json_command \<Rightarrow> (('w, 'z) session_scheme, unit) act" where
  "executeFile env command =
     bind (lift (argument command)) (\<lambda>arg.
     let fileId = atol (c_str arg) in
     bind (filePathForId fileId) (\<lambda>path.
     case path of
       None \<Rightarrow> sendError env kErrfor_UnknownFile (''unknown file:'' @ dec fileId)
     | Some fpath \<Rightarrow>
         seq clearFileChanges
         (seq resetWatch
         (bind (gets rs_watchVariables) (\<lambda>watching.
          seq (do_if watching (capture env))
          (let extension = path_extension (env_sys env) fpath in
           if extension = ''.Rmd'' then executeRMarkdown env fpath command
           else if extension = ''.Rnw'' then executeSweave env fpath command
           else if extension = ''.R'' then executeRFile env fpath command
           else sendError env kError_Execfile_InvalidInput (''unsupported file type:'' @ fpath)))))))"

end
