(* ===== verification/Session_Loop.thy ===== *)
theory Session_Loop
  imports Session_Commands File_Manager_Laws
begin

text \<open>
  The session as a whole (\<open>src/RSession.cpp\<close>): construction and destruction, the preparation of the
  event loop, the \<open>open\<close> command, the dispatch of the other commands, and the read callback that
  libevent calls for each block of bytes; at the end the callbacks of the event loop as a step
  relation.
\<close>

section \<open>Opening\<close>

definition connect_string :: "string \<Rightarrow> string \<Rightarrow> string \<Rightarrow> string \<Rightarrow> string" where
  "connect_string dbhost dbuser dbname dbpass =
     ''postgresql://'' @ dbuser @ ''@'' @ dbhost @ ''/'' @ dbname @ ''?application_name=rsession&sslmode=disable'' @
     (if 0 < length dbpass then ''&password='' @ dbpass else [])"

text \<open>The fields of the command; each look-up may enter a null into it.\<close>

definition open_arguments :: "json_command \<Rightarrow> exn + string" where
  "open_arguments cmd =
     (case valueForKey ''dbhost'' cmd of (Inl e, _) \<Rightarrow> Inl e | (Inr dbhost, cmd) \<Rightarrow>
     (case valueForKey ''dbuser'' cmd of (Inl e, _) \<Rightarrow> Inl e | (Inr dbuser, cmd) \<Rightarrow>
     (case valueForKey ''dbname'' cmd of (Inl e, _) \<Rightarrow> Inl e | (Inr dbname, cmd) \<Rightarrow>
     (case valueForKey ''dbpass'' cmd of (Inl e, _) \<Rightarrow> Inl e | (Inr dbpass, cmd) \<Rightarrow>
     Inr (connect_string dbhost dbuser dbname dbpass)))))"

text \<open>\<open>int x = cmd.raw()[key]\<close> looks the key up in a temporary copy.\<close>

definition raw_int :: "'w env \<Rightarrow> string \<Rightarrow> json_command \<Rightarrow> exn + int" where
  "raw_int env key cmd =
     (case json_index key (jc_raw cmd) of Inl e \<Rightarrow> Inl e | Inr (v, _) \<Rightarrow> get_int_value v)"

definition open_workspace :: "'w env \<Rightarrow> json_command \<Rightarrow> (('w, 'z) session_scheme, string \<times> bool) act" where
  "open_workspace env cmd =
     (let sys = env_sys env in
      bind (lift (raw_int env ''sessionRecId'' cmd)) (\<lambda>recId.
      seq (modify (\<lambda>s. s\<lparr>rs_sessionRecId := recId\<rparr>))
      (bind (lift (open_arguments cmd)) (\<lambda>connectString.
       bind (gets rs_eventBase) (\<lambda>base.
       if \<not> base then throw (Abort ''handleOpenCommand called before prepareForRunLoop()'')
       else
         bind (GenerateUUID sys) (\<lambda>uuid.
         let workDir = ''/tmp/'' @ uuid in
         bind (MakeDirectoryPath sys workDir 493) (\<lambda>rc.
         if rc \<noteq> 0 then throw (RuntimeError ''failed to create working directory'')
         else
           bind (new_TemporaryDirectory_at sys workDir False) (\<lambda>td.
           seq (modify (\<lambda>s. s\<lparr>rs_tmpDir := Some td\<rparr>))
           (bind (pg_connect sys connectString) (\<lambda>connection.
            bind (gets rs_wspaceId) (\<lambda>wspaceId.
            seq (initFileManager sys workDir connection wspaceId recId)
            (bind (fm_loadRData sys) (\<lambda>haveRData. ret (workDir, haveRData))))))))))))))"

definition open_commands :: "bool \<Rightarrow> string list" where
  "open_commands haveRData =
     [''library(rc2)'', ''library(rmarkdown)'', ''library(tools)'', ''rm(argv)'',
      ''options(device = '' @ [CHR 0x22] @ ''rc2.pngdev'' @ [CHR 0x22] @ '', bitmapType = '' @ [CHR 0x22] @ ''cairo'' @
      [CHR 0x22] @ '')''] @
     (if haveRData then [''load('' @ [CHR 0x22] @ ''.RData'' @ [CHR 0x22] @ '')''] else [])"

definition open_r :: "'w env \<Rightarrow> string \<Rightarrow> bool \<Rightarrow> (('w, 'z) session_scheme, unit) act" where
  "open_r env workDir haveRData =
     seq (os_upd (sys_setenv (env_sys env) ''TMPDIR'' (c_str workDir)))
     (seq (os_upd (sys_setenv (env_sys env) ''TEMP'' (c_str workDir)))
     (seq (os_upd (sys_setenv (env_sys env) ''R_DEFAULT_DEVICE'' ''png''))
     (seq (parseEvalQNT env (''setwd('' @ [CHR 0x22] @ escape_quotes workDir @ [CHR 0x22] @ '')''))
     (seq (setIgnoreOutput True)
     (seq (for_each (open_commands haveRData) (parseEvalQNT env))
     (setIgnoreOutput False))))))"

definition openresponse :: "'w env \<Rightarrow> string option \<Rightarrow> string" where
  "openresponse env err =
     json_text env (json_object
       (case err of
          None \<Rightarrow> [(''msg'', JString ''openresponse''), (''success'', JBool True)]
        | Some m \<Rightarrow> [(''msg'', JString ''openresponse''), (''success'', JBool False), (''errorMessage'', JString m)]))"

definition handleOpenCommand :: "'w env \<Rightarrow> json_command \<Rightarrow> (('w, 'z) session_scheme, unit) act" where
  "handleOpenCommand env cmd =
     bind (gets rs_open) (\<lambda>isOpen.
     if isOpen then skip
     else
       bind (lift (raw_int env ''wspaceId'' cmd)) (\<lambda>wspaceId.
       seq (modify (\<lambda>s. s\<lparr>rs_wspaceId := wspaceId\<rparr>))
       (try_catch is_runtime_error
         (bind (open_workspace env cmd) (\<lambda>(workDir, haveRData).
          seq (open_r env workDir haveRData)
          (seq (sendJsonToClientSource (openresponse env None))
          (modify (\<lambda>s. s\<lparr>rs_open := True\<rparr>)))))
         (\<lambda>err. sendJsonToClientSource (openresponse env (Some (what err)))))))"

section \<open>Dispatch\<close>

definition raw_value :: "(json \<Rightarrow> exn + 'a) \<Rightarrow> string \<Rightarrow> 'a \<Rightarrow> json_command \<Rightarrow> (('w, 'z) session_scheme, 'a) act" where
  "raw_value conv key default_value command = lift (json_value conv key default_value (jc_raw command))"

definition dispatch :: "'w env \<Rightarrow> command_type \<Rightarrow> json_command \<Rightarrow> (('w, 'z) session_scheme, unit) act" where
  "dispatch env t command =
     (case t of
        Close \<Rightarrow> handleCloseCommand env
      | ClearFileChanges \<Rightarrow> resetWatch
      | ExecScript \<Rightarrow> handleExecuteScript env command
      | ExecFile \<Rightarrow> executeFile env command
      | Help \<Rightarrow> handleHelpCommand env command
      | ListVariables \<Rightarrow>
          bind (raw_value get_boolean_value ''delta'' False command) (\<lambda>delta. handleListVariablesCommand env delta command)
      | GetVariable \<Rightarrow> handleGetVariableCommand env command
      | ToggleWatch \<Rightarrow>
          bind (raw_value get_boolean_value ''watch'' False command) (\<lambda>watch.
          seq (modify (\<lambda>s. s\<lparr>rs_watchVariables := watch\<rparr>))
          (do_if watch (handleListVariablesCommand env False command)))
      | SaveData \<Rightarrow> handleSaveEnvCommand env
      | _ \<Rightarrow> skip)"

definition handleCommand :: "'w env \<Rightarrow> json_command \<Rightarrow> (('w, 'z) session_scheme, unit) act" where
  "handleCommand env command =
     bind (gets rs_open) (\<lambda>isOpen.
     if \<not> isOpen then skip
     else
       bind (raw_value get_int_value ''queryId'' 0 command) (\<lambda>queryId.
       seq (modify (\<lambda>s. s\<lparr>rs_currentQueryId := queryId\<rparr>))
       (bind (lift (jc_get_type command)) (\<lambda>t. dispatch env t command))))"

text \<open>
  Reading the document: a syntax error (\<open>std::invalid_argument\<close>) ends the handler, another
  exception leaves the null document.
\<close>

definition read_document :: "'w env \<Rightarrow> string \<Rightarrow> (('w, 'z) session_scheme, json option) act" where
  "read_document env json =
     (case env_parse env json of
        Inr doc \<Rightarrow> ret (Some doc)
      | Inl e \<Rightarrow>
          (case e of
             InvalidArgument _ \<Rightarrow> ret None
           | _ \<Rightarrow> if is_std_exception e then ret (Some JNull) else throw e))"

text \<open>The result is whether the end of the \<open>try\<close> block is reached, rather than a \<open>return\<close>.\<close>

definition json_command_body :: "'w env \<Rightarrow> string \<Rightarrow> (('w, 'z) session_scheme, bool) act" where
  "json_command_body env json =
     (if length json < 1 then ret False
      else
        bind (read_document env json) (\<lambda>doc.
        case doc of
          None \<Rightarrow> ret False
        | Some doc \<Rightarrow>
            bind (lift (new_JsonCommand doc)) (\<lambda>command.
            bind (lift (jc_get_type command)) (\<lambda>t.
            if t = Open then
              bind (gets rs_open) (\<lambda>isOpen.
              if isOpen then ret False else seq (handleOpenCommand env command) (ret True))
            else seq (handleCommand env command) (ret True)))))"

text \<open>The handler passes \<open>true\<close> for the query id, which is 1.\<close>

definition handleJsonCommand :: "'w env \<Rightarrow> string \<Rightarrow> (('w, 'z) session_scheme, unit) act" where
  "handleJsonCommand env json =
     bind
       (try_catch is_runtime_error (json_command_body env json)
         (\<lambda>error. seq (sendJsonToClientSource (formatErrorAsJson env kError_ExecFile_MarkdownFailed (what error) 1))
                  (ret True)))
       (\<lambda>reached. do_if reached (modify (\<lambda>s. s\<lparr>rs_currentQueryId := 0\<rparr>)))"

text \<open>\<open>added\<close> is whether libevent could move the bytes of the block into the input buffer.\<close>

definition on_input :: "(input_buffer, 'a) act \<Rightarrow> (('w, 'z) session_scheme, 'a) act" where
  "on_input m s = (case m (rs_inputBuffer s) of (r, b) \<Rightarrow> (r, s\<lparr>rs_inputBuffer := b\<rparr>))"

definition handleJsonStatic :: "'w env \<Rightarrow> bool \<Rightarrow> string \<Rightarrow> (('w, 'z) session_scheme, unit) act" where
  "handleJsonStatic env added chunk =
     try_catch is_std_exception
       (bind (on_input (readMessage added chunk)) (\<lambda>message.
        case message of None \<Rightarrow> skip | Some json \<Rightarrow> handleJsonCommand env json))
       (\<lambda>e. skip)"

section \<open>Construction, run loop and destruction\<close>

definition loadEnvironment :: "'w env \<Rightarrow> (('w, 'z) session_scheme, bool) act" where
  "loadEnvironment env = fm_loadRData (env_sys env)"

text \<open>\<open>ZeroInitializedStruct\<close> zeroes the members; \<open>junk\<close> is the uninitialised \<open>_expectedSize\<close>.\<close>

definition new_RSession :: "'w \<Rightarrow> 32 word \<Rightarrow> 'w session" where
  "new_RSession w junk = \<lparr>
     world = w, tx_open = False,
     fi_heap = [], ds_dbcon = None, ds_wspaceId = 0, ds_workingDir = [], ds_filesById = [],
     fm_wspaceId = 0, fm_sessionRecId = 0, fm_sessionImageBatch = 0, fm_hasSource = False, fm_dbcon = None,
     fm_manuallyAddedFiles = {}, fm_filesByWatchDesc = [], fm_pendingImages = [], fm_imageIds = [],
     fm_workingDir = [], fm_inotifyEvent = None, fm_inotifyFd = 0, fm_rootWd = 0, fm_ignoreFS = False,
     fm_ignoreDB = False, fm_timers = 0, fm_dbEvent = False,
     rs_eventBase = False, rs_eventBuffer = Null, rs_outBuffer = False, rs_inputBuffer = new_input_buffer junk,
     rs_tmpDir = None, rs_envWatcher = False, rs_lastVars = [], rs_consoleOutBuffer = [], rs_stdOutCapture = [],
     rs_wspaceId = 0, rs_sessionRecId = 0, rs_socket = 0, rs_currentQueryId = 0, rs_open = False,
     rs_ignoreOutput = False, rs_captureStdOut = False, rs_sourceInProgress = False, rs_watchVariables = False,
     rs_properlyClosed = False, rs_out = [], rs_events = [], rs_loopbreak = False\<rparr>"

text \<open>\<open>bev\<close> is whether \<open>bufferevent_socket_new\<close> returns an object.\<close>

definition prepareForRunLoop :: "bool \<Rightarrow> (('w, 'z) session_scheme, unit) act" where
  "prepareForRunLoop bev =
     seq (modify (\<lambda>s. s\<lparr>rs_eventBase := True\<rparr>))
     (bind (gets rs_socket) (\<lambda>socket.
      seq (do_if (0 < socket) (modify (\<lambda>s. s\<lparr>rs_eventBuffer := (if bev then Live else Null)\<rparr>)))
      (if 0 < socket \<and> \<not> bev then skip
       else modify (\<lambda>s. s\<lparr>rs_outBuffer := True, rs_envWatcher := True, rs_lastVars := []\<rparr>))))"

text \<open>\<open>bufferevent_free\<close> leaves the pointer as it is, so a second call frees it again.\<close>

definition stopEventLoop :: "(('w, 'z) session_scheme, unit) act" where
  "stopEventLoop =
     seq (bind (gets rs_eventBuffer) (\<lambda>p.
          case p of
            Null \<Rightarrow> skip
          | Live \<Rightarrow> modify (\<lambda>s. s\<lparr>rs_eventBuffer := Freed\<rparr>)
          | Freed \<Rightarrow> throw (UB ''bufferevent_free of a freed object'')))
     loopbreak"

text \<open>The destructor of \<open>RSession\<close>: an exception that leaves it ends the process.\<close>

definition delete_RSession :: "'w env \<Rightarrow> (('w, 'z) session_scheme, unit) act" where
  "delete_RSession env =
     seq (bind (gets rs_properlyClosed) (\<lambda>closed.
          do_if (\<not> closed)
            (try_catch is_cxx_exception (handleCloseCommand env)
               (\<lambda>e. throw (Abort ''exception from a destructor'')))))
     (modify (\<lambda>s. s\<lparr>rs_outBuffer := False\<rparr>))"

section \<open>The event loop\<close>

text \<open>
  What libevent delivers to a session: blocks of bytes, the session's timer events in the order
  their timers expire, and the file manager's events. A callback that throws ends the process,
  except that \<open>handleJsonStatic\<close> catches standard exceptions.
\<close>

datatype loop_event =
    Input bool string
  | Timer nat
  | Files fm_call

definition run_event :: "'w env \<Rightarrow> session_event \<Rightarrow> (('w, 'z) session_scheme, unit) act" where
  "run_event env e =
     (case e of
        ExecCompleteArgs command queryId finfo \<Rightarrow> handleExecComplete env command queryId finfo
      | DelayCommandArgs json \<Rightarrow> handleJsonCommand env json)"

fun deliver :: "'w env \<Rightarrow> loop_event \<Rightarrow> (('w, 'z) session_scheme, unit) act" where
  "deliver env (Input added chunk) = handleJsonStatic env added chunk"
| "deliver env (Timer n) =
     bind (gets rs_events) (\<lambda>evs.
     seq (modify (\<lambda>s. s\<lparr>rs_events := take n evs @ drop (Suc n) evs\<rparr>)) (run_event env (evs ! n)))"
| "deliver env (Files c) = fm_perform (env_sys env) c"

text \<open>
  An event is possible when the object it belongs to is registered with the event base: the
  file manager's events exist once \<open>initFileManager\<close> has registered them.
\<close>

fun enabled :: "loop_event \<Rightarrow> ('w, 'z) session_scheme \<Rightarrow> bool" where
  "enabled (Input added chunk) s = (rs_eventBuffer s = Live)"
| "enabled (Timer n) s = (n < length (rs_events s))"
| "enabled (Files (Inotify evs)) s = (fm_inotifyEvent s \<noteq> None)"
| "enabled (Files (DbReady fuel)) s = fm_dbEvent s"
| "enabled (Files TimerFires) s = (0 < fm_timers s)"
| "enabled (Files c) s = False"

inductive session_step :: "'w env \<Rightarrow> ('w, 'z) session_scheme \<Rightarrow> ('w, 'z) session_scheme \<Rightarrow> bool" for env where
  event: "\<not> rs_loopbreak s \<Longrightarrow> enabled e s \<Longrightarrow> deliver env e s = (Inr (), s') \<Longrightarrow> session_step env s s'"

inductive_cases session_stepE [elim]: "session_step env s s'"

end
