(* ===== verification/Session_Laws.thy ===== *)
theory Session_Laws
  imports Session_Loop Env_Watcher_Laws
begin

text \<open>
  Invariants of the session. The locale \<open>session_invariant\<close> lists what an invariant has to survive
  (the outside calls, writing the fields of the session, sending a frame, the operations of the
  file manager, and the blocks in which the session changes its output flags), and proves once that
  every handler and callback keeps such an invariant. It is interpreted on three invariants: what was
  written to the socket is a sequence of frames, the file manager's tables are well formed, and the
  flags that divert or widen output are clear between callbacks; a fourth, that the flag that drops
  output is clear too, holds for hosts whose help system fails with run-time errors only.
\<close>

section \<open>The watcher\<close>

lemma safe_world:
  assumes "world_free I"
  shows "safe I (os_do f)" and "safe I (os_upd g)" and "safe I (os_read h)" and "safe I (fs_do k)"
    and "safe I (fs_read l)" and "safe I (rd a)" and "safe I (rdx b)"
  unfolding rd_def rdx_def
  by (intro safe_rules safe_keeps keeps_os assms)+

lemma safe_pure [safe_rules]: "safe I (put k v j)" "safe I (push v j)" "safe I (nth_or_ub xs i)"
  by (simp_all add: put_def push_def nth_or_ub_def safe_lift safe_atom)

declare safe_case_prod [safe_rules]

text \<open>The serializer only reads the world and calls back, so it keeps what the callback keeps.\<close>

lemma cxx_exception_not_ub: "is_cxx_exception e \<Longrightarrow> \<not> is_ub e"
  by (cases e) (auto simp: is_cxx_exception_def)

lemma runtime_not_ub: "is_runtime_error e \<Longrightarrow> \<not> is_ub e"
  by (cases e) auto

lemma rvector_safe: "world_free I \<Longrightarrow> safe I (rvectorToJsonArray api robj)"
  unfolding rvectorToJsonArray_def by (intro safe_rules safe_world)

lemma columnType_safe: "world_free I \<Longrightarrow> safe I (columnType api robj)"
  unfolding columnType_def by (intro safe_rules safe_world)

lemma setFactorData_safe: "world_free I \<Longrightarrow> safe I (setFactorData api robj j)"
  unfolding setFactorData_def by (intro safe_rules safe_world)

lemma frame_cell_safe: "world_free I \<Longrightarrow> safe I (frame_cell api v row)"
  unfolding frame_cell_def by (intro safe_rules safe_world)

lemma frame_row_safe: "world_free I \<Longrightarrow> safe I (frame_row api objs row cols j)"
  by (induction cols arbitrary: j) (auto intro!: safe_rules frame_cell_safe)

lemma frame_rows_safe: "world_free I \<Longrightarrow> safe I (frame_rows api objs ncol rows j)"
  by (induction rows arbitrary: j) (auto intro!: safe_rules frame_row_safe)

lemma frame_columns_safe: "world_free I \<Longrightarrow> safe I (frame_columns api robj is objs j)"
  by (induction "is" arbitrary: objs j) (auto intro!: safe_rules safe_world columnType_safe)

lemma setDataFrameData_safe: "world_free I \<Longrightarrow> safe I (setDataFrameData api robj j)"
  unfolding setDataFrameData_def by (intro safe_rules safe_world frame_columns_safe frame_rows_safe)

lemma setFunctionData_safe: "world_free I \<Longrightarrow> safe I (setFunctionData api robj j)"
  unfolding setFunctionData_def by (intro safe_rules safe_world std_exception_not_ub)

lemma dim_names_safe: "world_free I \<Longrightarrow> safe I (dim_names api mlist is j)"
  by (induction "is" arbitrary: j) (auto intro!: safe_rules safe_world rvector_safe)

lemma setDimNames_safe: "world_free I \<Longrightarrow> safe I (setDimNames api robj j)"
  unfolding setDimNames_def by (intro safe_rules safe_world rvector_safe dim_names_safe)

lemma primitive_value_safe: "world_free I \<Longrightarrow> safe I (primitive_value api robj t j)"
  unfolding primitive_value_def Let_def by (intro safe_rules safe_world)

lemma setPrimitiveData_safe: "world_free I \<Longrightarrow> safe I (setPrimitiveData api robj j)"
  unfolding setPrimitiveData_def by (intro safe_rules safe_world primitive_value_safe setDimNames_safe)

lemma addSummary_safe:
  "world_free I \<Longrightarrow> (\<And>cmd. safe I (exec cmd)) \<Longrightarrow> safe I (addSummary api exec v j)"
  unfolding addSummary_def by (intro safe_rules safe_world cxx_exception_not_ub)

lemma generic_attributes_safe:
  "world_free I \<Longrightarrow> (\<And>v x j b. safe I (rec v x j b)) \<Longrightarrow> safe I (generic_attributes api rec robj as names vals)"
  by (induction "as" arbitrary: names vals) (auto intro!: safe_rules safe_world)

lemma setGenericObjectData_safe:
  "world_free I \<Longrightarrow> (\<And>v x j b. safe I (rec v x j b)) \<Longrightarrow> safe I (setGenericObjectData api rec robj j)"
  unfolding setGenericObjectData_def by (intro safe_rules safe_world generic_attributes_safe)

lemma object_class_safe: "safe I (object_class ks)"
  unfolding object_class_def by (intro safe_rules)

lemma setObjectData_safe:
  "world_free I \<Longrightarrow> (\<And>v x j b. safe I (rec v x j b)) \<Longrightarrow> safe I (setObjectData api rec robj j)"
  unfolding setObjectData_def
  by (intro safe_rules safe_world object_class_safe setFactorData_safe setDataFrameData_safe setGenericObjectData_safe)

lemma list_children_safe:
  "world_free I \<Longrightarrow> (\<And>v x j b. safe I (rec v x j b)) \<Longrightarrow> safe I (list_children api rec robj is names j)"
  by (induction "is" arbitrary: names j) (auto intro!: safe_rules safe_world)

lemma setListData_safe:
  "world_free I \<Longrightarrow> (\<And>v x j b. safe I (rec v x j b)) \<Longrightarrow> safe I (setListData api rec robj j b)"
  unfolding setListData_def by (intro safe_rules safe_world rvector_safe list_children_safe)

lemma environment_children_safe:
  "world_free I \<Longrightarrow> (\<And>v x j b. safe I (rec v x j b)) \<Longrightarrow> safe I (environment_children api rec e ns j)"
  by (induction ns arbitrary: j) (auto intro!: safe_rules safe_world)

lemma setEnvironmentData_safe:
  "world_free I \<Longrightarrow> (\<And>v x j b. safe I (rec v x j b)) \<Longrightarrow> safe I (setEnvironmentData api rec robj j)"
  unfolding setEnvironmentData_def by (intro safe_rules safe_world environment_children_safe)

lemma valueToJson_safe:
  assumes "world_free I" and "\<And>cmd. safe I (exec cmd)"
  shows "safe I (valueToJson api exec depth v robj j b)"
proof (induction depth arbitrary: v robj j b)
  case (Suc depth)
  note rules = setObjectData_safe setListData_safe setEnvironmentData_safe addSummary_safe setFunctionData_safe
    setPrimitiveData_safe
  show ?case
    unfolding valueToJson.simps value_step_def
    by (intro safe_rules safe_world rules assms Suc.IH)
qed (simp add: safe_atom)

lemma get_variables_safe: "world_free I \<Longrightarrow> safe I (get_variables api ns)"
  by (induction ns) (auto intro!: safe_rules safe_world)

lemma toJson_variable_safe:
  "world_free I \<Longrightarrow> (\<And>cmd. safe I (exec cmd)) \<Longrightarrow> safe I (toJson_variable api exec depth v)"
  unfolding toJson_variable_def by (intro safe_rules safe_world valueToJson_safe)

lemma toJson_safe: "world_free I \<Longrightarrow> (\<And>cmd. safe I (exec cmd)) \<Longrightarrow> safe I (toJson api exec depth)"
proof -
  assume I: "world_free I" "\<And>cmd. safe I (exec cmd)"
  have "safe I (toJson_names api exec depth ns j)" for ns j
    by (induction ns arbitrary: j) (auto intro!: safe_rules toJson_variable_safe I)
  then show ?thesis unfolding toJson_def by (intro safe_rules safe_world I)
qed

lemma jsonDelta_safe:
  "world_free I \<Longrightarrow> (\<And>cmd. safe I (exec cmd)) \<Longrightarrow> safe I (jsonDelta api exec depth vs)"
proof -
  assume I: "world_free I" "\<And>cmd. safe I (exec cmd)"
  have "safe I (add_variables api exec depth ws j)" for ws j
    by (induction ws arbitrary: j) (auto intro!: safe_rules valueToJson_safe I)
  then show ?thesis
    unfolding jsonDelta_def Let_def by (intro safe_rules safe_world get_variables_safe I)
qed

section \<open>Invariants of the session\<close>

text \<open>Fields of the session that an invariant does not look at.\<close>

definition field_free :: "(('w, 'z) session_scheme \<Rightarrow> bool) \<Rightarrow> bool" where
  "field_free I \<longleftrightarrow> (\<forall>s. I s \<longrightarrow>
     (\<forall>x. I (s\<lparr>rs_events := x\<rparr>)) \<and> (\<forall>x. I (s\<lparr>rs_lastVars := x\<rparr>)) \<and> (\<forall>x. I (s\<lparr>rs_consoleOutBuffer := x\<rparr>)) \<and>
     (\<forall>x. I (s\<lparr>rs_stdOutCapture := x\<rparr>)) \<and> (\<forall>x. I (s\<lparr>rs_tmpDir := x\<rparr>)) \<and> (\<forall>x. I (s\<lparr>rs_wspaceId := x\<rparr>)) \<and>
     (\<forall>x. I (s\<lparr>rs_sessionRecId := x\<rparr>)) \<and> (\<forall>x. I (s\<lparr>rs_currentQueryId := x\<rparr>)) \<and>
     (\<forall>x. I (s\<lparr>rs_watchVariables := x\<rparr>)) \<and> (\<forall>x. I (s\<lparr>rs_properlyClosed := x\<rparr>)) \<and>
     (\<forall>x. I (s\<lparr>rs_loopbreak := x\<rparr>)) \<and> (\<forall>x. I (s\<lparr>rs_inputBuffer := x\<rparr>)))"

lemma field_freeD:
  assumes "field_free I" and "I s"
  shows "I (s\<lparr>rs_events := ev\<rparr>)" "I (s\<lparr>rs_lastVars := vs\<rparr>)" "I (s\<lparr>rs_consoleOutBuffer := out\<rparr>)"
    "I (s\<lparr>rs_stdOutCapture := cap\<rparr>)" "I (s\<lparr>rs_tmpDir := td\<rparr>)" "I (s\<lparr>rs_wspaceId := i\<rparr>)"
    "I (s\<lparr>rs_sessionRecId := i\<rparr>)" "I (s\<lparr>rs_currentQueryId := i\<rparr>)"
    "I (s\<lparr>rs_watchVariables := b\<rparr>)" "I (s\<lparr>rs_properlyClosed := b\<rparr>)" "I (s\<lparr>rs_loopbreak := b\<rparr>)"
    "I (s\<lparr>rs_inputBuffer := ib\<rparr>)"
  using assms by (simp_all add: field_free_def)

definition set_captureStdOut :: "bool \<Rightarrow> ('w, 'z) session_scheme \<Rightarrow> ('w, 'z) session_scheme" where
  "set_captureStdOut b s = s\<lparr>rs_captureStdOut := b\<rparr>"

text \<open>Invariants of the operations outside the session: the host and the file manager.\<close>

locale outside_base =
  fixes env :: "'w env" and I :: "('w, 'z) session_scheme \<Rightarrow> bool"
  assumes world: "world_free I"
    and manager: "safe I (fm_perform (env_sys env) c)"
    and rdata: "safe I (fm_loadRData (env_sys env))" "safe I (fm_saveRData (env_sys env))"
    and init: "safe I (initFileManager (env_sys env) dir con wsid recid)"
begin

lemmas atoms = safe_world [OF world]

lemma forget_safe: "safe J (forget m) \<Longrightarrow> safe J m"
proof -
  have "ends_ub (fst (forget m s)) = ends_ub (fst (m s)) \<and> snd (forget m s) = snd (m s)" for s
    by (cases "m s"; cases "fst (m s)") (auto simp: forget_def bind_apply skip_apply)
  then show "safe J (forget m) \<Longrightarrow> safe J m" by (simp add: safe_def)
qed

lemma manager_calls:
  "safe I (cleanupImageWatch (env_sys env))" "safe I resetWatch" "safe I (findOrAddFile (env_sys env) f)"
  "safe I (fileInfoForId i)" "safe I (filePathForId i)"
  using manager [of CleanupImages] manager [of ResetWatch] manager [of "FindFile f"] manager [of "LookupInfo i"]
    manager [of "LookupPath i"]
  by (simp_all add: forget_safe)

lemma MakeDirectoryPath_safe: "safe I (MakeDirectoryPath (env_sys env) d m)"
proof -
  have "safe I (mkdir_loop (env_sys env) dir m pre r)" for dir pre r
  proof (induction "length dir - pre" arbitrary: pre r rule: less_induct)
    case less
    have IH: "safe I (mkdir_loop (env_sys env) dir m (Suc pos) r')" if "find_first_of CHR ''/'' pre dir = Some pos" for pos r'
      using find_first_of_Some [OF that] by (intro less.hyps) (auto simp del: length_0_conv)
    show ?case
      by (subst mkdir_loop.simps) (auto simp: Let_def split: option.splits intro!: safe_rules atoms IH [simplified] dest: find_first_of_Some)
  qed
  then show ?thesis unfolding MakeDirectoryPath_def by (intro safe_rules)
qed

lemma tempdir_safe:
  "safe I (new_TemporaryDirectory (env_sys env) e)" "safe I (new_TemporaryDirectory_at (env_sys env) d e)"
  unfolding new_TemporaryDirectory_def new_TemporaryDirectory_at_def GenerateUUID_def Let_def
  by (intro safe_rules atoms MakeDirectoryPath_safe)+

lemma tmpDir_path_safe: "safe I tmpDir_path"
  unfolding tmpDir_path_def by (intro safe_rules)

lemma has_content_safe: "safe I (has_content (env_sys env) p)"
  unfolding has_content_def file_size_noexcept_def by (intro safe_rules atoms)

lemma connect_safe: "safe I (pg_connect (env_sys env) c)"
  unfolding pg_connect_def by (intro safe_rules atoms)

lemma opening_safe:
  assumes "\<And>s i. I s \<Longrightarrow> I (s\<lparr>rs_sessionRecId := i\<rparr>)" and "\<And>s td. I s \<Longrightarrow> I (s\<lparr>rs_tmpDir := td\<rparr>)"
  shows "safe I (open_workspace env cmd)"
  unfolding open_workspace_def Let_def GenerateUUID_def
  by (intro safe_rules safe_modify atoms assms MakeDirectoryPath_safe tempdir_safe connect_safe init rdata)

end

locale session_base = outside_base +
  assumes fields: "field_free I"
    and sends: "I s \<Longrightarrow> m \<noteq> [] \<Longrightarrow> I (s\<lparr>rs_out := rs_out s @ frame_message m\<rparr>)"
begin

lemma writes:
  "safe I (modify (\<lambda>s. s\<lparr>rs_events := ev s\<rparr>))" "safe I (modify (\<lambda>s. s\<lparr>rs_lastVars := vs s\<rparr>))"
  "safe I (modify (\<lambda>s. s\<lparr>rs_consoleOutBuffer := out s\<rparr>))" "safe I (modify (\<lambda>s. s\<lparr>rs_stdOutCapture := cap s\<rparr>))"
  "safe I (modify (\<lambda>s. s\<lparr>rs_tmpDir := td s\<rparr>))" "safe I (modify (\<lambda>s. s\<lparr>rs_wspaceId := i s\<rparr>))"
  "safe I (modify (\<lambda>s. s\<lparr>rs_sessionRecId := i s\<rparr>))" "safe I (modify (\<lambda>s. s\<lparr>rs_currentQueryId := i s\<rparr>))"
  "safe I (modify (\<lambda>s. s\<lparr>rs_watchVariables := b s\<rparr>))"
  "safe I (modify (\<lambda>s. s\<lparr>rs_properlyClosed := b s\<rparr>))" "safe I (modify (\<lambda>s. s\<lparr>rs_loopbreak := b s\<rparr>))"
  by (simp_all add: safe_modify field_freeD [OF fields])

lemma lastVars_update_safe: "safe I (modify (rs_lastVars_update f))"
proof -
  have "modify (rs_lastVars_update f) = modify (\<lambda>s. s\<lparr>rs_lastVars := f (rs_lastVars s)\<rparr>)"
    by (rule ext) (simp add: modify_def)
  then show ?thesis by (rule ssubst) (rule writes)
qed

lemma send_safe: "safe I (sendJsonToClientSource m)"
  unfolding sendJsonToClientSource_def by (intro safe_rules safe_modify) (auto intro: sends)

lemma formatString_safe: "safe I (formatStringAsJson env t e)"
  unfolding formatStringAsJson_def Let_def by (intro safe_rules)

lemma console_safe: "safe I (console env f)"
  unfolding console_def WriteConsole_def consoleCallback_def
  by (intro safe_rules atoms writes send_safe formatString_safe)

lemma evals:
  "safe I (parseEvalQNT env c)" "safe I (parseEvalNT env c)" "safe I (parseEvalR env c)" "safe I (parseEval env c)"
  unfolding parseEvalQNT_def parseEvalNT_def parseEvalR_def parseEval_def by (intro safe_rules console_safe)+

lemma sendText_safe: "safe I (sendTextToClient env t e)"
  unfolding sendTextToClient_def by (intro safe_rules formatString_safe send_safe)

lemma sendOutput_safe: "safe I (sendOutputBufferToClient env e)"
  unfolding sendOutputBufferToClient_def by (intro safe_rules sendText_safe writes)

lemma sendError_safe: "safe I (sendError env c d)"
  unfolding sendError_def by (intro safe_rules send_safe)

lemma schedule_safe: "safe I (scheduleExecComplete c q i)" "safe I (scheduleDelayedCommand j)"
  unfolding scheduleExecComplete_def scheduleDelayedCommand_def by (rule writes)+

lemma addImages_safe: "safe I (addImagesToJson j)"
  unfolding addImagesToJson_def checkWatch_def by (intro safe_rules)

lemma handleExecComplete_safe: "safe I (handleExecComplete env c q f)"
  unfolding handleExecComplete_def acknowledgeExecComplete_def Let_def
  by (intro safe_rules manager_calls send_safe addImages_safe)

lemma open_workspace_safe: "safe I (open_workspace env cmd)"
  by (rule opening_safe) (simp_all add: field_freeD [OF fields])

lemma clearFileChanges_safe: "safe I clearFileChanges"
  unfolding clearFileChanges_def by (intro safe_rules addImages_safe)

lemma sweave_collect_safe: "safe I (sweave_collect (env_sys env) d sc sp b)"
  unfolding sweave_collect_def Let_def by (intro safe_rules atoms has_content_safe manager_calls)

lemma saveEnv_safe: "safe I (handleSaveEnvCommand env)"
  unfolding handleSaveEnvCommand_def by (intro safe_rules evals rdata)

lemma close_safe: "safe I (handleCloseCommand env)"
  unfolding handleCloseCommand_def loopbreak_def by (intro safe_rules saveEnv_safe writes)

lemma on_input_safe: "safe I (on_input m)"
  by (auto simp: safe_def on_input_def split: prod.splits intro: field_freeD [OF fields])

lemma read_document_safe: "safe I (read_document env j)"
  unfolding read_document_def
  by (cases "env_parse env j") (auto split: exn.splits intro!: safe_rules)

end

section \<open>Handlers\<close>

text \<open>The blocks that set the output flags are assumptions; everything else follows.\<close>

locale session_invariant = session_base +
  assumes opens: "I s \<Longrightarrow> I (s\<lparr>rs_open := x\<rparr>)"
    and flush: "safe I (flushOutputBuffer env)"
    and callback: "safe I (executeCallback env cmd)"
    and help_block: "safe I (handleHelpCommand env command)"
    and render: "safe I (NotifySuspender (render_scope env r a b))"
    and register: "safe I (NotifySuspender (bind (findOrAddFile (env_sys env) f) (\<lambda>i. bind (gets rs_currentQueryId) (\<lambda>q.
      scheduleExecComplete command q (Some i)))))"
    and typeset: "safe I (sweave_typeset (env_sys env) d sc sp base)"
    and unmute: "safe I (setIgnoreOutput False)"
    and source: "safe I (executeRFile env path command)"
    and open_eval: "safe I (open_r env dir haveRData)"
begin

lemma watcher_safe:
  "safe I (capture env)" "safe I (watch_jsonDelta env)" "safe I (watch_toJson env)"
  "safe I (on_watcher (toJson_variable (env_api env) (executeCallback env) depth v))"
  unfolding capture_def watch_jsonDelta_def watch_toJson_def on_watcher_def captureEnvironment_def
  by (intro safe_rules atoms writes lastVars_update_safe jsonDelta_safe [OF world callback] toJson_safe [OF world callback]
      toJson_variable_safe [OF world callback])+

lemma listVariables_safe: "safe I (handleListVariablesCommand env d c)"
  unfolding handleListVariablesCommand_def Let_def by (intro safe_rules watcher_safe send_safe)

lemma getVariable_safe: "safe I (handleGetVariableCommand env c)"
  unfolding handleGetVariableCommand_def by (intro safe_rules watcher_safe send_safe)

lemma script_safe: "safe I (handleExecuteScript env c)"
  unfolding handleExecuteScript_def
  by (intro safe_rules watcher_safe manager_calls evals flush schedule_safe sendText_safe)

lemma rmarkdown_safe: "safe I (executeRMarkdown env f c)"
  unfolding executeRMarkdown_def Let_def
  by (intro safe_rules atoms tempdir_safe tmpDir_path_safe render register evals has_content_safe sendError_safe)

lemma sweave_safe: "safe I (executeSweave env f c)"
  unfolding executeSweave_def Let_def
  by (intro safe_rules atoms tmpDir_path_safe evals sendOutput_safe schedule_safe typeset unmute flush runtime_not_ub)

lemma executeFile_safe: "safe I (executeFile env c)"
  unfolding executeFile_def Let_def
  by (intro safe_rules manager_calls clearFileChanges_safe watcher_safe rmarkdown_safe sweave_safe source sendError_safe)

lemma dispatch_safe: "safe I (dispatch env t c)"
  unfolding dispatch_def raw_value_def
  by (cases t) (auto intro!: safe_rules close_safe manager_calls script_safe executeFile_safe help_block listVariables_safe
    getVariable_safe writes saveEnv_safe)

lemma handleCommand_safe: "safe I (handleCommand env c)"
  unfolding handleCommand_def raw_value_def by (intro safe_rules writes dispatch_safe)

lemma open_write: "safe I (modify (\<lambda>s. s\<lparr>rs_open := b\<rparr>))"
  by (rule safe_modify) (erule opens)

lemma open_safe: "safe I (handleOpenCommand env c)"
  unfolding handleOpenCommand_def
  by (intro safe_rules writes open_write open_workspace_safe open_eval send_safe runtime_not_ub)

lemma json_command_safe: "safe I (handleJsonCommand env j)"
  unfolding handleJsonCommand_def json_command_body_def
  by (intro safe_rules read_document_safe open_safe handleCommand_safe send_safe writes runtime_not_ub)

lemma handleJsonStatic_safe: "safe I (handleJsonStatic env added chunk)"
  unfolding handleJsonStatic_def
  by (intro safe_rules on_input_safe json_command_safe std_exception_not_ub)

lemma deliver_safe: "safe I (deliver env e)"
  by (cases e)
    (auto simp: run_event_def split: session_event.splits
      intro!: safe_rules handleJsonStatic_safe writes handleExecComplete_safe json_command_safe manager)

lemma session_step_keeps: "session_step env s s' \<Longrightarrow> I s \<Longrightarrow> I s'"
  by (auto intro: safeD_ok [OF deliver_safe])

end

section \<open>Invariants that ignore the flags\<close>

text \<open>First the invariants that do not depend on \<open>ignoreOutput\<close>, then those that depend on none of the three flags.\<close>

locale mute_free = session_base +
  assumes muting: "I s \<Longrightarrow> I (s\<lparr>rs_ignoreOutput := b\<rparr>)"
begin

lemma mute_writes: "safe I (setIgnoreOutput x)" "safe I (modify (put_ignoreOutput x))"
  unfolding setIgnoreOutput_def put_ignoreOutput_def by (rule safe_modify, simp add: muting)+

lemma guarded_flag: "safe I m \<Longrightarrow> safe I (guarded (put_ignoreOutput x) (put_ignoreOutput y) m)"
  unfolding guarded_def
  by (intro safe_rules safe_scoped mute_writes) (auto simp: put_ignoreOutput_def muting)

lemma flush_free: "safe I (flushOutputBuffer env)"
  unfolding flushOutputBuffer_def by (intro safe_rules mute_writes evals sendOutput_safe)

lemma callback_free: "safe I (executeCallback env cmd)"
  unfolding executeCallback_def BooleanWatcher_def by (intro safe_rules guarded_flag console_safe)

lemma help_free: "safe I (handleHelpCommand env c)"
  unfolding handleHelpCommand_def
  by (intro safe_rules atoms mute_writes evals send_safe) (rule runtime_not_ub)

lemma typeset_free: "safe I (sweave_typeset (env_sys env) d sc sp base)"
  unfolding sweave_typeset_def Let_def by (intro safe_rules atoms mute_writes sweave_collect_safe)

lemma open_free: "safe I (open_r env dir haveRData)"
  unfolding open_r_def by (intro safe_rules atoms mute_writes evals)

lemma register_free:
  "safe I (NotifySuspender (bind (findOrAddFile (env_sys env) f) (\<lambda>i. bind (gets rs_currentQueryId) (\<lambda>q.
    scheduleExecComplete command q (Some i)))))"
  unfolding NotifySuspender_def by (intro safe_rules guarded_flag manager_calls schedule_safe)

end

locale flag_free = mute_free +
  assumes flags: "I s \<Longrightarrow> I (s\<lparr>rs_captureStdOut := c\<rparr>) \<and> I (s\<lparr>rs_sourceInProgress := d\<rparr>)"
begin

lemma flag_writes:
  "safe I (modify (\<lambda>s. s\<lparr>rs_captureStdOut := y\<rparr>))" "safe I (modify (\<lambda>s. s\<lparr>rs_sourceInProgress := z\<rparr>))"
  by (rule safe_modify, simp add: flags)+

lemma render_free: "safe I (NotifySuspender (render_scope env r a b))"
  unfolding NotifySuspender_def render_scope_def
  by (intro safe_rules atoms guarded_flag mute_writes flag_writes evals flush_free)

lemma source_free_block: "safe I (executeRFile env path command)"
  unfolding executeRFile_def by (intro safe_rules flag_writes evals flush_free schedule_safe)

end

locale flag_free_invariant = flag_free +
  assumes opened: "I s \<Longrightarrow> I (s\<lparr>rs_open := x\<rparr>)"

sublocale flag_free_invariant \<subseteq> session_invariant
  by unfold_locales
    (erule opened, (rule flush_free callback_free help_free render_free register_free typeset_free mute_writes source_free_block open_free)+)

section \<open>What is on the wire\<close>

text \<open>Since the output was \<open>start\<close>, whole frames have been written.\<close>

definition framed :: "string \<Rightarrow> ('w, 'z) session_scheme \<Rightarrow> bool" where
  "framed start s \<longleftrightarrow> (\<exists>ms. [] \<notin> set ms \<and> rs_out s = start @ concat (map frame_message ms))"

lemma framed_owner: "owner_only (framed start)"
  unfolding owner_only_def
proof (intro allI impI)
  fix s t :: "('w, 'z) session_scheme"
  assume "fm.more s = fm.more t" and "framed start s"
  then show "framed start t" by (cases s; cases t) (simp add: framed_def)
qed

lemma framed_send: "framed start s \<Longrightarrow> m \<noteq> [] \<Longrightarrow> framed start (s\<lparr>rs_out := rs_out s @ frame_message m\<rparr>)"
  unfolding framed_def by (erule exE, rule_tac x = "ms @ [m]" in exI) auto

lemma owner_world: "owner_only I \<Longrightarrow> world_free I"
  by (rule source_free_world [OF owner_source_free])

lemma owner_manager:
  assumes "owner_only I"
  shows "safe I (fm_perform sys c)" "safe I (fm_loadRData sys)" "safe I (fm_saveRData sys)"
    "safe I (initFileManager sys dir con wsid recid)"
  by (rule safe_keeps, rule owner_keeps [OF assms])+

interpretation framed: flag_free_invariant env "framed start"
proof unfold_locales
  show "field_free (framed start)" by (simp add: field_free_def framed_def)
  show "framed start (s\<lparr>rs_out := rs_out s @ frame_message m\<rparr>)" if "framed start s" and "m \<noteq> []" for s m
    using that by (rule framed_send)
qed (simp_all add: owner_world framed_owner owner_manager, simp_all add: framed_def)

text \<open>A session with a socket that is not open.\<close>

definition live :: "('w, 'z) session_scheme \<Rightarrow> bool" where
  "live s \<longleftrightarrow> 0 < rs_socket s \<and> rs_outBuffer s \<and> rs_eventBuffer s = Live"

definition waiting :: "('w, 'z) session_scheme \<Rightarrow> bool" where
  "waiting s \<longleftrightarrow> live s \<and> \<not> rs_open s"

lemma waiting_owner: "owner_only waiting"
  unfolding owner_only_def
proof (intro allI impI)
  fix s t :: "('w, 'z) session_scheme"
  assume "fm.more s = fm.more t" and "waiting s"
  then show "waiting t" by (cases s; cases t) (simp add: waiting_def live_def)
qed

interpretation waiting: flag_free env waiting
  by unfold_locales
    (simp_all add: owner_world waiting_owner owner_manager, simp_all add: field_free_def waiting_def live_def)

section \<open>The tables of the file manager\<close>

interpretation tables: flag_free_invariant env fm_wf
proof unfold_locales
  show "world_free fm_wf" by (rule fm_wf_world_free)
  show "field_free fm_wf" by (simp add: field_free_def fm_wf_def files_wf_def watch_wf_def)
  show "safe fm_wf (fm_perform (env_sys env) c)" for c by (rule fm_perform_wf)
  show "safe fm_wf (fm_loadRData (env_sys env))" "safe fm_wf (fm_saveRData (env_sys env))"
    by (rule safe_keeps, rule rdata_wf)+
  show "safe fm_wf (initFileManager (env_sys env) dir con wsid recid)" for dir con wsid recid
    by (auto simp: safe_def fm_wf_def intro!: disjI2 initFileManager_establishes [unfolded fm_wf_def])
qed (simp_all add: fm_wf_def files_wf_def watch_wf_def)

end
