(* ===== verification/Session_Flags.thy ===== *)
theory Session_Flags
  imports Session_Laws
begin

text \<open>
  The three flags that redirect R's console output: \<open>ignoreOutput\<close> drops it, \<open>captureStdOut\<close>
  diverts it, \<open>sourceInProgress\<close> makes invisible values visible. Each is set for the length of a
  block. The session is settled when the last two are clear: an invariant of every callback. It is
  idle when all three are clear; that is an invariant too, if the R functions behind the help
  command fail with run-time errors only.
\<close>

section \<open>Modes\<close>

definition mode :: "bool \<Rightarrow> bool \<Rightarrow> bool \<Rightarrow> ('w, 'z) session_scheme \<Rightarrow> bool" where
  "mode i c p s \<longleftrightarrow> rs_ignoreOutput s = i \<and> rs_captureStdOut s = c \<and> rs_sourceInProgress s = p"

abbreviation idle :: "('w, 'z) session_scheme \<Rightarrow> bool" where
  "idle \<equiv> mode False False False"

lemma mode_owner: "owner_only (mode i c p)"
  unfolding owner_only_def
proof (intro allI impI)
  fix s t :: "('w, 'z) session_scheme"
  assume "fm.more s = fm.more t" and "mode i c p s"
  then show "mode i c p t" by (cases s; cases t) (simp add: mode_def)
qed

interpretation mode: session_base env "mode i c p"
proof unfold_locales
  show "world_free (mode i c p)" by (rule owner_world [OF mode_owner])
  show "field_free (mode i c p)" by (simp add: field_free_def mode_def)
qed (simp_all add: owner_manager mode_owner, simp add: mode_def)

section \<open>Steps that only fail by undefined behaviour\<close>

definition total :: "('s, 'a) act \<Rightarrow> bool" where
  "total m \<longleftrightarrow> (\<forall>s e s'. m s = (Inl e, s') \<longrightarrow> is_ub e)"

lemma total_ret: "total (ret a)" "total skip" "total (gets f)" "total (modify g)" "total (os_do h)" "total (os_read k)"
  "total (os_upd u)"
  by (auto simp: total_def act_simps split: prod.splits)

lemma total_bind: "total m \<Longrightarrow> (\<And>a. total (f a)) \<Longrightarrow> total (bind m f)"
  by (fastforce simp: total_def bind_def split: prod.splits sum.splits)

lemma total_seq: "total m \<Longrightarrow> total n \<Longrightarrow> total (seq m n)"
  by (simp add: seq_def total_bind)

lemma total_if: "(b \<Longrightarrow> total m) \<Longrightarrow> (\<not> b \<Longrightarrow> total n) \<Longrightarrow> total (if b then m else n)"
  by simp

lemma total_ub: "total (throw (UB x))"
  by (simp add: total_def throw_def)

lemma total_for_each: "(\<And>x. total (f x)) \<Longrightarrow> total (for_each xs f)"
  by (induction xs) (auto intro: total_ret total_seq)

lemma total_case_prod: "(\<And>a b. total (f a b)) \<Longrightarrow> total (case x of (a, b) \<Rightarrow> f a b)"
  by (cases x) simp

lemmas total_rules = total_bind total_seq total_if total_ub total_for_each total_ret total_case_prod

lemma json_object_is: "\<exists>m. json_object kvs = JObject m"
proof -
  have "list_all is_pair (map (\<lambda>(k, v). json_init [JString k, v]) kvs)"
    by (auto simp: list_all_iff json_init_pair)
  then show ?thesis by (simp add: json_object_def json_init_def)
qed

lemma total_set: "total (lift (json_set k v (json_object kvs)))"
  using json_object_is [of kvs] by (auto simp: json_set_ok total_ret)

lemma send_total: "total (sendJsonToClientSource m)"
  unfolding sendJsonToClientSource_def by (intro total_rules)

lemma formatString_total: "total (formatStringAsJson env t e)"
  unfolding formatStringAsJson_def Let_def by (intro total_rules total_set)

lemma console_total: "total (console env f)"
  unfolding console_def WriteConsole_def consoleCallback_def
  by (intro total_rules send_total formatString_total)

lemma eval_total: "total (parseEvalQNT env c)" "total (parseEvalNT env c)"
  by (simp_all add: parseEvalQNT_def parseEvalNT_def console_total)

lemma sendOutput_total: "total (sendOutputBufferToClient env e)"
  unfolding sendOutputBufferToClient_def sendTextToClient_def
  by (intro total_rules send_total formatString_total)

section \<open>Blocks\<close>

text \<open>From \<open>P\<close> to \<open>Q\<close>, or undefined behaviour, or an exception with the flags clear.\<close>

definition block ::
    "(('w, 'z) session_scheme \<Rightarrow> bool) \<Rightarrow> (('w, 'z) session_scheme, 'a) act \<Rightarrow> (('w, 'z) session_scheme \<Rightarrow> bool) \<Rightarrow> bool" where
  "block P m Q \<longleftrightarrow> ensures P m (\<lambda>_. Q) (\<lambda>e s. is_ub e \<or> idle s)"

lemma block_safe:
  assumes "block idle m idle"
  shows "safe idle m"
proof (rule safeI)
  fix s :: "('a, 'b) session_scheme" assume "idle s"
  with assms have "case m s of (Inr a, s') \<Rightarrow> idle s' | (Inl e, s') \<Rightarrow> is_ub e \<or> idle s'"
    by (simp add: block_def ensures_def)
  then show "ends_ub (fst (m s)) \<or> idle (snd (m s))"
    by (cases "m s"; cases "fst (m s)") auto
qed

lemma safe_block: "safe idle m \<Longrightarrow> block idle m idle"
  by (fastforce simp: block_def safe_def ensures_def split: prod.splits sum.splits)

lemma total_block: "total m \<Longrightarrow> safe I m \<Longrightarrow> block I m I"
  by (fastforce simp: block_def safe_def total_def ensures_def split: prod.splits sum.splits)

lemma block_seq: "block P m R \<Longrightarrow> block R n Q \<Longrightarrow> block P (seq m n) Q"
  unfolding block_def by (erule ensures_seq)

lemma block_bind: "block P m R \<Longrightarrow> (\<And>a. block R (f a) Q) \<Longrightarrow> block P (bind m f) Q"
  unfolding block_def by (erule ensures_bind)

lemma block_flag:
  "block (mode i c p) (setIgnoreOutput b) (mode b c p)"
  "block (mode i c p) (modify (\<lambda>s. s\<lparr>rs_captureStdOut := b\<rparr>)) (mode i b p)"
  "block (mode i c p) (modify (\<lambda>s. s\<lparr>rs_sourceInProgress := b\<rparr>)) (mode i c b)"
  by (auto simp: block_def setIgnoreOutput_def put_ignoreOutput_def mode_def intro!: ensures_modify)

lemma block_eval: "block (mode i c p) (parseEvalQNT env cmd) (mode i c p)"
  by (rule total_block [OF eval_total(1) mode.evals(1)])

lemma block_gets: "block P (gets f) P"
  by (simp add: block_def ensures_gets)

lemma block_guarded:
  assumes "block (mode True c p) m (mode i c p)" and "\<not> c" and "\<not> p"
  shows "block (mode j c p) (guarded (put_ignoreOutput True) (put_ignoreOutput False) m) idle"
  using assms
  unfolding block_def guarded_def
  by (intro ensures_seq [where R = "\<lambda>_. mode True c p"])
    (auto intro!: ensures_modify elim!: ensures_scoped simp: put_ignoreOutput_def mode_def)

lemma flush_block: "block (mode i c p) (flushOutputBuffer env) (mode False c p)"
  unfolding flushOutputBuffer_def
  by (rule block_seq block_flag block_eval total_block [OF sendOutput_total mode.sendOutput_safe])+

lemma render_block: "block (mode i False False) (NotifySuspender (render_scope env r a b)) idle"
  unfolding NotifySuspender_def render_scope_def
  by (rule block_guarded)
    (rule block_seq block_flag block_eval flush_block safe_block safe_rules mode.atoms | simp)+

lemma register_block:
  assumes "safe (mode True False False) m"
  shows "safe idle (NotifySuspender m)"
proof (rule safeI)
  fix s :: "('a, 'b) session_scheme" assume "idle s"
  then have "mode True False False (put_ignoreOutput True s)" by (simp add: mode_def put_ignoreOutput_def)
  from safeD [OF assms this]
  show "ends_ub (fst (NotifySuspender m s)) \<or> idle (snd (NotifySuspender m s))"
    by (cases "m (put_ignoreOutput True s)")
      (auto simp: NotifySuspender_def guarded_apply mode_def put_ignoreOutput_def)
qed

lemma source_block: "block (mode i False False) (executeRFile env path command) idle"
  unfolding executeRFile_def
  by (rule block_seq block_flag block_eval flush_block safe_block safe_rules mode.schedule_safe)+

lemma callback_block: "block idle (BooleanWatcher put_ignoreOutput (console env f)) idle"
  unfolding BooleanWatcher_def
  by (rule block_guarded [where i = True]) (simp_all add: total_block [OF console_total mode.console_safe])

section \<open>Idle between callbacks\<close>

definition help_ok :: "'w env \<Rightarrow> bool" where
  "help_ok env \<longleftrightarrow>
     (\<forall>cmd w e. fst (fst (r_parse_eval (env_sys env) cmd w)) = Inl e \<longrightarrow> is_runtime_error e) \<and>
     (\<forall>x w e. r_help_paths (env_sys env) x w = Inl e \<longrightarrow> is_runtime_error e)"

lemma console_result: "console env f s = (Inr a, s') \<Longrightarrow> a = fst (fst (f (world s)))"
  by (auto simp: console_def act_simps split: prod.splits sum.splits)

lemma parseEval_runtime:
  assumes "help_ok env" and "parseEval env cmd s = (Inl e, s')"
  shows "is_runtime_error e \<or> is_ub e"
proof -
  obtain r t where c: "console env (r_parse_eval (env_sys env) cmd) s = (r, t)" by force
  show ?thesis
  proof (cases r)
    case (Inl e')
    with assms(2) c console_total [of env "r_parse_eval (env_sys env) cmd"] show ?thesis
      by (auto simp: parseEval_def bind_apply total_def)
  next
    case (Inr a)
    with assms(2) c have "a = Inl e" by (simp add: parseEval_def bind_apply lift_apply)
    with console_result [OF c [unfolded Inr]] assms(1) show ?thesis by (metis help_ok_def)
  qed
qed

text \<open>The exceptions of the \<open>try\<close> block of the help command are all caught.\<close>

lemma help_try_total:
  assumes "help_ok env"
  shows "total (try_catch is_runtime_error
     (bind (parseEval env cmd) (\<lambda>result. bind (rdx (r_help_paths (env_sys env) result)) (\<lambda>paths.
       sendJsonToClientSource (f paths)))) (\<lambda>err. skip))"
proof -
  have paths: "rdx (r_help_paths (env_sys env) x) s = (Inl e, s') \<Longrightarrow> is_runtime_error e" for x s s' e
    using assms by (auto simp: rdx_def bind_apply os_read_def lift_apply help_ok_def)
  show ?thesis
    unfolding total_def
  proof (intro allI impI)
    fix s :: "('a, 'b) session_scheme" and e s'
    assume "try_catch is_runtime_error
     (bind (parseEval env cmd) (\<lambda>result. bind (rdx (r_help_paths (env_sys env) result)) (\<lambda>paths.
       sendJsonToClientSource (f paths)))) (\<lambda>err. skip) s = (Inl e, s')"
    then show "is_ub e"
      using parseEval_runtime [OF assms] paths send_total
      by (fastforce simp: try_catch_def bind_apply skip_apply total_def split: prod.splits sum.splits if_splits)
  qed
qed

lemma help_idle:
  assumes "help_ok env"
  shows "block idle (handleHelpCommand env command) idle"
  unfolding handleHelpCommand_def
proof (rule block_bind)
  show "block idle (lift (argument command)) idle" by (intro safe_block safe_rules)
  fix topic
  show "block idle (seq (setIgnoreOutput True)
     (seq
       (try_catch is_runtime_error
         (bind (parseEval env (''help('' @ [CHR 0x22] @ escape_quotes topic @ [CHR 0x22] @ '')'')) (\<lambda>result.
          bind (rdx (r_help_paths (env_sys env) result)) (\<lambda>paths.
          sendJsonToClientSource (json_text env (json_object
            [(''msg'', JString ''help''), (''topic'', JString topic), (''paths'', json_strings paths)])))))
         (\<lambda>err. skip))
       (setIgnoreOutput False))) idle"
    by (rule block_seq block_flag total_block [OF help_try_total [OF assms]] safe_try safe_rules mode.evals mode.atoms
        mode.send_safe runtime_not_ub | assumption)+
qed

lemma idle_invariant:
  assumes "help_ok env"
  shows "session_invariant env (idle :: ('w, 'z) session_scheme \<Rightarrow> bool)"
proof unfold_locales
  show "idle (s\<lparr>rs_open := x\<rparr>)" if "idle s" for s :: "('w, 'z) session_scheme" and x
    using that by (simp add: mode_def)
  show "safe idle (flushOutputBuffer env :: (('w, 'z) session_scheme, unit) act)"
    by (rule block_safe [OF flush_block])
  show "safe idle (executeCallback env cmd :: (('w, 'z) session_scheme, bool \<times> sexp) act)" for cmd
    unfolding executeCallback_def by (intro safe_rules block_safe [OF callback_block])
  show "safe idle (handleHelpCommand env command :: (('w, 'z) session_scheme, unit) act)" for command
    by (rule block_safe [OF help_idle [OF assms]])
  show "safe idle (NotifySuspender (render_scope env r a b) :: (('w, 'z) session_scheme, bool) act)" for r a b
    by (rule block_safe [OF render_block])
  show "safe idle (NotifySuspender (bind (findOrAddFile (env_sys env) f) (\<lambda>i. bind (gets rs_currentQueryId) (\<lambda>q.
      scheduleExecComplete command q (Some i)))) :: (('w, 'z) session_scheme, unit) act)" for f command
    by (intro register_block safe_rules mode.manager_calls mode.schedule_safe)
  show "safe idle (sweave_typeset (env_sys env) d sc sp base :: (('w, 'z) session_scheme, file_info) act)" for d sc sp base
    unfolding sweave_typeset_def Let_def
    by (intro safe_rules mode.atoms block_safe)
      (rule block_seq block_flag block_bind total_block [OF total_ret(5) mode.atoms(1)] safe_block mode.sweave_collect_safe)+
  show "safe idle (setIgnoreOutput False :: (('w, 'z) session_scheme, unit) act)"
    by (rule block_safe [OF block_flag(1)])
  show "safe idle (executeRFile env path command :: (('w, 'z) session_scheme, unit) act)" for path command
    by (rule block_safe [OF source_block])
  show "safe idle (open_r env dir haveRData :: (('w, 'z) session_scheme, unit) act)" for dir haveRData
    unfolding open_r_def
    by (rule block_safe)
      (rule block_seq block_flag block_eval total_block [OF total_ret(7) mode.atoms(2)]
        total_block [OF total_for_each [OF eval_total(1)] safe_for_each [OF mode.evals(1)]])+
qed

section \<open>Settled between callbacks\<close>

definition settled :: "('w, 'z) session_scheme \<Rightarrow> bool" where
  "settled s \<longleftrightarrow> \<not> rs_captureStdOut s \<and> \<not> rs_sourceInProgress s"

lemma settled_mode: "settled s \<longleftrightarrow> mode (rs_ignoreOutput s) False False s"
  by (simp add: settled_def mode_def)

lemma settled_owner: "owner_only settled"
  unfolding owner_only_def
proof (intro allI impI)
  fix s t :: "('w, 'z) session_scheme"
  assume "fm.more s = fm.more t" and "settled s"
  then show "settled t" by (cases s; cases t) (simp add: settled_def)
qed

interpretation settled: mute_free env settled
  by unfold_locales
    (simp_all add: owner_world settled_owner owner_manager, simp_all add: field_free_def settled_def)

lemma settled_safe:
  assumes "\<And>i. block (mode i False False) m idle"
  shows "safe settled m"
proof (rule safeI)
  fix s :: "('a, 'b) session_scheme" assume "settled s"
  with assms have "case m s of (Inr a, s') \<Rightarrow> idle s' | (Inl e, s') \<Rightarrow> is_ub e \<or> idle s'"
    by (simp add: block_def ensures_def settled_mode)
  then show "ends_ub (fst (m s)) \<or> settled (snd (m s))"
    by (cases "m s"; cases "fst (m s)") (auto simp: settled_def mode_def)
qed

interpretation settled_invariant: session_invariant env settled
proof unfold_locales
  show "settled (s\<lparr>rs_open := x\<rparr>)" if "settled s" for s :: "('w, 'z) session_scheme" and x
    using that by (simp add: settled_def)
qed (rule settled.flush_free settled.callback_free settled.help_free settled.register_free settled.typeset_free
    settled.mute_writes settled.open_free settled_safe [OF render_block] settled_safe [OF source_block])+

end
