(* ===== verification/Session_Output.thy ===== *)
theory Session_Output
  imports Session_Flags
begin

text \<open>
  What the client of a session sees of R's console output: every error text as a frame of its own
  at once, the visible output collected and sent as one frame when it is flushed, in order; and the
  functional behaviour of the script command that follows from it.
\<close>

section \<open>Messages\<close>

text \<open>The message of a console text outside a sourced file.\<close>

definition result_message :: "'w env \<Rightarrow> bool \<Rightarrow> int \<Rightarrow> string \<Rightarrow> string" where
  "result_message env is_error queryId text =
     (let response = json_object [(''msg'', JString ''results''), (''string'', JString text),
            (if is_error then ''stderr'' else ''stdout'', JBool True)] in
      json_text env (if 0 < queryId
        then (case json_set ''queryId'' (JInt queryId) response of Inr j \<Rightarrow> j | Inl _ \<Rightarrow> response) else response))"

lemma json_text_nonempty: "json_text env (JObject m) \<noteq> []"
  by (simp add: json_text_def json_dump_def)

lemma json_text_object: "json_text env (json_object kvs) \<noteq> []"
  using json_object_is [of kvs] by (auto simp: json_text_nonempty)

lemma result_message_nonempty: "result_message env e q t \<noteq> []"
  using json_object_is [of "[(''msg'', JString ''results''), (''string'', JString t),
    (if e then ''stderr'' else ''stdout'', JBool True)]"]
  by (auto simp: result_message_def json_set_ok json_text_nonempty Let_def)

lemma formatString_idle:
  assumes "\<not> rs_sourceInProgress s"
  shows "formatStringAsJson env text e s = (Inr (if text = [] then [] else result_message env e (rs_currentQueryId s) text), s)"
proof -
  obtain m where "json_object [(''msg'', JString ''results''), (''string'', JString text),
    (if e then ''stderr'' else ''stdout'', JBool True)] = JObject m"
    using json_object_is by blast
  with assms show ?thesis
    by (auto simp: formatStringAsJson_def act_simps Let_def result_message_def json_set_ok)
qed

lemma send_live: "live s \<Longrightarrow> sendJsonToClientSource m s = (Inr (), if m = [] then s else s\<lparr>rs_out := rs_out s @ frame_message m\<rparr>)"
  by (simp add: sendJsonToClientSource_def act_simps live_def)

section \<open>Console writes\<close>

definition error_texts :: "console_write list \<Rightarrow> string list" where
  "error_texts ws = [cw_text w. w \<leftarrow> ws, 0 < cw_type w \<and> cw_text w \<noteq> []]"

definition visible_text :: "console_write list \<Rightarrow> string" where
  "visible_text ws = concat [cw_text w. w \<leftarrow> ws, \<not> 0 < cw_type w \<and> cw_visible w]"

definition error_frames :: "'w env \<Rightarrow> int \<Rightarrow> console_write list \<Rightarrow> string" where
  "error_frames env q ws = concat (map (frame_message \<circ> result_message env True q) (error_texts ws))"

definition printed :: "'w env \<Rightarrow> console_write list \<Rightarrow> ('w, 'z) session_scheme \<Rightarrow> ('w, 'z) session_scheme" where
  "printed env ws s = s\<lparr>rs_out := rs_out s @ error_frames env (rs_currentQueryId s) ws,
     rs_consoleOutBuffer := rs_consoleOutBuffer s @ visible_text ws\<rparr>"

lemma printed_Nil: "printed env [] s = s"
  by (simp add: printed_def error_frames_def error_texts_def visible_text_def)

lemma printed_Cons: "printed env (w # ws) s = printed env ws (printed env [w] s)"
  by (simp add: printed_def error_frames_def error_texts_def visible_text_def)

lemma write_idle:
  assumes "live s" and "idle s"
  shows "WriteConsole env w s = (Inr (), printed env [w] s)"
  using assms result_message_nonempty [of env True "rs_currentQueryId s" "cw_text w"]
  by (auto simp: WriteConsole_def consoleCallback_def act_simps mode_def formatString_idle send_live printed_def
      error_frames_def error_texts_def visible_text_def)

lemma printed_stays: "live (printed env ws s) = live s" "mode i c p (printed env ws s) = mode i c p s"
  "world (printed env ws s) = world s" "rs_currentQueryId (printed env ws s) = rs_currentQueryId s"
  "rs_events (printed env ws s) = rs_events s"
  by (simp_all add: printed_def live_def mode_def)

lemma writes_idle: "live s \<Longrightarrow> idle s \<Longrightarrow> for_each ws (WriteConsole env) s = (Inr (), printed env ws s)"
proof (induction ws arbitrary: s)
  case (Cons w ws)
  then show ?case
    by (simp add: seq_apply write_idle printed_stays) (simp add: printed_Cons [of env w ws])
qed (simp add: printed_Nil skip_apply)

lemma writes_muted:
  "rs_ignoreOutput s \<Longrightarrow> \<not> rs_captureStdOut s \<Longrightarrow> for_each ws (WriteConsole env) s = (Inr (), s)"
  by (induction ws) (simp_all add: act_simps WriteConsole_def consoleCallback_def)

lemma world_stays: "live (s\<lparr>world := w\<rparr>) = live s" "mode i c p (s\<lparr>world := w\<rparr>) = mode i c p s"
  by (simp_all add: live_def mode_def)

lemma console_idle:
  assumes "live s" and "idle s" and "f (world s) = ((a, ws), w)"
  shows "console env f s = (Inr a, printed env ws (s\<lparr>world := w\<rparr>))"
  using assms by (simp add: console_def act_simps writes_idle world_stays)

lemma eval_muted:
  assumes "rs_ignoreOutput s" and "\<not> rs_captureStdOut s"
  shows "parseEvalQNT env cmd s = (Inr (), s\<lparr>world := snd (r_parse_eval_qnt (env_sys env) cmd (world s))\<rparr>)"
  using assms by (simp add: parseEvalQNT_def console_def with_unit_def act_simps writes_muted split: prod.splits)

section \<open>Flushing\<close>

definition pngoff_world :: "'w env \<Rightarrow> 'w \<Rightarrow> 'w" where
  "pngoff_world env w = snd (r_parse_eval_qnt (env_sys env) ''rc2.pngoff()'' w)"

definition output_frame :: "'w env \<Rightarrow> int \<Rightarrow> string \<Rightarrow> string" where
  "output_frame env q text = (if text = [] then [] else frame_message (result_message env False q text))"

lemma flush_idle:
  assumes "live s" and "idle s"
  shows "flushOutputBuffer env s = (Inr (), s\<lparr>world := pngoff_world env (world s),
    rs_out := rs_out s @ output_frame env (rs_currentQueryId s) (rs_consoleOutBuffer s), rs_consoleOutBuffer := []\<rparr>)"
proof -
  let ?t = "s\<lparr>world := pngoff_world env (world s), rs_ignoreOutput := False\<rparr>"
  have same: "?t = s\<lparr>world := pngoff_world env (world s)\<rparr>" using assms(2) by (cases s) (simp add: mode_def)
  have send: "sendOutputBufferToClient env False ?t = (Inr (), ?t\<lparr>
     rs_out := rs_out s @ output_frame env (rs_currentQueryId s) (rs_consoleOutBuffer s), rs_consoleOutBuffer := []\<rparr>)"
  proof (cases "rs_consoleOutBuffer s = []")
    case True
    then show ?thesis
      by (cases s) (simp add: sendOutputBufferToClient_def act_simps output_frame_def)
  next
    case False
    have "live ?t" using assms(1) by (simp add: live_def)
    with False assms(2) show ?thesis
      by (simp add: sendOutputBufferToClient_def sendTextToClient_def act_simps formatString_idle send_live
          result_message_nonempty output_frame_def mode_def)
  qed
  show ?thesis
    using assms(2) send [unfolded same]
    by (simp add: flushOutputBuffer_def setIgnoreOutput_def put_ignoreOutput_def act_simps eval_muted
        same [unfolded pngoff_world_def] pngoff_world_def mode_def)
qed

section \<open>Scripts\<close>

lemma resetWatch_run: "\<exists>t. resetWatch s = (Inr (), t) \<and> world t = world s \<and> fm.more t = fm.more s"
  by (auto simp: resetWatch_def act_simps)

lemma more_fields:
  fixes s t :: "('w, 'z) session_scheme"
  assumes "fm.more t = fm.more s"
  shows "rs_out t = rs_out s" "rs_consoleOutBuffer t = rs_consoleOutBuffer s" "rs_events t = rs_events s"
    "rs_currentQueryId t = rs_currentQueryId s" "live t = live s" "mode i c p t = mode i c p s"
    "rs_watchVariables t = rs_watchVariables s"
  using assms by (cases s; cases t; simp add: live_def mode_def)+

definition script_events :: "parse_eval_result \<Rightarrow> json_command \<Rightarrow> int \<Rightarrow> session_event list" where
  "script_events pe command queryId = (if pe = PE_SUCCESS then [ExecCompleteArgs command queryId no_file] else [])"

definition script_tail :: "'w env \<Rightarrow> parse_eval_result \<Rightarrow> int \<Rightarrow> string" where
  "script_tail env pe queryId =
     (if pe = PE_INCOMPLETE
      then frame_message (result_message env True queryId (''Incomplete R statement'' @ [CHR 0x0A])) else [])"

lemma script_runs:
  fixes s :: "('w, 'z) session_scheme"
  assumes "live s" and "idle s" and "rs_consoleOutBuffer s = []" and "\<not> rs_watchVariables s"
    and "argument command = Inr script" and "watchVariables command = Inr False"
    and "r_parse_eval_r (env_sys env) script (world s) = ((pe, ws), w)"
  shows "\<exists>s'. handleExecuteScript env command s = (Inr (), s') \<and>
    rs_out s' = rs_out s @ error_frames env (rs_currentQueryId s) ws
      @ output_frame env (rs_currentQueryId s) (visible_text ws) @ script_tail env pe (rs_currentQueryId s) \<and>
    rs_consoleOutBuffer s' = [] \<and>
    rs_events s' = rs_events s @ script_events pe command (rs_currentQueryId s)"
proof -
  obtain t where t: "resetWatch s = (Inr (), t)" "world t = world s" "fm.more t = fm.more s"
    using resetWatch_run by blast
  note more = more_fields [OF t(3)]
  let ?u = "printed env ws (t\<lparr>world := w\<rparr>)"
  have eval: "parseEvalR env script t = (Inr pe, ?u)"
    unfolding parseEvalR_def using assms(1,2,7) t(2) more by (intro console_idle) simp_all
  have u: "live ?u" "idle ?u" using assms(1,2) more by (simp_all add: printed_stays world_stays)
  have "\<not> rs_sourceInProgress t" using assms(2) more(6) [of False False False] by (simp add: mode_def)
  with assms(3-6) t(1) more(1-5,7) u show ?thesis
    by (simp add: handleExecuteScript_def act_simps eval flush_idle scheduleExecComplete_def sendTextToClient_def
        formatString_idle send_live script_events_def script_tail_def file_info_from_def printed_def
        result_message_nonempty live_def)
qed

end
