(* ===== verification/Session_Behaviour.thy ===== *)
theory Session_Behaviour
  imports Session_Output
begin

text \<open>
  The properties of the session: what holds in every state its event loop reaches, what the client
  is told for each kind of request, and the requests the code mishandles.
\<close>

section \<open>Reachable sessions\<close>

text \<open>\<open>main\<close>: construct the session, set its socket from the arguments, prepare, run the loop.\<close>

definition started :: "'w \<Rightarrow> 32 word \<Rightarrow> int \<Rightarrow> bool \<Rightarrow> 'w session" where
  "started w junk socket bev = snd (prepareForRunLoop bev (new_RSession w junk\<lparr>rs_socket := socket\<rparr>))"

inductive session_reach :: "'w env \<Rightarrow> 'w session \<Rightarrow> bool" for env where
  start: "session_reach env (started w junk socket bev)"
| step: "session_reach env s \<Longrightarrow> session_step env s s' \<Longrightarrow> session_reach env s'"

lemma started_state:
  "started w junk socket bev = new_RSession w junk\<lparr>rs_socket := socket, rs_eventBase := True,
     rs_eventBuffer := (if 0 < socket \<and> bev then Live else Null),
     rs_outBuffer := (socket \<le> 0 \<or> bev), rs_envWatcher := (socket \<le> 0 \<or> bev), rs_lastVars := []\<rparr>"
  by (auto simp: started_def prepareForRunLoop_def act_simps new_RSession_def)

lemma started_framed: "framed [] (started w junk socket bev)"
  by (auto simp: started_state framed_def new_RSession_def intro: exI [of _ "[]"])

lemma started_wf: "fm_wf (started w junk socket bev)"
  by (simp add: started_state fm_wf_def files_wf_def watch_wf_def new_RSession_def omap_inv_def omap_find_def)

lemma started_idle: "idle (started w junk socket bev)"
  by (simp add: started_state mode_def new_RSession_def)

lemma started_settled: "settled (started w junk socket bev)"
  by (simp add: started_state settled_def new_RSession_def)

lemma reach_framed: "session_reach env s \<Longrightarrow> framed [] s"
  by (induction rule: session_reach.induct) (auto intro: started_framed framed.session_step_keeps)

lemma reach_wf: "session_reach env s \<Longrightarrow> fm_wf s"
  by (induction rule: session_reach.induct) (auto intro: started_wf tables.session_step_keeps)

lemma reach_settled: "session_reach env s \<Longrightarrow> settled s"
  by (induction rule: session_reach.induct)
    (auto intro: started_settled settled_invariant.session_step_keeps)

lemma reach_idle:
  assumes "help_ok env"
  shows "session_reach env s \<Longrightarrow> idle s"
  by (induction rule: session_reach.induct)
    (auto intro: started_idle session_invariant.session_step_keeps [OF idle_invariant [OF assms]])

lemma frames_received:
  assumes "\<forall>m\<in>set ms. frameable m"
  shows "receive_all (readMessage True) (map frame_message ms) (new_input_buffer junk) = (Inr ms, new_input_buffer junk)"
proof -
  have "list_all2 (\<lambda>m cs. frameable m \<and> concat cs = frame_message m) ms (map (\<lambda>m. [frame_message m]) ms)"
    using assms by (auto simp: list_all2_conv_all_nth)
  from wire_roundtrip_step [OF this, of junk] show ?thesis by (simp add: concat_map_singleton)
qed

section \<open>Requests\<close>

lemma command_of_object:
  assumes "env_parse env json = Inr (JObject m)" and "json_find ''msg'' (JObject m) = Some (JString t)" and "json \<noteq> []"
  shows "json_command_body env json s =
    (case command_type_of t of
       None \<Rightarrow> (Inl (UB ''uninitialised _type''), s)
     | Some ty \<Rightarrow>
         (if ty = Open then
            (if rs_open s then (Inr False, s)
             else seq (handleOpenCommand env \<lparr>jc_cmd = JObject m, jc_type = Some ty\<rparr>) (ret True) s)
          else seq (handleCommand env \<lparr>jc_cmd = JObject m, jc_type = Some ty\<rparr>) (ret True) s))"
  using assms
  by (simp add: json_command_body_def read_document_def new_JsonCommand_object jc_get_type_def act_simps
      split: option.splits)

lemma json_command_of_body:
  "json_command_body env json s = (r, t) \<Longrightarrow>
    handleJsonCommand env json s =
      (case r of
         Inr reached \<Rightarrow> (Inr (), if reached then t\<lparr>rs_currentQueryId := 0\<rparr> else t)
       | Inl e \<Rightarrow>
           (if is_runtime_error e then
              seq (sendJsonToClientSource (formatErrorAsJson env kError_ExecFile_MarkdownFailed (what e) 1))
                (modify (\<lambda>s. s\<lparr>rs_currentQueryId := 0\<rparr>)) t
            else (Inl e, t)))"
  by (cases r) (simp_all add: handleJsonCommand_def try_catch_def act_simps split: prod.splits sum.splits)

lemma error_message_nonempty: "formatErrorAsJson env code details q \<noteq> []"
  using json_object_is [of "[(''msg'', JString ''error''), (''errorCode'', JInt code), (''errorDetails'', JString details)]"]
  by (auto simp: formatErrorAsJson_def json_set_ok json_text_nonempty Let_def)

lemma openresponse_nonempty: "openresponse env m \<noteq> []"
  by (simp add: openresponse_def json_text_object)

section \<open>Opening\<close>

lemma open_r_total: "total (open_r env d b)"
  unfolding open_r_def setIgnoreOutput_def by (intro total_rules eval_total)

lemma framed_extend:
  assumes "framed start s"
  obtains ms where "rs_out s = start @ concat (map frame_message ms)"
  using assms by (auto simp: framed_def)

text \<open>What opening has sent: error messages of the console, each with the session's query id.\<close>

definition console_frames :: "'w env \<Rightarrow> int \<Rightarrow> string list \<Rightarrow> string" where
  "console_frames env q ts = concat (map (\<lambda>t. frame_message (result_message env True q t)) ts)"

definition told :: "'w env \<Rightarrow> int \<Rightarrow> string \<Rightarrow> ('w, 'z) session_scheme \<Rightarrow> bool" where
  "told env q start s \<longleftrightarrow> rs_currentQueryId s = q \<and> (\<exists>ts. rs_out s = start @ console_frames env q ts)"

lemma told_start: "told env (rs_currentQueryId s) (rs_out s) s"
  by (auto simp: told_def console_frames_def intro: exI [of _ "[]"])

lemma told_fields: "told env q start s \<Longrightarrow> told env q start (s\<lparr>rs_consoleOutBuffer := b\<rparr>)"
  "told env q start s \<Longrightarrow> told env q start (s\<lparr>rs_stdOutCapture := c\<rparr>)"
  "told env q start s \<Longrightarrow> told env q start (s\<lparr>rs_ignoreOutput := d\<rparr>)"
  "told env q start s \<Longrightarrow> told env q start (s\<lparr>rs_sessionRecId := i\<rparr>)"
  "told env q start s \<Longrightarrow> told env q start (s\<lparr>rs_tmpDir := td\<rparr>)"
  by (simp_all add: told_def)

lemma told_send: "told env q start s \<Longrightarrow> told env q start (s\<lparr>rs_out := rs_out s @ frame_message (result_message env True q t)\<rparr>)"
  unfolding told_def by (elim conjE exE, rule conjI, simp, rule_tac x = "ts @ [t]" in exI) (simp add: console_frames_def)

lemma formatString_result:
  "\<exists>t. formatStringAsJson env text e s = (Inr (if text = [] then [] else result_message env e (rs_currentQueryId s) t), s)"
proof -
  let ?t = "if rs_sourceInProgress s then strip_value_echo (env_sys env) text else text"
  obtain m where "json_object [(''msg'', JString ''results''), (''string'', JString ?t),
    (if e then ''stderr'' else ''stdout'', JBool True)] = JObject m"
    using json_object_is by blast
  then show ?thesis
    by (intro exI [of _ ?t]) (simp add: formatStringAsJson_def act_simps Let_def result_message_def json_set_ok)
qed

lemma told_write: "safe (told env q start) (WriteConsole env w)"
proof (rule safeI)
  fix s :: "('a, 'b) session_scheme" assume s: "told env q start s"
  obtain t where t: "formatStringAsJson env (cw_text w) True s =
      (Inr (if cw_text w = [] then [] else result_message env True (rs_currentQueryId s) t), s)"
    using formatString_result by blast
  have "rs_currentQueryId s = q" using s by (simp add: told_def)
  with s t show "ends_ub (fst (WriteConsole env w s)) \<or> told env q start (snd (WriteConsole env w s))"
    by (simp add: WriteConsole_def consoleCallback_def act_simps sendJsonToClientSource_def told_fields told_send)
qed

lemma owner_told: "owner_only (told env q start)"
  unfolding owner_only_def
proof (intro allI impI)
  fix s t :: "('a, 'b) session_scheme"
  assume "fm.more s = fm.more t" and "told env q start s"
  then show "told env q start t" by (cases s; cases t) (simp add: told_def)
qed

interpretation told: outside_base env "told env q start"
  by unfold_locales (simp_all add: owner_world owner_told owner_manager)

lemma told_workspace: "safe (told env q start) (open_workspace env cmd)"
  by (rule told.opening_safe) (simp_all add: told_fields)

lemma told_r: "safe (told env q start) (open_r env d b)"
  unfolding open_r_def parseEvalQNT_def console_def setIgnoreOutput_def put_ignoreOutput_def
  by (intro safe_rules told.atoms told_write safe_modify) (simp_all add: told_fields)

lemma open_replies:
  assumes "waiting s" and "handleOpenCommand env cmd s = (Inr (), s')"
  shows "\<exists>ts m. rs_out s' = rs_out s @ console_frames env (rs_currentQueryId s) ts @ frame_message (openresponse env m) \<and>
    (rs_open s' \<longleftrightarrow> m = None)"
proof -
  let ?told = "told env (rs_currentQueryId s) (rs_out s)"
  have closed: "\<not> rs_open s" using assms(1) by (simp add: waiting_def)
  from assms(2) closed obtain wsid where ws: "raw_int env ''wspaceId'' cmd = Inr wsid"
    by (cases "raw_int env ''wspaceId'' cmd") (auto simp: handleOpenCommand_def act_simps)
  let ?s = "s\<lparr>rs_wspaceId := wsid\<rparr>"
  have start: "waiting ?s" "?told ?s"
    using assms(1) told_start [of env s] by (simp_all add: waiting_def live_def told_def)
  obtain r t where work: "open_workspace env cmd ?s = (r, t)" by force
  have fin: "waiting u \<Longrightarrow> ?told u \<Longrightarrow>
      \<exists>ts. rs_out (snd (sendJsonToClientSource (openresponse env m) u)) =
        rs_out s @ console_frames env (rs_currentQueryId s) ts @ frame_message (openresponse env m) \<and>
      \<not> rs_open (snd (sendJsonToClientSource (openresponse env m) u)) \<and>
      fst (sendJsonToClientSource (openresponse env m) u) = Inr ()" for u m
    by (auto simp: waiting_def send_live openresponse_nonempty told_def)
  show ?thesis
  proof (cases r)
    case (Inl e)
    with assms(2) ws closed work have e: "is_runtime_error e"
      and s': "sendJsonToClientSource (openresponse env (Some (what e))) t = (Inr (), s')"
      by (auto simp: handleOpenCommand_def act_simps try_catch_def split: if_splits)
    have "waiting t" "?told t"
      using safeD_exn [OF waiting.open_workspace_safe start(1) work [unfolded Inl] runtime_not_ub [OF e]]
        safeD_exn [OF told_workspace start(2) work [unfolded Inl] runtime_not_ub [OF e]] by auto
    from fin [OF this, of "Some (what e)"] s' show ?thesis by auto
  next
    case (Inr a)
    obtain dir have_data where a: "a = (dir, have_data)" by force
    obtain r2 u where r_open: "open_r env dir have_data t = (r2, u)" by force
    have r2: "r2 = Inr ()"
      using assms(2) ws closed work Inr a r_open open_r_total [of env dir have_data]
      by (cases r2) (auto simp: handleOpenCommand_def act_simps try_catch_def total_def dest: runtime_not_ub split: if_splits)
    have "waiting u" "?told u"
      using safeD_ok [OF waiting.open_free safeD_ok [OF waiting.open_workspace_safe start(1) work [unfolded Inr]]
          r_open [unfolded r2]]
        safeD_ok [OF told_r safeD_ok [OF told_workspace start(2) work [unfolded Inr]] r_open [unfolded r2]] by auto
    from fin [OF this, of None] obtain v ts where v: "sendJsonToClientSource (openresponse env None) u = (Inr (), v)"
      "rs_out v = rs_out s @ console_frames env (rs_currentQueryId s) ts @ frame_message (openresponse env None)"
      by (metis prod.collapse)
    have "s' = v\<lparr>rs_open := True\<rparr>"
      using assms(2) ws closed work Inr a r_open r2 v(1)
      by (simp add: handleOpenCommand_def act_simps try_catch_def)
    with v(2) show ?thesis by (intro exI [of _ ts] exI [of _ None]) simp
  qed
qed

text \<open>A client that reads the member \<open>msg\<close> tells the two kinds of messages apart.\<close>

lemma open_message_differs: "result_message env e q t \<noteq> openresponse env m"
  by (simp add: result_message_def openresponse_def json_object_fold json_text_def json_dump_def json_set_ok
      omap_insert_def omap_find_def Let_def line_break_def split: option.splits)

section \<open>A sample session\<close>

text \<open>The host of \<open>Sample_Host\<close>, with a conversion of decimal integers. Requests are written by \<open>dump\<close>.\<close>

definition toy_env :: "toy env" where
  "toy_env = \<lparr>env_sys = toy_sys, env_api = toy_api, env_strtod = decimal_strtod,
     env_show_float = (\<lambda>w. ''0.0''), env_eval_status = (\<lambda>c w. (((0, Some 0), []), w)),
     env_eval_nt = (\<lambda>c w. ([], w)), env_depth = 20\<rparr>"

definition request_text :: "json \<Rightarrow> string" where
  "request_text j = json_dump (\<lambda>w. ''0.0'') j"

lemma request_read: "exact j \<Longrightarrow> env_strtod env = decimal_strtod \<Longrightarrow> env_parse env (request_text j) = Inr j"
  using exact_read [OF decimal_strtod_integers, of j "[]"]
  by (simp add: env_parse_def decimal.stream_parse_text request_text_def json_dump_def end_of_text)

definition request :: "(string \<times> json) list \<Rightarrow> json" where
  "request kvs = JObject (omap_of kvs)"

text \<open>A session with a socket, ready for requests, and the same session opened.\<close>

definition toy_session :: "toy session" where
  "toy_session = started toy_world 7 5 True"

definition toy_opened :: "toy session" where
  "toy_opened = toy_session\<lparr>rs_open := True\<rparr>"

lemma toy_session_live: "waiting toy_session" "live toy_opened" "idle toy_opened"
  by (simp_all add: toy_session_def toy_opened_def started_state waiting_def live_def mode_def new_RSession_def)

section \<open>Properties of every reachable session\<close>

text \<open>
  C3. Whatever arrives on the socket and whatever R, the database and the file system do, the bytes
  a session has written are a sequence of whole frames, and a client that reads one frame at a time
  gets exactly the messages, in order.
\<close>

theorem client_decodes_session:
  assumes "session_reach env s"
  shows "\<exists>ms. rs_out s = concat (map frame_message ms) \<and>
    ((\<forall>m\<in>set ms. frameable m) \<longrightarrow>
      receive_all (readMessage True) (map frame_message ms) (new_input_buffer junk) = (Inr ms, new_input_buffer junk))"
proof -
  obtain ms where "rs_out s = concat (map frame_message ms)"
    using framed_extend [OF reach_framed [OF assms]] by auto
  then show ?thesis using frames_received by blast
qed


text \<open>
  C6. Between two callbacks of the event loop the flags that divert and widen R's output
  (\<open>captureStdOut\<close>, \<open>sourceInProgress\<close>) are clear in every reachable session, whatever R does. The flag that drops
  R's output (\<open>ignoreOutput\<close>) is clear too, except where one of the two calls behind the help command
  (evaluating \<open>help(...)\<close> and reading its value as strings) can fail with something other than a run-time error.
\<close>

theorem output_flags_clear:
  assumes "session_reach env s"
  shows "\<not> rs_captureStdOut s \<and> \<not> rs_sourceInProgress s \<and> (rs_ignoreOutput s \<longrightarrow> \<not> help_ok env)"
  using reach_settled [OF assms] reach_idle [OF _ assms] by (auto simp: settled_def mode_def)

section \<open>Answers\<close>


text \<open>
  C22. An \<open>open\<close> request to a session that is not open and has a live socket, if it is handled without an
  exception, is answered by exactly one \<open>openresponse\<close>: the last message sent. All that can precede it are
  error texts of R's console, whose messages are no \<open>openresponse\<close>. It reports success exactly when the
  session is open afterwards.
\<close>

theorem open_answers:
  assumes "waiting s" and "handleOpenCommand env cmd s = (Inr (), s')"
  shows "\<exists>ts m. rs_out s' = rs_out s @ console_frames env (rs_currentQueryId s) ts @ frame_message (openresponse env m) \<and>
    (\<forall>t m'. result_message env True (rs_currentQueryId s) t \<noteq> openresponse env m') \<and> (rs_open s' \<longleftrightarrow> m = None)"
  using open_replies [OF assms] open_message_differs by blast

text \<open>
  An \<open>open\<close> request without a workspace id is not answered: the type error of the JSON library
  is no run-time error, so it leaves both handlers and nothing has been sent.
\<close>

theorem open_without_workspace:
  assumes "env_parse env json = Inr (JObject m)" and "json \<noteq> []" and "\<not> rs_open s"
    and "json_find ''msg'' (JObject m) = Some (JString ''open'')" and "json_find ''wspaceId'' (JObject m) = None"
  shows "handleJsonCommand env json s = (Inl (DomainError ''type must be number, but is null''), s)"
proof -
  have "raw_int env ''wspaceId'' \<lparr>jc_cmd = JObject m, jc_type = Some Open\<rparr> = Inl (DomainError ''type must be number, but is null'')"
    using assms(5)
    by (simp add: raw_int_def jc_raw_def json_index_def omap_index_def json_find_def get_int_value_def)
  then have "json_command_body env json s = (Inl (DomainError ''type must be number, but is null''), s)"
    using assms by (simp add: command_of_object seq_apply handleOpenCommand_def act_simps)
  from json_command_of_body [OF this] show ?thesis by simp
qed

text \<open>
  A session that is not open ignores every known command but \<open>open\<close>: nothing is evaluated, sent
  or scheduled, and the query id is reset.
\<close>

theorem closed_session_ignores:
  assumes "env_parse env json = Inr (JObject m)" and "json \<noteq> []" and "\<not> rs_open s"
    and "json_find ''msg'' (JObject m) = Some (JString t)" and "t \<in> command_names" and "t \<noteq> ''open''"
  shows "handleJsonCommand env json s = (Inr (), s\<lparr>rs_currentQueryId := 0\<rparr>)"
proof -
  obtain ty where ty: "command_type_of t = Some ty" using assms(5) command_type_of_None by fastforce
  have "ty \<noteq> Open" using ty assms(6) by (auto simp: command_type_of_def split: if_splits)
  then have "json_command_body env json s = (Inr True, s)"
    using assms ty by (simp add: command_of_object handleCommand_def act_simps)
  from json_command_of_body [OF this] show ?thesis by simp
qed

text \<open>
  A message whose \<open>msg\<close> the program does not know makes it read the uninitialised member
  \<open>_type\<close>.
\<close>

theorem unknown_message_undefined:
  assumes "env_parse env json = Inr (JObject m)" and "json \<noteq> []"
    and "json_find ''msg'' (JObject m) = Some (JString t)" and "t \<notin> command_names"
  shows "fst (handleJsonCommand env json s) = Inl (UB ''uninitialised _type'')"
proof -
  have "command_type_of t = None" using assms(4) by (simp add: command_type_of_None)
  with assms have "json_command_body env json s = (Inl (UB ''uninitialised _type''), s)"
    by (simp add: command_of_object)
  from json_command_of_body [OF this] show ?thesis by simp
qed

text \<open>
  C23. How a handler's exception ends: a run-time error is answered by an error message (always with
  query id 1) and the query id is reset; any other exception leaves the function at once, without an
  answer and with the query id still set.
\<close>

theorem handler_exceptions:
  assumes "json_command_body env json s = (Inl e, t)" and "live t"
  shows "handleJsonCommand env json s =
    (if is_runtime_error e
     then (Inr (), t\<lparr>rs_out := rs_out t @ frame_message (formatErrorAsJson env kError_ExecFile_MarkdownFailed (what e) 1),
             rs_currentQueryId := 0\<rparr>)
     else (Inl e, t))"
  using json_command_of_body [OF assms(1)] assms(2)
  by (simp add: act_simps send_live error_message_nonempty)

text \<open>
  A script whose \<open>startTime\<close> is not a string is run, but the acknowledgement scheduled for it
  throws the JSON library's type error out of a timer callback, where nothing catches it.
\<close>

theorem bad_start_time:
  assumes "jc_cmd command = JObject m" and "json_find ''startTime'' (JObject m) = Some v" and "get_string_value v = Inl e"
    and "cleanupImageWatch (env_sys env) s = (Inr (), t)"
  shows "run_event env (ExecCompleteArgs command q f) s = (Inl e, t)"
  using assms
  by (simp add: run_event_def handleExecComplete_def acknowledgeExecComplete_def act_simps put_def json_set_null
      startTimeStr_def json_value_def)

text \<open>
  When R's answer to a help request is not what the code expects, Rcpp's exception skips the
  line that clears \<open>ignoreOutput\<close>: whatever R prints next is dropped.
\<close>

theorem failed_help_mutes:
  assumes "argument command = Inr topic" and "live s" and "idle s"
    and "r_parse_eval (env_sys env) (''help('' @ [CHR 0x22] @ escape_quotes topic @ [CHR 0x22] @ '')'') (world s)
      = ((Inl (RcppException m), ws), w)"
  shows "handleHelpCommand env command s = (Inl (RcppException m), s\<lparr>world := w, rs_ignoreOutput := True\<rparr>) \<and>
    for_each ws' (WriteConsole env) (s\<lparr>world := w, rs_ignoreOutput := True\<rparr>)
      = (Inr (), s\<lparr>world := w, rs_ignoreOutput := True\<rparr>)"
  using assms
  by (simp add: handleHelpCommand_def act_simps setIgnoreOutput_def put_ignoreOutput_def parseEval_def console_def
      writes_muted mode_def try_catch_def)

section \<open>Examples\<close>

text \<open>A host that cannot create directories, so opening fails with a run-time error.\<close>

definition full_env :: "toy env" where
  "full_env = toy_env\<lparr>env_sys := toy_sys\<lparr>sys_mkdir := (\<lambda>f m w. ((-1, 13), w))\<rparr>\<rparr>"

definition open_request :: json where
  "open_request = request [(''msg'', JString ''open''), (''wspaceId'', JInt 3), (''sessionRecId'', JInt 4),
     (''dbhost'', JString ''h''), (''dbname'', JString ''n''), (''dbuser'', JString ''u'')]"

definition open_refusal :: string where
  "open_refusal = openresponse full_env (Some ''failed to create working directory'')"

definition refused_session :: "toy session" where
  "refused_session = snd (deliver full_env (Input True (frame_message (request_text open_request))) toy_session)"

lemma frame_delivered:
  assumes "frameable m" and "ib_buffer (rs_inputBuffer s) = []" and "ib_currentJson (rs_inputBuffer s) = []"
  shows "deliver env (Input True (frame_message m)) s = try_catch is_std_exception (handleJsonCommand env m) (\<lambda>e. skip) s"
proof -
  have "readMessage True (frame_message m) (rs_inputBuffer s) = (Inr (Some m), rs_inputBuffer s)"
    using readMessage_complete [of m "rs_inputBuffer s" "frame_message m" "[]"] assms by simp
  then show ?thesis by (simp add: handleJsonStatic_def on_input_def try_catch_def act_simps)
qed

text \<open>The document is read, then the command is executed.\<close>

definition open_run :: "(exn + unit) \<times> toy session" where
  "open_run = handleOpenCommand full_env \<lparr>jc_cmd = open_request, jc_type = Some Open\<rparr> toy_session"

lemma open_run_result: "fst open_run = Inr ()" "rs_out (snd open_run) = frame_message open_refusal"
  by code_simp+

lemma refused_step:
  "fst (deliver full_env (Input True (frame_message (request_text open_request))) toy_session) = Inr () \<and>
    rs_out refused_session = frame_message open_refusal"
proof -
  have len: "request_text open_request \<noteq> [] \<and> length (request_text open_request) \<le> 200" by code_simp
  then have "frameable (request_text open_request)" by (auto simp: frameable_def)
  then have step: "deliver full_env (Input True (frame_message (request_text open_request))) toy_session =
      try_catch is_std_exception (handleJsonCommand full_env (request_text open_request)) (\<lambda>e. skip) toy_session"
    by (rule frame_delivered) (simp_all add: toy_session_def started_state new_RSession_def new_input_buffer_def)
  obtain m where m: "open_request = JObject m" "json_find ''msg'' (JObject m) = Some (JString ''open'')"
    "omap_inv m" "exact_members m"
    by (simp add: open_request_def request_def omap_of_def json_find_def omap_find_def omap_inv_def)
  have "exact open_request" "env_strtod full_env = decimal_strtod"
    using m(3,4) by (simp_all add: m(1) full_env_def toy_env_def)
  then have "env_parse full_env (request_text open_request) = Inr (JObject m)"
    using request_read m(1) by simp
  moreover have "handleOpenCommand full_env \<lparr>jc_cmd = JObject m, jc_type = Some Open\<rparr> toy_session = (Inr (), snd open_run)"
    using open_run_result(1) by (simp add: open_run_def m(1) prod_eq_iff)
  ultimately have "json_command_body full_env (request_text open_request) toy_session = (Inr True, snd open_run)"
    using len m(2) toy_session_live(1) by (simp add: command_of_object act_simps waiting_def command_type_of_def)
  from json_command_of_body [OF this] step show ?thesis
    using open_run_result(2) by (simp add: refused_session_def try_catch_def)
qed

lemma refused_reach: "session_reach full_env refused_session"
proof (rule session_reach.step [OF session_reach.start])
  show "session_step full_env (started toy_world 7 5 True) refused_session"
    using refused_step toy_session_live(1)
    by (intro session_step.event [where e = "Input True (frame_message (request_text open_request))"])
      (simp_all add: refused_session_def toy_session_def prod_eq_iff started_state new_RSession_def)
qed

theorem client_decodes_session_witness:
  "\<exists>ms. frame_message open_refusal = concat (map frame_message ms) \<and>
    ((\<forall>m\<in>set ms. frameable m) \<longrightarrow>
      receive_all (readMessage True) (map frame_message ms) (new_input_buffer 0) = (Inr ms, new_input_buffer 0))"
  using client_decodes_session [OF refused_reach, of 0] refused_step by simp


lemma toy_help_ok: "help_ok (full_env)"
  by (simp add: help_ok_def full_env_def toy_env_def toy_sys_def)

theorem output_flags_clear_witness:
  "\<not> rs_ignoreOutput refused_session \<and> \<not> rs_captureStdOut refused_session \<and> \<not> rs_sourceInProgress refused_session"
  using output_flags_clear [OF refused_reach] toy_help_ok by blast

definition script_command :: json_command where
  "script_command = \<lparr>jc_cmd = request [(''argument'', JString ''f(1)''), (''msg'', JString ''execScript'')],
     jc_type = Some ExecScript\<rparr>"

lemma script_command_fields: "argument script_command = Inr ''f(1)''" "watchVariables script_command = Inr False"
  by (simp_all add: script_command_def request_def omap_of_def argument_def watchVariables_def json_value_def
      json_find_def omap_find_def get_string_value_def)

definition script_session :: "toy session" where
  "script_session = toy_opened\<lparr>world := toy_world\<lparr>tw_evals := [(PE_SUCCESS,
     [\<lparr>cw_text = ''one '', cw_type = 0, cw_visible = True\<rparr>, \<lparr>cw_text = ''bad'', cw_type = 1, cw_visible = True\<rparr>,
      \<lparr>cw_text = ''hidden'', cw_type = 0, cw_visible = False\<rparr>, \<lparr>cw_text = ''two'', cw_type = 0, cw_visible = True\<rparr>])]\<rparr>\<rparr>"


theorem open_answers_witness:
  "\<exists>ts m. rs_out (snd (handleOpenCommand full_env
       \<lparr>jc_cmd = open_request, jc_type = Some Open\<rparr> toy_session)) =
     console_frames full_env 0 ts @ frame_message (openresponse full_env m) \<and> m \<noteq> None"
proof -
  let ?run = "handleOpenCommand full_env \<lparr>jc_cmd = open_request, jc_type = Some Open\<rparr> toy_session"
  have "fst ?run = Inr () \<and> \<not> rs_open (snd ?run)" by code_simp
  moreover have "rs_out toy_session = []" "rs_currentQueryId toy_session = 0"
    by (simp_all add: toy_session_def started_state new_RSession_def)
  ultimately show ?thesis
    using open_answers [OF toy_session_live(1), of full_env
        "\<lparr>jc_cmd = open_request, jc_type = Some Open\<rparr>" "snd ?run"]
    by (auto simp: prod_eq_iff)
qed

definition short_request :: "string \<Rightarrow> json" where
  "short_request msg = JObject [(''msg'', JString msg)]"

lemma short_request_find:
  "json_find ''msg'' (JObject [(''msg'', JString msg)]) = Some (JString msg)"
  "json_find ''wspaceId'' (JObject [(''msg'', JString msg)]) = None"
  by (simp_all add: json_find_def omap_find_def)

lemma short_request_read: "env_parse toy_env (request_text (short_request msg)) = Inr (JObject [(''msg'', JString msg)])"
  by (simp add: request_read short_request_def toy_env_def)

lemma request_text_nonempty: "request_text (JObject m) \<noteq> []"
  by (simp add: request_text_def json_dump_def)

lemma short_request_nonempty: "request_text (short_request msg) \<noteq> []"
  by (simp add: short_request_def request_text_nonempty)

lemma toy_session_closed: "\<not> rs_open toy_session"
  using toy_session_live(1) by (simp add: waiting_def)

theorem open_without_workspace_witness:
  "handleJsonCommand toy_env (request_text (short_request ''open'')) toy_session
    = (Inl (DomainError ''type must be number, but is null''), toy_session)"
  by (rule open_without_workspace [OF short_request_read _ toy_session_closed short_request_find])
    (simp add: short_request_nonempty)

theorem closed_session_ignores_witness:
  "handleJsonCommand toy_env (request_text (short_request ''saveEnv'')) toy_session
    = (Inr (), toy_session\<lparr>rs_currentQueryId := 0\<rparr>)"
  by (rule closed_session_ignores [OF short_request_read _ toy_session_closed short_request_find(1)])
    (simp_all add: command_names_def short_request_nonempty)

theorem unknown_message_undefined_witness:
  "fst (handleJsonCommand toy_env (request_text (short_request ''ping'')) toy_session)
    = Inl (UB ''uninitialised _type'')"
  by (rule unknown_message_undefined [OF short_request_read _ short_request_find(1)])
    (simp_all add: command_names_def short_request_nonempty)

theorem handler_exceptions_witness:
  "handleJsonCommand toy_env ''null'' toy_opened
    = (Inl (DomainError ''type must be string, but is null''), toy_opened)"
proof -
  have "env_parse toy_env ''null'' = Inr JNull"
    using request_read [of JNull toy_env] by (simp add: request_text_def json_dump_def toy_env_def)
  then have "json_command_body toy_env ''null'' toy_opened
      = (Inl (DomainError ''type must be string, but is null''), toy_opened)"
    by (simp add: json_command_body_def read_document_def act_simps new_JsonCommand_def json_index_def
        omap_index_def omap_find_def get_string_value_def)
  from handler_exceptions [OF this toy_session_live(2)] show ?thesis by simp
qed

theorem bad_start_time_witness:
  "run_event toy_env (ExecCompleteArgs \<lparr>jc_cmd = JObject [(''startTime'', JInt 5)], jc_type = Some ExecScript\<rparr> 1 no_file)
    toy_opened = (Inl (DomainError ''type must be string, but is number''), toy_opened)"
proof (rule bad_start_time [where v = "JInt 5"])
  show "cleanupImageWatch (env_sys toy_env) toy_opened = (Inr (), toy_opened)"
    by (simp add: cleanupImageWatch_def act_simps toy_opened_def toy_session_def started_state new_RSession_def)
  show "json_find ''startTime'' (JObject [(''startTime'', JInt 5)]) = Some (JInt 5)" by code_simp
qed (simp_all add: get_string_value_def)

definition rcpp_env :: "toy env" where
  "rcpp_env = toy_env\<lparr>env_sys := toy_sys\<lparr>r_parse_eval :=
     (\<lambda>c w. ((Inl (RcppException ''not a list''), []), w))\<rparr>\<rparr>"

theorem failed_help_mutes_witness:
  "fst (handleHelpCommand rcpp_env script_command toy_opened) = Inl (RcppException ''not a list'') \<and>
    rs_ignoreOutput (snd (handleHelpCommand rcpp_env script_command toy_opened))"
  using failed_help_mutes [OF script_command_fields(1) toy_session_live(2,3), of rcpp_env "''not a list''" "[]" "world toy_opened" "[]"]
  by (simp add: rcpp_env_def)

end
