(* ===== verification/Session_Request.thy ===== *)
theory Session_Request
  imports Session_Liveness
begin

text \<open>
  A request from the socket to its acknowledgement: the blocks in which a script request arrives, the
  frame they form, the command in it, the evaluation, the output, the timer and the final message,
  through all the components in between.
\<close>

section \<open>Blocks\<close>

definition listening :: "('w, 'z) session_scheme \<Rightarrow> bool" where
  "listening s \<longleftrightarrow> ib_buffer (rs_inputBuffer s) = [] \<and> ib_currentJson (rs_inputBuffer s) = []"

text \<open>A block that does not end the frame is kept.\<close>

definition buffered :: "string \<Rightarrow> ('w, 'z) session_scheme \<Rightarrow> ('w, 'z) session_scheme" where
  "buffered p s = s\<lparr>rs_inputBuffer := (rs_inputBuffer s)\<lparr>ib_buffer := p\<rparr>\<rparr>"

lemma block_waits:
  assumes "live s" and "\<not> rs_loopbreak s" and "frameable m" and "ib_currentJson (rs_inputBuffer s) = []"
    and "p @ c @ r = frame_message m" and "r \<noteq> []"
  shows "session_step env (buffered p s) (buffered (p @ c) s)"
proof -
  let ?ib = "(rs_inputBuffer s)\<lparr>ib_buffer := p\<rparr>"
  have "readMessage True c ?ib = (Inr None, ?ib\<lparr>ib_buffer := p @ c\<rparr>)"
    using readMessage_waiting [of m ?ib c r] assms by simp
  then have "deliver env (Input True c) (buffered p s) = (Inr (), buffered (p @ c) s)"
    by (simp add: handleJsonStatic_def try_catch_def on_input_def act_simps buffered_def)
  moreover have "enabled (Input True c) (buffered p s)" "\<not> rs_loopbreak (buffered p s)"
    using assms(1,2) by (simp_all add: buffered_def live_def)
  ultimately show ?thesis by (blast intro: session_step.event)
qed

lemma block_completes:
  assumes "frameable m" and "ib_currentJson (rs_inputBuffer s) = []" and "p @ c = frame_message m"
    and "handleJsonCommand env m (buffered [] s) = (Inr (), t)" and "live s" and "\<not> rs_loopbreak s"
  shows "session_step env (buffered p s) t"
proof -
  let ?ib = "(rs_inputBuffer s)\<lparr>ib_buffer := p\<rparr>"
  have "readMessage True c ?ib = (Inr (Some m), ?ib\<lparr>ib_buffer := []\<rparr>)"
    using readMessage_complete [of m ?ib c "[]"] assms by simp
  with assms(4) have "deliver env (Input True c) (buffered p s) = (Inr (), t)"
    by (simp add: handleJsonStatic_def try_catch_def on_input_def act_simps buffered_def)
  moreover have "enabled (Input True c) (buffered p s)" "\<not> rs_loopbreak (buffered p s)"
    using assms(5,6) by (simp_all add: buffered_def live_def)
  ultimately show ?thesis by (blast intro: session_step.event)
qed

text \<open>However the frame is cut into blocks that are not empty, the last one runs the command.\<close>

lemma blocks_run:
  assumes "frameable m" and "ib_currentJson (rs_inputBuffer s) = []" and "live s" and "\<not> rs_loopbreak s"
    and "handleJsonCommand env m (buffered [] s) = (Inr (), t)"
  shows "[] \<notin> set cs \<Longrightarrow> cs \<noteq> [] \<Longrightarrow> p @ concat cs = frame_message m \<Longrightarrow>
    (session_step env)\<^sup>*\<^sup>* (buffered p s) t"
proof (induction cs arbitrary: p)
  case (Cons c cs)
  show ?case
  proof (cases "cs = []")
    case True
    with Cons.prems(3) show ?thesis
      using block_completes [OF assms(1,2) _ assms(5,3,4), of p c] by simp
  next
    case False
    with Cons.prems(1) have "concat cs \<noteq> []" by (cases cs) auto
    then have "session_step env (buffered p s) (buffered (p @ c) s)"
      using block_waits [OF assms(3,4,1,2), of p c "concat cs"] Cons.prems(3) by simp
    moreover have "(session_step env)\<^sup>*\<^sup>* (buffered (p @ c) s) t"
      using Cons False by simp
    ultimately show ?thesis by (rule converse_rtranclp_into_rtranclp)
  qed
qed simp

section \<open>The command\<close>

definition after_reset :: "('w, 'z) session_scheme \<Rightarrow> ('w, 'z) session_scheme" where
  "after_reset s = s\<lparr>
     fm_sessionImageBatch := (if fm_imageIds s = [] then fm_sessionImageBatch s else fm_sessionImageBatch s + 1),
     fm_imageIds := [], fm_manuallyAddedFiles := {}\<rparr>"

lemma resetWatch_state: "resetWatch s = (Inr (), after_reset s)"
  by (simp add: resetWatch_def act_simps after_reset_def)

lemma after_reset_fields [simp]:
  "rs_out (after_reset s) = rs_out s" "rs_consoleOutBuffer (after_reset s) = rs_consoleOutBuffer s"
  "rs_events (after_reset s) = rs_events s" "rs_currentQueryId (after_reset s) = rs_currentQueryId s"
  "world (after_reset s) = world s"
  by (simp_all add: after_reset_def)

text \<open>A session between requests.\<close>

definition serving :: "('w, 'z) session_scheme \<Rightarrow> bool" where
  "serving s \<longleftrightarrow> ready s \<and> idle s \<and> rs_open s \<and> \<not> rs_watchVariables s \<and> rs_consoleOutBuffer s = [] \<and>
     rs_events s = [] \<and> listening s"

definition script_done ::
    "'w env \<Rightarrow> json_command \<Rightarrow> console_write list \<Rightarrow> 'w \<Rightarrow> ('w, 'z) session_scheme \<Rightarrow> ('w, 'z) session_scheme" where
  "script_done env command ws w s = (after_reset s)\<lparr>world := pngoff_world env w,
     rs_out := rs_out s @ error_frames env (rs_currentQueryId s) ws
       @ output_frame env (rs_currentQueryId s) (visible_text ws),
     rs_consoleOutBuffer := [],
     rs_events := rs_events s @ [ExecCompleteArgs command (rs_currentQueryId s) no_file]\<rparr>"

lemma script_state:
  assumes "live s" and "idle s" and "rs_consoleOutBuffer s = []" and "\<not> rs_watchVariables s"
    and "argument command = Inr script" and "watchVariables command = Inr False"
    and "r_parse_eval_r (env_sys env) script (world s) = ((PE_SUCCESS, ws), w)"
  shows "handleExecuteScript env command s = (Inr (), script_done env command ws w s)"
proof -
  let ?t = "after_reset s"
  let ?u = "printed env ws (?t\<lparr>world := w\<rparr>)"
  have t: "live ?t" "idle ?t"
    using assms(1,2) by (simp_all add: after_reset_def live_def mode_def)
  have eval: "parseEvalR env script ?t = (Inr PE_SUCCESS, ?u)"
    unfolding parseEvalR_def using t assms(7) by (intro console_idle) simp_all
  have u: "live ?u" "idle ?u" using t(1,2) by (simp_all add: printed_stays world_stays)
  show ?thesis
    using assms(3-6)
    by (simp add: handleExecuteScript_def act_simps resetWatch_state eval flush_idle [OF u] scheduleExecComplete_def
        file_info_from_def script_done_def)
      (simp add: printed_def)
qed

lemma script_command_run:
  assumes "env_parse env json = Inr (JObject m)" and "json \<noteq> []"
    and "json_find ''msg'' (JObject m) = Some (JString ''execScript'')"
    and "json_value get_int_value ''queryId'' 0 (JObject m) = Inr q" and "rs_open s"
    and "handleExecuteScript env \<lparr>jc_cmd = JObject m, jc_type = Some ExecScript\<rparr> (s\<lparr>rs_currentQueryId := q\<rparr>) = (Inr (), t)"
  shows "handleJsonCommand env json s = (Inr (), t\<lparr>rs_currentQueryId := 0\<rparr>)"
proof -
  have "json_command_body env json s = (Inr True, t)"
    using assms
    by (simp add: command_of_object seq_apply handleCommand_def raw_value_def jc_raw_def jc_get_type_def dispatch_def act_simps)
  from json_command_of_body [OF this] show ?thesis by simp
qed

section \<open>One request\<close>

text \<open>
  A script request as the client and R see it: the text and the blocks in which its frame arrives, the
  members of the object it denotes, the fields that matter, and what R writes when it evaluates the script.
\<close>

record script_req =
  rq_json :: string
  rq_blocks :: "string list"
  rq_members :: "(string \<times> json) list"
  rq_queryId :: int
  rq_script :: string
  rq_startTime :: string
  rq_clientData :: json
  rq_writes :: "console_write list"

definition rq_command :: "script_req \<Rightarrow> json_command" where
  "rq_command r = \<lparr>jc_cmd = JObject (rq_members r), jc_type = Some ExecScript\<rparr>"

text \<open>\<open>script_request_in env w r w'\<close>: the request is well formed, and evaluated in the world \<open>w\<close> it leaves \<open>w'\<close>.\<close>

definition script_request_in :: "'w env \<Rightarrow> 'w \<Rightarrow> script_req \<Rightarrow> 'w \<Rightarrow> bool" where
  "script_request_in env w r w' \<longleftrightarrow>
     frameable (rq_json r) \<and> concat (rq_blocks r) = frame_message (rq_json r) \<and> [] \<notin> set (rq_blocks r) \<and>
     env_parse env (rq_json r) = Inr (JObject (rq_members r)) \<and>
     json_find ''msg'' (JObject (rq_members r)) = Some (JString ''execScript'') \<and>
     json_value get_int_value ''queryId'' 0 (JObject (rq_members r)) = Inr (rq_queryId r) \<and>
     argument (rq_command r) = Inr (rq_script r) \<and> watchVariables (rq_command r) = Inr False \<and>
     startTimeStr (rq_command r) = Inr (rq_startTime r) \<and> clientData (rq_command r) = Inr (rq_clientData r) \<and>
     fst (r_parse_eval_r (env_sys env) (rq_script r) w) = (PE_SUCCESS, rq_writes r) \<and>
     w' = pngoff_world env (snd (r_parse_eval_r (env_sys env) (rq_script r) w))"

definition answer :: "'w env \<Rightarrow> int \<Rightarrow> script_req \<Rightarrow> string" where
  "answer env batch r =
     error_frames env (rq_queryId r) (rq_writes r) @ output_frame env (rq_queryId r) (visible_text (rq_writes r)) @
     frame_message (json_text env (ack_json (rq_startTime r) (rq_queryId r) (rq_clientData r) False [] batch))"

text \<open>The batch of images of the next run.\<close>

definition next_batch :: "('w, 'z) session_scheme \<Rightarrow> int" where
  "next_batch s = (if fm_imageIds s = [] then fm_sessionImageBatch s else fm_sessionImageBatch s + 1)"

lemma request_served:
  assumes "serving s" and "script_request_in env (world s) r w'"
  shows "\<exists>s'. (session_step env)\<^sup>*\<^sup>* s s' \<and> serving s' \<and> rs_out s' = rs_out s @ answer env (next_batch s) r \<and>
    world s' = w' \<and> next_batch s' = next_batch s"
proof -
  let ?q = "rq_queryId r" and ?ws = "rq_writes r" and ?command = "rq_command r"
  let ?w = "snd (r_parse_eval_r (env_sys env) (rq_script r) (world s))"
  let ?s = "s\<lparr>rs_currentQueryId := ?q\<rparr>"
  let ?d = "script_done env ?command ?ws ?w ?s"
  let ?t = "?d\<lparr>rs_currentQueryId := 0\<rparr>"
  let ?ack = "ExecCompleteArgs ?command ?q no_file"
  note req = assms(2) [unfolded script_request_in_def]
  have ready: "ready s" and mode: "idle s" "rs_open s" "\<not> rs_watchVariables s" "rs_consoleOutBuffer s = []"
    "rs_events s = []" "listening s"
    using assms(1) by (simp_all add: serving_def)
  have start: "buffered [] s = s"
    using mode(6) by (cases s; cases "rs_inputBuffer s") (simp add: buffered_def listening_def)
  have eval: "r_parse_eval_r (env_sys env) (rq_script r) (world ?s) = ((PE_SUCCESS, ?ws), ?w)"
    using req by (simp add: prod_eq_iff)
  have "live ?s" "idle ?s" using ready mode(1) by (simp_all add: ready_def live_def mode_def)
  then have "handleExecuteScript env ?command ?s = (Inr (), ?d)"
    using script_state [OF _ _ _ _ _ _ eval] mode req by simp
  then have run: "handleJsonCommand env (rq_json r) (buffered [] s) = (Inr (), ?t)"
    unfolding start
    using script_command_run [of env "rq_json r" "rq_members r" ?q s ?d] req mode(2)
    by (auto simp: frameable_def rq_command_def)
  have "rq_blocks r \<noteq> []" using req by (auto simp: frame_message_def htonl_def)
  then have steps: "(session_step env)\<^sup>*\<^sup>* s ?t"
    using blocks_run [OF _ _ _ _ run, of "rq_blocks r" "[]"] ready mode(6) req
    by (simp add: start ready_def listening_def)
  have ready': "ready ?t" using ready by (simp add: ready_def live_def files_wf_def script_done_def after_reset_def)
  have evs: "rs_events ?t = [?ack]" using mode(5) by (simp add: script_done_def)
  have "answerable ?ack" using req by simp
  then have last: "session_step env ?t (delivered env 0 ?t)" "ready (delivered env 0 ?t)"
    using deliver_acknowledgement [OF ready', of 0 env] evs by simp_all
  let ?u = "delivered env 0 ?t"
  have "serving ?u"
    using last(2) mode
    by (simp add: serving_def delivered_def script_done_def after_reset_def mode_def listening_def)
  moreover have "rs_out ?u = rs_out s @ answer env (next_batch s) r"
    using req mode(5)
    by (simp add: delivered_def script_done_def after_reset_def no_file_def answer_def next_batch_def)
  moreover have "world ?u = w'" using req by (simp add: delivered_def script_done_def)
  moreover have "next_batch ?u = next_batch s" by (simp add: next_batch_def delivered_def script_done_def after_reset_def)
  moreover have "(session_step env)\<^sup>*\<^sup>* s ?u" using steps last(1) by (rule rtranclp.rtrancl_into_rtrancl)
  ultimately show ?thesis by blast
qed

section \<open>Property\<close>

inductive script_requests_in :: "'w env \<Rightarrow> 'w \<Rightarrow> script_req list \<Rightarrow> 'w \<Rightarrow> bool" for env where
  none: "script_requests_in env w [] w"
| another: "script_request_in env w r w1 \<Longrightarrow> script_requests_in env w1 rs w2 \<Longrightarrow> script_requests_in env w (r # rs) w2"


definition script_request :: "int \<Rightarrow> (string \<times> json) list" where
  "script_request q = [(''argument'', JString ''f(1)''), (''msg'', JString ''execScript''), (''queryId'', JInt q),
     (''startTime'', JString ''9'')]"

definition request_4 :: script_req where
  "request_4 = \<lparr>rq_json = request_text (JObject (script_request 4)),
     rq_blocks = [take 3 (frame_message (request_text (JObject (script_request 4)))),
       drop 3 (frame_message (request_text (JObject (script_request 4))))],
     rq_members = script_request 4, rq_queryId = 4, rq_script = ''f(1)'', rq_startTime = ''9'',
     rq_clientData = JObject [],
     rq_writes = [\<lparr>cw_text = ''bad'', cw_type = 1, cw_visible = True\<rparr>, \<lparr>cw_text = ''[1] 2'', cw_type = 0, cw_visible = True\<rparr>]\<rparr>"

definition request_5 :: script_req where
  "request_5 = request_4\<lparr>rq_json := request_text (JObject (script_request 5)),
     rq_blocks := [frame_message (request_text (JObject (script_request 5)))], rq_members := script_request 5,
     rq_queryId := 5, rq_writes := []\<rparr>"

definition serving_session :: "toy session" where
  "serving_session = toy_opened\<lparr>fm_hasSource := True,
     world := toy_world\<lparr>tw_evals := [(PE_SUCCESS, rq_writes request_4), (PE_SUCCESS, [])]\<rparr>\<rparr>"

lemma script_request_fields:
  "json_find ''msg'' (JObject (script_request q)) = Some (JString ''execScript'')"
  "- (2 ^ 31) \<le> q \<Longrightarrow> q < 2 ^ 31 \<Longrightarrow> json_value get_int_value ''queryId'' 0 (JObject (script_request q)) = Inr q"
  "argument \<lparr>jc_cmd = JObject (script_request q), jc_type = t\<rparr> = Inr ''f(1)''"
  "watchVariables \<lparr>jc_cmd = JObject (script_request q), jc_type = t\<rparr> = Inr False"
  "startTimeStr \<lparr>jc_cmd = JObject (script_request q), jc_type = t\<rparr> = Inr ''9''"
  "clientData \<lparr>jc_cmd = JObject (script_request q), jc_type = t\<rparr> = Inr (JObject [])"
  by (simp_all add: script_request_def json_find_def json_value_def omap_find_def argument_def watchVariables_def
      startTimeStr_def clientData_def get_string_value_def get_int_value_def to_int32_id)

lemma script_request_text:
  "env_parse toy_env (request_text (JObject (script_request 4))) = Inr (JObject (script_request 4))"
  "env_parse toy_env (request_text (JObject (script_request 5))) = Inr (JObject (script_request 5))"
  by (simp_all add: request_read toy_env_def script_request_def omap_inv_def)

lemma script_request_frameable:
  "frameable (request_text (JObject (script_request 4)))" "frameable (request_text (JObject (script_request 5)))"
proof -
  have "length (request_text (JObject (script_request 4))) \<le> 100" "length (request_text (JObject (script_request 5))) \<le> 100"
    by code_simp+
  then show "frameable (request_text (JObject (script_request 4)))" "frameable (request_text (JObject (script_request 5)))"
    using request_text_nonempty by (auto simp: frameable_def)
qed


end
