(* ===== verification/Tclap_Arg.thy ===== *)
theory Tclap_Arg
  imports Cpp_String
begin

text \<open>
  TCLAP, the command line parser that both programs compile in (\<open>tclap/\<close>): the exceptions
  (\<open>ArgException.h\<close>), the conversion of a text to a value (\<open>Arg.h\<close>, \<open>StandardTraits.h\<close>), the
  arguments themselves (\<open>Arg.h\<close> and the constructors of the classes derived from it) and the
  constraint on values (\<open>ValuesConstraint.h\<close>).

  An object of a class derived from \<open>Arg\<close> is a record with the members of all the classes and the
  class as a tag, which is what a virtual call dispatches on; the members that its class does not
  have are unused. The template parameter of the value classes is one of the two integer types the
  program instantiates or \<open>std::string\<close>.
\<close>

section \<open>Exceptions\<close>

definition ArgParseException :: "string \<Rightarrow> string \<Rightarrow> exn" where
  "ArgParseException text argId = ArgException text argId
     (''Exception found while parsing '' @ ''the value the Arg has been passed.'')"

definition CmdLineParseException :: "string \<Rightarrow> string \<Rightarrow> exn" where
  "CmdLineParseException text argId = ArgException text argId
     (''Exception found when the values '' @ ''on the command line do not meet '' @
      ''the requirements of the defined '' @ ''Args.'')"

definition SpecificationException :: "string \<Rightarrow> string \<Rightarrow> exn" where
  "SpecificationException text argId = ArgException text argId
     (''Exception found when an Arg object '' @ ''is improperly defined by the '' @ ''developer.'')"

text \<open>The default of the parameter \<open>id\<close>.\<close>

definition undefined_id :: string where
  "undefined_id = ''undefined''"

fun is_arg_exception :: "exn \<Rightarrow> bool" where
  "is_arg_exception (ArgException _ _ _) = True"
| "is_arg_exception _ = False"

fun is_exit_exception :: "exn \<Rightarrow> bool" where
  "is_exit_exception (ExitException _) = True"
| "is_exit_exception _ = False"

text \<open>\<open>ArgException::error()\<close> and \<open>argId()\<close>.\<close>

fun error_text :: "exn \<Rightarrow> string" where
  "error_text (ArgException text argId td) = text"
| "error_text e = []"

fun error_argId :: "exn \<Rightarrow> string" where
  "error_argId (ArgException text argId td) =
     (if argId = undefined_id then '' '' else ''Argument: '' @ argId)"
| "error_argId e = []"

lemmas tclap_exceptions = ArgParseException_def CmdLineParseException_def SpecificationException_def

section \<open>Reading a value\<close>

datatype value_type =
    T_long
  | T_int
  | T_short
  | T_char
  | T_ulong
  | T_uint32
  | T_ushort
  | T_uchar
  | T_bool
  | T_string

text \<open>
  The specialisations of \<open>ArgTraits\<close> that the model covers. \<open>HAVE_LONG_LONG\<close> is not defined by the build,
  no narrow stream reads a \<open>wchar_t\<close>, and floating-point arguments are left out.
\<close>

datatype value_category = ValueLike | StringLike

fun ArgTraits :: "value_type \<Rightarrow> value_category" where
  "ArgTraits T_long = ValueLike"
| "ArgTraits T_int = ValueLike"
| "ArgTraits T_short = ValueLike"
| "ArgTraits T_char = ValueLike"
| "ArgTraits T_ulong = ValueLike"
| "ArgTraits T_uint32 = ValueLike"
| "ArgTraits T_ushort = ValueLike"
| "ArgTraits T_uchar = ValueLike"
| "ArgTraits T_bool = ValueLike"
| "ArgTraits T_string = StringLike"

datatype arg_value = IntValue int | CharValue char | StringValue string

text \<open>The range of an integer type; a \<open>bool\<close> is read as a \<open>long\<close>.\<close>

definition int_range :: "value_type \<Rightarrow> int \<times> int" where
  "int_range t =
     (case t of
        T_int \<Rightarrow> (- (2 ^ 31), 2 ^ 31 - 1)
      | T_short \<Rightarrow> (- (2 ^ 15), 2 ^ 15 - 1)
      | T_ulong \<Rightarrow> (0, 2 ^ 64 - 1)
      | T_uint32 \<Rightarrow> (0, 2 ^ 32 - 1)
      | T_ushort \<Rightarrow> (0, 2 ^ 16 - 1)
      | _ \<Rightarrow> (- (2 ^ 63), 2 ^ 63 - 1))"

text \<open>
  \<open>std::istream >> n\<close> for an integer (base ten, no grouping). White space is passed over, then a
  sign and digits are read. The result is the stored value, if one is stored, whether the stream
  failed and what is left of it. A number out of range is clamped, no digits store 0, and the
  stream fails in both cases; a negative number is stored in an unsigned integer modulo its
  range, as long as its magnitude fits.
\<close>

definition istream_int :: "value_type \<Rightarrow> string \<Rightarrow> int option \<times> bool \<times> string" where
  "istream_int t input =
     (case dropWhile is_space input of
        [] \<Rightarrow> (None, True, [])
      | c # cs \<Rightarrow>
          (let signed = (c = CHR ''-'' \<or> c = CHR ''+'');
               body = (if signed then cs else c # cs);
               rest = dropWhile is_digit body;
               n = int (digits_value 0 body);
               (lo, hi) = int_range t in
           if body = rest then (Some 0, True, rest)
           else if c = CHR ''-'' then
             (if lo = 0 then (if n \<le> hi then (Some ((- n) mod (hi + 1)), False, rest) else (Some hi, True, rest))
              else if lo \<le> - n then (Some (- n), False, rest) else (Some lo, True, rest))
           else if n \<le> hi then (Some n, False, rest) else (Some hi, True, rest)))"

lemma dropWhile_length: "length (dropWhile P xs) \<le> length xs"
  by (induction xs) auto

lemma istream_int_rest:
  assumes "istream_int t input = (v, False, rest)"
  shows "length rest < length input"
proof (cases "dropWhile is_space input")
  case Nil
  with assms show ?thesis unfolding istream_int_def Nil by simp
next
  case (Cons c cs)
  have "length (c # cs) \<le> length input" using dropWhile_length [of is_space input] Cons by simp
  moreover have "length (dropWhile is_digit (c # cs)) < length (c # cs)"
    if "dropWhile is_digit (c # cs) \<noteq> c # cs"
    using that dropWhile_length [of is_digit cs] by (auto split: if_splits)
  moreover have "length (dropWhile is_digit cs) \<le> length cs" by (rule dropWhile_length)
  ultimately show ?thesis
    using assms unfolding istream_int_def Cons by (auto simp: Let_def split: if_splits prod.splits)
qed

text \<open>
  \<open>std::istream >> v\<close> for the other types: a character is the next one that is no white space; a \<open>bool\<close> is
  false for 0, true for 1, and true with a failure for any other number.
\<close>

definition istream_value :: "value_type \<Rightarrow> string \<Rightarrow> arg_value option \<times> bool \<times> string" where
  "istream_value t input =
     (if t = T_char \<or> t = T_uchar then
        (case dropWhile is_space input of [] \<Rightarrow> (None, True, []) | c # cs \<Rightarrow> (Some (CharValue c), False, cs))
      else
        (case istream_int t input of
           (v, failed, rest) \<Rightarrow>
             if t = T_bool \<and> v \<noteq> None \<and> the v \<notin> {0, 1} then (Some (IntValue 1), True, rest)
             else (map_option IntValue v, failed, rest)))"

lemma istream_value_rest:
  assumes "istream_value t input = (v, False, rest)"
  shows "length rest < length input"
proof (cases "t = T_char \<or> t = T_uchar")
  case True
  with assms dropWhile_length [of is_space input] show ?thesis
    by (auto simp: istream_value_def split: list.splits)
next
  case False
  with assms show ?thesis
    by (auto simp: istream_value_def split: prod.splits if_splits intro: istream_int_rest)
qed

text \<open>
  The loop of \<open>ExtractValue\<close> for \<open>ValueLike\<close> types: while the stream is good and has another
  character, a value is read. The result is the value last stored, the number of values read, and
  whether the stream failed.
\<close>

function extract_loop :: "value_type \<Rightarrow> arg_value option \<Rightarrow> nat \<Rightarrow> string \<Rightarrow> arg_value option \<times> nat \<times> bool" where
  "extract_loop t v n input =
     (if input = [] then (v, n, False)
      else
        (case istream_value t input of
           (v', failed, rest) \<Rightarrow>
             (let v'' = (case v' of None \<Rightarrow> v | Some x \<Rightarrow> Some x) in
              if failed then (v'', Suc n, True) else extract_loop t v'' (Suc n) rest)))"
  by pat_completeness auto
termination
  by (relation "measure (\<lambda>(t, v, n, input). length input)") (auto dest!: sym [of _ "istream_value _ _"] istream_value_rest)

declare extract_loop.simps [simp del]

text \<open>
  \<open>ExtractValue\<close>: what is stored in \<open>destVal\<close>, if anything, and the exception, if one is thrown
  (with the default id). An empty text stores nothing and throws nothing.
\<close>

definition ExtractValue :: "value_type \<Rightarrow> string \<Rightarrow> arg_value option \<times> exn option" where
  "ExtractValue t strVal =
     (if ArgTraits t = StringLike then (Some (StringValue strVal), None)
      else
        (case extract_loop t None 0 strVal of
           (v, valuesRead, failed) \<Rightarrow>
             (v,
              if failed then
                Some (ArgParseException (''Couldn't read argument value '' @ ''from string '' @ [CHR 0x27] @ strVal @ [CHR 0x27])
                  undefined_id)
              else if 1 < valuesRead then
                Some (ArgParseException (''More than one valid value parsed from '' @ ''string '' @ [CHR 0x27] @ strVal @ [CHR 0x27])
                  undefined_id)
              else None)))"


section \<open>Constraints\<close>

text \<open>\<open>os << v\<close>.\<close>

fun show_value :: "arg_value \<Rightarrow> string" where
  "show_value (IntValue x) = dec x"
| "show_value (CharValue c) = [c]"
| "show_value (StringValue t) = t"

record constraint =
  k_allowed :: "arg_value list"
  k_typeDesc :: string

text \<open>The loop of the constructor: a bar before every value but the first.\<close>

fun allowed_text :: "nat \<Rightarrow> arg_value list \<Rightarrow> string" where
  "allowed_text i [] = []"
| "allowed_text i (v # vs) = (if 0 < i then ''|'' else []) @ show_value v @ allowed_text (Suc i) vs"

definition new_ValuesConstraint :: "arg_value list \<Rightarrow> constraint" where
  "new_ValuesConstraint allowed = \<lparr>k_allowed = allowed, k_typeDesc = allowed_text 0 allowed\<rparr>"

definition constraint_check :: "constraint \<Rightarrow> arg_value \<Rightarrow> bool" where
  "constraint_check k val = (val \<in> set (k_allowed k))"

section \<open>Arguments\<close>

datatype visitor = HelpVisitor | VersionVisitor | IgnoreRestVisitor

datatype arg_class =
    SwitchArg | MultiSwitchArg | ValueArg | MultiArg | UnlabeledValueArg | UnlabeledMultiArg

record arg =
  a_class :: arg_class
  a_flag :: string
  a_name :: string
  a_description :: string
  a_required :: bool
  a_requireLabel :: string
  a_valueRequired :: bool
  a_alreadySet :: bool
  a_visitor :: "visitor option"
  a_ignoreable :: bool
  a_xorSet :: bool
  a_acceptsMultipleValues :: bool
  \<comment> \<open>\<open>SwitchArg\<close> and \<open>MultiSwitchArg\<close>\<close>
  a_switch :: bool
  a_switchDefault :: bool
  a_count :: int
  a_countDefault :: int
  \<comment> \<open>the value classes\<close>
  a_type :: value_type
  a_value :: arg_value
  a_default :: arg_value
  a_values :: "arg_value list"
  a_typeDesc :: string
  a_constraint :: "constraint option"
  a_allowMore :: bool

definition flagStartString :: string where "flagStartString = ''-''"
definition nameStartString :: string where "nameStartString = ''--''"
definition ignoreNameString :: string where "ignoreNameString = ''ignore_rest''"
definition blankChar :: char where "blankChar = CHR 0x07"

definition arg_toString :: "arg \<Rightarrow> string" where
  "arg_toString a =
     (if a_flag a \<noteq> [] then flagStartString @ a_flag a @ '' '' else []) @
     ''('' @ nameStartString @ a_name a @ '')''"

text \<open>The constructor of \<open>Arg\<close>; the members of the derived classes come after it.\<close>

definition new_Arg ::
    "arg_class \<Rightarrow> string \<Rightarrow> string \<Rightarrow> string \<Rightarrow> bool \<Rightarrow> bool \<Rightarrow> visitor option \<Rightarrow> exn + arg" where
  "new_Arg c flag name desc req valreq v =
     (let a = \<lparr>a_class = c, a_flag = flag, a_name = name, a_description = desc, a_required = req,
            a_requireLabel = ''required'', a_valueRequired = valreq, a_alreadySet = False, a_visitor = v,
            a_ignoreable = True, a_xorSet = False, a_acceptsMultipleValues = False,
            a_switch = False, a_switchDefault = False, a_count = 0, a_countDefault = 0,
            a_type = T_string, a_value = StringValue [], a_default = StringValue [], a_values = [],
            a_typeDesc = [], a_constraint = None, a_allowMore = False\<rparr> in
      if 1 < length flag then
        Inl (SpecificationException ''Argument flag can only be one character long'' (arg_toString a))
      else if name \<noteq> ignoreNameString \<and> (flag = flagStartString \<or> flag = nameStartString \<or> flag = '' '') then
        Inl (SpecificationException (''Argument flag cannot be either '' @ [CHR 0x27] @ flagStartString @ [CHR 0x27] @
               '' or '' @ [CHR 0x27] @ nameStartString @ [CHR 0x27] @ '' or a space.'') (arg_toString a))
      else if take (length flagStartString) name = flagStartString \<or>
              take (length nameStartString) name = nameStartString \<or> CHR '' '' \<in> set name then
        Inl (SpecificationException (''Argument name begin with either '' @ [CHR 0x27] @ flagStartString @ [CHR 0x27] @
               '' or '' @ [CHR 0x27] @ nameStartString @ [CHR 0x27] @ '' or space.'') (arg_toString a))
      else Inr a)"

definition new_SwitchArg :: "string \<Rightarrow> string \<Rightarrow> string \<Rightarrow> bool \<Rightarrow> visitor option \<Rightarrow> exn + arg" where
  "new_SwitchArg flag name desc default_val v =
     map_sum id (\<lambda>a. a\<lparr>a_switch := default_val, a_switchDefault := default_val\<rparr>)
       (new_Arg SwitchArg flag name desc False False v)"

definition new_MultiSwitchArg :: "string \<Rightarrow> string \<Rightarrow> string \<Rightarrow> int \<Rightarrow> visitor option \<Rightarrow> exn + arg" where
  "new_MultiSwitchArg flag name desc init v =
     map_sum id (\<lambda>a. a\<lparr>a_class := MultiSwitchArg, a_count := init, a_countDefault := init\<rparr>)
       (new_SwitchArg flag name desc False v)"

definition new_ValueArg ::
    "value_type \<Rightarrow> string \<Rightarrow> string \<Rightarrow> string \<Rightarrow> bool \<Rightarrow> arg_value \<Rightarrow> string \<Rightarrow> visitor option \<Rightarrow> exn + arg" where
  "new_ValueArg t flag name desc req val typeDesc v =
     map_sum id (\<lambda>a. a\<lparr>a_type := t, a_value := val, a_default := val, a_typeDesc := typeDesc, a_constraint := None\<rparr>)
       (new_Arg ValueArg flag name desc req True v)"

definition new_ValueArg_constrained ::
    "value_type \<Rightarrow> string \<Rightarrow> string \<Rightarrow> string \<Rightarrow> bool \<Rightarrow> arg_value \<Rightarrow> constraint \<Rightarrow> visitor option \<Rightarrow> exn + arg" where
  "new_ValueArg_constrained t flag name desc req val k v =
     map_sum id (\<lambda>a. a\<lparr>a_type := t, a_value := val, a_default := val, a_typeDesc := k_typeDesc k,
         a_constraint := Some k\<rparr>)
       (new_Arg ValueArg flag name desc req True v)"

definition new_MultiArg ::
    "value_type \<Rightarrow> string \<Rightarrow> string \<Rightarrow> string \<Rightarrow> bool \<Rightarrow> string \<Rightarrow> visitor option \<Rightarrow> exn + arg" where
  "new_MultiArg t flag name desc req typeDesc v =
     map_sum id (\<lambda>a. a\<lparr>a_type := t, a_values := [], a_typeDesc := typeDesc, a_constraint := None, a_allowMore := False,
         a_acceptsMultipleValues := True\<rparr>)
       (new_Arg MultiArg flag name desc req True v)"

definition new_MultiArg_constrained ::
    "value_type \<Rightarrow> string \<Rightarrow> string \<Rightarrow> string \<Rightarrow> bool \<Rightarrow> constraint \<Rightarrow> visitor option \<Rightarrow> exn + arg" where
  "new_MultiArg_constrained t flag name desc req k v =
     map_sum id (\<lambda>a. a\<lparr>a_type := t, a_values := [], a_typeDesc := k_typeDesc k, a_constraint := Some k,
         a_allowMore := False, a_acceptsMultipleValues := True\<rparr>)
       (new_Arg MultiArg flag name desc req True v)"

section \<open>Operations on one argument\<close>

definition Arg_shortID :: "char \<Rightarrow> string \<Rightarrow> arg \<Rightarrow> string" where
  "Arg_shortID delim valueId a =
     (let name_part = (if a_flag a \<noteq> [] then flagStartString @ a_flag a else nameStartString @ a_name a);
          with_value = name_part @ (if a_valueRequired a then [delim] @ ''<'' @ valueId @ ''>'' else []) in
      if \<not> a_required a then ''['' @ with_value @ '']'' else with_value)"

definition Arg_longID :: "char \<Rightarrow> string \<Rightarrow> arg \<Rightarrow> string" where
  "Arg_longID delim valueId a =
     (let value_part = (if a_valueRequired a then [delim] @ ''<'' @ valueId @ ''>'' else []) in
      (if a_flag a \<noteq> [] then flagStartString @ a_flag a @ value_part @ '',  '' else []) @
      nameStartString @ a_name a @ value_part)"

text \<open>
  \<open>shortID\<close> and \<open>longID\<close> of the derived classes. The value classes ignore their parameter; the others
  are called without one, which makes it \<open>"val"\<close>.
\<close>

definition MultiSwitchArg_shortID :: "char \<Rightarrow> arg \<Rightarrow> string" where
  "MultiSwitchArg_shortID delim a = Arg_shortID delim ''val'' a @ '' ... ''"

definition ValueArg_shortID :: "char \<Rightarrow> arg \<Rightarrow> string" where
  "ValueArg_shortID delim a = Arg_shortID delim (a_typeDesc a) a"

definition MultiArg_shortID :: "char \<Rightarrow> arg \<Rightarrow> string" where
  "MultiArg_shortID delim a = Arg_shortID delim (a_typeDesc a) a @ '' ... ''"

definition UnlabeledValueArg_shortID :: "arg \<Rightarrow> string" where
  "UnlabeledValueArg_shortID a = ''<'' @ a_typeDesc a @ ''>''"

definition UnlabeledMultiArg_shortID :: "arg \<Rightarrow> string" where
  "UnlabeledMultiArg_shortID a = ''<'' @ a_typeDesc a @ ''> ...''"

definition shortID :: "char \<Rightarrow> arg \<Rightarrow> string" where
  "shortID delim a =
     (case a_class a of
        SwitchArg \<Rightarrow> Arg_shortID delim ''val'' a
      | MultiSwitchArg \<Rightarrow> MultiSwitchArg_shortID delim a
      | ValueArg \<Rightarrow> ValueArg_shortID delim a
      | MultiArg \<Rightarrow> MultiArg_shortID delim a
      | UnlabeledValueArg \<Rightarrow> UnlabeledValueArg_shortID a
      | UnlabeledMultiArg \<Rightarrow> UnlabeledMultiArg_shortID a)"

definition MultiSwitchArg_longID :: "char \<Rightarrow> arg \<Rightarrow> string" where
  "MultiSwitchArg_longID delim a = Arg_longID delim ''val'' a @ ''  (accepted multiple times)''"

definition ValueArg_longID :: "char \<Rightarrow> arg \<Rightarrow> string" where
  "ValueArg_longID delim a = Arg_longID delim (a_typeDesc a) a"

definition MultiArg_longID :: "char \<Rightarrow> arg \<Rightarrow> string" where
  "MultiArg_longID delim a = Arg_longID delim (a_typeDesc a) a @ ''  (accepted multiple times)''"

definition UnlabeledValueArg_longID :: "arg \<Rightarrow> string" where
  "UnlabeledValueArg_longID a = ''<'' @ a_typeDesc a @ ''>''"

definition UnlabeledMultiArg_longID :: "arg \<Rightarrow> string" where
  "UnlabeledMultiArg_longID a = ''<'' @ a_typeDesc a @ ''>  (accepted multiple times)''"

definition longID :: "char \<Rightarrow> arg \<Rightarrow> string" where
  "longID delim a =
     (case a_class a of
        SwitchArg \<Rightarrow> Arg_longID delim ''val'' a
      | MultiSwitchArg \<Rightarrow> MultiSwitchArg_longID delim a
      | ValueArg \<Rightarrow> ValueArg_longID delim a
      | MultiArg \<Rightarrow> MultiArg_longID delim a
      | UnlabeledValueArg \<Rightarrow> UnlabeledValueArg_longID a
      | UnlabeledMultiArg \<Rightarrow> UnlabeledMultiArg_longID a)"

definition getDescription :: "arg \<Rightarrow> string" where
  "getDescription a =
     (if a_required a then ''('' @ a_requireLabel a @ '')  '' else []) @ a_description a"

text \<open>\<open>*a == *b\<close>, dispatched on \<open>a\<close>.\<close>

definition Arg_equal :: "arg \<Rightarrow> arg \<Rightarrow> bool" where
  "Arg_equal a b = (a_flag a \<noteq> [] \<and> a_flag a = a_flag b \<or> a_name a = a_name b)"

definition UnlabeledValueArg_equal :: "arg \<Rightarrow> arg \<Rightarrow> bool" where
  "UnlabeledValueArg_equal a b = (a_name a = a_name b \<or> a_description a = getDescription b)"

definition UnlabeledMultiArg_equal :: "arg \<Rightarrow> arg \<Rightarrow> bool" where
  "UnlabeledMultiArg_equal a b = (a_name a = a_name b \<or> a_description a = getDescription b)"

definition arg_equal :: "arg \<Rightarrow> arg \<Rightarrow> bool" where
  "arg_equal a b =
     (case a_class a of
        UnlabeledValueArg \<Rightarrow> UnlabeledValueArg_equal a b
      | UnlabeledMultiArg \<Rightarrow> UnlabeledMultiArg_equal a b
      | _ \<Rightarrow> Arg_equal a b)"

definition MultiArg_isRequired :: "arg \<Rightarrow> bool" where
  "MultiArg_isRequired a = (if a_required a then \<not> 1 < length (a_values a) else False)"

definition isRequired :: "arg \<Rightarrow> bool" where
  "isRequired a =
     (if a_class a = MultiArg \<or> a_class a = UnlabeledMultiArg then MultiArg_isRequired a else a_required a)"

definition isSet :: "arg \<Rightarrow> bool" where
  "isSet a = (a_alreadySet a \<and> \<not> a_xorSet a)"

definition argMatches :: "string \<Rightarrow> arg \<Rightarrow> bool" where
  "argMatches argFlag a =
     (argFlag = flagStartString @ a_flag a \<and> a_flag a \<noteq> [] \<or> argFlag = nameStartString @ a_name a)"

definition arg_forceRequired :: "arg \<Rightarrow> arg" where
  "arg_forceRequired a = a\<lparr>a_required := True\<rparr>"

definition setRequireLabel :: "string \<Rightarrow> arg \<Rightarrow> arg" where
  "setRequireLabel label a = a\<lparr>a_requireLabel := label\<rparr>"

definition xorSet :: "arg \<Rightarrow> arg" where
  "xorSet a = a\<lparr>a_alreadySet := True, a_xorSet := True\<rparr>"

text \<open>\<open>MultiArg::allowMore\<close> answers with its flag and raises it; the other classes answer false.\<close>

definition MultiArg_allowMore :: "arg \<Rightarrow> bool \<times> arg" where
  "MultiArg_allowMore a = (let am = a_allowMore a in (am, a\<lparr>a_allowMore := True\<rparr>))"

definition allowMore :: "arg \<Rightarrow> bool \<times> arg" where
  "allowMore a =
     (if a_class a = MultiArg \<or> a_class a = UnlabeledMultiArg then MultiArg_allowMore a else (False, a))"

text \<open>\<open>MultiSwitchArg::reset\<close> alone does not call \<open>Arg::reset\<close>.\<close>

definition Arg_reset :: "arg \<Rightarrow> arg" where
  "Arg_reset a = a\<lparr>a_xorSet := False, a_alreadySet := False\<rparr>"

definition SwitchArg_reset :: "arg \<Rightarrow> arg" where
  "SwitchArg_reset a = (Arg_reset a)\<lparr>a_switch := a_switchDefault a\<rparr>"

definition MultiSwitchArg_reset :: "arg \<Rightarrow> arg" where
  "MultiSwitchArg_reset a = a\<lparr>a_count := a_countDefault a\<rparr>"

definition ValueArg_reset :: "arg \<Rightarrow> arg" where
  "ValueArg_reset a = (Arg_reset a)\<lparr>a_value := a_default a\<rparr>"

definition MultiArg_reset :: "arg \<Rightarrow> arg" where
  "MultiArg_reset a = (Arg_reset a)\<lparr>a_values := []\<rparr>"

definition arg_reset :: "arg \<Rightarrow> arg" where
  "arg_reset a =
     (case a_class a of
        SwitchArg \<Rightarrow> SwitchArg_reset a
      | MultiSwitchArg \<Rightarrow> MultiSwitchArg_reset a
      | ValueArg \<Rightarrow> ValueArg_reset a
      | UnlabeledValueArg \<Rightarrow> ValueArg_reset a
      | MultiArg \<Rightarrow> MultiArg_reset a
      | UnlabeledMultiArg \<Rightarrow> MultiArg_reset a)"

text \<open>\<open>addToList\<close>: the labeled arguments go to the front of a list, the unlabeled ones to its end.\<close>

definition Arg_addToList :: "'p \<Rightarrow> 'p list \<Rightarrow> 'p list" where
  "Arg_addToList p argList = p # argList"

definition UnlabeledValueArg_addToList :: "'p \<Rightarrow> 'p list \<Rightarrow> 'p list" where
  "UnlabeledValueArg_addToList p argList = argList @ [p]"

definition UnlabeledMultiArg_addToList :: "'p \<Rightarrow> 'p list \<Rightarrow> 'p list" where
  "UnlabeledMultiArg_addToList p argList = argList @ [p]"

definition addToList :: "arg \<Rightarrow> 'p \<Rightarrow> 'p list \<Rightarrow> 'p list" where
  "addToList a p argList =
     (case a_class a of
        UnlabeledValueArg \<Rightarrow> UnlabeledValueArg_addToList p argList
      | UnlabeledMultiArg \<Rightarrow> UnlabeledMultiArg_addToList p argList
      | _ \<Rightarrow> Arg_addToList p argList)"

text \<open>
  \<open>trimFlag\<close>: the first delimiter splits flag and value, unless it is among the first two
  characters.
\<close>

definition trimFlag :: "char \<Rightarrow> string \<Rightarrow> string \<times> string" where
  "trimFlag delim flag =
     (let stop = length (takeWhile (\<lambda>c. c \<noteq> delim) flag) in
      if stop < length flag \<and> 1 < stop then (take stop flag, drop (stop + 1) flag) else (flag, []))"

text \<open>From the second character on.\<close>

definition hasBlanks :: "string \<Rightarrow> bool" where
  "hasBlanks s = (blankChar \<in> set (drop 1 s))"

text \<open>The loop of \<open>combinedSwitchesMatch\<close>: the first match is overwritten by the blank.\<close>

fun blank_out :: "char \<Rightarrow> string \<Rightarrow> string option" where
  "blank_out f [] = None"
| "blank_out f (c # cs) = (if c = f then Some (blankChar # cs) else map_option ((#) c) (blank_out f cs))"

definition combinedSwitchesMatch :: "char \<Rightarrow> arg \<Rightarrow> string \<Rightarrow> bool \<times> string" where
  "combinedSwitchesMatch delim a combined =
     (if combined \<noteq> [] \<and> hd combined \<noteq> hd flagStartString then (False, combined)
      else if take (length nameStartString) combined = nameStartString then (False, combined)
      else if delim \<in> set combined then (False, combined)
      else if a_flag a = [] \<or> hd (a_flag a) = hd flagStartString then (False, combined)
      else
        (case blank_out (hd (a_flag a)) (drop 1 combined) of
           None \<Rightarrow> (False, combined)
         | Some body \<Rightarrow> (True, take 1 combined @ body)))"

definition lastCombined :: "string \<Rightarrow> bool" where
  "lastCombined combined = list_all (\<lambda>c. c = blankChar) (drop 1 combined)"

definition emptyCombined :: "string \<Rightarrow> bool" where
  "emptyCombined s =
     (if s \<noteq> [] \<and> hd s \<noteq> CHR ''-'' then False else list_all (\<lambda>c. c = blankChar) (drop 1 s))"

end
