(* ===== verification/Tclap_Output.thy ===== *)
theory Tclap_Output
  imports Tclap_Arg
begin

text \<open>
  The state of a command line (\<open>tclap/CmdLine.h\<close>, with the \<open>XorHandler\<close> in it and the static
  variables of \<open>Arg\<close> and \<open>OptionalUnlabeledTracker\<close>) and what \<open>tclap/StdOutput.h\<close> prints of it, up
  to the theorem that the line breaker keeps within its width and prints every word.

  Arguments are objects on a heap, addressed by their position, because the list of arguments and
  the lists of mutually exclusive ones share them. The two output streams are the text written so
  far.
\<close>

section \<open>State\<close>

record cmd_line =
  heap :: "arg list"
  ignoreRest :: bool
  delimiter :: char
  alreadyOptional :: bool
  cout :: string
  cerr :: string
  cl_argList :: "nat list"
  cl_progName :: string
  cl_message :: string
  cl_version :: string
  cl_numRequired :: int
  cl_orList :: "nat list list"
  cl_handleExceptions :: bool
  cl_helpAndVersion :: bool

definition arg_at :: "cmd_line \<Rightarrow> nat \<Rightarrow> arg" where
  "arg_at c p = heap c ! p"

definition upd_arg :: "nat \<Rightarrow> (arg \<Rightarrow> arg) \<Rightarrow> cmd_line \<Rightarrow> cmd_line" where
  "upd_arg p f c = c\<lparr>heap := (heap c)[p := f (heap c ! p)]\<rparr>"

definition xor_contains :: "cmd_line \<Rightarrow> nat \<Rightarrow> bool" where
  "xor_contains c p = list_ex (\<lambda>ors. p \<in> set ors) (cl_orList c)"

section \<open>Breaking a text into lines\<close>

text \<open>\<open>s[i]\<close> of a constant string, which has a null character at its end.\<close>

definition char_at :: "string \<Rightarrow> nat \<Rightarrow> char" where
  "char_at s i = (if i < length s then s ! i else CHR 0x00)"

text \<open>
  The inner loop: from \<open>stringLen = n\<close> down to a character where the text may be broken. The result
  is \<open>-1\<close> if there is none.
\<close>

fun trim_len :: "string \<Rightarrow> nat \<Rightarrow> nat \<Rightarrow> int" where
  "trim_len s start n =
     (if char_at s (n + start) \<in> {CHR '' '', CHR '','', CHR ''|''} then int n
      else if n = 0 then -1 else trim_len s start (n - 1))"

declare trim_len.simps [simp del]

definition line_len :: "string \<Rightarrow> nat \<Rightarrow> nat \<Rightarrow> nat" where
  "line_len s start allowedLen =
     (let stringLen = min (length s - start) allowedLen;
          trimmed = (if stringLen = allowedLen then trim_len s start stringLen else int stringLen);
          stringLen = (if trimmed \<le> 0 then allowedLen else nat trimmed);
          newline = length (takeWhile (\<lambda>c. c \<noteq> CHR 0x0A) (take stringLen (drop start s))) in
      if newline < length (take stringLen (drop start s)) then newline + 1 else stringLen)"

lemma trim_len_le: "trim_len s start n \<le> int n"
proof (induction n)
  case 0
  show ?case by (subst trim_len.simps) simp
next
  case (Suc n)
  then show ?case by (subst trim_len.simps) simp
qed

lemma line_len_pos: "start < length s \<Longrightarrow> 0 < allowedLen \<Longrightarrow> 0 < line_len s start allowedLen"
  by (auto simp: line_len_def Let_def)

lemma line_len_le: "0 < allowedLen \<Longrightarrow> line_len s start allowedLen \<le> allowedLen"
  using trim_len_le [of s start allowedLen]
  by (auto simp: line_len_def Let_def min_def dest!: less_imp_Suc_add split: if_splits)

text \<open>
  The lines printed. The second line is indented further, once. The callers leave room for at least
  one character on every line; if they do not, the code may not advance, or read before the text:
  the result is \<open>None\<close>.
\<close>

function print_lines :: "string \<Rightarrow> nat \<Rightarrow> nat \<Rightarrow> nat \<Rightarrow> nat \<Rightarrow> string list option" where
  "print_lines s start allowedLen indent offset =
     (if length s \<le> start then Some []
      else if allowedLen = 0 then None
      else
        (let n = line_len s start allowedLen;
             indent' = (if start = 0 then indent + offset else indent);
             allowed' = (if start = 0 then allowedLen - offset else allowedLen);
             spaces = length (takeWhile (\<lambda>c. c = CHR '' '') (drop (n + start) s)) in
         map_option ((#) (replicate indent CHR '' '' @ take n (drop start s)))
           (print_lines s (start + spaces + n) allowed' indent' offset)))"
  by pat_completeness auto
termination
proof (relation "measure (\<lambda>(s, start, allowedLen, indent, offset). length s - start)", simp)
  fix s :: string and start allowedLen indent offset n indent' allowed' spaces :: nat
  assume "\<not> length s \<le> start" "allowedLen \<noteq> 0" "n = line_len s start allowedLen"
  then show "((s, start + spaces + n, allowed', indent', offset), s, start, allowedLen, indent, offset)
      \<in> measure (\<lambda>(s, start, allowedLen, indent, offset). length s - start)"
    using line_len_pos [of start s allowedLen] by auto
qed

declare print_lines.simps [simp del]

definition endl :: string where "endl = [CHR 0x0A]"

definition space_print :: "string \<Rightarrow> nat \<Rightarrow> nat \<Rightarrow> nat \<Rightarrow> string option" where
  "space_print s maxWidth indentSpaces secondLineOffset =
     (if maxWidth < length s + indentSpaces \<and> 0 < maxWidth
      then map_option (\<lambda>ls. concat (map (\<lambda>l. l @ endl) ls))
             (print_lines s 0 (maxWidth - indentSpaces) indentSpaces secondLineOffset)
      else Some (replicate indentSpaces CHR '' '' @ s @ endl))"


section \<open>The standard output\<close>

datatype ostream = Cout | Cerr

definition os_put :: "ostream \<Rightarrow> string \<Rightarrow> (cmd_line, unit) act" where
  "os_put os t = modify (\<lambda>c. case os of Cout \<Rightarrow> c\<lparr>cout := cout c @ t\<rparr> | Cerr \<Rightarrow> c\<lparr>cerr := cerr c @ t\<rparr>)"

definition spacePrint :: "ostream \<Rightarrow> string \<Rightarrow> nat \<Rightarrow> nat \<Rightarrow> nat \<Rightarrow> (cmd_line, unit) act" where
  "spacePrint os s maxWidth indentSpaces secondLineOffset =
     bind (unwrap (UB ''no room in spacePrint'') (space_print s maxWidth indentSpaces secondLineOffset)) (os_put os)"

text \<open>A group of alternatives: the last bar is overwritten by the closing brace.\<close>

definition xor_usage :: "cmd_line \<Rightarrow> nat list \<Rightarrow> string" where
  "xor_usage c ors =
     butlast ('' {'' @ concat (map (\<lambda>p. shortID (delimiter c) (arg_at c p) @ ''|'') ors)) @ ''}''"

definition short_usage_text :: "cmd_line \<Rightarrow> string" where
  "short_usage_text c =
     cl_progName c @ '' '' @ concat (map (xor_usage c) (cl_orList c)) @
     concat (map (\<lambda>p. '' '' @ shortID (delimiter c) (arg_at c p)) (filter (\<lambda>p. \<not> xor_contains c p) (cl_argList c)))"

definition shortUsage :: "ostream \<Rightarrow> (cmd_line, unit) act" where
  "shortUsage os =
     bind (gets (\<lambda>c. c)) (\<lambda>c.
     let secondLineOffset = length (cl_progName c) + 2 in
     spacePrint os (short_usage_text c) 75 3 (if 75 div 2 < secondLineOffset then 75 div 2 else secondLineOffset))"

definition long_entry :: "ostream \<Rightarrow> cmd_line \<Rightarrow> nat \<Rightarrow> (cmd_line, unit) act" where
  "long_entry os c p =
     seq (spacePrint os (longID (delimiter c) (arg_at c p)) 75 3 3)
     (spacePrint os (getDescription (arg_at c p)) 75 5 0)"

fun long_alternatives :: "ostream \<Rightarrow> cmd_line \<Rightarrow> nat list \<Rightarrow> (cmd_line, unit) act" where
  "long_alternatives os c [] = skip"
| "long_alternatives os c (p # ps) =
     seq (long_entry os c p)
     (seq (do_if (ps \<noteq> []) (spacePrint os ''-- OR --'' 75 9 0)) (long_alternatives os c ps))"

definition longUsage :: "ostream \<Rightarrow> (cmd_line, unit) act" where
  "longUsage os =
     bind (gets (\<lambda>c. c)) (\<lambda>c.
     seq (for_each (cl_orList c) (\<lambda>ors. seq (long_alternatives os c ors) (os_put os (endl @ endl))))
     (seq (for_each (filter (\<lambda>p. \<not> xor_contains c p) (cl_argList c))
             (\<lambda>p. seq (long_entry os c p) (os_put os endl)))
     (seq (os_put os endl)
     (spacePrint os (cl_message c) 75 3 0))))"

definition print_version :: "(cmd_line, unit) act" where
  "print_version =
     bind (gets (\<lambda>c. c)) (\<lambda>c.
     os_put Cout (endl @ cl_progName c @ ''  version: '' @ cl_version c @ endl @ endl))"

definition usage :: "(cmd_line, unit) act" where
  "usage =
     seq (os_put Cout (endl @ ''USAGE: '' @ endl @ endl))
     (seq (shortUsage Cout)
     (seq (os_put Cout (endl @ endl @ ''Where: '' @ endl @ endl))
     (seq (longUsage Cout)
     (os_put Cout endl))))"

definition failure :: "exn \<Rightarrow> (cmd_line, unit) act" where
  "failure e =
     bind (gets (\<lambda>c. c)) (\<lambda>c.
     seq (os_put Cerr (''PARSE ERROR: '' @ error_argId e @ endl @ ''             '' @ error_text e @ endl @ endl))
     (seq (if cl_helpAndVersion c then
             seq (os_put Cerr (''Brief USAGE: '' @ endl))
             (seq (shortUsage Cerr)
             (os_put Cerr (endl @ ''For complete USAGE and HELP type: '' @ endl @ ''   '' @ cl_progName c @ '' --help'' @
                endl @ endl)))
           else usage)
     (throw (ExitException 1))))"

text \<open>The visitors (\<open>HelpVisitor.h\<close>, \<open>VersionVisitor.h\<close>, \<open>IgnoreRestVisitor.h\<close>).\<close>

definition HelpVisitor_visit :: "(cmd_line, unit) act" where
  "HelpVisitor_visit = seq usage (throw (ExitException 0))"

definition VersionVisitor_visit :: "(cmd_line, unit) act" where
  "VersionVisitor_visit = seq print_version (throw (ExitException 0))"

definition IgnoreRestVisitor_visit :: "(cmd_line, unit) act" where
  "IgnoreRestVisitor_visit = modify (\<lambda>c. c\<lparr>ignoreRest := True\<rparr>)"

definition visit :: "visitor \<Rightarrow> (cmd_line, unit) act" where
  "visit v =
     (case v of
        HelpVisitor \<Rightarrow> HelpVisitor_visit
      | VersionVisitor \<Rightarrow> VersionVisitor_visit
      | IgnoreRestVisitor \<Rightarrow> IgnoreRestVisitor_visit)"

lemmas visit_defs = visit_def HelpVisitor_visit_def VersionVisitor_visit_def IgnoreRestVisitor_visit_def

section \<open>The line breaker\<close>


definition no_space :: "char \<Rightarrow> bool" where
  "no_space c \<longleftrightarrow> c \<noteq> CHR '' ''"

lemma filter_skip_spaces:
  "filter no_space (drop (length (takeWhile (\<lambda>c. c = CHR '' '') xs)) xs) = filter no_space xs"
  by (induction xs) (auto simp: no_space_def)

lemma filter_indent: "filter no_space (replicate n CHR '' '') = []"
  by (induction n) (simp_all add: no_space_def)

lemma print_lines_fit:
  assumes "if start = 0 then offset < allowedLen else 0 < allowedLen"
  shows "\<exists>ls. print_lines s start allowedLen indent offset = Some ls \<and>
    (\<forall>l\<in>set ls. length l \<le> indent + allowedLen) \<and> filter no_space (concat ls) = filter no_space (drop start s)"
  using assms
proof (induction s start allowedLen indent offset rule: print_lines.induct)
  case (1 s start allowedLen indent offset)
  show ?case
  proof (cases "length s \<le> start")
    case True
    then show ?thesis by (subst print_lines.simps) simp
  next
    case False
    have pos: "0 < allowedLen" using 1(2) by (auto split: if_splits)
    let ?n = "line_len s start allowedLen"
    let ?k = "length (takeWhile (\<lambda>c. c = CHR '' '') (drop (?n + start) s))"
    let ?i = "if start = 0 then indent + offset else indent"
    let ?a = "if start = 0 then allowedLen - offset else allowedLen"
    have n: "0 < ?n" "?n \<le> allowedLen" using False pos by (simp_all add: line_len_pos line_len_le)
    have "0 < ?a" using 1(2) by (auto split: if_splits)
    with n 1(1) [OF False _ refl refl refl refl] pos obtain ls where
      ls: "print_lines s (start + ?k + ?n) ?a ?i offset = Some ls" and
      width: "\<forall>l\<in>set ls. length l \<le> ?i + ?a" and
      words: "filter no_space (concat ls) = filter no_space (drop (start + ?k + ?n) s)"
      by auto
    have sum: "?i + ?a = indent + allowedLen" using 1(2) by (auto split: if_splits)
    have "start + ?k + ?n = ?k + (?n + start)" by simp
    then have "drop (start + ?k + ?n) s = drop ?k (drop (?n + start) s)" by (simp only: drop_drop)
    with filter_skip_spaces [of "drop (?n + start) s"]
    have "filter no_space (drop (start + ?k + ?n) s) = filter no_space (drop ?n (drop start s))"
      by (metis drop_drop)
    then have "filter no_space (take ?n (drop start s)) @ filter no_space (concat ls) = filter no_space (drop start s)"
      using words by (metis append_take_drop_id filter_append)
    moreover have "print_lines s start allowedLen indent offset =
        Some ((replicate indent CHR '' '' @ take ?n (drop start s)) # ls)"
      using ls False pos by (subst print_lines.simps) (simp add: Let_def)
    moreover have "length (replicate indent CHR '' '' @ take ?n (drop start s)) \<le> indent + allowedLen"
      using n(2) by simp
    ultimately show ?thesis using width sum by (auto simp: filter_indent)
  qed
qed

text \<open>
  C35. The line breaker prints every word: as long as the indented second line has room, a text of any
  length comes out as lines of at most the given width, and the characters that are not spaces are
  those of the text, in order.
\<close>

theorem usage_lines_fit:
  assumes "indentSpaces + secondLineOffset < maxWidth"
  shows "\<exists>ls. space_print s maxWidth indentSpaces secondLineOffset = Some (concat (map (\<lambda>l. l @ endl) ls)) \<and>
    (\<forall>l\<in>set ls. length l \<le> maxWidth) \<and> filter no_space (concat ls) = filter no_space s"
proof (cases "maxWidth < length s + indentSpaces")
  case True
  have "secondLineOffset < maxWidth - indentSpaces" using assms by simp
  then obtain ls where "print_lines s 0 (maxWidth - indentSpaces) indentSpaces secondLineOffset = Some ls"
    and "\<forall>l\<in>set ls. length l \<le> maxWidth" and "filter no_space (concat ls) = filter no_space s"
    using print_lines_fit [of 0 secondLineOffset "maxWidth - indentSpaces" s indentSpaces] assms by auto
  with True assms show ?thesis by (intro exI [of _ ls]) (simp add: space_print_def)
next
  case False
  then show ?thesis
    by (intro exI [of _ "[replicate indentSpaces CHR '' '' @ s]"]) (simp add: space_print_def filter_indent)
qed

theorem usage_lines_fit_witness:
  "space_print ''one two three'' 9 1 2 = Some ('' one two'' @ endl @ ''   three'' @ endl) \<and>
   (\<exists>ls. space_print ''one two three'' 9 1 2 = Some (concat (map (\<lambda>l. l @ endl) ls)) \<and> (\<forall>l\<in>set ls. length l \<le> 9))"
  using usage_lines_fit [of 1 2 9 "''one two three''"]
  by (auto simp: space_print_def endl_def print_lines.simps line_len_def trim_len.simps char_at_def)

end
