(* ===== verification/Tclap_Cmd_Line.thy ===== *)
theory Tclap_Cmd_Line
  imports Tclap_Output
begin

text \<open>
  Parsing a command line: how each class of arguments processes the current word (\<open>processArg\<close> of
  \<open>SwitchArg.h\<close>, \<open>MultiSwitchArg.h\<close>, \<open>ValueArg.h\<close>, \<open>MultiArg.h\<close>, \<open>UnlabeledValueArg.h\<close> and
  \<open>UnlabeledMultiArg.h\<close>), the mutually exclusive groups (\<open>XorHandler.h\<close>), and the operations of
  \<open>CmdLine.h\<close>.

  \<open>processArg(int *i, vector<string>& args)\<close> may advance the position and overwrite the current
  word, so it takes both and returns them with its answer. The loop over the words is bounded by a
  fuel; that as much fuel as there are words is always enough is a theorem below.
\<close>

section \<open>Creating arguments\<close>

definition new_obj :: "exn + arg \<Rightarrow> (cmd_line, nat) act" where
  "new_obj r =
     bind (lift r) (\<lambda>a. bind (gets (\<lambda>c. length (heap c))) (\<lambda>p.
     seq (modify (\<lambda>c. c\<lparr>heap := heap c @ [a]\<rparr>)) (ret p)))"

section \<open>Processing a word\<close>

text \<open>\<open>_checkWithVisitor\<close>.\<close>

definition checkWithVisitor :: "nat \<Rightarrow> (cmd_line, unit) act" where
  "checkWithVisitor p =
     bind (gets (\<lambda>c. a_visitor (arg_at c p))) (\<lambda>v.
     case v of None \<Rightarrow> skip | Some v \<Rightarrow> visit v)"

definition commonProcessing :: "nat \<Rightarrow> (cmd_line, unit) act" where
  "commonProcessing p =
     bind (gets (\<lambda>c. arg_at c p)) (\<lambda>a.
     if a_xorSet a then throw (CmdLineParseException ''Mutually exclusive argument already set!'' (arg_toString a))
     else if a_alreadySet a then throw (CmdLineParseException ''Argument already set!'' (arg_toString a))
     else
       seq (modify (upd_arg p (\<lambda>a. a\<lparr>a_alreadySet := True, a_switch := \<not> a_switch a\<rparr>)))
       (checkWithVisitor p))"

type_synonym word_result = "bool \<times> nat \<times> string list"

definition SwitchArg_processArg :: "nat \<Rightarrow> nat \<Rightarrow> string list \<Rightarrow> (cmd_line, word_result) act" where
  "SwitchArg_processArg p i args =
     bind (gets (\<lambda>c. c)) (\<lambda>c.
     let a = arg_at c p in
     if a_ignoreable a \<and> ignoreRest c then ret (False, i, args)
     else if argMatches (args ! i) a then seq (commonProcessing p) (ret (True, i, args))
     else
       (case combinedSwitchesMatch (delimiter c) a (args ! i) of
          (False, w) \<Rightarrow> ret (False, i, args)
        | (True, w) \<Rightarrow>
            (case combinedSwitchesMatch (delimiter c) a w of
               (True, w') \<Rightarrow> throw (CmdLineParseException ''Argument already set!'' (arg_toString a))
             | (False, w') \<Rightarrow> seq (commonProcessing p) (ret (lastCombined w', i, args[i := w'])))))"

text \<open>
  \<open>while (combinedSwitchesMatch(args[*i])) ++_value;\<close> does not end when the flag is the very
  character that overwrites a match: then there is no result.
\<close>

partial_function (option) count_matches :: "char \<Rightarrow> arg \<Rightarrow> string \<Rightarrow> int \<Rightarrow> (int \<times> string) option" where
  "count_matches delim a w n =
     (if fst (combinedSwitchesMatch delim a w)
      then count_matches delim a (snd (combinedSwitchesMatch delim a w)) (n + 1)
      else Some (n, w))"

declare count_matches.simps [code]

definition MultiSwitchArg_processArg :: "nat \<Rightarrow> nat \<Rightarrow> string list \<Rightarrow> (cmd_line, word_result) act" where
  "MultiSwitchArg_processArg p i args =
     bind (gets (\<lambda>c. c)) (\<lambda>c.
     let a = arg_at c p in
     if a_ignoreable a \<and> ignoreRest c then ret (False, i, args)
     else if argMatches (args ! i) a then
       seq (modify (upd_arg p (\<lambda>a. a\<lparr>a_alreadySet := True, a_count := a_count a + 1\<rparr>)))
       (seq (checkWithVisitor p) (ret (True, i, args)))
     else
       (case combinedSwitchesMatch (delimiter c) a (args ! i) of
          (False, w) \<Rightarrow> ret (False, i, args)
        | (True, w) \<Rightarrow>
            bind (unwrap (Abort ''endless loop'') (count_matches (delimiter c) a w (a_count a + 1))) (\<lambda>(n, w').
            seq (modify (upd_arg p (\<lambda>a. a\<lparr>a_alreadySet := True, a_count := n\<rparr>)))
            (seq (checkWithVisitor p) (ret (False, i, args[i := w']))))))"

text \<open>The two versions of \<open>_extractValue\<close>; the conversion stores into the member even if it throws.\<close>

definition check_constraint :: "string \<Rightarrow> arg \<Rightarrow> arg_value \<Rightarrow> (cmd_line, unit) act" where
  "check_constraint val a stored =
     (case a_constraint a of
        None \<Rightarrow> skip
      | Some k \<Rightarrow>
          if constraint_check k stored then skip
          else throw (CmdLineParseException (''Value '' @ [CHR 0x27] @ val @ [CHR 0x27] @ '' does not meet constraint: '' @
                 k_typeDesc k) (arg_toString a)))"

definition ValueArg_extractValue :: "nat \<Rightarrow> string \<Rightarrow> (cmd_line, unit) act" where
  "ValueArg_extractValue p val =
     bind (gets (\<lambda>c. arg_at c p)) (\<lambda>a.
     case ExtractValue (a_type a) val of
       (v, err) \<Rightarrow>
         let stored = (case v of None \<Rightarrow> a_value a | Some x \<Rightarrow> x) in
         seq (modify (upd_arg p (\<lambda>a. a\<lparr>a_value := stored\<rparr>)))
         (case err of
            Some e \<Rightarrow> throw (ArgParseException (error_text e) (arg_toString a))
          | None \<Rightarrow> check_constraint val a stored))"

text \<open>\<open>T tmp\<close> is not initialised, and an empty text stores nothing into it.\<close>

definition MultiArg_extractValue :: "nat \<Rightarrow> string \<Rightarrow> (cmd_line, unit) act" where
  "MultiArg_extractValue p val =
     bind (gets (\<lambda>c. arg_at c p)) (\<lambda>a.
     case ExtractValue (a_type a) val of
       (v, Some e) \<Rightarrow> throw (ArgParseException (error_text e) (arg_toString a))
     | (None, None) \<Rightarrow> throw (UB ''uninitialised tmp'')
     | (Some x, None) \<Rightarrow>
         seq (modify (upd_arg p (\<lambda>a. a\<lparr>a_values := a_values a @ [x]\<rparr>)))
         (check_constraint val a x))"

text \<open>The value after the delimiter, or the next word.\<close>

definition take_value ::
    "(nat \<Rightarrow> string \<Rightarrow> (cmd_line, unit) act) \<Rightarrow> nat \<Rightarrow> nat \<Rightarrow> string list \<Rightarrow> string \<Rightarrow> (cmd_line, nat) act" where
  "take_value extract p i args val =
     (if val = [] then
        if i + 1 < length args then seq (extract p (args ! (i + 1))) (ret (i + 1))
        else
          bind (gets (\<lambda>c. arg_at c p)) (\<lambda>a.
          throw (ArgParseException ''Missing a value for this argument!'' (arg_toString a)))
      else seq (extract p val) (ret i))"

definition ValueArg_processArg :: "nat \<Rightarrow> nat \<Rightarrow> string list \<Rightarrow> (cmd_line, word_result) act" where
  "ValueArg_processArg p i args =
     bind (gets (\<lambda>c. c)) (\<lambda>c.
     let a = arg_at c p in
     if a_ignoreable a \<and> ignoreRest c then ret (False, i, args)
     else if hasBlanks (args ! i) then ret (False, i, args)
     else
       (case trimFlag (delimiter c) (args ! i) of
          (flag, val) \<Rightarrow>
            if \<not> argMatches flag a then ret (False, i, args)
            else if a_alreadySet a then
              throw (CmdLineParseException
                (if a_xorSet a then ''Mutually exclusive argument already set!'' else ''Argument already set!'')
                (arg_toString a))
            else if delimiter c \<noteq> CHR '' '' \<and> val = [] then
              throw (ArgParseException ''Couldn't find delimiter for this argument!'' (arg_toString a))
            else
              bind (take_value ValueArg_extractValue p i args val) (\<lambda>i'.
              seq (modify (upd_arg p (\<lambda>a. a\<lparr>a_alreadySet := True\<rparr>)))
              (seq (checkWithVisitor p) (ret (True, i', args))))))"

definition MultiArg_processArg :: "nat \<Rightarrow> nat \<Rightarrow> string list \<Rightarrow> (cmd_line, word_result) act" where
  "MultiArg_processArg p i args =
     bind (gets (\<lambda>c. c)) (\<lambda>c.
     let a = arg_at c p in
     if a_ignoreable a \<and> ignoreRest c then ret (False, i, args)
     else if hasBlanks (args ! i) then ret (False, i, args)
     else
       (case trimFlag (delimiter c) (args ! i) of
          (flag, val) \<Rightarrow>
            if \<not> argMatches flag a then ret (False, i, args)
            else if delimiter c \<noteq> CHR '' '' \<and> val = [] then
              throw (ArgParseException ''Couldn't find delimiter for this argument!'' (arg_toString a))
            else
              bind (take_value MultiArg_extractValue p i args val) (\<lambda>i'.
              seq (modify (upd_arg p (\<lambda>a. a\<lparr>a_alreadySet := True\<rparr>)))
              (seq (checkWithVisitor p) (ret (True, i', args))))))"

definition UnlabeledValueArg_processArg :: "nat \<Rightarrow> nat \<Rightarrow> string list \<Rightarrow> (cmd_line, word_result) act" where
  "UnlabeledValueArg_processArg p i args =
     bind (gets (\<lambda>c. arg_at c p)) (\<lambda>a.
     if a_alreadySet a then ret (False, i, args)
     else if hasBlanks (args ! i) then ret (False, i, args)
     else
       seq (ValueArg_extractValue p (args ! i))
       (seq (modify (upd_arg p (\<lambda>a. a\<lparr>a_alreadySet := True\<rparr>))) (ret (True, i, args))))"

definition UnlabeledMultiArg_processArg :: "nat \<Rightarrow> nat \<Rightarrow> string list \<Rightarrow> (cmd_line, word_result) act" where
  "UnlabeledMultiArg_processArg p i args =
     (if hasBlanks (args ! i) then ret (False, i, args)
      else
        seq (MultiArg_extractValue p (args ! i))
        (seq (modify (upd_arg p (\<lambda>a. a\<lparr>a_alreadySet := True\<rparr>))) (ret (True, i, args))))"

text \<open>The virtual call.\<close>

definition processArg :: "nat \<Rightarrow> nat \<Rightarrow> string list \<Rightarrow> (cmd_line, word_result) act" where
  "processArg p i args =
     bind (gets (\<lambda>c. a_class (arg_at c p))) (\<lambda>k.
     case k of
       SwitchArg \<Rightarrow> SwitchArg_processArg p i args
     | MultiSwitchArg \<Rightarrow> MultiSwitchArg_processArg p i args
     | ValueArg \<Rightarrow> ValueArg_processArg p i args
     | MultiArg \<Rightarrow> MultiArg_processArg p i args
     | UnlabeledValueArg \<Rightarrow> UnlabeledValueArg_processArg p i args
     | UnlabeledMultiArg \<Rightarrow> UnlabeledMultiArg_processArg p i args)"


section \<open>Mutually exclusive groups\<close>

text \<open>\<open>XorHandler::check\<close>: how many required arguments the match of \<open>p\<close> accounts for.\<close>

definition xor_check :: "nat \<Rightarrow> (cmd_line, int) act" where
  "xor_check p =
     bind (gets (\<lambda>c. c)) (\<lambda>c.
     case List.find (\<lambda>ors. p \<in> set ors) (cl_orList c) of
       None \<Rightarrow> ret (if isRequired (arg_at c p) then 1 else 0)
     | Some ors \<Rightarrow>
         seq (for_each ors (\<lambda>q.
                do_if (p \<noteq> q \<and> isSet (arg_at c q))
                  (throw (CmdLineParseException ''Mutually exclusive argument already set!'' (arg_toString (arg_at c q))))))
         (seq (for_each ors (\<lambda>q. do_if (p \<noteq> q) (modify (upd_arg q xorSet))))
         (bind (gets (\<lambda>c. fst (allowMore (arg_at c p)))) (\<lambda>more.
          seq (modify (upd_arg p (\<lambda>a. snd (allowMore a))))
          (ret (if more then 0 else int (length ors)))))))"

section \<open>The command line\<close>

definition cl_add :: "nat \<Rightarrow> (cmd_line, unit) act" where
  "cl_add p =
     bind (gets (\<lambda>c. c)) (\<lambda>c.
     let a = arg_at c p in
     if list_ex (\<lambda>q. arg_equal a (arg_at c q)) (cl_argList c) then
       throw (SpecificationException ''Argument with same flag/name already exists!'' (longID (delimiter c) a))
     else
       seq (modify (\<lambda>c. c\<lparr>cl_argList := addToList a p (cl_argList c)\<rparr>))
       (do_if (isRequired a) (modify (\<lambda>c. c\<lparr>cl_numRequired := cl_numRequired c + 1\<rparr>))))"

definition xorAdd :: "nat list \<Rightarrow> (cmd_line, unit) act" where
  "xorAdd ors =
     seq (modify (\<lambda>c. c\<lparr>cl_orList := cl_orList c @ [ors]\<rparr>))
     (for_each ors (\<lambda>p.
        seq (modify (upd_arg p arg_forceRequired))
        (seq (modify (upd_arg p (setRequireLabel ''OR required'')))
        (cl_add p))))"

section \<open>Arguments of every class\<close>

definition OptionalUnlabeledTracker_check :: "bool \<Rightarrow> string \<Rightarrow> (cmd_line, unit) act" where
  "OptionalUnlabeledTracker_check req argName =
     bind (gets alreadyOptional) (\<lambda>already.
     if already then
       throw (SpecificationException ''You can't specify ANY Unlabeled Arg following an optional Unlabeled Arg'' argName)
     else do_if (\<not> req) (modify (\<lambda>c. c\<lparr>alreadyOptional := True\<rparr>)))"

text \<open>Unlabeled arguments: the base class, then \<open>_ignoreable\<close>, then the tracker.\<close>

definition new_unlabeled :: "arg_class \<Rightarrow> bool \<Rightarrow> bool \<Rightarrow> exn + arg \<Rightarrow> (cmd_line, nat) act" where
  "new_unlabeled k ignoreable req base =
     bind (new_obj (map_sum id (\<lambda>a. a\<lparr>a_class := k, a_ignoreable := ignoreable\<rparr>) base)) (\<lambda>p.
     bind (gets (\<lambda>c. arg_at c p)) (\<lambda>a.
     seq (OptionalUnlabeledTracker_check req (arg_toString a)) (ret p)))"

definition new_UnlabeledValueArg ::
    "value_type \<Rightarrow> string \<Rightarrow> string \<Rightarrow> bool \<Rightarrow> arg_value \<Rightarrow> string \<Rightarrow> bool \<Rightarrow> visitor option \<Rightarrow> (cmd_line, nat) act" where
  "new_UnlabeledValueArg t name desc req val typeDesc ignoreable v =
     new_unlabeled UnlabeledValueArg ignoreable req (new_ValueArg t [] name desc req val typeDesc v)"

definition new_UnlabeledValueArg_constrained ::
    "value_type \<Rightarrow> string \<Rightarrow> string \<Rightarrow> bool \<Rightarrow> arg_value \<Rightarrow> constraint \<Rightarrow> bool \<Rightarrow> visitor option \<Rightarrow> (cmd_line, nat) act" where
  "new_UnlabeledValueArg_constrained t name desc req val k ignoreable v =
     new_unlabeled UnlabeledValueArg ignoreable req (new_ValueArg_constrained t [] name desc req val k v)"

text \<open>A list of unlabeled values counts as required, whatever it is.\<close>

definition new_UnlabeledMultiArg ::
    "value_type \<Rightarrow> string \<Rightarrow> string \<Rightarrow> bool \<Rightarrow> string \<Rightarrow> bool \<Rightarrow> visitor option \<Rightarrow> (cmd_line, nat) act" where
  "new_UnlabeledMultiArg t name desc req typeDesc ignoreable v =
     new_unlabeled UnlabeledMultiArg ignoreable True (new_MultiArg t [] name desc req typeDesc v)"

definition new_UnlabeledMultiArg_constrained ::
    "value_type \<Rightarrow> string \<Rightarrow> string \<Rightarrow> bool \<Rightarrow> constraint \<Rightarrow> bool \<Rightarrow> visitor option \<Rightarrow> (cmd_line, nat) act" where
  "new_UnlabeledMultiArg_constrained t name desc req k ignoreable v =
     new_unlabeled UnlabeledMultiArg ignoreable True (new_MultiArg_constrained t [] name desc req k v)"

text \<open>The constructors that take the command line add the new argument to it.\<close>

definition added :: "(cmd_line, nat) act \<Rightarrow> (cmd_line, nat) act" where
  "added create = bind create (\<lambda>p. seq (cl_add p) (ret p))"

definition new_SwitchArg_in :: "string \<Rightarrow> string \<Rightarrow> string \<Rightarrow> bool \<Rightarrow> visitor option \<Rightarrow> (cmd_line, nat) act" where
  "new_SwitchArg_in flag name desc default_val v = added (new_obj (new_SwitchArg flag name desc default_val v))"

definition new_MultiSwitchArg_in :: "string \<Rightarrow> string \<Rightarrow> string \<Rightarrow> int \<Rightarrow> visitor option \<Rightarrow> (cmd_line, nat) act" where
  "new_MultiSwitchArg_in flag name desc init v = added (new_obj (new_MultiSwitchArg flag name desc init v))"

definition new_ValueArg_in ::
    "value_type \<Rightarrow> string \<Rightarrow> string \<Rightarrow> string \<Rightarrow> bool \<Rightarrow> arg_value \<Rightarrow> string \<Rightarrow> visitor option \<Rightarrow> (cmd_line, nat) act" where
  "new_ValueArg_in t flag name desc req val typeDesc v = added (new_obj (new_ValueArg t flag name desc req val typeDesc v))"

definition new_ValueArg_constrained_in ::
    "value_type \<Rightarrow> string \<Rightarrow> string \<Rightarrow> string \<Rightarrow> bool \<Rightarrow> arg_value \<Rightarrow> constraint \<Rightarrow> visitor option \<Rightarrow> (cmd_line, nat) act" where
  "new_ValueArg_constrained_in t flag name desc req val k v =
     added (new_obj (new_ValueArg_constrained t flag name desc req val k v))"

definition new_MultiArg_in ::
    "value_type \<Rightarrow> string \<Rightarrow> string \<Rightarrow> string \<Rightarrow> bool \<Rightarrow> string \<Rightarrow> visitor option \<Rightarrow> (cmd_line, nat) act" where
  "new_MultiArg_in t flag name desc req typeDesc v = added (new_obj (new_MultiArg t flag name desc req typeDesc v))"

definition new_MultiArg_constrained_in ::
    "value_type \<Rightarrow> string \<Rightarrow> string \<Rightarrow> string \<Rightarrow> bool \<Rightarrow> constraint \<Rightarrow> visitor option \<Rightarrow> (cmd_line, nat) act" where
  "new_MultiArg_constrained_in t flag name desc req k v = added (new_obj (new_MultiArg_constrained t flag name desc req k v))"

definition new_UnlabeledValueArg_in ::
    "value_type \<Rightarrow> string \<Rightarrow> string \<Rightarrow> bool \<Rightarrow> arg_value \<Rightarrow> string \<Rightarrow> bool \<Rightarrow> visitor option \<Rightarrow> (cmd_line, nat) act" where
  "new_UnlabeledValueArg_in t name desc req val typeDesc ignoreable v =
     added (new_UnlabeledValueArg t name desc req val typeDesc ignoreable v)"

definition new_UnlabeledValueArg_constrained_in ::
    "value_type \<Rightarrow> string \<Rightarrow> string \<Rightarrow> bool \<Rightarrow> arg_value \<Rightarrow> constraint \<Rightarrow> bool \<Rightarrow> visitor option \<Rightarrow> (cmd_line, nat) act" where
  "new_UnlabeledValueArg_constrained_in t name desc req val k ignoreable v =
     added (new_UnlabeledValueArg_constrained t name desc req val k ignoreable v)"

definition new_UnlabeledMultiArg_in ::
    "value_type \<Rightarrow> string \<Rightarrow> string \<Rightarrow> bool \<Rightarrow> string \<Rightarrow> bool \<Rightarrow> visitor option \<Rightarrow> (cmd_line, nat) act" where
  "new_UnlabeledMultiArg_in t name desc req typeDesc ignoreable v =
     added (new_UnlabeledMultiArg t name desc req typeDesc ignoreable v)"

definition new_UnlabeledMultiArg_constrained_in ::
    "value_type \<Rightarrow> string \<Rightarrow> string \<Rightarrow> bool \<Rightarrow> constraint \<Rightarrow> bool \<Rightarrow> visitor option \<Rightarrow> (cmd_line, nat) act" where
  "new_UnlabeledMultiArg_constrained_in t name desc req k ignoreable v =
     added (new_UnlabeledMultiArg_constrained t name desc req k ignoreable v)"

section \<open>Construction and parsing\<close>

definition xorAdd2 :: "nat \<Rightarrow> nat \<Rightarrow> (cmd_line, unit) act" where
  "xorAdd2 a b = xorAdd [a, b]"

text \<open>The process before its first command line.\<close>

definition fresh_process :: cmd_line where
  "fresh_process = \<lparr>heap = [], ignoreRest = False, delimiter = CHR '' '', alreadyOptional = False, cout = [], cerr = [],
     cl_argList = [], cl_progName = [], cl_message = [], cl_version = [], cl_numRequired = 0, cl_orList = [],
     cl_handleExceptions = True, cl_helpAndVersion = True\<rparr>"

definition constructor :: "(cmd_line, unit) act" where
  "constructor =
     bind (gets cl_helpAndVersion) (\<lambda>helpAndVersion.
     seq (do_if helpAndVersion
        (bind (added (new_obj (new_SwitchArg ''h'' ''help'' ''Displays usage information and exits.'' False (Some HelpVisitor)))) (\<lambda>_.
         bind (added (new_obj (new_SwitchArg [] ''version'' ''Displays version information and exits.'' False (Some VersionVisitor)))) (\<lambda>_.
         skip))))
     (bind (added (new_obj (new_SwitchArg flagStartString ignoreNameString
             ''Ignores the rest of the labeled arguments following this flag.'' False (Some IgnoreRestVisitor)))) (\<lambda>_. skip)))"

definition new_CmdLine :: "string \<Rightarrow> char \<Rightarrow> string \<Rightarrow> bool \<Rightarrow> (cmd_line, unit) act" where
  "new_CmdLine m delim v help =
     seq (modify (\<lambda>c. c\<lparr>cl_argList := [], cl_progName := ''not_set_yet'', cl_message := m, cl_version := v,
            cl_numRequired := 0, cl_orList := [], cl_handleExceptions := True, cl_helpAndVersion := help,
            delimiter := delim\<rparr>))
     constructor"

definition missingArgsException :: "(cmd_line, 'a) act" where
  "missingArgsException =
     bind (gets (\<lambda>c. c)) (\<lambda>c.
     let missing = filter (\<lambda>p. isRequired (arg_at c p) \<and> \<not> isSet (arg_at c p)) (cl_argList c);
         missingArgList = concat (map (\<lambda>p. a_name (arg_at c p) @ '', '') missing);
         msg = (if 1 < length missing then ''Required arguments missing: '' else ''Required argument missing: '') in
     throw (CmdLineParseException (msg @ take (length missingArgList - 2) missingArgList) undefined_id))"

text \<open>The arguments are tried in order until one takes the word; the number is what \<open>check\<close> returns.\<close>

fun try_args :: "nat list \<Rightarrow> nat \<Rightarrow> string list \<Rightarrow> (cmd_line, int option \<times> nat \<times> string list) act" where
  "try_args [] i args = ret (None, i, args)"
| "try_args (p # ps) i args =
     bind (processArg p i args) (\<lambda>(took, i, args).
     if took then bind (xor_check p) (\<lambda>n. ret (Some n, i, args)) else try_args ps i args)"

definition parse_word :: "nat \<Rightarrow> string list \<Rightarrow> (cmd_line, int \<times> nat \<times> string list) act" where
  "parse_word i args =
     bind (gets cl_argList) (\<lambda>ps.
     bind (try_args ps i args) (\<lambda>(counted, i, args).
     case counted of
       Some n \<Rightarrow> ret (n, i, args)
     | None \<Rightarrow>
         if emptyCombined (args ! i) then ret (0, i, args)
         else
           bind (gets ignoreRest) (\<lambda>ignoring.
           if ignoring then ret (0, i, args)
           else throw (CmdLineParseException (''Couldn't find match '' @ ''for argument'') (args ! i)))))"

fun parse_loop :: "nat \<Rightarrow> nat \<Rightarrow> string list \<Rightarrow> int \<Rightarrow> (cmd_line, int) act" where
  "parse_loop fuel i args requiredCount =
     (if length args \<le> i then ret requiredCount
      else
        (case fuel of
           0 \<Rightarrow> throw (UB ''out of fuel'')
         | Suc fuel \<Rightarrow>
             bind (parse_word i args) (\<lambda>(n, i, args). parse_loop fuel (Suc i) args (requiredCount + n))))"

declare parse_loop.simps [simp del]

text \<open>The body of the \<open>try\<close> block of \<open>parse\<close>.\<close>

definition parse_body :: "string list \<Rightarrow> (cmd_line, unit) act" where
  "parse_body args =
     (if args = [] then throw (UB ''front of an empty vector'')
      else
        seq (modify (\<lambda>c. c\<lparr>cl_progName := hd args\<rparr>))
        (bind (parse_loop (length (tl args)) 0 (tl args) 0) (\<lambda>requiredCount.
         bind (gets cl_numRequired) (\<lambda>numRequired.
         if requiredCount < numRequired then missingArgsException
         else if numRequired < requiredCount then throw (CmdLineParseException ''Too many arguments!'' undefined_id)
         else skip))))"

definition cl_parse :: "string list \<Rightarrow> (cmd_line, unit) act" where
  "cl_parse args =
     try_catch (\<lambda>e. is_arg_exception e \<or> is_exit_exception e) (parse_body args)
       (\<lambda>e. bind (gets cl_handleExceptions) (\<lambda>handle.
         if \<not> handle then throw e
         else
           try_catch is_exit_exception
             (if is_arg_exception e then failure e else throw e)
             (\<lambda>ee. case ee of ExitException estat \<Rightarrow> throw (Exit estat) | _ \<Rightarrow> skip)))"

text \<open>\<open>parse(argc, argv)\<close>: the first \<open>argc\<close> strings.\<close>

definition parse_argv :: "nat \<Rightarrow> string list \<Rightarrow> (cmd_line, unit) act" where
  "parse_argv argc argv = cl_parse (map (\<lambda>i. argv ! i) [0..<argc])"

definition SwitchArg_getValue :: "nat \<Rightarrow> (cmd_line, bool) act" where
  "SwitchArg_getValue p = gets (\<lambda>c. a_switch (arg_at c p))"

definition MultiSwitchArg_getValue :: "nat \<Rightarrow> (cmd_line, int) act" where
  "MultiSwitchArg_getValue p = gets (\<lambda>c. a_count (arg_at c p))"

definition ValueArg_getValue :: "nat \<Rightarrow> (cmd_line, arg_value) act" where
  "ValueArg_getValue p = gets (\<lambda>c. a_value (arg_at c p))"

definition MultiArg_getValue :: "nat \<Rightarrow> (cmd_line, arg_value list) act" where
  "MultiArg_getValue p = gets (\<lambda>c. a_values (arg_at c p))"

definition setExceptionHandling :: "bool \<Rightarrow> (cmd_line, unit) act" where
  "setExceptionHandling b = modify (\<lambda>c. c\<lparr>cl_handleExceptions := b\<rparr>)"

definition cl_reset :: "(cmd_line, unit) act" where
  "cl_reset =
     bind (gets cl_argList) (\<lambda>ps.
     seq (for_each ps (\<lambda>p. modify (upd_arg p arg_reset))) (modify (\<lambda>c. c\<lparr>cl_progName := []\<rparr>)))"

end
