(* ===== verification/Tclap_Laws.thy ===== *)
theory Tclap_Laws
  imports Tclap_Cmd_Line
begin

text \<open>
  What holds of TCLAP's parser for every command line: parsing ends (as much fuel as there are words
  is enough), a normal return means that every required argument was given, and a combined switch
  is counted as often as it occurs.

  The lemmas rest on one description of \<open>processArg\<close>: which members of which object a word that is
  taken changes.
\<close>

section \<open>What processing a word changes\<close>

definition after_word :: "nat \<Rightarrow> arg \<Rightarrow> bool \<Rightarrow> cmd_line \<Rightarrow> cmd_line" where
  "after_word p a ignoring c = c\<lparr>heap := (heap c)[p := a], ignoreRest := ignoring\<rparr>"

definition is_switch :: "arg \<Rightarrow> bool" where
  "is_switch a \<longleftrightarrow> a_class a = SwitchArg \<or> a_class a = MultiSwitchArg"

definition is_multi :: "arg \<Rightarrow> bool" where
  "is_multi a \<longleftrightarrow> a_class a = MultiArg \<or> a_class a = UnlabeledMultiArg"

definition processed :: "arg \<Rightarrow> bool \<Rightarrow> arg \<Rightarrow> bool" where
  "processed a took a' \<longleftrightarrow>
     a_class a' = a_class a \<and> a_required a' = a_required a \<and> a_xorSet a' = a_xorSet a \<and>
     (if is_switch a then True
      else if \<not> took then a' = a
      else if is_multi a then a_alreadySet a' \<and> (\<exists>x. a_values a' = a_values a @ [x])
      else \<not> a_alreadySet a \<and> a_alreadySet a')"

definition word_done :: "nat \<Rightarrow> nat \<Rightarrow> string list \<Rightarrow> cmd_line \<Rightarrow> word_result \<Rightarrow> cmd_line \<Rightarrow> bool" where
  "word_done p i args c r c' \<longleftrightarrow>
     (case r of (took, i', args') \<Rightarrow>
        i \<le> i' \<and> length args' = length args \<and>
        (\<exists>a' b. c' = after_word p a' b c \<and> processed (arg_at c p) took a'))"

lemma word_done_same: "p < length (heap c) \<Longrightarrow> word_done p i args c (False, i, args) c"
  unfolding word_done_def after_word_def processed_def arg_at_def
  by (auto intro!: exI [of _ "heap c ! p"] exI [of _ "ignoreRest c"])

lemma visit_returns: "visit v c = (Inr u, c') \<Longrightarrow> \<exists>b. c' = c\<lparr>ignoreRest := b\<rparr>"
  by (cases v) (auto simp: visit_defs act_simps split: prod.splits sum.splits)

lemma checkWithVisitor_returns: "checkWithVisitor p c = (Inr u, c') \<Longrightarrow> \<exists>b. c' = c\<lparr>ignoreRest := b\<rparr>"
proof (cases "a_visitor (arg_at c p)")
  case None
  assume "checkWithVisitor p c = (Inr u, c')"
  with None have "c' = c\<lparr>ignoreRest := ignoreRest c\<rparr>" by (simp add: checkWithVisitor_def act_simps)
  then show ?thesis ..
next
  case (Some v)
  assume "checkWithVisitor p c = (Inr u, c')"
  with Some show ?thesis by (auto simp: checkWithVisitor_def act_simps dest!: visit_returns)
qed

text \<open>An update of the object followed by the visitor.\<close>

lemma update_and_visit:
  assumes "seq (modify (upd_arg p f)) (seq (checkWithVisitor p) (ret r)) c = (Inr r', c')"
  shows "r' = r \<and> (\<exists>b. c' = after_word p (f (arg_at c p)) b c)"
proof -
  from assms obtain u where "checkWithVisitor p (upd_arg p f c) = (Inr u, c')" and "r' = r"
    by (auto simp: act_simps split: prod.splits sum.splits)
  with checkWithVisitor_returns [of p "upd_arg p f c" u c'] show ?thesis
    by (auto simp: after_word_def upd_arg_def arg_at_def)
qed

lemma commonProcessing_returns:
  assumes "commonProcessing p c = (Inr u, c')"
  shows "\<exists>b. c' = after_word p ((arg_at c p)\<lparr>a_alreadySet := True, a_switch := \<not> a_switch (arg_at c p)\<rparr>) b c"
proof -
  from assms have "seq (modify (upd_arg p (\<lambda>a. a\<lparr>a_alreadySet := True, a_switch := \<not> a_switch a\<rparr>)))
      (seq (checkWithVisitor p) (ret ())) c = (Inr (), c')"
    by (auto simp: commonProcessing_def act_simps split: if_splits prod.splits sum.splits)
  from update_and_visit [OF this] show ?thesis by simp
qed

lemma check_constraint_returns: "check_constraint val a x c = (Inr u, c') \<Longrightarrow> c' = c"
  by (auto simp: check_constraint_def act_simps split: option.splits if_splits)

lemma ValueArg_extractValue_returns:
  assumes "ValueArg_extractValue p val c = (Inr u, c')"
  shows "\<exists>x. c' = upd_arg p (\<lambda>a. a\<lparr>a_value := x\<rparr>) c"
  using assms
  by (auto simp: ValueArg_extractValue_def act_simps Let_def dest!: check_constraint_returns
      split: prod.splits option.splits)

lemma MultiArg_extractValue_returns:
  assumes "MultiArg_extractValue p val c = (Inr u, c')"
  shows "\<exists>x. c' = upd_arg p (\<lambda>a. a\<lparr>a_values := a_values a @ [x]\<rparr>) c"
  using assms
  by (auto simp: MultiArg_extractValue_def act_simps dest!: check_constraint_returns
      split: prod.splits option.splits)

lemma take_value_returns:
  assumes "take_value extract p i args val c = (Inr i', c')"
  shows "i \<le> i' \<and> (\<exists>v u. extract p v c = (Inr u, c'))"
  using assms by (auto simp: take_value_def act_simps split: if_splits prod.splits sum.splits)

lemma upd_upd: "upd_arg p g (upd_arg p f c) = upd_arg p (g \<circ> f) c" if "p < length (heap c)"
  using that by (simp add: upd_arg_def)

lemma after_word_upd: "p < length (heap c) \<Longrightarrow> after_word p (g (arg_at (upd_arg p f c) p)) b (upd_arg p f c)
    = after_word p (g (f (arg_at c p))) b c"
  by (simp add: after_word_def upd_arg_def arg_at_def)


lemma SwitchArg_done:
  assumes "p < length (heap c)" and "a_class (arg_at c p) = SwitchArg"
    and "SwitchArg_processArg p i args c = (Inr r, c')"
  shows "word_done p i args c r c'"
proof -
  have "word_done p i args c (took, i, args') d"
    if "commonProcessing p c = (Inr u, d)" and "length args' = length args" for took u d args'
    using commonProcessing_returns [OF that(1)] that(2) assms(2)
    by (auto simp: word_done_def processed_def is_switch_def)
  then show ?thesis
    using assms
    by (auto simp: SwitchArg_processArg_def act_simps Let_def word_done_same
        split: if_splits prod.splits bool.splits sum.splits)
qed

lemma MultiSwitchArg_done:
  assumes "p < length (heap c)" and "a_class (arg_at c p) = MultiSwitchArg"
    and "MultiSwitchArg_processArg p i args c = (Inr r, c')"
  shows "word_done p i args c r c'"
proof -
  have "word_done p i args c r' d"
    if "seq (modify (upd_arg p (\<lambda>a. a\<lparr>a_alreadySet := True, a_count := g a\<rparr>))) (seq (checkWithVisitor p) (ret (took, i, args'))) c
        = (Inr r', d)"
      and "length args' = length args" for took g d args' r'
    using update_and_visit [OF that(1)] that(2) assms(2)
    by (auto simp: word_done_def processed_def is_switch_def)
  then show ?thesis
    using assms
    by (cases r) (auto simp: MultiSwitchArg_processArg_def gets_apply Let_def word_done_same unwrap_apply bind_apply ret_apply
        split: if_splits prod.splits bool.splits option.splits)
qed

lemma ValueArg_done:
  assumes "p < length (heap c)" and "a_class (arg_at c p) = ValueArg"
    and "ValueArg_processArg p i args c = (Inr r, c')"
  shows "word_done p i args c r c'"
proof -
  have "word_done p i args c r' d"
    if "\<not> a_alreadySet (arg_at c p)" and "take_value ValueArg_extractValue p i args v c = (Inr i', c'')"
      and "seq (modify (upd_arg p (\<lambda>a. a\<lparr>a_alreadySet := True\<rparr>))) (seq (checkWithVisitor p) (ret (True, i', args))) c''
        = (Inr r', d)" for v i' c'' r' d
  proof -
    from take_value_returns [OF that(2)] obtain x where i: "i \<le> i'" and c'': "c'' = upd_arg p (\<lambda>a. a\<lparr>a_value := x\<rparr>) c"
      by (blast dest: ValueArg_extractValue_returns)
    from update_and_visit [OF that(3)] obtain b where r': "r' = (True, i', args)"
      and d: "d = after_word p ((arg_at c'' p)\<lparr>a_alreadySet := True\<rparr>) b c''"
      by blast
    have "d = after_word p ((arg_at c p)\<lparr>a_value := x, a_alreadySet := True\<rparr>) b c"
      unfolding d c'' using after_word_upd [OF assms(1), of "\<lambda>a. a\<lparr>a_alreadySet := True\<rparr>"] by simp
    with i r' that(1) assms(2) show ?thesis
      by (auto simp: word_done_def processed_def is_switch_def is_multi_def)
  qed
  then show ?thesis
    using assms
    by (auto simp: ValueArg_processArg_def bind_gets Let_def word_done_same ret_apply throw_apply bind_apply [of "take_value _ _ _ _ _"]
        split: if_splits prod.splits sum.splits)
qed

lemma MultiArg_done:
  assumes "p < length (heap c)" and "a_class (arg_at c p) = MultiArg"
    and "MultiArg_processArg p i args c = (Inr r, c')"
  shows "word_done p i args c r c'"
proof -
  have "word_done p i args c r' d"
    if "take_value MultiArg_extractValue p i args v c = (Inr i', c'')"
      and "seq (modify (upd_arg p (\<lambda>a. a\<lparr>a_alreadySet := True\<rparr>))) (seq (checkWithVisitor p) (ret (True, i', args))) c''
        = (Inr r', d)" for v i' c'' r' d
  proof -
    from take_value_returns [OF that(1)] obtain x where i: "i \<le> i'"
      and c'': "c'' = upd_arg p (\<lambda>a. a\<lparr>a_values := a_values a @ [x]\<rparr>) c"
      by (blast dest: MultiArg_extractValue_returns)
    from update_and_visit [OF that(2)] obtain b where r': "r' = (True, i', args)"
      and d: "d = after_word p ((arg_at c'' p)\<lparr>a_alreadySet := True\<rparr>) b c''"
      by blast
    have "d = after_word p ((arg_at c p)\<lparr>a_values := a_values (arg_at c p) @ [x], a_alreadySet := True\<rparr>) b c"
      unfolding d c'' using after_word_upd [OF assms(1), of "\<lambda>a. a\<lparr>a_alreadySet := True\<rparr>"] by simp
    with i r' assms(2) show ?thesis
      by (auto simp: word_done_def processed_def is_switch_def is_multi_def)
  qed
  then show ?thesis
    using assms
    by (auto simp: MultiArg_processArg_def bind_gets Let_def word_done_same ret_apply throw_apply bind_apply [of "take_value _ _ _ _ _"]
        split: if_splits prod.splits sum.splits)
qed

lemma UnlabeledValueArg_done:
  assumes "p < length (heap c)" and "a_class (arg_at c p) = UnlabeledValueArg"
    and "UnlabeledValueArg_processArg p i args c = (Inr r, c')"
  shows "word_done p i args c r c'"
proof -
  have "word_done p i args c (True, i, args) (upd_arg p (\<lambda>a. a\<lparr>a_alreadySet := True\<rparr>) d)"
    if "\<not> a_alreadySet (arg_at c p)" and "ValueArg_extractValue p v c = (Inr u, d)" for v u d
  proof -
    from ValueArg_extractValue_returns [OF that(2)] obtain x where d: "d = upd_arg p (\<lambda>a. a\<lparr>a_value := x\<rparr>) c" ..
    have "upd_arg p (\<lambda>a. a\<lparr>a_alreadySet := True\<rparr>) d
        = after_word p ((arg_at c p)\<lparr>a_value := x, a_alreadySet := True\<rparr>) (ignoreRest c) c"
      using assms(1) by (simp add: d upd_arg_def after_word_def arg_at_def)
    with that(1) assms(2) show ?thesis
      by (fastforce simp: word_done_def processed_def is_switch_def is_multi_def)
  qed
  then show ?thesis
    using assms
    by (auto simp: UnlabeledValueArg_processArg_def act_simps Let_def word_done_same
        split: if_splits prod.splits sum.splits)
qed

lemma UnlabeledMultiArg_done:
  assumes "p < length (heap c)" and "a_class (arg_at c p) = UnlabeledMultiArg"
    and "UnlabeledMultiArg_processArg p i args c = (Inr r, c')"
  shows "word_done p i args c r c'"
proof -
  have "word_done p i args c (True, i, args) (upd_arg p (\<lambda>a. a\<lparr>a_alreadySet := True\<rparr>) d)"
    if "MultiArg_extractValue p v c = (Inr u, d)" for v u d
  proof -
    from MultiArg_extractValue_returns [OF that] obtain x
      where d: "d = upd_arg p (\<lambda>a. a\<lparr>a_values := a_values a @ [x]\<rparr>) c" ..
    have "upd_arg p (\<lambda>a. a\<lparr>a_alreadySet := True\<rparr>) d
        = after_word p ((arg_at c p)\<lparr>a_values := a_values (arg_at c p) @ [x], a_alreadySet := True\<rparr>) (ignoreRest c) c"
      using assms(1) by (simp add: d upd_arg_def after_word_def arg_at_def)
    with assms(2) show ?thesis
      by (fastforce simp: word_done_def processed_def is_switch_def is_multi_def)
  qed
  then show ?thesis
    using assms
    by (auto simp: UnlabeledMultiArg_processArg_def act_simps Let_def word_done_same
        split: if_splits prod.splits sum.splits)
qed

lemma processArg_done:
  assumes "p < length (heap c)" and "processArg p i args c = (Inr r, c')"
  shows "word_done p i args c r c'"
  using assms
  by (cases "a_class (arg_at c p)")
    (simp_all add: processArg_def bind_gets SwitchArg_done MultiSwitchArg_done ValueArg_done MultiArg_done
      UnlabeledValueArg_done UnlabeledMultiArg_done)


section \<open>What parsing leaves alone\<close>

text \<open>The declarations: which arguments there are and how the command line is set up.\<close>

definition declared :: "cmd_line \<Rightarrow> nat list \<times> int \<times> nat list list \<times> bool \<times> nat" where
  "declared c = (cl_argList c, cl_numRequired c, cl_orList c, cl_handleExceptions c, length (heap c))"

abbreviation fixed :: "nat list \<times> int \<times> nat list list \<times> bool \<times> nat \<Rightarrow> cmd_line \<Rightarrow> bool" where
  "fixed d c \<equiv> declared c = d"

named_theorems fixed_rules \<open>the actions that keep the declarations\<close>

declare keeps_rules [fixed_rules]

lemma fixed_cases [fixed_rules]:
  "(\<And>a b. keeps I (f a b)) \<Longrightarrow> keeps I (case x of (a, b) \<Rightarrow> f a b)"
  "keeps I m \<Longrightarrow> keeps I n \<Longrightarrow> keeps I (case t of True \<Rightarrow> m | False \<Rightarrow> n)"
  "keeps I (g y) \<Longrightarrow> keeps I (let a = y in g a)"
  by (simp_all split: prod.split bool.split)

lemma fixed_update [fixed_rules]:
  "keeps (fixed d) (modify (upd_arg p f))" "keeps (fixed d) (modify (\<lambda>c. c\<lparr>ignoreRest := b\<rparr>))"
  "keeps (fixed d) (modify (\<lambda>c. c\<lparr>cl_progName := t\<rparr>))"
  by (simp_all add: keeps_def modify_apply upd_arg_def declared_def)

lemma fixed_put [fixed_rules]: "keeps (fixed d) (os_put os t)"
  by (simp add: keeps_def os_put_def modify_apply declared_def split: ostream.split)

lemma fixed_print [fixed_rules]: "keeps (fixed d) (spacePrint os t w i off)"
  unfolding spacePrint_def by (intro fixed_rules)

lemma fixed_usage [fixed_rules]: "keeps (fixed d) usage" "keeps (fixed d) (shortUsage os)"
proof -
  have alt: "keeps (fixed d) (long_alternatives os c ps)" for os c ps
    by (induction ps) (auto simp: long_entry_def keeps_skip intro!: fixed_rules)
  have "keeps (fixed d) (longUsage os)" for os
    unfolding longUsage_def long_entry_def by (intro fixed_rules alt)
  moreover show short: "keeps (fixed d) (shortUsage os)" for os
    unfolding shortUsage_def by (intro fixed_rules)
  ultimately show "keeps (fixed d) usage"
    unfolding usage_def by (intro fixed_rules)
qed

lemma fixed_visit [fixed_rules]: "keeps (fixed d) (checkWithVisitor p)"
  unfolding checkWithVisitor_def visit_defs print_version_def
  by (intro fixed_rules) (auto split: visitor.split intro!: fixed_rules)

lemma fixed_extract [fixed_rules]:
  "keeps (fixed d) (ValueArg_extractValue p v)" "keeps (fixed d) (MultiArg_extractValue p v)"
  unfolding ValueArg_extractValue_def MultiArg_extractValue_def check_constraint_def
  by (intro fixed_rules)+

lemma fixed_take_value [fixed_rules]:
  "(\<And>p v. keeps (fixed d) (extract p v)) \<Longrightarrow> keeps (fixed d) (take_value extract p i args v)"
  unfolding take_value_def by (intro fixed_rules)

lemma fixed_processArg [fixed_rules]: "keeps (fixed d) (processArg p i args)"
proof -
  have "keeps (fixed d) (SwitchArg_processArg p i args)"
    unfolding SwitchArg_processArg_def commonProcessing_def by (intro fixed_rules)
  moreover have "keeps (fixed d) (MultiSwitchArg_processArg p i args)"
    unfolding MultiSwitchArg_processArg_def by (intro fixed_rules)
  moreover have "keeps (fixed d) (ValueArg_processArg p i args)"
    unfolding ValueArg_processArg_def by (intro fixed_rules)
  moreover have "keeps (fixed d) (MultiArg_processArg p i args)"
    unfolding MultiArg_processArg_def by (intro fixed_rules)
  moreover have "keeps (fixed d) (UnlabeledValueArg_processArg p i args)"
    unfolding UnlabeledValueArg_processArg_def by (intro fixed_rules)
  moreover have "keeps (fixed d) (UnlabeledMultiArg_processArg p i args)"
    unfolding UnlabeledMultiArg_processArg_def by (intro fixed_rules)
  ultimately show ?thesis
    unfolding processArg_def by (intro fixed_rules) (simp split: arg_class.split)
qed

lemma fixed_xor_check [fixed_rules]: "keeps (fixed d) (xor_check p)"
  unfolding xor_check_def by (intro fixed_rules)

lemma fixed_try_args [fixed_rules]: "keeps (fixed d) (try_args ps i args)"
  by (induction ps arbitrary: i args) (auto simp: keeps_ret intro!: fixed_rules)

lemma fixed_parse_word [fixed_rules]: "keeps (fixed d) (parse_word i args)"
  unfolding parse_word_def by (intro fixed_rules)

lemma fixed_parse_loop [fixed_rules]: "keeps (fixed d) (parse_loop fuel i args n)"
proof (induction fuel arbitrary: i args n)
  case 0
  show ?case by (subst parse_loop.simps) (auto intro!: fixed_rules)
next
  case (Suc fuel)
  show ?case by (subst parse_loop.simps) (auto intro!: fixed_rules Suc)
qed

lemma fixed_parse_body: "keeps (fixed d) (parse_body args)"
  unfolding parse_body_def missingArgsException_def by (intro fixed_rules)

text \<open>Every pointer in the list of arguments points to an object.\<close>

definition pointers_ok :: "cmd_line \<Rightarrow> bool" where
  "pointers_ok c \<longleftrightarrow> (\<forall>p\<in>set (cl_argList c). p < length (heap c))"

lemma pointers_declared: "declared c' = declared c \<Longrightarrow> pointers_ok c' = pointers_ok c"
  by (simp add: pointers_ok_def declared_def)

section \<open>The loop over the words\<close>

text \<open>\<open>raises P m\<close>: an exception the action ends with has the property \<open>P\<close>.\<close>

definition raises :: "(exn \<Rightarrow> bool) \<Rightarrow> ('s, 'a) act \<Rightarrow> bool" where
  "raises P m \<longleftrightarrow> (\<forall>s e. fst (m s) = Inl e \<longrightarrow> P e)"

named_theorems raises_rules \<open>one rule per control structure\<close>

lemma raises_atom [raises_rules]:
  "raises P (ret a)" "raises P (gets f)" "raises P (modify g)" "raises P skip"
  by (simp_all add: raises_def act_simps)

lemma raises_throw [raises_rules]: "P e \<Longrightarrow> raises P (throw e)"
  by (simp add: raises_def act_simps)

lemma raises_unwrap [raises_rules]: "P e \<Longrightarrow> raises P (unwrap e x)"
  by (cases x) (simp_all add: raises_def act_simps)

lemma raises_bind [raises_rules]: "raises P m \<Longrightarrow> (\<And>a. raises P (f a)) \<Longrightarrow> raises P (bind m f)"
  by (auto simp: raises_def bind_apply split: prod.splits sum.splits) (metis fst_conv)

lemma raises_seq [raises_rules]: "raises P m \<Longrightarrow> raises P n \<Longrightarrow> raises P (seq m n)"
  by (simp add: seq_def raises_bind)

lemma raises_if [raises_rules]: "raises P m \<Longrightarrow> raises P n \<Longrightarrow> raises P (if b then m else n)"
  by simp

lemma raises_do_if [raises_rules]: "raises P m \<Longrightarrow> raises P (do_if b m)"
  by (simp add: do_if_def raises_atom)

lemma raises_for_each [raises_rules]: "(\<And>x. raises P (f x)) \<Longrightarrow> raises P (for_each xs f)"
  by (induction xs) (simp_all add: raises_atom raises_seq)

lemma raises_option [raises_rules]:
  "raises P m \<Longrightarrow> (\<And>a. raises P (f a)) \<Longrightarrow> raises P (case x of None \<Rightarrow> m | Some a \<Rightarrow> f a)"
  by (cases x) simp_all

lemma raises_prod [raises_rules]: "(\<And>a b. raises P (f a b)) \<Longrightarrow> raises P (case x of (a, b) \<Rightarrow> f a b)"
  by (cases x) simp

lemma raises_bool [raises_rules]: "raises P m \<Longrightarrow> raises P n \<Longrightarrow> raises P (case b of True \<Rightarrow> m | False \<Rightarrow> n)"
  by (cases b) simp_all

lemma raises_let [raises_rules]: "raises P (f x) \<Longrightarrow> raises P (let a = x in f a)"
  by simp

lemma raises_catch: "raises P m \<Longrightarrow> (\<And>x. raises P (h x)) \<Longrightarrow> raises P (try_catch C m h)"
  by (auto simp: raises_def try_catch_def split: prod.splits sum.splits) (metis fst_conv)+

text \<open>How processing a word may end: an exception of the parser, the exit that help and version ask for, or a fault.\<close>

fun parse_exn :: "exn \<Rightarrow> bool" where
  "parse_exn (ArgException _ _ _) = True"
| "parse_exn (ExitException n) = (n = 0)"
| "parse_exn (UB m) = (m = ''uninitialised tmp'' \<or> m = ''no room in spacePrint'')"
| "parse_exn (Abort m) = (m = ''endless loop'')"
| "parse_exn _ = False"

lemma output_raises [raises_rules]:
  "raises parse_exn (os_put os t)" "raises parse_exn (spacePrint os t w i off)"
  by (simp_all add: os_put_def spacePrint_def raises_rules)

lemma usage_raises [raises_rules]: "raises parse_exn usage" "raises parse_exn (shortUsage os)"
proof -
  have alt: "raises parse_exn (long_alternatives os c ps)" for os c ps
    by (induction ps) (simp_all add: long_entry_def raises_rules)
  have "raises parse_exn (longUsage os)" for os
    unfolding longUsage_def long_entry_def by (intro raises_rules alt)
  moreover show short: "raises parse_exn (shortUsage os)" for os
    unfolding shortUsage_def by (intro raises_rules)
  ultimately show "raises parse_exn usage"
    unfolding usage_def by (intro raises_rules)
qed

lemma visit_raises [raises_rules]: "raises parse_exn (checkWithVisitor p)"
  unfolding checkWithVisitor_def
  by (intro raises_rules) (simp add: visit_defs print_version_def raises_rules split: visitor.split)

lemma extract_raises [raises_rules]:
  "raises parse_exn (ValueArg_extractValue p v)" "raises parse_exn (MultiArg_extractValue p v)"
  unfolding ValueArg_extractValue_def MultiArg_extractValue_def check_constraint_def tclap_exceptions
  by (intro raises_rules; simp)+

lemma take_value_raises [raises_rules]:
  "(\<And>p v. raises parse_exn (extract p v)) \<Longrightarrow> raises parse_exn (take_value extract p i args v)"
  unfolding take_value_def tclap_exceptions by (intro raises_rules; simp)

lemma processArg_raises [raises_rules]: "raises parse_exn (processArg p i args)"
proof -
  have "raises parse_exn (SwitchArg_processArg p i args)"
    unfolding SwitchArg_processArg_def commonProcessing_def tclap_exceptions by (intro raises_rules; simp)
  moreover have "raises parse_exn (MultiSwitchArg_processArg p i args)"
    unfolding MultiSwitchArg_processArg_def by (intro raises_rules; simp)
  moreover have "raises parse_exn (ValueArg_processArg p i args)"
    unfolding ValueArg_processArg_def tclap_exceptions by (intro raises_rules; simp)
  moreover have "raises parse_exn (MultiArg_processArg p i args)"
    unfolding MultiArg_processArg_def tclap_exceptions by (intro raises_rules; simp)
  moreover have "raises parse_exn (UnlabeledValueArg_processArg p i args)"
    unfolding UnlabeledValueArg_processArg_def by (intro raises_rules)
  moreover have "raises parse_exn (UnlabeledMultiArg_processArg p i args)"
    unfolding UnlabeledMultiArg_processArg_def by (intro raises_rules)
  ultimately show ?thesis
    unfolding processArg_def by (intro raises_rules) (simp split: arg_class.split)
qed

lemma xor_check_raises [raises_rules]: "raises parse_exn (xor_check p)"
  unfolding xor_check_def tclap_exceptions by (intro raises_rules; simp)

lemma parse_word_raises: "raises parse_exn (parse_word i args)"
proof -
  have "raises parse_exn (try_args ps i args)" for ps i args
    by (induction ps arbitrary: i args) (auto simp: raises_atom intro!: raises_rules)
  then show ?thesis
    unfolding parse_word_def tclap_exceptions by (intro raises_rules; simp)
qed


lemma word_done_frame:
  "word_done p i args c (took, i', args') c' \<Longrightarrow> i \<le> i' \<and> length args' = length args"
  by (auto simp: word_done_def)

lemma try_args_frame:
  assumes "try_args ps i args c = (Inr (r, i', args'), c')" and "\<forall>p\<in>set ps. p < length (heap c)"
  shows "i \<le> i' \<and> length args' = length args"
  using assms
proof (induction ps arbitrary: i args c)
  case Nil
  then show ?case by (simp add: ret_apply)
next
  case (Cons p ps)
  from Cons.prems(1) obtain took i1 args1 c1 where word: "processArg p i args c = (Inr (took, i1, args1), c1)"
    and rest: "(if took then bind (xor_check p) (\<lambda>n. ret (Some n, i1, args1)) else try_args ps i1 args1) c1 = (Inr (r, i', args'), c')"
    by (auto simp: bind_apply split: prod.splits sum.splits)
  have step: "i \<le> i1 \<and> length args1 = length args"
    using word_done_frame [OF processArg_done [OF _ word]] Cons.prems(2) by simp
  have "length (heap c1) = length (heap c)"
    using keepsD [OF fixed_processArg refl, of p i args c] word by (simp add: declared_def)
  then have tl: "\<forall>p\<in>set ps. p < length (heap c1)" using Cons.prems(2) by simp
  show ?case
  proof (cases took)
    case True
    with rest have "bind (xor_check p) (\<lambda>n. ret (Some n, i1, args1)) c1 = (Inr (r, i', args'), c')" by simp
    then have "i' = i1 \<and> args' = args1"
      by (cases "xor_check p c1") (auto simp: bind_def ret_def split: sum.splits)
    with step show ?thesis by simp
  next
    case False
    with rest have "try_args ps i1 args1 c1 = (Inr (r, i', args'), c')" by simp
    from Cons.IH [OF this tl] step show ?thesis by simp
  qed
qed

lemma parse_word_frame:
  assumes "parse_word i args c = (Inr (n, i', args'), c')" and "pointers_ok c"
  shows "i \<le> i' \<and> length args' = length args \<and> pointers_ok c'"
proof -
  from assms(1) obtain r c1 where "try_args (cl_argList c) i args c = (Inr (r, i', args'), c1)"
    by (auto simp: parse_word_def act_simps split: prod.splits sum.splits option.splits if_splits)
  with try_args_frame [of "cl_argList c" i args c r i' args' c1] assms(2)
  have "i \<le> i' \<and> length args' = length args" by (simp add: pointers_ok_def)
  moreover have "declared c' = declared c"
    using keepsD [OF fixed_parse_word refl, of i args c] assms(1) by simp
  ultimately show ?thesis
    using assms(2) pointers_declared [of c' c] by simp
qed

lemma parse_loop_raises:
  assumes "length args - i \<le> fuel" and "pointers_ok c" and "parse_loop fuel i args n c = (Inl e, c')"
  shows "parse_exn e"
  using assms
proof (induction fuel arbitrary: i args n c)
  case 0
  then show ?case by (subst (asm) parse_loop.simps) (simp add: ret_apply)
next
  case (Suc fuel)
  show ?case
  proof (cases "length args \<le> i")
    case True
    with Suc.prems(3) show ?thesis by (subst (asm) parse_loop.simps) (simp add: ret_apply)
  next
    case False
    with Suc.prems(3) have run: "bind (parse_word i args) (\<lambda>(k, i, args). parse_loop fuel (Suc i) args (n + k)) c = (Inl e, c')"
      by (subst (asm) parse_loop.simps) simp
    show ?thesis
    proof (cases "parse_word i args c")
      case (Pair r c1)
      show ?thesis
      proof (cases r)
        case (Inl e')
        with run Pair have "e' = e" by (simp add: bind_apply)
        with parse_word_raises [of i args] Pair Inl show ?thesis by (auto simp: raises_def dest: spec [of _ c])
      next
        case (Inr x)
        then obtain k i1 args1 where x: "r = Inr (k, i1, args1)" by (cases x) auto
        with parse_word_frame [of i args c k i1 args1 c1] Pair Suc.prems(2)
        have f: "i \<le> i1" "length args1 = length args" "pointers_ok c1" by simp_all
        from run Pair x have "parse_loop fuel (Suc i1) args1 (n + k) c1 = (Inl e, c')" by (simp add: bind_apply)
        with Suc.IH [of args1 "Suc i1" c1 "n + k"] Suc.prems(1) f show ?thesis by simp
      qed
    qed
  qed
qed

lemma missingArgs_raises [raises_rules]: "raises parse_exn missingArgsException"
  unfolding missingArgsException_def tclap_exceptions by (intro raises_rules; simp)

lemma parse_body_raises:
  assumes "pointers_ok c" and "args \<noteq> []" and "parse_body args c = (Inl e, c')"
  shows "parse_exn e"
proof -
  let ?c = "c\<lparr>cl_progName := hd args\<rparr>"
  let ?tail = "\<lambda>requiredCount. bind (gets cl_numRequired) (\<lambda>numRequired.
    if requiredCount < numRequired then missingArgsException
    else if numRequired < requiredCount then throw (CmdLineParseException ''Too many arguments!'' undefined_id)
    else skip)"
  have tail: "raises parse_exn (?tail n)" for n
    unfolding tclap_exceptions by (intro raises_rules; simp)
  have run: "bind (parse_loop (length (tl args)) 0 (tl args) 0) ?tail ?c = (Inl e, c')"
    using assms(2,3) by (simp add: parse_body_def seq_modify)
  show ?thesis
  proof (cases "parse_loop (length (tl args)) 0 (tl args) 0 ?c")
    case (Pair r c1)
    show ?thesis
    proof (cases r)
      case (Inl e')
      with Pair run have "parse_loop (length (tl args)) 0 (tl args) 0 ?c = (Inl e, c')" by (simp add: bind_Inl)
      then show ?thesis
        using assms(1) by (intro parse_loop_raises [of "tl args" 0]) (simp_all add: pointers_ok_def)
    next
      case (Inr n)
      with Pair run have "?tail n c1 = (Inl e, c')" by (simp only: bind_Inr)
      then have "fst (?tail n c1) = Inl e" by (simp only: fst_conv)
      with tail [of n] show ?thesis unfolding raises_def by blast
    qed
  qed
qed

lemma failure_raises: "raises (\<lambda>x. x = ExitException 1 \<or> x = UB ''no room in spacePrint'') (failure e)"
  unfolding failure_def usage_def shortUsage_def longUsage_def long_entry_def spacePrint_def os_put_def
proof (intro raises_rules; simp?)
  fix c :: cmd_line and ps
  show "raises (\<lambda>x. x = ExitException 1 \<or> x = UB ''no room in spacePrint'') (long_alternatives Cout c ps)"
    by (induction ps) (auto simp: long_entry_def spacePrint_def os_put_def intro!: raises_rules)
qed

lemma failure_no_return: "failure e c \<noteq> (Inr u, c')"
  unfolding failure_def by (auto simp: bind_apply seq_apply gets_apply throw_apply split: prod.splits sum.splits)

section \<open>How parsing ends\<close>

lemma failure_outcome:
  "\<exists>x d'. failure e d = (Inl x, d') \<and> (x = ExitException 1 \<or> x = UB ''no room in spacePrint'')"
proof (cases "failure e d")
  case (Pair r d')
  with failure_no_return [of e d] obtain x where r: "r = Inl x" by (cases r) auto
  with Pair have "fst (failure e d) = Inl x" by simp
  with failure_raises [of e] have "x = ExitException 1 \<or> x = UB ''no room in spacePrint''"
    unfolding raises_def by blast
  with Pair r show ?thesis by blast
qed

lemma handler_no_return:
  "try_catch is_exit_exception (if is_arg_exception e then failure e else throw e)
     (\<lambda>ee. case ee of ExitException estat \<Rightarrow> throw (Exit estat) | _ \<Rightarrow> skip) c \<noteq> (Inr u, c')"
proof -
  have "throw (Exit n) d \<noteq> (Inr u, c')" for n d by (simp add: throw_apply)
  then show ?thesis
    using failure_no_return [of e c]
    by (auto simp: try_catch_def throw_apply split: prod.splits sum.splits if_splits exn.splits)
qed

lemma cl_parse_returns:
  assumes "cl_parse args c = (Inr (), c')"
  shows "parse_body args c = (Inr (), c')"
proof (cases "parse_body args c")
  case (Pair r d)
  show ?thesis
  proof (cases r)
    case (Inl e)
    with Pair assms handler_no_return [of e d] show ?thesis
      by (auto simp: cl_parse_def try_catch_def [of "\<lambda>e. is_arg_exception e \<or> is_exit_exception e"] bind_gets throw_apply
          split: if_splits)
  next
    case (Inr u)
    with Pair assms show ?thesis
      by (simp add: cl_parse_def try_catch_def [of "\<lambda>e. is_arg_exception e \<or> is_exit_exception e"])
  qed
qed

lemma cl_parse_throws:
  assumes "pointers_ok c" and "args \<noteq> []" and "cl_handleExceptions c" and "cl_parse args c = (Inl e, c')"
  shows "e = Exit 0 \<or> e = Exit 1 \<or>
    e \<in> {UB ''uninitialised tmp'', UB ''no room in spacePrint'', Abort ''endless loop''}"
proof (cases "parse_body args c")
  case (Pair r d)
  have handle: "cl_handleExceptions d"
    using keepsD [OF fixed_parse_body refl, of args c] Pair assms(3) by (simp add: declared_def)
  show ?thesis
  proof (cases r)
    case (Inr u)
    with Pair assms(4) show ?thesis
      by (simp add: cl_parse_def try_catch_def [of "\<lambda>e. is_arg_exception e \<or> is_exit_exception e"])
  next
    case (Inl e')
    with Pair parse_body_raises [OF assms(1,2)] have body: "parse_exn e'" by simp
    from failure_outcome [of e' d] obtain x d' where fail: "failure e' d = (Inl x, d')"
      and x: "x = ExitException 1 \<or> x = UB ''no room in spacePrint''" by blast
    from assms(4) Pair Inl handle body fail x show ?thesis
      by (cases e') (auto simp: cl_parse_def try_catch_def bind_gets throw_apply)
  qed
qed

section \<open>Counting the required arguments\<close>

definition arg_ok :: "arg \<Rightarrow> bool" where
  "arg_ok a \<longleftrightarrow> \<not> a_xorSet a \<and> (is_switch a \<longrightarrow> \<not> a_required a) \<and>
     (is_multi a \<longrightarrow> (a_alreadySet a \<longleftrightarrow> a_values a \<noteq> []))"

definition given :: "cmd_line \<Rightarrow> nat set" where
  "given c = {p \<in> set (cl_argList c). a_required (arg_at c p) \<and> a_alreadySet (arg_at c p)}"

text \<open>The required arguments given so far are as many as have been counted.\<close>

definition tally :: "nat list \<times> int \<times> nat list list \<times> bool \<times> nat \<Rightarrow> (nat \<Rightarrow> bool) \<Rightarrow> int \<Rightarrow> cmd_line \<Rightarrow> bool" where
  "tally d R k c \<longleftrightarrow> declared c = d \<and> pointers_ok c \<and> cl_orList c = [] \<and>
     (\<forall>p\<in>set (cl_argList c). arg_ok (arg_at c p) \<and> a_required (arg_at c p) = R p) \<and>
     k = int (card (given c))"

lemma processed_ok: "arg_ok a \<Longrightarrow> processed a took a' \<Longrightarrow> arg_ok a' \<and> a_required a' = a_required a"
  by (auto simp: arg_ok_def processed_def is_switch_def is_multi_def split: if_splits)

lemma processed_counts:
  assumes "arg_ok a" and "processed a took a'"
  shows "(a_required a' \<and> a_alreadySet a') = (a_required a \<and> a_alreadySet a \<or> took \<and> isRequired a')"
    and "took \<and> isRequired a' \<longrightarrow> \<not> a_alreadySet a"
  using assms
  by (auto simp: arg_ok_def processed_def isRequired_def MultiArg_isRequired_def is_switch_def is_multi_def Suc_le_eq split: if_splits)

lemma word_tally:
  assumes "tally d R k c" and "p \<in> set (cl_argList c)" and "word_done p i args c (took, i', args') c'"
  shows "tally d R (k + (if took \<and> isRequired (arg_at c' p) then 1 else 0)) c'"
proof -
  from assms(3) obtain a b where c': "c' = after_word p a b c" and pr: "processed (arg_at c p) took a"
    by (auto simp: word_done_def)
  have p: "p < length (heap c)" and ok: "arg_ok (arg_at c p)"
    using assms(1,2) by (auto simp: tally_def pointers_ok_def)
  have at: "arg_at c' q = (if q = p then a else arg_at c q)" for q
    using p by (auto simp: c' after_word_def arg_at_def)
  have ls: "cl_argList c' = cl_argList c" by (simp add: c' after_word_def)
  have "given c' = (if took \<and> isRequired a then insert p (given c) else given c)"
    using processed_counts [OF ok pr] processed_ok [OF ok pr] assms(2)
    by (auto simp: given_def at ls split: if_splits)
  moreover have "p \<notin> given c" if "took \<and> isRequired a"
    using processed_counts(2) [OF ok pr] that by (simp add: given_def)
  moreover have "finite (given c)" by (simp add: given_def)
  ultimately have "int (card (given c')) = int (card (given c)) + (if took \<and> isRequired (arg_at c' p) then 1 else 0)"
    by (simp add: at)
  moreover have "declared c' = declared c" "pointers_ok c'" "cl_orList c' = []"
    using assms(1) by (simp_all add: c' after_word_def declared_def pointers_ok_def tally_def)
  moreover have "\<forall>q\<in>set (cl_argList c'). arg_ok (arg_at c' q) \<and> a_required (arg_at c' q) = R q"
    using assms(1) processed_ok [OF ok pr] by (auto simp: tally_def at ls)
  ultimately show ?thesis using assms(1) by (simp add: tally_def)
qed

lemma xor_check_plain: "cl_orList c = [] \<Longrightarrow> xor_check p c = (Inr (if isRequired (arg_at c p) then 1 else 0), c)"
  by (simp add: xor_check_def bind_gets ret_apply)

lemma try_args_tally:
  assumes "try_args ps i args c = (Inr (r, i', args'), c')" and "tally d R k c" and "set ps \<subseteq> set (cl_argList c)"
  shows "tally d R (k + (case r of None \<Rightarrow> 0 | Some n \<Rightarrow> n)) c'"
  using assms
proof (induction ps arbitrary: i args c)
  case Nil
  then show ?case by (auto simp: ret_apply)
next
  case (Cons p ps)
  from Cons.prems(1) obtain took i1 args1 c1 where word: "processArg p i args c = (Inr (took, i1, args1), c1)"
    and rest: "(if took then bind (xor_check p) (\<lambda>n. ret (Some n, i1, args1)) else try_args ps i1 args1) c1 = (Inr (r, i', args'), c')"
    by (auto simp: bind_apply split: prod.splits sum.splits)
  have p: "p < length (heap c)" using Cons.prems(2,3) by (auto simp: tally_def pointers_ok_def)
  have step: "tally d R (k + (if took \<and> isRequired (arg_at c1 p) then 1 else 0)) c1"
    using word_tally [OF Cons.prems(2) _ processArg_done [OF p word]] Cons.prems(3) by simp
  show ?case
  proof (cases took)
    case True
    have "cl_orList c1 = []" using step by (simp add: tally_def)
    with rest True have "r = Some (if isRequired (arg_at c1 p) then 1 else 0) \<and> c' = c1"
      by (auto simp: bind_def ret_def xor_check_plain)
    with step True show ?thesis by auto
  next
    case False
    have "cl_argList c1 = cl_argList c"
      using step Cons.prems(2) by (auto simp: tally_def declared_def)
    with False step rest Cons.IH [of i1 args1 c1] Cons.prems(3) show ?thesis by simp
  qed
qed

lemma parse_word_tally:
  assumes "parse_word i args c = (Inr (n, i', args'), c')" and "tally d R k c"
  shows "tally d R (k + n) c'"
proof -
  from assms(1) obtain r where "try_args (cl_argList c) i args c = (Inr (r, i', args'), c')"
    and "n = (case r of None \<Rightarrow> 0 | Some n \<Rightarrow> n)"
    by (auto simp: parse_word_def act_simps split: prod.splits sum.splits option.splits if_splits)
  with try_args_tally [of "cl_argList c" i args c r i' args' c' d R k] assms(2) show ?thesis by simp
qed

lemma parse_loop_tally:
  assumes "parse_loop fuel i args n c = (Inr m, c')" and "tally d R n c"
  shows "tally d R m c'"
  using assms
proof (induction fuel arbitrary: i args n c)
  case 0
  then show ?case by (subst (asm) parse_loop.simps) (auto simp: ret_apply throw_apply split: if_splits)
next
  case (Suc fuel)
  show ?case
  proof (cases "length args \<le> i")
    case True
    with Suc.prems show ?thesis by (subst (asm) parse_loop.simps) (simp add: ret_apply)
  next
    case False
    with Suc.prems(1) have "bind (parse_word i args) (\<lambda>(k, i, args). parse_loop fuel (Suc i) args (n + k)) c = (Inr m, c')"
      by (subst (asm) parse_loop.simps) simp
    then obtain k i1 args1 c1 where "parse_word i args c = (Inr (k, i1, args1), c1)"
      and "parse_loop fuel (Suc i1) args1 (n + k) c1 = (Inr m, c')"
      by (auto simp: bind_apply split: prod.splits sum.splits)
    with parse_word_tally [of i args c k i1 args1 c1] Suc.IH Suc.prems(2) show ?thesis by blast
  qed
qed

lemma parse_body_tally:
  assumes "parse_body args c = (Inr (), c')" and "tally d R 0 c"
  shows "tally d R (cl_numRequired c) c'"
proof -
  let ?c = "c\<lparr>cl_progName := hd args\<rparr>"
  have "tally d R 0 ?c"
    using assms(2) by (auto simp: tally_def declared_def pointers_ok_def given_def arg_at_def)
  moreover from assms(1) obtain m c1 where loop: "parse_loop (length (tl args)) 0 (tl args) 0 ?c = (Inr m, c1)"
    and "m = cl_numRequired c1" and "c' = c1"
    by (auto simp: parse_body_def act_simps missingArgsException_def Let_def split: if_splits prod.splits sum.splits)
  ultimately have t: "tally d R m c1" using parse_loop_tally by blast
  then have "declared c1 = declared c" using assms(2) by (simp add: tally_def)
  then have "cl_numRequired c1 = cl_numRequired c" by (simp add: declared_def)
  with t \<open>m = cl_numRequired c1\<close> \<open>c' = c1\<close> show ?thesis by simp
qed

section \<open>Combined switches\<close>

lemma blank_out_None: "blank_out f w = None \<longleftrightarrow> f \<notin> set w"
  by (induction w) auto

lemma blank_out_Some: "blank_out f w = Some w' \<Longrightarrow> \<exists>xs ys. w = xs @ f # ys \<and> w' = xs @ blankChar # ys"
proof (induction w arbitrary: w')
  case (Cons c cs)
  show ?case
  proof (cases "c = f")
    case True
    with Cons.prems show ?thesis by (auto intro: exI [of _ "[]"])
  next
    case False
    with Cons.prems obtain v where "blank_out f cs = Some v" "w' = c # v" by auto
    with Cons.IH obtain xs ys where "c # cs = (c # xs) @ f # ys" "w' = (c # xs) @ blankChar # ys" by auto
    then show ?thesis by blast
  qed
qed simp

text \<open>The words that a combined switch can be in: a dash, not two, and no delimiter.\<close>

definition combined_word :: "char \<Rightarrow> string \<Rightarrow> bool" where
  "combined_word delim body \<longleftrightarrow> take 1 body \<noteq> ''-'' \<and> delim \<notin> set body \<and> delim \<noteq> CHR ''-''"

lemma combined_match:
  assumes "combined_word delim body" and "a_flag a = [f]" and "f \<noteq> CHR ''-''"
  shows "combinedSwitchesMatch delim a (CHR ''-'' # body) =
    (case blank_out f body of None \<Rightarrow> (False, CHR ''-'' # body) | Some v \<Rightarrow> (True, CHR ''-'' # v))"
  using assms
  by (cases body) (auto simp: combinedSwitchesMatch_def combined_word_def flagStartString_def nameStartString_def
      split: option.splits)

lemma combined_word_blank:
  assumes "combined_word delim (xs @ f # ys)" and "delim \<noteq> blankChar"
  shows "combined_word delim (xs @ blankChar # ys)"
  using assms by (cases xs) (auto simp: combined_word_def blankChar_def)

lemma count_matches_count:
  assumes "combined_word delim body" and "a_flag a = [f]" and "f \<noteq> CHR ''-''" and "f \<noteq> blankChar" and "delim \<noteq> blankChar"
  shows "\<exists>v. count_matches delim a (CHR ''-'' # body) n = Some (n + int (count_list body f), CHR ''-'' # v) \<and> f \<notin> set v"
  using assms(1)
proof (induction "count_list body f" arbitrary: body n)
  case 0
  then have "f \<notin> set body" by (metis count_list_0_iff)
  moreover have "combinedSwitchesMatch delim a (CHR ''-'' # body) = (False, CHR ''-'' # body)"
    using combined_match [OF 0(2) assms(2,3)] calculation by (simp add: blank_out_None [THEN iffD2])
  ultimately show ?case using 0 by (subst count_matches.simps) simp
next
  case (Suc k)
  then have "f \<in> set body" by (metis count_list_0_iff nat.distinct(1))
  then obtain v where v: "blank_out f body = Some v" by (metis blank_out_None option.exhaust)
  from blank_out_Some [OF v] obtain xs ys where body: "body = xs @ f # ys" "v = xs @ blankChar # ys" by blast
  have "combinedSwitchesMatch delim a (CHR ''-'' # body) = (True, CHR ''-'' # v)"
    using combined_match [OF Suc(3) assms(2,3)] v by simp
  moreover have cnt: "count_list body f = Suc (count_list v f)" using assms(4) by (simp add: body)
  moreover have "combined_word delim v" using Suc(3) assms(5) combined_word_blank by (simp add: body)
  ultimately show ?case
    using Suc(1) [of v "n + 1"] Suc(2) by (subst count_matches.simps) (simp add: ac_simps)
qed

section \<open>Reading a number that was printed\<close>

text \<open>What is stored for a printed number, and whether the stream failed.\<close>

definition read_integer :: "value_type \<Rightarrow> int \<Rightarrow> int \<times> bool" where
  "read_integer t x =
     (case int_range t of
        (lo, hi) \<Rightarrow>
          if lo \<le> x \<and> x \<le> hi then (x, False)
          else if lo = 0 \<and> - hi \<le> x \<and> x < 0 then (x mod (hi + 1), False)
          else (if lo = 0 \<or> 0 < x then hi else lo, True))"

lemma int_range_bounds: "fst (int_range t) \<le> 0" "0 < snd (int_range t)"
  by (cases t; simp add: int_range_def)+

lemma istream_dec: "istream_int t (dec x) = (Some (fst (read_integer t x)), snd (read_integer t x), [])"
proof -
  obtain lo hi where range: "int_range t = (lo, hi)" by fastforce
  then have bounds: "lo \<le> 0" "0 < hi" using int_range_bounds [of t] by simp_all
  have nat: "istream_int t (dec_nat n) = (Some (if int n \<le> hi then int n else hi), hi < int n, [])" for n
  proof -
    obtain c cs where c: "dec_nat n = c # cs" "is_digit c" using dec_nat_Cons by blast
    then have rest: "dropWhile is_digit (c # cs) = []" using dec_nat_digits [of n] by auto
    moreover have "digits_value 0 (c # cs) = n" using c digits_value_dec_nat by metis
    moreover have "dropWhile is_space (c # cs) = c # cs" using is_digit_not_space [OF c(2)] by simp
    ultimately show ?thesis
      using digit_not_sign [OF c(2)] unfolding istream_int_def c(1)
      by (simp del: dropWhile.simps digits_value.simps add: Let_def rest range)
  qed
  have neg: "istream_int t (CHR ''-'' # dec_nat n) =
      (if lo = 0 then if int n \<le> hi then (Some (- int n mod (hi + 1)), False, []) else (Some hi, True, [])
       else if lo \<le> - int n then (Some (- int n), False, []) else (Some lo, True, []))" for n
  proof -
    have rest: "dropWhile is_digit (dec_nat n) = []" using dec_nat_digits [of n] by auto
    moreover have "dropWhile is_space (CHR ''-'' # dec_nat n) = CHR ''-'' # dec_nat n" by (simp add: is_space_def)
    ultimately show ?thesis
      unfolding istream_int_def
      by (simp del: dropWhile.simps add: digits_value_dec_nat Let_def rest range)
  qed
  show ?thesis
    using nat [of "nat x"] neg [of "nat (- x)"] bounds by (auto simp: dec_def read_integer_def range)
qed

definition is_integer_type :: "value_type \<Rightarrow> bool" where
  "is_integer_type t \<longleftrightarrow> t \<in> {T_long, T_int, T_short, T_ulong, T_uint32, T_ushort}"

lemma ExtractValue_integer:
  assumes "is_integer_type t"
  shows "ExtractValue t (dec x) =
    (Some (IntValue (fst (read_integer t x))),
     if snd (read_integer t x) then
       Some (ArgParseException (''Couldn't read argument value from string '' @ [CHR 0x27] @ dec x @ [CHR 0x27]) undefined_id)
     else None)"
  using assms istream_dec [of t x]
  by (auto simp: is_integer_type_def ExtractValue_def extract_loop.simps istream_value_def)

lemma ExtractValue_dec:
  assumes "fst (int_range t) \<le> x" and "x \<le> snd (int_range t)" and "t \<in> {T_long, T_int, T_short, T_ulong, T_uint32, T_ushort}"
  shows "ExtractValue t (dec x) = (Some (IntValue x), None)"
  using assms ExtractValue_integer [of t x]
  by (cases "int_range t") (simp add: is_integer_type_def read_integer_def)

text \<open>
  C36. The value of an argument of an integer type, given in decimal: in range, it is stored as it is. A negative
  number for an unsigned type is accepted and stored modulo the range, as long as its magnitude fits; any other
  number is an \<open>ArgParseException\<close>, after the nearest bound (for a signed type) or the upper bound has been stored.
\<close>

theorem integer_argument:
  assumes "is_integer_type t" and "int_range t = (lo, hi)"
  shows "ExtractValue t (dec x) =
    (if lo \<le> x \<and> x \<le> hi then (Some (IntValue x), None)
     else if lo = 0 \<and> - hi \<le> x \<and> x < 0 then (Some (IntValue (x mod (hi + 1))), None)
     else (Some (IntValue (if lo = 0 \<or> 0 < x then hi else lo)),
       Some (ArgParseException (''Couldn't read argument value from string '' @ [CHR 0x27] @ dec x @ [CHR 0x27]) undefined_id)))"
  using ExtractValue_integer [OF assms(1), of x] by (simp add: read_integer_def assms(2))

theorem integer_argument_witness: "ExtractValue T_uint32 ''-1'' = (Some (IntValue 4294967295), None)"
proof -
  have "dec (- 1) = ''-1''" by code_simp
  then show ?thesis
    using integer_argument [of T_uint32 0 "2 ^ 32 - 1" "- 1"] by (simp add: is_integer_type_def int_range_def)
qed

section \<open>Evaluation\<close>

text \<open>The definitions that the evaluation of a parse unfolds.\<close>

lemmas word_simps = parse_word_def try_args.simps processArg_def SwitchArg_processArg_def ValueArg_processArg_def
  commonProcessing_def checkWithVisitor_def argMatches_def combinedSwitchesMatch_def lastCombined_def
  take_value_def ValueArg_extractValue_def check_constraint_def xor_check_def isRequired_def MultiArg_isRequired_def hasBlanks_def trimFlag_def
  upd_arg_def arg_at_def flagStartString_def nameStartString_def ignoreNameString_def blankChar_def

lemmas create_simps = new_CmdLine_def constructor_def added_def new_obj_def cl_add_def
  new_SwitchArg_def new_ValueArg_def new_Arg_def arg_equal_def Arg_equal_def addToList_def Arg_addToList_def
  parse_argv_def new_ValueArg_in_def new_SwitchArg_in_def SwitchArg_getValue_def ValueArg_getValue_def fresh_process_def

lemmas parse_simps = create_simps act_simps cl_parse_def parse_body_def try_catch_def parse_loop.simps word_simps
  ExtractValue_dec int_range_def Let_def

end
