(* ===== verification/R_Server.thy ===== *)
theory R_Server
  imports Session_Loop Tclap_Laws
begin

text \<open>
  The two processes: the server (\<open>src/RServer.cpp\<close>, \<open>src/RServer-main.cpp\<close>), which accepts clients and
  runs one session process for each, and the start of that process (\<open>RSession::parseArguments\<close>
  and \<open>src/RSession-main.cpp\<close>). They meet in a command line: the server writes it, TCLAP reads it.
\<close>

section \<open>System calls\<close>

text \<open>
  The calls that only this part of the program makes. \<open>host_readlink\<close> is the target of
  \<open>/proc/self/exe\<close>; \<open>host_execve\<close> answers whether the process was replaced;
  \<open>host_default_env\<close> is \<open>setenv\<close> without overwriting.
\<close>

record 'w host =
  host_readlink :: "'w \<Rightarrow> string option"
  host_socket :: "'w \<Rightarrow> int \<times> 'w"
  host_nonblocking :: "int \<Rightarrow> 'w \<Rightarrow> 'w"
  host_reuseaddr :: "int \<Rightarrow> 'w \<Rightarrow> 'w"
  host_bind :: "int \<Rightarrow> int \<Rightarrow> 'w \<Rightarrow> int \<times> 'w"
  host_listen :: "int \<Rightarrow> int \<Rightarrow> 'w \<Rightarrow> int \<times> 'w"
  host_event_new :: "int \<Rightarrow> 'w \<Rightarrow> bool \<times> 'w"
  host_accept :: "int \<Rightarrow> 'w \<Rightarrow> int \<times> 'w"
  host_fork :: "'w \<Rightarrow> int \<times> 'w"
  host_execve :: "string \<Rightarrow> string list \<Rightarrow> 'w \<Rightarrow> bool \<times> 'w"
  host_close :: "int \<Rightarrow> 'w \<Rightarrow> 'w"
  host_default_env :: "string \<Rightarrow> string \<Rightarrow> 'w \<Rightarrow> 'w"

section \<open>Paths\<close>

text \<open>
  \<open>readlink\<close> returns \<open>-1\<close> when it fails, which as \<open>size_t\<close> is never negative: the terminating null
  is then written before the buffer.
\<close>

definition GetPathForExecutable :: "'w host \<Rightarrow> (('w, 'z) hw_scheme, string) act" where
  "GetPathForExecutable host =
     bind (os_read (host_readlink host)) (\<lambda>len.
     case len of
       None \<Rightarrow> throw (UB ''buff[-1]'')
     | Some buff \<Rightarrow> ret (c_str (take 1023 buff)))"

definition PrivatePackagePath :: "'w sys \<Rightarrow> 'w host \<Rightarrow> (('w, 'z) hw_scheme, string) act" where
  "PrivatePackagePath sys host =
     bind (GetPathForExecutable host) (\<lambda>installLoc.
     let pkgPath = substr_to installLoc (rfind CHR ''/'' installLoc) @ ''/pkgs/'' in
     bind (fs_read (sys_is_directory sys pkgPath)) (\<lambda>there.
     if there then ret pkgPath
     else
       let localpath = path_append sys (path_parent sys installLoc) ''R'' in
       bind (fs_read (sys_is_directory sys localpath)) (\<lambda>islocal.
       ret (if islocal then localpath else pkgPath))))"

section \<open>The command line of a session\<close>

fun the_int :: "arg_value \<Rightarrow> int" where
  "the_int (IntValue n) = n"
| "the_int (StringValue _) = 0"

definition session_cmd_line :: "(cmd_line, nat \<times> nat) act" where
  "session_cmd_line =
     seq (new_CmdLine ''Handle a remote R connection'' CHR '' '' ''0.1'' True)
     (bind (new_ValueArg_in T_int ''s'' ''socket'' ''socket to listen on'' True (IntValue (-1)) ''socketnum'' None) (\<lambda>portArg.
      bind (new_SwitchArg_in ''v'' ''verbose'' ''enable logging'' False None) (\<lambda>switchArg.
      ret (portArg, switchArg))))"

text \<open>Parsing, and the values of the two arguments.\<close>

definition parsed :: "(cmd_line, nat \<times> nat) act \<Rightarrow> string list \<Rightarrow> (cmd_line, int \<times> bool) act" where
  "parsed cmdLine argv =
     bind cmdLine (\<lambda>(portArg, switchArg).
     seq (parse_argv (length argv) argv)
     (bind (ValueArg_getValue portArg) (\<lambda>port.
      bind (SwitchArg_getValue switchArg) (\<lambda>verbose.
      ret (the_int port, verbose)))))"

text \<open>
  The command line is a local object and the first of the process. A fatal log message, which the
  handler writes, ends the process.
\<close>

definition parseArguments :: "'w env \<Rightarrow> string list \<Rightarrow> (('w, 'z) session_scheme, bool) act" where
  "parseArguments env argv =
     (case fst (parsed session_cmd_line argv fresh_process) of
        Inr (socket, verbose) \<Rightarrow>
          seq (modify (\<lambda>s. s\<lparr>rs_socket := socket\<rparr>))
          (seq (do_if verbose (os_upd (sys_setenv (env_sys env) ''GLOG_minloglevel'' ''1'')))
          (ret True))
      | Inl e \<Rightarrow> if is_arg_exception e then throw (Abort ''fatal log message'') else throw e)"

text \<open>
  \<open>main\<close> of the session process, up to the event loop: R's home directory, the session, its
  arguments, the event base. \<open>junk\<close> and \<open>bev\<close> are as for \<open>new_RSession\<close> and \<open>prepareForRunLoop\<close>.
\<close>

definition session_main ::
    "'w env \<Rightarrow> 'w host \<Rightarrow> 32 word \<Rightarrow> bool \<Rightarrow> string list \<Rightarrow> 'w \<Rightarrow> (exn + unit) \<times> 'w session" where
  "session_main env host junk bev argv w =
     bind (fs_read (sys_exists (env_sys env) ''/usr/lib/R'')) (\<lambda>there.
     seq (os_upd (host_default_env host ''R_HOME'' (if there then ''/usr/lib/R'' else ''/usr/local/lib/R'')))
     (seq (os_upd (host_default_env host ''R_HOME'' ''/usr/local/lib/R''))
     (seq (parseArguments env argv)
     (prepareForRunLoop bev))))
     (new_RSession w junk)"

section \<open>The server\<close>

text \<open>\<open>sv_listener\<close> is the socket whose event is registered; \<open>_verbose\<close> is not initialised.\<close>

record 'w server = "'w hw" +
  sv_verbose :: bool
  sv_port :: int
  sv_listener :: "int option"
  sv_loopexit :: bool

text \<open>The event for \<open>SIGINT\<close> is created, but never added to the event base.\<close>

definition new_RServer :: "'w \<Rightarrow> bool \<Rightarrow> 'w server" where
  "new_RServer w junk = \<lparr>world = w, sv_verbose = junk, sv_port = 7714, sv_listener = None, sv_loopexit = False\<rparr>"

definition server_cmd_line :: "(cmd_line, nat \<times> nat) act" where
  "server_cmd_line =
     seq (new_CmdLine ''Listen for rcompute connections'' CHR '' '' ''0.1'' True)
     (bind (new_ValueArg_in T_uint32 ''p'' ''port'' ''port to listen on'' False (IntValue 7714) ''port'' None) (\<lambda>portArg.
      bind (new_SwitchArg_in ''v'' ''verbose'' ''enable logging'' False None) (\<lambda>switchArg.
      ret (portArg, switchArg))))"

definition parseArgs :: "string list \<Rightarrow> (('w, 'z) server_scheme, bool) act" where
  "parseArgs argv =
     (case fst (parsed server_cmd_line argv fresh_process) of
        Inr (port, verbose) \<Rightarrow> seq (modify (\<lambda>s. s\<lparr>sv_port := port, sv_verbose := verbose\<rparr>)) (ret True)
      | Inl e \<Rightarrow> if is_arg_exception e then ret True else throw e)"

definition to_uint16 :: "int \<Rightarrow> int" where
  "to_uint16 x = take_bit 16 x"

text \<open>
  The preparation in \<open>startRunLoop\<close>; \<open>sin_port\<close> has sixteen bits. The dispatch that follows calls
  \<open>handleEvent\<close> for each connection.
\<close>

definition startRunLoop :: "'w host \<Rightarrow> (('w, 'z) server_scheme, unit) act" where
  "startRunLoop host =
     bind (gets sv_port) (\<lambda>port.
     bind (os_do (host_socket host)) (\<lambda>listener.
     seq (os_upd (host_nonblocking host listener))
     (seq (os_upd (host_reuseaddr host listener))
     (bind (os_do (host_bind host listener (to_uint16 port))) (\<lambda>rc.
      if rc < 0 then throw (Exit (-1))
      else
        bind (os_do (host_listen host listener 16)) (\<lambda>rc.
        if rc < 0 then throw (Exit (-1))
        else
          bind (os_do (host_event_new host listener)) (\<lambda>created.
          if \<not> created then throw (Exit (-1))
          else modify (\<lambda>s. s\<lparr>sv_listener := Some listener\<rparr>))))))))"

text \<open>What becomes of the process that handles a connection.\<close>

datatype process = Continues | Becomes string "string list"

definition session_args :: "int \<Rightarrow> bool \<Rightarrow> string list" where
  "session_args clientSock verbose =
     [''rsession'', ''-s'', dec clientSock] @ (if verbose then [''-v''] else [])"

definition handleEvent :: "'w host \<Rightarrow> int \<Rightarrow> (('w, 'z) server_scheme, process) act" where
  "handleEvent host listener =
     bind (GetPathForExecutable host) (\<lambda>installLoc.
     let path = substr_to installLoc (rfind CHR ''/'' installLoc) @ ''/rsession'' in
     bind (os_do (host_accept host listener)) (\<lambda>clientSock.
     if clientSock = -1 then ret Continues
     else
       seq (os_upd (host_reuseaddr host clientSock))
       (bind (gets sv_verbose) (\<lambda>verbose.
        let args = session_args clientSock verbose in
        bind (os_do (host_fork host)) (\<lambda>forkResult.
        if forkResult = 0 then
          bind (os_do (host_execve host (c_str path) args)) (\<lambda>replaced.
          if replaced then ret (Becomes (c_str path) args) else throw (Exit 0))
        else if forkResult = -1 then seq (os_upd (host_close host clientSock)) (ret Continues)
        else ret Continues)))))"

definition sv_terminate :: "(('w, 'z) server_scheme, unit) act" where
  "sv_terminate = modify (\<lambda>s. s\<lparr>sv_loopexit := True\<rparr>)"

end
