(* ===== verification/Server_Behaviour.thy ===== *)
theory Server_Behaviour
  imports R_Server Session_Behaviour
begin

text \<open>
  The properties of the two processes and of the command line between them: parsing ends in one of
  the ways it should, required arguments are there when it returns, and the client that the server
  accepts is the client that the session it starts will serve.
\<close>

section \<open>Parsing\<close>

text \<open>
  C34. Parsing ends for every command line: with as many steps as there are words it returns, or the
  process exits with status 0 (help, version) or 1 (an error, which has been reported), unless it
  runs into one of three faults of the parser. No exception of TCLAP leaves it, so the handlers
  around it in both programs are never used.
\<close>

theorem parse_outcome:
  assumes "pointers_ok c" and "argv \<noteq> []" and "cl_handleExceptions c"
  shows "fst (cl_parse argv c) \<in> {Inr (), Inl (Exit 0), Inl (Exit 1), Inl (UB ''uninitialised tmp''),
    Inl (UB ''no room in spacePrint''), Inl (Abort ''endless loop'')}"
proof (cases "cl_parse argv c")
  case (Pair r c')
  with cl_parse_throws [OF assms] show ?thesis by (cases r) auto
qed


definition sample_cmd_line :: cmd_line where
  "sample_cmd_line = snd (session_cmd_line fresh_process)"

lemma sample_heap:
  "cl_argList sample_cmd_line = [4, 3, 2, 1, 0]" "length (heap sample_cmd_line) = 5"
  "cl_orList sample_cmd_line = []" "cl_numRequired sample_cmd_line = 1" "cl_handleExceptions sample_cmd_line"
  "map a_required (heap sample_cmd_line) = [False, False, False, True, False]"
  "list_all (\<lambda>a. arg_ok a \<and> \<not> a_alreadySet a) (heap sample_cmd_line)"
  by (simp_all add: sample_cmd_line_def session_cmd_line_def parse_simps arg_ok_def is_switch_def is_multi_def)

lemma sample_arg: "p < 5 \<Longrightarrow> arg_ok (arg_at sample_cmd_line p) \<and> \<not> a_alreadySet (arg_at sample_cmd_line p)"
  and sample_required: "p < 5 \<Longrightarrow> a_required (arg_at sample_cmd_line p) \<longleftrightarrow> p = 3"
proof -
  assume p: "p < 5"
  then show "arg_ok (arg_at sample_cmd_line p) \<and> \<not> a_alreadySet (arg_at sample_cmd_line p)"
    using sample_heap(2,7) by (simp add: arg_at_def list_all_length)
  have "a_required (arg_at sample_cmd_line p) = map a_required (heap sample_cmd_line) ! p"
    using p sample_heap(2) by (simp add: arg_at_def)
  then show "a_required (arg_at sample_cmd_line p) \<longleftrightarrow> p = 3"
    using p by (auto simp: sample_heap(6) less_Suc_eq numeral_eq_Suc)
qed

theorem parse_outcome_witness:
  "fst (cl_parse [''rsession'', ''-v''] sample_cmd_line) \<in> {Inr (), Inl (Exit 0), Inl (Exit 1), Inl (UB ''uninitialised tmp''),
    Inl (UB ''no room in spacePrint''), Inl (Abort ''endless loop'')}"
  using parse_outcome [of sample_cmd_line "[''rsession'', ''-v'']"] by (simp add: sample_heap pointers_ok_def)


section \<open>From the server to the session\<close>

lemma parse_session_args:
  assumes "- (2 ^ 31) \<le> n" and "n < 2 ^ 31"
  shows "fst (parsed session_cmd_line (session_args n verbose) fresh_process) = Inr (n, verbose)"
  using assms
  by (cases verbose) (simp_all add: parsed_def session_cmd_line_def session_args_def parse_simps)

lemma parse_server_args:
  assumes "0 \<le> p" and "p < 2 ^ 32"
  shows "fst (parsed server_cmd_line [prog, ''-p'', dec p] fresh_process) = Inr (p, False)"
  using assms by (simp add: parsed_def server_cmd_line_def parse_simps)

lemma session_main_runs:
  assumes "- (2 ^ 31) \<le> n" and "n < 2 ^ 31" and "sys_exists (env_sys env) ''/usr/lib/R'' w = Inr b"
  shows "\<exists>w'. session_main env host junk bev (session_args n verbose) w = (Inr (), started w' junk n bev)"
proof -
  have "\<exists>w1. session_main env host junk bev (session_args n verbose) w
      = seq (parseArguments env (session_args n verbose)) (prepareForRunLoop bev) (new_RSession w1 junk)"
    using assms(3) by (auto simp: session_main_def act_simps new_RSession_def)
  moreover have "\<exists>w2. parseArguments env (session_args n verbose) (new_RSession w1 junk)
      = (Inr True, (new_RSession w2 junk)\<lparr>rs_socket := n\<rparr>)" for w1
    using parse_session_args [OF assms(1,2), of verbose]
    by (cases verbose) (auto simp: parseArguments_def act_simps new_RSession_def)
  moreover have "fst (prepareForRunLoop bev s) = Inr ()" for s :: "'a session"
    by (simp add: prepareForRunLoop_def act_simps)
  ultimately show ?thesis
    unfolding started_def by (metis (no_types, lifting) bind_Inr prod.collapse seq_def)
qed

text \<open>
  C9. The hand-over. When the server accepts a client and forks, the child executes \<open>rsession\<close> beside
  the server's own program with a command line from which the session process, after its
  preparation, has a buffer on exactly that socket and is in a reachable state of the session.
\<close>

theorem accepted_client_is_served:
  assumes "host_readlink host (world s) = Some exe" and "CHR 0x00 \<notin> set exe" and "length exe < 1024"
    and "rfind CHR ''/'' exe = Some k"
    and "host_accept host listener (world s) = (sock, w1)" and "0 < sock" and "sock < 2 ^ 31"
    and "host_fork host (host_reuseaddr host sock w1) = (0, w2)"
    and "host_execve host (take k exe @ ''/rsession'') (session_args sock (sv_verbose s)) w2 = (True, w3)"
    and "sys_exists (env_sys env) ''/usr/lib/R'' w3 = Inr there"
  shows "\<exists>path args s'. handleEvent host listener s = (Inr (Becomes path args), s\<lparr>world := w3\<rparr>) \<and>
    path = take k exe @ ''/rsession'' \<and>
    session_main env host junk True args w3 = (Inr (), s') \<and>
    session_reach env s' \<and> rs_socket s' = sock \<and> rs_eventBuffer s' = Live"
proof -
  have "take 1023 exe = exe" using assms(3) by simp
  moreover have "c_str exe = exe" "c_str (take k exe @ ''/rsession'') = take k exe @ ''/rsession''"
    using assms(2) by (auto simp: c_str_def takeWhile_eq_all_conv takeWhile_append dest: in_set_takeD)
  ultimately have "handleEvent host listener s
      = (Inr (Becomes (take k exe @ ''/rsession'') (session_args sock (sv_verbose s))), s\<lparr>world := w3\<rparr>)"
    using assms(1,4-9)
    by (simp add: handleEvent_def GetPathForExecutable_def act_simps Let_def substr_to_def)
  moreover obtain w' where "session_main env host junk True (session_args sock (sv_verbose s)) w3
      = (Inr (), started w' junk sock True)"
    using session_main_runs [OF _ assms(7,10), where host = host and junk = junk and bev = True] assms(6) by fastforce
  moreover have "rs_socket (started w' junk sock True) = sock" "rs_eventBuffer (started w' junk sock True) = Live"
    using assms(6) by (simp_all add: started_state)
  ultimately show ?thesis by (blast intro: session_reach.start)
qed

text \<open>
  The port. Any 32 bit number is accepted and kept as the port, but the socket is bound to it
  modulo \<open>2 ^ 16\<close>: the server listens on another port than the one it was given, silently.
\<close>

theorem port_is_truncated:
  assumes "0 \<le> p" and "p < 2 ^ 32"
    and "host_socket host (world s) = (fd, w1)"
    and "host_bind host fd (p mod 65536) (host_reuseaddr host fd (host_nonblocking host fd w1)) = (0, w2)"
    and "host_listen host fd 16 w2 = (0, w3)" and "host_event_new host fd w3 = (True, w4)"
  shows "\<exists>s'. parseArgs [prog, ''-p'', dec p] s = (Inr True, s') \<and> sv_port s' = p \<and>
    startRunLoop host s' = (Inr (), s'\<lparr>world := w4, sv_listener := Some fd\<rparr>)"
  using assms parse_server_args [OF assms(1,2), of prog]
  by (simp add: parseArgs_def startRunLoop_def act_simps to_uint16_def take_bit_eq_mod)

text \<open>A host on which every call succeeds; it binds to port 4464 only.\<close>

definition toy_host :: "toy host" where
  "toy_host = \<lparr>host_readlink = (\<lambda>w. Some ''/opt/rc2/rserver''), host_socket = (\<lambda>w. (3, w)),
     host_nonblocking = (\<lambda>fd w. w), host_reuseaddr = (\<lambda>fd w. w),
     host_bind = (\<lambda>fd port w. (if port = 4464 then 0 else -1, w)), host_listen = (\<lambda>fd n w. (0, w)),
     host_event_new = (\<lambda>fd w. (True, w)), host_accept = (\<lambda>fd w. (6, w)), host_fork = (\<lambda>w. (0, w)),
     host_execve = (\<lambda>path args w. (True, w)), host_close = (\<lambda>fd w. w), host_default_env = (\<lambda>k v w. w)\<rparr>"

theorem accepted_client_is_served_witness:
  "\<exists>args s'. fst (handleEvent toy_host 3 (new_RServer toy_world True)) = Inr (Becomes ''/opt/rc2/rsession'' args) \<and>
    session_main toy_env toy_host 7 True args toy_world = (Inr (), s') \<and> rs_socket s' = 6"
proof -
  have "rfind CHR ''/'' ''/opt/rc2/rserver'' = Some 8" by code_simp
  moreover have "sys_exists (env_sys toy_env) ''/usr/lib/R'' toy_world = Inr False"
    by (simp add: toy_env_def toy_sys_def toy_world_def)
  ultimately show ?thesis
    using accepted_client_is_served [of toy_host "new_RServer toy_world True" "''/opt/rc2/rserver''" 8 3 6 toy_world
        toy_world toy_world toy_env False 7]
    by (auto simp: toy_host_def new_RServer_def)
qed

theorem port_is_truncated_witness:
  "\<exists>s'. parseArgs [''rserver'', ''-p'', dec 70000] (new_RServer toy_world False) = (Inr True, s') \<and> sv_port s' = 70000 \<and>
    startRunLoop toy_host s' = (Inr (), s'\<lparr>world := toy_world, sv_listener := Some 3\<rparr>)"
  by (rule port_is_truncated) (simp_all add: toy_host_def new_RServer_def)

end
