(* ===== verification/Tclap_Formats.thy ===== *)
theory Tclap_Formats
  imports Tclap_Output Std_Map
begin

text \<open>
  The two other forms in which TCLAP can print a command line: \<open>tclap/DocBookOutput.h\<close> (a DocBook
  manual page) and \<open>tclap/ZshCompletionOutput.h\<close> (a completion function for zsh), and the string
  loops they use to escape a text. The loops are modelled as they are written, on positions, with the
  loop of \<open>substituteSpecialChars\<close> a partial function because it need not end; the theorems say
  which character-wise replacement each loop computes.
\<close>

section \<open>Loops over a string\<close>

text \<open>\<open>while ((p = s.find_first_of(r)) != npos) { s.erase(p, 1); s.insert(p, x); }\<close>\<close>

partial_function (option) substituteSpecialChars :: "char \<Rightarrow> string \<Rightarrow> string \<Rightarrow> string option" where
  "substituteSpecialChars r x s =
     (case find_first_of r 0 s of
        None \<Rightarrow> Some s
      | Some p \<Rightarrow> substituteSpecialChars r x (take p s @ x @ drop (Suc p) s))"

lemma find_first_of_0: "find_first_of c 0 s = Some p \<Longrightarrow> p < length s"
  by (drule find_first_of_Some) simp

function removeChar :: "char \<Rightarrow> string \<Rightarrow> string" where
  "removeChar r s =
     (case find_first_of r 0 s of
        None \<Rightarrow> s
      | Some p \<Rightarrow> removeChar r (take p s @ drop (Suc p) s))"
  by pat_completeness auto
termination
  by (relation "measure (\<lambda>(r, s). length s)") (auto dest: find_first_of_0)

declare removeChar.simps [simp del]

text \<open>After the last slash, in both classes.\<close>

definition basename :: "string \<Rightarrow> string" where
  "basename s = (case rfind (CHR ''/'') s of None \<Rightarrow> s | Some p \<Rightarrow> drop (Suc p) s)"

text \<open>\<open>s.find_last_of(c, pos)\<close>\<close>

definition find_last_of :: "char \<Rightarrow> nat \<Rightarrow> string \<Rightarrow> nat option" where
  "find_last_of c pos s = rfind c (take (Suc pos) s)"

lemma rfind_iff: "rfind c s = Some p \<longleftrightarrow> (\<exists>us vs. s = us @ c # vs \<and> length us = p \<and> c \<notin> set vs)"
proof
  assume "rfind c s = Some p"
  then obtain d r where r: "dropWhile (\<lambda>x. x \<noteq> c) (rev s) = d # r" and p: "p = length r"
    by (auto simp: rfind_def split: list.splits)
  have d: "d = c" using hd_dropWhile [of "\<lambda>x. x \<noteq> c" "rev s"] r by simp
  let ?t = "takeWhile (\<lambda>x. x \<noteq> c) (rev s)"
  have "rev s = ?t @ c # r" using r d by (metis takeWhile_dropWhile_id)
  then have "s = rev r @ c # rev ?t" by (simp add: rev_swap)
  moreover have "c \<notin> set (rev ?t)" by (auto dest: set_takeWhileD)
  ultimately show "\<exists>us vs. s = us @ c # vs \<and> length us = p \<and> c \<notin> set vs"
    using p by (intro exI [of _ "rev r"] exI [of _ "rev ?t"]) simp
next
  assume "\<exists>us vs. s = us @ c # vs \<and> length us = p \<and> c \<notin> set vs"
  then obtain us vs where "s = us @ c # vs" "length us = p" "c \<notin> set vs" by blast
  then have "dropWhile (\<lambda>x. x \<noteq> c) (rev s) = c # rev us"
    by (simp add: dropWhile_append3) (metis (mono_tags) dropWhile_append2 dropWhile.simps(2) set_rev)
  with \<open>length us = p\<close> show "rfind c s = Some p" by (simp add: rfind_def)
qed

lemma rfind_None: "rfind c s = None \<longleftrightarrow> c \<notin> set s"
proof
  assume "rfind c s = None"
  then have "dropWhile (\<lambda>x. x \<noteq> c) (rev s) = []" by (auto simp: rfind_def split: list.splits)
  then show "c \<notin> set s" by (auto simp: dropWhile_eq_Nil_conv)
next
  assume "c \<notin> set s"
  then have "dropWhile (\<lambda>x. x \<noteq> c) (rev s) = []" by (auto simp: dropWhile_eq_Nil_conv)
  then show "rfind c s = None" by (simp only: rfind_def list.case)
qed

lemma rfind_cases:
  obtains (absent) "rfind c s = None" "c \<notin> set s"
    | (last) us vs where "s = us @ c # vs" "rfind c s = Some (length us)" "c \<notin> set vs"
  by (cases "rfind c s") (auto simp: rfind_iff dest: rfind_None [THEN iffD1])

lemma find_last_of_le: "find_last_of c pos s = Some p \<Longrightarrow> p \<le> pos \<and> p < length s \<and> s ! p = c"
proof -
  assume "find_last_of c pos s = Some p"
  then obtain us vs where split: "take (Suc pos) s = us @ c # vs" and p: "length us = p"
    by (auto simp: find_last_of_def rfind_iff)
  have "length (take (Suc pos) s) = Suc (p + length vs)" using split p by simp
  then have "p \<le> pos \<and> p < length s" by (auto simp: min_def split: if_splits)
  moreover have "take (Suc pos) s ! p = c" unfolding split p [symmetric] by (rule nth_append_length)
  ultimately show ?thesis by simp
qed

text \<open>The two loops of \<open>quoteSpecialChars\<close>, entered at a position found.\<close>

function quote_colons :: "string \<Rightarrow> nat \<Rightarrow> string" where
  "quote_colons s idx =
     (let s = take idx s @ CHR 0x5C # drop idx s in
      case find_last_of CHR '':'' idx s of None \<Rightarrow> s | Some j \<Rightarrow> quote_colons s j)"
  by pat_completeness auto
termination
proof (relation "measure snd")
  fix s s' :: string and idx j
  assume s': "s' = take idx s @ CHR 0x5C # drop idx s" and j: "find_last_of CHR '':'' idx s' = Some j"
  have "s' ! length (take idx s) = CHR 0x5C" unfolding s' by (rule nth_append_length)
  with find_last_of_le [OF j] have "j \<noteq> length (take idx s)" by auto
  with find_last_of_le [OF j] have "j < idx" by (auto simp: s' min_def split: if_splits)
  then show "((s', j), s, idx) \<in> measure snd" by simp
qed simp

declare quote_colons.simps [simp del]

function quote_quotes :: "string \<Rightarrow> nat \<Rightarrow> string" where
  "quote_quotes s idx =
     (let s = take idx s @ [CHR 0x27, CHR 0x5C, CHR 0x27] @ drop idx s in
      if idx = 0 then s
      else (case find_last_of CHR 0x27 (idx - 1) s of None \<Rightarrow> s | Some j \<Rightarrow> quote_quotes s j))"
  by pat_completeness auto
termination
  by (relation "measure snd") (auto dest!: find_last_of_le)

declare quote_quotes.simps [simp del]

definition quoteSpecialChars :: "string \<Rightarrow> string" where
  "quoteSpecialChars s =
     (let s = (case rfind CHR '':'' s of None \<Rightarrow> s | Some idx \<Rightarrow> quote_colons s idx) in
      (case rfind CHR 0x27 s of None \<Rightarrow> s | Some idx \<Rightarrow> quote_quotes s idx))"

text \<open>\<open>do arg.replace(p, 1, 1, ' '); while ((p = arg.find_first_of('|', p)) != npos)\<close>\<close>

function blank_bars :: "string \<Rightarrow> nat \<Rightarrow> string" where
  "blank_bars s p =
     (let s = s[p := CHR '' ''] in
      case find_first_of CHR ''|'' p s of None \<Rightarrow> s | Some q \<Rightarrow> blank_bars s q)"
  by pat_completeness auto
termination
proof (relation "measure (\<lambda>(s, p). length s - p)")
  fix s s' :: string and p q
  assume s': "s' = s[p := CHR '' '']" and q: "find_first_of CHR ''|'' p s' = Some q"
  from find_first_of_Some [OF q] have "p \<le> q" "q < length s'" "s' ! q = CHR ''|''" by simp_all
  moreover from this have "q \<noteq> p" by (auto simp: s')
  ultimately show "((s', q), s, p) \<in> measure (\<lambda>(s, p). length s - p)" by (auto simp: s')
qed simp

declare blank_bars.simps [simp del]

section \<open>What the loops compute\<close>

definition replace_char :: "char \<Rightarrow> string \<Rightarrow> string \<Rightarrow> string" where
  "replace_char r x s = concat (map (\<lambda>c. if c = r then x else [c]) s)"

lemma replace_char_simps [simp]:
  "replace_char r x [] = []"
  "replace_char r x (c # cs) = (if c = r then x else [c]) @ replace_char r x cs"
  "replace_char r x (us @ vs) = replace_char r x us @ replace_char r x vs"
  by (simp_all add: replace_char_def)

lemma replace_char_absent: "r \<notin> set s \<Longrightarrow> replace_char r x s = s"
  by (induction s) auto

lemma find_first_of_iff: "find_first_of c 0 s = Some p \<longleftrightarrow> (\<exists>us vs. s = us @ c # vs \<and> length us = p \<and> c \<notin> set us)"
proof
  assume a: "find_first_of c 0 s = Some p"
  from find_first_of_Some [OF a] have p: "p < length s" "s ! p = c" "\<forall>i<p. s ! i \<noteq> c" by simp_all
  from p have "s = take p s @ c # drop (Suc p) s" by (metis id_take_nth_drop)
  moreover have "c \<notin> set (take p s)" using p by (auto simp: in_set_conv_nth)
  ultimately show "\<exists>us vs. s = us @ c # vs \<and> length us = p \<and> c \<notin> set us"
    using p(1) by (intro exI [of _ "take p s"] exI [of _ "drop (Suc p) s"]) simp
next
  assume "\<exists>us vs. s = us @ c # vs \<and> length us = p \<and> c \<notin> set us"
  then obtain us vs where s: "s = us @ c # vs" and p: "length us = p" and us: "c \<notin> set us" by blast
  have "dropWhile (\<lambda>x. x \<noteq> c) s = c # vs" using s us by (simp add: dropWhile_append3) (metis (mono_tags) dropWhile.simps(2) dropWhile_append2)
  then show "find_first_of c 0 s = Some p" using s p by (simp add: find_first_of_def)
qed

lemma find_first_of_absent: "c \<notin> set s \<Longrightarrow> find_first_of c 0 s = None"
  by (cases "find_first_of c 0 s") (auto simp: find_first_of_iff)

lemma substitute_ends:
  assumes "r \<notin> set x"
  shows "substituteSpecialChars r x s = Some (replace_char r x s)"
proof (induction "length (filter ((=) r) s)" arbitrary: s rule: less_induct)
  case less
  show ?case
  proof (cases "find_first_of r 0 s")
    case None
    then have "r \<notin> set s" using find_first_of_None [OF None] by simp
    with None show ?thesis by (simp add: substituteSpecialChars.simps replace_char_absent)
  next
    case (Some p)
    then obtain us vs where s: "s = us @ r # vs" "length us = p" "r \<notin> set us"
      by (auto simp: find_first_of_iff)
    have x: "filter ((=) r) x = []" using assms by (auto simp: filter_empty_conv)
    have "substituteSpecialChars r x (us @ x @ vs) = Some (replace_char r x (us @ x @ vs))"
      by (rule less) (simp add: s x)
    with Some s assms show ?thesis
      by (simp add: substituteSpecialChars.simps [of r x "us @ r # vs"] replace_char_absent)
  qed
qed


text \<open>A text that holds the character again is searched for ever, unless there is nothing to replace.\<close>

lemma substitute_returns:
  assumes "substituteSpecialChars r x s = Some y"
  shows "r \<in> set x \<longrightarrow> r \<notin> set s"
proof -
  note rule = substituteSpecialChars.raw_induct [where P = "\<lambda>r x s y. r \<in> set x \<longrightarrow> r \<notin> set s"
      and xa = "((r, x), s)" and y = y, unfolded prod.case]
  show ?thesis
  proof (rule rule)
    fix sub :: "char \<Rightarrow> string \<Rightarrow> string \<Rightarrow> string option" and r x s y
    assume IH: "\<And>r x s y. sub r x s = Some y \<Longrightarrow> r \<in> set x \<longrightarrow> r \<notin> set s"
      and step: "(case find_first_of r 0 s of None \<Rightarrow> Some s | Some p \<Rightarrow> sub r x (take p s @ x @ drop (Suc p) s)) = Some y"
    show "r \<in> set x \<longrightarrow> r \<notin> set s"
    proof (cases "find_first_of r 0 s")
      case None
      with find_first_of_None [OF None] show ?thesis by simp
    next
      case (Some p)
      with step IH [of r x "take p s @ x @ drop (Suc p) s" y] show ?thesis by auto
    qed
  qed (rule assms)
qed

lemma removeChar_filter: "removeChar r s = filter (\<lambda>c. c \<noteq> r) s"
proof (induction r s rule: removeChar.induct)
  case (1 r s)
  show ?case
  proof (cases "find_first_of r 0 s")
    case None
    with find_first_of_None [OF None] show ?thesis
      by (simp add: removeChar.simps [of r s]) (metis (mono_tags) filter_True)
  next
    case (Some p)
    then obtain us vs where "s = us @ r # vs" "length us = p" by (auto simp: find_first_of_iff)
    with 1 Some show ?thesis by (simp add: removeChar.simps [of r "us @ r # vs"])
  qed
qed

lemma find_last_of_next:
  "find_last_of c (length us) (us @ d # vs) = (if d = c then Some (length us) else rfind c us)"
proof -
  have "take (Suc (length us)) (us @ d # vs) = us @ [d]" by simp
  moreover have "rfind c (us @ [d]) = (if d = c then Some (length us) else rfind c us)"
    by (simp add: rfind_def split: list.splits)
  ultimately show ?thesis by (simp add: find_last_of_def)
qed

lemma quote_colons_run:
  "quote_colons (us @ CHR '':'' # vs) (length us) = replace_char CHR '':'' [CHR 0x5C, CHR '':''] us @ [CHR 0x5C, CHR '':''] @ vs"
proof (induction "length us" arbitrary: us vs rule: less_induct)
  case less
  let ?s = "us @ CHR 0x5C # CHR '':'' # vs"
  have step: "quote_colons (us @ CHR '':'' # vs) (length us) =
      (case rfind CHR '':'' us of None \<Rightarrow> ?s | Some j \<Rightarrow> quote_colons ?s j)"
    by (subst quote_colons.simps) (simp add: find_last_of_next Let_def)
  show ?case
  proof (cases "rfind CHR '':'' us")
    case None
    then have "CHR '':'' \<notin> set us" by (simp add: rfind_None)
    with None step show ?thesis by (simp add: replace_char_absent)
  next
    case (Some p)
    then obtain ws xs where us: "us = ws @ CHR '':'' # xs" "length ws = p" "CHR '':'' \<notin> set xs"
      by (auto simp: rfind_iff)
    have "quote_colons (ws @ CHR '':'' # (xs @ CHR 0x5C # CHR '':'' # vs)) (length ws) =
        replace_char CHR '':'' [CHR 0x5C, CHR '':''] ws @ [CHR 0x5C, CHR '':''] @ xs @ CHR 0x5C # CHR '':'' # vs"
      by (rule less) (simp add: us)
    with Some us show ?thesis unfolding step by (simp add: replace_char_absent)
  qed
qed

lemma quote_quotes_run:
  "quote_quotes (us @ CHR 0x27 # vs) (length us) =
    replace_char CHR 0x27 [CHR 0x27, CHR 0x5C, CHR 0x27, CHR 0x27] us @ [CHR 0x27, CHR 0x5C, CHR 0x27, CHR 0x27] @ vs"
proof (induction "length us" arbitrary: us vs rule: less_induct)
  case less
  let ?s = "us @ [CHR 0x27, CHR 0x5C, CHR 0x27, CHR 0x27] @ vs"
  show ?case
  proof (cases us rule: rev_cases)
    case Nil
    then show ?thesis by (simp add: quote_quotes.simps [of "CHR 0x27 # vs"])
  next
    case (snoc us' c)
    have "find_last_of CHR 0x27 (length us') (us' @ c # [CHR 0x27, CHR 0x5C, CHR 0x27, CHR 0x27] @ vs) = rfind CHR 0x27 us"
      unfolding find_last_of_next snoc by (simp add: rfind_def)
    then have "find_last_of CHR 0x27 (length us - 1) ?s = rfind CHR 0x27 us" by (simp add: snoc)
    then have step: "quote_quotes (us @ CHR 0x27 # vs) (length us) =
        (case rfind CHR 0x27 us of None \<Rightarrow> ?s | Some j \<Rightarrow> quote_quotes ?s j)"
      by (subst quote_quotes.simps) (simp add: snoc Let_def split: option.split)
    show ?thesis
    proof (cases "rfind CHR 0x27 us")
      case None
      then have "CHR 0x27 \<notin> set us" by (simp add: rfind_None)
      with None show ?thesis unfolding step by (simp add: replace_char_absent)
    next
      case (Some p)
      then obtain ws xs where us: "us = ws @ CHR 0x27 # xs" "length ws = p" "CHR 0x27 \<notin> set xs"
        by (auto simp: rfind_iff)
      have "quote_quotes (ws @ CHR 0x27 # (xs @ [CHR 0x27, CHR 0x5C, CHR 0x27, CHR 0x27] @ vs)) (length ws) =
          replace_char CHR 0x27 [CHR 0x27, CHR 0x5C, CHR 0x27, CHR 0x27] ws @ [CHR 0x27, CHR 0x5C, CHR 0x27, CHR 0x27] @
            xs @ [CHR 0x27, CHR 0x5C, CHR 0x27, CHR 0x27] @ vs"
        by (rule less) (simp add: us)
      with Some us show ?thesis unfolding step by (simp add: replace_char_absent)
    qed
  qed
qed

lemma blank_bars_map:
  "p < length s \<Longrightarrow> CHR ''|'' \<notin> set (take p s) \<Longrightarrow>
    blank_bars s p = map (\<lambda>c. if c = CHR ''|'' then CHR '' '' else c) (s[p := CHR '' ''])"
proof (induction s p rule: blank_bars.induct)
  case (1 s p)
  let ?s = "s[p := CHR '' '']"
  show ?case
  proof (cases "find_first_of CHR ''|'' p ?s")
    case None
    have "?s = take p s @ CHR '' '' # drop (Suc p) s" using 1(2) by (simp add: upd_conv_take_nth_drop)
    moreover have "CHR ''|'' \<notin> set (drop p ?s)" using find_first_of_None [OF None] .
    ultimately have "CHR ''|'' \<notin> set ?s" using 1(2,3) by (auto simp: min_def)
    then have "map (\<lambda>c. if c = CHR ''|'' then CHR '' '' else c) ?s = ?s" by (intro map_idI) auto
    with None show ?thesis by (simp add: blank_bars.simps [of s p])
  next
    case (Some q)
    from find_first_of_Some [OF Some] have q: "p \<le> q" "q < length s" "?s ! q = CHR ''|''"
      "\<forall>i. p \<le> i \<longrightarrow> i < q \<longrightarrow> ?s ! i \<noteq> CHR ''|''" by simp_all
    have "CHR ''|'' \<notin> set (take q ?s)"
    proof
      assume "CHR ''|'' \<in> set (take q ?s)"
      then obtain i where i: "i < q" "i < length s" "?s ! i = CHR ''|''" by (auto simp: in_set_conv_nth)
      with q(4) have "i < p" by (metis not_le)
      with i have "s ! i = CHR ''|''" "i < length (take p s)" using 1(2) by simp_all
      then show False using 1(3) by (metis \<open>i < p\<close> nth_mem nth_take)
    qed
    with 1(1) [OF refl Some] q(2) have "blank_bars ?s q =
        map (\<lambda>c. if c = CHR ''|'' then CHR '' '' else c) (?s[q := CHR '' ''])" by simp
    moreover have "map (\<lambda>c. if c = CHR ''|'' then CHR '' '' else c) (?s[q := CHR '' '']) =
        map (\<lambda>c. if c = CHR ''|'' then CHR '' '' else c) ?s"
      using q(2,3) by (intro nth_equalityI) (auto simp: nth_list_update)
    ultimately show ?thesis using Some by (simp add: blank_bars.simps [of s p])
  qed
qed

section \<open>DocBook\<close>

definition lines_text :: "string list \<Rightarrow> string" where
  "lines_text ls = concat (map (\<lambda>l. l @ endl) ls)"

definition tagged :: "string \<Rightarrow> string \<Rightarrow> string" where
  "tagged tag t = ''<'' @ tag @ ''>'' @ t @ ''</'' @ tag @ ''>''"

definition docbook_version :: "(cmd_line, unit) act" where
  "docbook_version = bind (gets cl_version) (\<lambda>v. os_put Cout (v @ endl))"

definition docbook_failure :: "exn \<Rightarrow> (cmd_line, unit) act" where
  "docbook_failure e = seq (os_put Cout (what e @ endl)) (throw (ExitException 1))"

definition substituted :: "char \<Rightarrow> string \<Rightarrow> string \<Rightarrow> (cmd_line, string) act" where
  "substituted r x s = unwrap (Abort ''endless loop'') (substituteSpecialChars r x s)"

text \<open>\<open>arg.erase(0, arg.find_last_of(theDelimiter) + 1)\<close>, which erases nothing if there is none.\<close>

definition after_delimiter :: "char \<Rightarrow> string \<Rightarrow> string" where
  "after_delimiter d s = (case rfind d s of None \<Rightarrow> s | Some p \<Rightarrow> drop (Suc p) s)"

definition docbook_value :: "char \<Rightarrow> arg \<Rightarrow> string" where
  "docbook_value d a =
     (let arg = removeChar (CHR ''>'') (removeChar (CHR ''<'') (removeChar (CHR '']'') (removeChar (CHR ''['') (shortID d a)))) in
      [d] @ tagged ''replaceable'' (after_delimiter d arg))"

text \<open>The identity is prepared and then not used.\<close>

definition printShortArg :: "arg \<Rightarrow> (cmd_line, unit) act" where
  "printShortArg a =
     bind (gets delimiter) (\<lambda>d.
     bind (substituted (CHR ''<'') ''&lt;'' (shortID d a)) (\<lambda>ident.
     bind (substituted (CHR ''>'') ''&gt;'' ident) (\<lambda>ident.
     os_put Cout
       (''<arg choice='' @ [CHR 0x27] @ (if isRequired a then ''plain'' else ''opt'') @ [CHR 0x27] @
        (if a_acceptsMultipleValues a then '' rep='' @ [CHR 0x27] @ ''repeat'' @ [CHR 0x27] else []) @ ''>'' @
        (if a_flag a \<noteq> [] then flagStartString @ a_flag a else nameStartString @ a_name a) @
        (if a_valueRequired a then docbook_value d a else []) @ ''</arg>'' @ endl))))"

definition printLongArg :: "arg \<Rightarrow> (cmd_line, unit) act" where
  "printLongArg a =
     bind (gets delimiter) (\<lambda>d.
     bind (substituted (CHR ''<'') ''&lt;'' (getDescription a)) (\<lambda>desc.
     bind (substituted (CHR ''>'') ''&gt;'' desc) (\<lambda>desc.
     os_put Cout
       (''<varlistentry>'' @ endl @
        (if a_flag a \<noteq> []
         then lines_text [''<term>'', tagged ''option'' (flagStartString @ a_flag a), ''</term>'']
         else []) @
        lines_text
          [''<term>'',
           tagged ''option'' (nameStartString @ a_name a @ (if a_valueRequired a then docbook_value d a else [])),
           ''</term>'', ''<listitem>'', ''<para>'', desc, ''</para>'', ''</listitem>'', ''</varlistentry>'']))))"

definition docbook_usage :: "(cmd_line, unit) act" where
  "docbook_usage =
     bind (gets (\<lambda>c. c)) (\<lambda>c.
     let progName = basename (cl_progName c) in
     seq (os_put Cout (lines_text
       [''<?xml version='' @ [CHR 0x27] @ ''1.0'' @ [CHR 0x27] @ ''?>'',
        ''<!DOCTYPE refentry PUBLIC '' @ [CHR 0x22] @ ''-//OASIS//DTD DocBook XML V4.2//EN'' @ [CHR 0x22],
        [CHR 0x09, CHR 0x22] @ ''http://www.oasis-open.org/docbook/xml/4.2/docbookx.dtd'' @ [CHR 0x22] @ ''>'',
        [],
        ''<refentry>'', ''<refmeta>'', tagged ''refentrytitle'' progName, ''<manvolnum>1</manvolnum>'', ''</refmeta>'',
        ''<refnamediv>'', tagged ''refname'' progName, tagged ''refpurpose'' (cl_message c), ''</refnamediv>'',
        ''<refsynopsisdiv>'', ''<cmdsynopsis>'', tagged ''command'' progName]))
     (seq (for_each (cl_orList c) (\<lambda>ors.
             seq (os_put Cout (''<group choice='' @ [CHR 0x27] @ ''req'' @ [CHR 0x27] @ ''>'' @ endl))
             (seq (for_each ors (\<lambda>p. printShortArg (arg_at c p))) (os_put Cout (''</group>'' @ endl)))))
     (seq (for_each (filter (\<lambda>p. \<not> xor_contains c p) (cl_argList c)) (\<lambda>p. printShortArg (arg_at c p)))
     (seq (os_put Cout (lines_text
       [''</cmdsynopsis>'', ''</refsynopsisdiv>'', ''<refsect1>'', ''<title>Description</title>'', ''<para>'', cl_message c,
        ''</para>'', ''</refsect1>'', ''<refsect1>'', ''<title>Options</title>'', ''<variablelist>'']))
     (seq (for_each (cl_argList c) (\<lambda>p. printLongArg (arg_at c p)))
     (os_put Cout (lines_text
       [''</variablelist>'', ''</refsect1>'', ''<refsect1>'', ''<title>Version</title>'', ''<para>'', cl_version c,
        ''</para>'', ''</refsect1>'', ''</refentry>''])))))))"

section \<open>Completion for zsh\<close>

definition common :: "(string, string) omap" where
  "common = omap_of
     [(''host'', ''_hosts''), (''hostname'', ''_hosts''), (''file'', ''_files''), (''filename'', ''_files''),
      (''user'', ''_users''), (''username'', ''_users''), (''directory'', ''_directories''), (''path'', ''_directories''),
      (''url'', ''_urls'')]"

definition zsh_version :: "(cmd_line, unit) act" where
  "zsh_version = bind (gets cl_version) (\<lambda>v. os_put Cout (v @ endl))"

text \<open>Unlike the other two classes it returns.\<close>

definition zsh_failure :: "exn \<Rightarrow> (cmd_line, unit) act" where
  "zsh_failure e = os_put Cout (what e @ endl)"

text \<open>The static variable \<open>count\<close> of \<open>printArg\<close> is passed in and handed on.\<close>

definition zsh_item :: string where
  "zsh_item = '' '' @ [CHR 0x5C] @ endl @ ''  '' @ [CHR 0x27]"

definition zsh_printArg :: "arg \<Rightarrow> int \<Rightarrow> (cmd_line, int) act" where
  "zsh_printArg a count =
     seq (os_put Cout
       (zsh_item @ (if a_acceptsMultipleValues a then ''*'' else dec count) @ '':'' @
        (if \<not> isRequired a then '':'' else []) @ a_name a @ '':'' @
        (case omap_find common (a_name a) of
           Some act \<Rightarrow> act
         | None \<Rightarrow> ''_guard '' @ [CHR 0x22] @ ''^-*'' @ [CHR 0x22] @ '' '' @ a_name a) @ [CHR 0x27]))
     (ret (if a_acceptsMultipleValues a then count else count + 1))"

definition to_lower :: "char \<Rightarrow> char" where
  "to_lower c = (let n = of_char c :: nat in if 65 \<le> n \<and> n \<le> 90 then char_of (n + 32) else c)"

text \<open>The description without the label of a required argument, its full stop and its capital.\<close>

definition zsh_description :: "string \<Rightarrow> string" where
  "zsh_description desc =
     (let desc = (if take 12 desc = ''(required)  '' then drop 12 desc else desc);
          desc = (if take 15 desc = ''(OR required)  '' then drop 15 desc else desc);
          len = length desc - 1;
          desc = (if desc \<noteq> [] \<and> last desc = CHR ''.'' then take len desc else desc) in
      if 0 < len then to_lower (hd desc) # tl desc else desc)"

text \<open>\<open>arg.at(arg.length() - 1)\<close> throws on an empty string.\<close>

definition drop_bracket :: "string \<Rightarrow> exn + string" where
  "drop_bracket arg =
     (if arg = [] then Inl (OutOfRange ''basic_string::at'')
      else Inr (if last arg = CHR '']'' then butlast arg else arg))"

definition zsh_value :: "char \<Rightarrow> arg \<Rightarrow> exn + string" where
  "zsh_value d a =
     (case drop_bracket (after_delimiter d (shortID d a)) of Inl e \<Rightarrow> Inl e | Inr arg \<Rightarrow>
     (case drop_bracket arg of Inl e \<Rightarrow> Inl e | Inr arg \<Rightarrow>
      if arg = [] then Inl (OutOfRange ''basic_string::at'')
      else
        (let arg = (if hd arg = CHR ''<'' then tl (butlast arg) else arg) in
         case find_first_of (CHR ''|'') 0 arg of
           Some p \<Rightarrow> Inr ('': :('' @ quoteSpecialChars (blank_bars arg p) @ '')'')
         | None \<Rightarrow> Inr ('':'' @ arg @ (case omap_find common arg of Some act \<Rightarrow> '':'' @ act | None \<Rightarrow> [])))))"

definition printOption :: "arg \<Rightarrow> string \<Rightarrow> (cmd_line, unit) act" where
  "printOption a mutex =
     bind (gets delimiter) (\<lambda>d.
     let flag = flagStartString @ a_flag a;
         name = nameStartString @ a_name a;
         desc = zsh_description (getDescription a) in
     seq (os_put Cout
       (zsh_item @ mutex @
        (if a_flag a = [] then name
         else [CHR 0x27] @ ''{'' @ flag @ '','' @ name @ ''}'' @ [CHR 0x27]) @
        (if d = CHR ''='' \<and> a_valueRequired a then ''=-'' else []) @
        ''['' @ quoteSpecialChars desc @ '']''))
     (seq (do_if (a_valueRequired a) (bind (lift (zsh_value d a)) (os_put Cout)))
     (os_put Cout [CHR 0x27])))"

text \<open>The arguments excluded by \<open>p\<close>: those of the first exclusive group it is in, or itself.\<close>

fun mutex_entries :: "cmd_line \<Rightarrow> nat \<Rightarrow> bool \<Rightarrow> nat list \<Rightarrow> string" where
  "mutex_entries c p first [] = []"
| "mutex_entries c p first (q # qs) =
     (let b = arg_at c q; notCur = (q \<noteq> p); hasFlag = (a_flag b \<noteq> []) in
      (if \<not> first \<and> (notCur \<or> hasFlag) then '' '' else []) @
      (if hasFlag then flagStartString @ a_flag b @ '' '' else []) @
      (if notCur \<or> hasFlag then nameStartString @ a_name b else []) @
      mutex_entries c p False qs)"

definition getMutexList :: "cmd_line \<Rightarrow> nat \<Rightarrow> string" where
  "getMutexList c p =
     (let a = arg_at c p in
      if a_name a = ''help'' \<or> a_name a = ''version'' then ''(-)''
      else
        (if a_acceptsMultipleValues a then ''*'' else []) @
        (case List.find (\<lambda>ors. p \<in> set ors) (cl_orList c) of
           Some ors \<Rightarrow> ''('' @ mutex_entries c p True ors @ '')''
         | None \<Rightarrow>
             (if a_flag a \<noteq> []
              then ''('' @ flagStartString @ a_flag a @ '' '' @ nameStartString @ a_name a @ '')'' else [])))"

fun zsh_args :: "cmd_line \<Rightarrow> nat list \<Rightarrow> int \<Rightarrow> (cmd_line, int) act" where
  "zsh_args c [] count = ret count"
| "zsh_args c (p # ps) count =
     (let a = arg_at c p; ident = shortID (delimiter c) a in
      if ident = [] then throw (OutOfRange ''basic_string::at'')
      else if hd ident = CHR ''<'' then bind (zsh_printArg a count) (zsh_args c ps)
      else if a_flag a \<noteq> ''-'' then seq (printOption a (getMutexList c p)) (zsh_args c ps count)
      else zsh_args c ps count)"

definition zsh_usage :: "int \<Rightarrow> (cmd_line, int) act" where
  "zsh_usage count =
     bind (gets (\<lambda>c. c)) (\<lambda>c.
     let progName = basename (cl_progName c) in
     seq (os_put Cout
       (''#compdef '' @ progName @ endl @ endl @ ''# '' @ progName @ '' version '' @ cl_version c @ endl @ endl @
        ''_arguments -s -S''))
     (bind (zsh_args c (cl_argList c) count) (\<lambda>count.
      seq (os_put Cout endl) (ret count))))"

section \<open>What is printed\<close>

text \<open>\<open>prints m t\<close>: the action returns and its only effect is the text \<open>t\<close> on the standard output.\<close>

definition prints :: "(cmd_line, unit) act \<Rightarrow> cmd_line \<Rightarrow> string \<Rightarrow> bool" where
  "prints m c t \<longleftrightarrow> m c = (Inr (), c\<lparr>cout := cout c @ t\<rparr>)"

definition xml_text :: "string \<Rightarrow> string" where
  "xml_text s = replace_char (CHR ''>'') ''&gt;'' (replace_char (CHR ''<'') ''&lt;'' s)"

lemma substituted_run:
  "r \<notin> set x \<Longrightarrow> substituted r x s = ret (replace_char r x s)"
  by (rule ext) (simp add: substituted_def substitute_ends act_simps)

lemma xml_text_plain: "CHR ''<'' \<notin> set (xml_text s) \<and> CHR ''>'' \<notin> set (xml_text s)"
  by (induction s) (auto simp: xml_text_def)

lemma prints_put: "prints (os_put Cout t) c t"
  by (simp add: prints_def os_put_def act_simps)

lemma prints_seq:
  "prints m c t \<Longrightarrow> prints n (c\<lparr>cout := cout c @ t\<rparr>) u \<Longrightarrow> prints (seq m n) c (t @ u)"
  by (simp add: prints_def seq_apply)

lemma substituted_angles:
  "substituted (CHR ''<'') ''&lt;'' t = ret (replace_char (CHR ''<'') ''&lt;'' t)"
  "substituted (CHR ''>'') ''&gt;'' t = ret (replace_char (CHR ''>'') ''&gt;'' t)"
  by (simp_all add: substituted_run)

lemmas print_unfold = substituted_angles bind_ret_left bind_gets os_put_def modify_apply ostream.case

lemma prints_short: "\<exists>t. prints (printShortArg a) c t"
  unfolding prints_def printShortArg_def print_unfold by (rule exI, rule refl)

lemma prints_long: "\<exists>pre post. prints (printLongArg a) c (pre @ xml_text (getDescription a) @ post)"
proof -
  let ?pre = "''<varlistentry>'' @ endl @
        (if a_flag a \<noteq> []
         then lines_text [''<term>'', tagged ''option'' (flagStartString @ a_flag a), ''</term>'']
         else []) @
        lines_text
          [''<term>'',
           tagged ''option'' (nameStartString @ a_name a @ (if a_valueRequired a then docbook_value (delimiter c) a else [])),
           ''</term>'', ''<listitem>'', ''<para>'']"
  let ?post = "endl @ lines_text [''</para>'', ''</listitem>'', ''</varlistentry>'']"
  have split: "lines_text [k, l, m, n, p, x, f, g, h] = lines_text [k, l, m, n, p] @ x @ endl @ lines_text [f, g, h]"
    for k l m n p x f g h by (simp add: lines_text_def)
  have "prints (printLongArg a) c (?pre @ xml_text (getDescription a) @ ?post)"
    unfolding prints_def printLongArg_def split print_unfold xml_text_def by (simp only: append_assoc)
  then show ?thesis by blast
qed

text \<open>A list of actions that each print something.\<close>

lemma prints_all:
  assumes "\<And>x c. x \<in> set xs \<Longrightarrow> \<exists>t. prints (f x) c t"
  shows "\<exists>t. prints (for_each xs f) c t"
  using assms
proof (induction xs arbitrary: c)
  case Nil
  show ?case by (intro exI [of _ "[]"]) (simp add: prints_def act_simps)
next
  case (Cons x xs)
  obtain t where t: "prints (f x) c t" using Cons.prems by fastforce
  obtain u where "prints (for_each xs f) (c\<lparr>cout := cout c @ t\<rparr>) u" using Cons by fastforce
  with t show ?case by (auto intro: prints_seq)
qed

lemma prints_then:
  "\<exists>t. prints m c t \<Longrightarrow> (\<And>c. \<exists>t. prints n c t) \<Longrightarrow> \<exists>t. prints (seq m n) c t"
  by (meson prints_seq)

lemma prints_some_put: "\<exists>t. prints (os_put Cout u) c t"
  using prints_put by blast

lemma prints_usage: "\<exists>t. prints docbook_usage c t"
proof -
  have long: "\<exists>t. prints (printLongArg a) c t" for a c using prints_long by blast
  have state: "\<exists>t. prints (bind (gets (\<lambda>c. c)) f) c t" if "\<exists>t. prints (f c) c t" for f
    using that by (simp add: prints_def bind_gets)
  show ?thesis
    unfolding docbook_usage_def Let_def
    by (intro state prints_then prints_all prints_short long prints_some_put)
qed

section \<open>Arguments that zsh completion cannot print\<close>

abbreviation at_fails :: exn where "at_fails \<equiv> OutOfRange ''basic_string::at''"

lemma zsh_value_error: "zsh_value d a = Inl e \<Longrightarrow> e = at_fails"
  by (auto simp: zsh_value_def drop_bracket_def Let_def split: sum.splits option.splits if_splits)

lemma printOption_result:
  "printOption a m c = (r, c') \<Longrightarrow> delimiter c' = delimiter c \<and> (r = Inr () \<or> r = Inl at_fails)"
  by (auto simp: printOption_def act_simps os_put_def Let_def split: sum.splits if_splits dest: zsh_value_error)

lemma rfind_last: "rfind c (s @ [c]) = Some (length s)"
  by (simp add: rfind_def)

lemma zsh_value_multi:
  assumes "a_class a = MultiArg"
  shows "zsh_value (CHR '' '') a = Inl at_fails"
proof -
  have "shortID (CHR '' '') a = (Arg_shortID (CHR '' '') (a_typeDesc a) a @ '' ...'') @ '' ''"
    using assms by (simp add: shortID_def MultiArg_shortID_def)
  then have "after_delimiter (CHR '' '') (shortID (CHR '' '') a) = []"
    by (simp only: after_delimiter_def rfind_last option.case) simp
  then show ?thesis by (simp add: zsh_value_def drop_bracket_def)
qed

lemma printOption_multi:
  assumes "a_class a = MultiArg" and "a_valueRequired a" and "delimiter c = CHR '' ''"
  shows "fst (printOption a m c) = Inl at_fails"
  using assms by (simp add: printOption_def act_simps os_put_def Let_def zsh_value_multi)

definition multi_option :: "arg \<Rightarrow> bool" where
  "multi_option a \<longleftrightarrow> a_class a = MultiArg \<and> a_valueRequired a \<and> a_flag a \<noteq> ''-''"

lemma zsh_args_fail:
  assumes "delimiter c = CHR '' ''"
  shows "list_ex (\<lambda>p. multi_option (arg_at c p)) ps \<Longrightarrow> delimiter s = CHR '' '' \<Longrightarrow>
    fst (zsh_args c ps count s) = Inl at_fails"
proof (induction ps arbitrary: count s)
  case (Cons p ps)
  let ?a = "arg_at c p"
  show ?case
  proof (cases "multi_option ?a")
    case True
    then have "shortID (delimiter c) ?a \<noteq> []" "hd (shortID (delimiter c) ?a) \<noteq> CHR ''<''"
      by (auto simp: multi_option_def shortID_def MultiArg_shortID_def Arg_shortID_def Let_def flagStartString_def
          nameStartString_def)
    moreover obtain r s' where run: "printOption ?a (getMutexList c p) s = (r, s')" by force
    moreover have "r = Inl at_fails"
      using printOption_multi [of ?a s "getMutexList c p"] True Cons.prems(2) run by (simp add: multi_option_def)
    ultimately show ?thesis using True by (simp add: Let_def seq_apply multi_option_def)
  next
    case False
    then have rest: "list_ex (\<lambda>p. multi_option (arg_at c p)) ps" using Cons.prems(1) by simp
    obtain r s' where run: "printOption ?a (getMutexList c p) s = (r, s')" by force
    with printOption_result [OF this] Cons.prems(2) have "delimiter s' = CHR '' ''" "r = Inr () \<or> r = Inl at_fails" by simp_all
    with run rest Cons show ?thesis
      by (auto simp: Let_def act_simps zsh_printArg_def os_put_def)
  qed
qed simp

section \<open>Properties\<close>

text \<open>
  C39. \<open>quoteSpecialChars\<close> inserts into the text it is scanning, from the right, and still computes
  the character-wise quoting: a backslash before every colon, and every quote closed, escaped and
  opened again.
\<close>

theorem zsh_quoting_exact:
  "quoteSpecialChars s = concat (map (\<lambda>c.
     if c = CHR '':'' then [CHR 0x5C, CHR '':'']
     else if c = CHR 0x27 then [CHR 0x27, CHR 0x5C, CHR 0x27, CHR 0x27] else [c]) s)"
proof -
  let ?colons = "replace_char (CHR '':'') [CHR 0x5C, CHR '':'']"
  let ?quotes = "replace_char (CHR 0x27) [CHR 0x27, CHR 0x5C, CHR 0x27, CHR 0x27]"
  have 1: "(case rfind (CHR '':'') t of None \<Rightarrow> t | Some idx \<Rightarrow> quote_colons t idx) = ?colons t" for t
    by (cases rule: rfind_cases [of "CHR '':''" t]) (simp_all add: quote_colons_run replace_char_absent)
  have 2: "(case rfind (CHR 0x27) t of None \<Rightarrow> t | Some idx \<Rightarrow> quote_quotes t idx) = ?quotes t" for t
    by (cases rule: rfind_cases [of "CHR 0x27" t]) (simp_all add: quote_quotes_run replace_char_absent)
  have "?quotes (?colons t) = concat (map (\<lambda>c.
     if c = CHR '':'' then [CHR 0x5C, CHR '':'']
     else if c = CHR 0x27 then [CHR 0x27, CHR 0x5C, CHR 0x27, CHR 0x27] else [c]) t)" for t
    by (induction t) auto
  then show ?thesis by (simp add: quoteSpecialChars_def Let_def 1 2)
qed

text \<open>
  C40. \<open>substituteSpecialChars\<close> replaces every occurrence and returns, except when the replacement
  contains the character itself and there is something to replace: then it never returns.
\<close>

theorem substitution_terminates:
  "substituteSpecialChars r x s =
     (if r \<in> set x \<and> r \<in> set s then None
      else Some (concat (map (\<lambda>c. if c = r then x else [c]) s)))"
proof (cases "r \<in> set x \<and> r \<in> set s")
  case True
  then show ?thesis using substitute_returns [of r x s] by (cases "substituteSpecialChars r x s") auto
next
  case False
  show ?thesis
  proof (cases "r \<in> set x")
    case True
    with False have "r \<notin> set s" by simp
    then have "substituteSpecialChars r x s = Some s"
      by (simp add: substituteSpecialChars.simps find_first_of_absent)
    with \<open>r \<notin> set s\<close> show ?thesis using replace_char_absent [of r s x] by (simp add: replace_char_def)
  next
    case False
    then show ?thesis by (simp add: substitute_ends replace_char_def)
  qed
qed

text \<open>
  The DocBook page of every command line is printed to the end, to the standard output and without
  any other effect, and a description appears in it with its angle brackets escaped.
\<close>

theorem docbook_page_printed:
  "(\<exists>t. prints docbook_usage c t) \<and>
   (\<exists>pre post. prints (printLongArg a) c (pre @ xml_text (getDescription a) @ post)) \<and>
   CHR ''<'' \<notin> set (xml_text (getDescription a)) \<and> CHR ''>'' \<notin> set (xml_text (getDescription a))"
  using prints_usage prints_long xml_text_plain by blast

text \<open>
  With the default delimiter, a blank, the completion function of a command line with an argument
  that takes several values cannot be printed: the identity of that argument ends in a blank, nothing is
  left after the last delimiter, and \<open>std::string::at\<close> throws.
\<close>

theorem zsh_multi_argument_throws:
  assumes "delimiter c = CHR '' ''" and "list_ex (\<lambda>p. multi_option (arg_at c p)) (cl_argList c)"
  shows "fst (zsh_usage count c) = Inl (OutOfRange ''basic_string::at'')"
proof -
  have "fst (zsh_args c (cl_argList c) count s) = Inl at_fails" if "delimiter s = CHR '' ''" for s
    using zsh_args_fail [OF assms that] .
  then show ?thesis
    using assms(1)
    by (auto simp: zsh_usage_def Let_def act_simps os_put_def split: prod.splits sum.splits dest: arg_cong [of _ _ fst])
qed

definition tagged_files :: cmd_line where
  "tagged_files =
     \<lparr>heap = [case new_MultiArg T_string ''t'' ''tag'' ''Tags.'' False ''name'' None of Inr a \<Rightarrow> a],
      ignoreRest = False, delimiter = CHR '' '', alreadyOptional = False, cout = [], cerr = [], cl_argList = [0],
      cl_progName = ''bin/tagger'', cl_message = [], cl_version = ''1'', cl_numRequired = 0, cl_orList = [],
      cl_handleExceptions = True, cl_helpAndVersion = False\<rparr>"

theorem zsh_multi_argument_throws_witness:
  "fst (zsh_usage 1 tagged_files) = Inl (OutOfRange ''basic_string::at'')"
proof (rule zsh_multi_argument_throws)
  show "list_ex (\<lambda>p. multi_option (arg_at tagged_files p)) (cl_argList tagged_files)" by code_simp
qed (simp add: tagged_files_def)

end
