(* ===== verification/Tclap_Ownership.thy ===== *)
theory Tclap_Ownership
  imports Rc2_Prelude
begin

text \<open>
  Who deletes what in \<open>tclap/CmdLine.h\<close>: the objects that the constructor allocates, the two lists of
  objects to delete on exit, the output object that a client may replace, and the destructor. The
  state is the set of live objects, as a list of addresses; deleting anything else is undefined.
\<close>

record cmd_memory =
  m_live :: "nat list"
  m_next :: nat
  m_argDeleteOnExitList :: "nat list"
  m_visitorDeleteOnExitList :: "nat list"
  m_output :: "nat option"
  m_userSetOutput :: bool

definition alloc :: "(cmd_memory, nat) act" where
  "alloc = bind (gets m_next) (\<lambda>p.
     seq (modify (\<lambda>s. s\<lparr>m_live := m_live s @ [p], m_next := Suc p\<rparr>)) (ret p))"

text \<open>\<open>delete\<close> of the null pointer does nothing.\<close>

definition DelPtr :: "nat option \<Rightarrow> (cmd_memory, unit) act" where
  "DelPtr ptr =
     (case ptr of
        None \<Rightarrow> skip
      | Some p \<Rightarrow>
          bind (gets (\<lambda>s. p \<in> set (m_live s))) (\<lambda>live.
          if live then modify (\<lambda>s. s\<lparr>m_live := removeAll p (m_live s)\<rparr>)
          else throw (UB ''delete of a dead object'')))"

text \<open>\<open>for_each(c.begin(), c.end(), DelPtr)\<close>; the caller clears the container.\<close>

definition ClearContainer :: "nat list \<Rightarrow> (cmd_memory, unit) act" where
  "ClearContainer c = for_each c (\<lambda>p. DelPtr (Some p))"

definition deleteArgOnExit :: "nat \<Rightarrow> (cmd_memory, unit) act" where
  "deleteArgOnExit ptr = modify (\<lambda>s. s\<lparr>m_argDeleteOnExitList := m_argDeleteOnExitList s @ [ptr]\<rparr>)"

definition deleteVisitorOnExit :: "nat \<Rightarrow> (cmd_memory, unit) act" where
  "deleteVisitorOnExit ptr = modify (\<lambda>s. s\<lparr>m_visitorDeleteOnExitList := m_visitorDeleteOnExitList s @ [ptr]\<rparr>)"

text \<open>A visitor, the switch that holds it, and their entry into the lists.\<close>

definition own_switch :: "(cmd_memory, unit) act" where
  "own_switch = bind alloc (\<lambda>v. bind alloc (\<lambda>switch. seq (deleteArgOnExit switch) (deleteVisitorOnExit v)))"

definition construct :: "bool \<Rightarrow> (cmd_memory, unit) act" where
  "construct help =
     seq (modify (\<lambda>s. s\<lparr>m_argDeleteOnExitList := [], m_visitorDeleteOnExitList := [], m_output := None,
            m_userSetOutput := False\<rparr>))
     (bind alloc (\<lambda>out.
      seq (modify (\<lambda>s. s\<lparr>m_output := Some out\<rparr>))
      (seq (do_if help (seq own_switch own_switch))
      own_switch)))"

definition setOutput :: "nat option \<Rightarrow> (cmd_memory, unit) act" where
  "setOutput co =
     bind (gets (\<lambda>s. s)) (\<lambda>s.
     seq (do_if (\<not> m_userSetOutput s) (DelPtr (m_output s)))
     (modify (\<lambda>s. s\<lparr>m_userSetOutput := True, m_output := co\<rparr>)))"

definition destroy :: "(cmd_memory, unit) act" where
  "destroy =
     bind (gets (\<lambda>s. s)) (\<lambda>s.
     seq (ClearContainer (m_argDeleteOnExitList s))
     (seq (ClearContainer (m_visitorDeleteOnExitList s))
     (seq (modify (\<lambda>s. s\<lparr>m_argDeleteOnExitList := [], m_visitorDeleteOnExitList := []\<rparr>))
     (do_if (\<not> m_userSetOutput s) (seq (DelPtr (m_output s)) (modify (\<lambda>s. s\<lparr>m_output := None\<rparr>)))))))"

section \<open>The objects a command line owns\<close>

definition owned :: "cmd_memory \<Rightarrow> nat list" where
  "owned s = m_argDeleteOnExitList s @ m_visitorDeleteOnExitList s @
     (if m_userSetOutput s then [] else case m_output s of None \<Rightarrow> [] | Some p \<Rightarrow> [p])"

text \<open>\<open>owns U s\<close>: next to the client's objects \<open>U\<close>, exactly the owned objects are live, each of them once.\<close>

definition owns :: "nat list \<Rightarrow> cmd_memory \<Rightarrow> bool" where
  "owns U s \<longleftrightarrow> distinct (owned s) \<and> set (owned s) \<inter> set U = {} \<and>
     set (m_live s) = set U \<union> set (owned s) \<and> (\<forall>p\<in>set (m_live s). p < m_next s)"

lemma ClearContainer_run:
  "distinct ps \<Longrightarrow> set ps \<subseteq> set (m_live s) \<Longrightarrow>
    ClearContainer ps s = (Inr (), s\<lparr>m_live := filter (\<lambda>p. p \<notin> set ps) (m_live s)\<rparr>)"
proof (induction ps arbitrary: s)
  case Nil
  show ?case by (simp add: ClearContainer_def act_simps)
next
  case (Cons p ps)
  let ?s = "s\<lparr>m_live := removeAll p (m_live s)\<rparr>"
  have "DelPtr (Some p) s = (Inr (), ?s)" using Cons.prems by (simp add: DelPtr_def act_simps)
  moreover have "ClearContainer ps ?s = (Inr (), ?s\<lparr>m_live := filter (\<lambda>q. q \<notin> set ps) (m_live ?s)\<rparr>)"
    using Cons.prems by (intro Cons.IH) auto
  moreover have "filter (\<lambda>q. q \<notin> set ps) (removeAll p (m_live s)) = filter (\<lambda>q. q \<notin> set (p # ps)) (m_live s)"
    by (simp add: removeAll_filter_not_eq) (metis (mono_tags, lifting) filter_cong)
  ultimately show ?case by (simp add: ClearContainer_def seq_apply)
qed

lemma own_switch_run:
  "own_switch s = (Inr (), s\<lparr>m_live := m_live s @ [m_next s, Suc (m_next s)], m_next := Suc (Suc (m_next s)),
     m_argDeleteOnExitList := m_argDeleteOnExitList s @ [Suc (m_next s)],
     m_visitorDeleteOnExitList := m_visitorDeleteOnExitList s @ [m_next s]\<rparr>)"
  by (simp add: own_switch_def alloc_def deleteArgOnExit_def deleteVisitorOnExit_def act_simps)

definition owned_output :: "cmd_memory \<Rightarrow> nat list" where
  "owned_output s = (if m_userSetOutput s then [] else case m_output s of None \<Rightarrow> [] | Some p \<Rightarrow> [p])"

lemma owned_parts: "owned s = m_argDeleteOnExitList s @ m_visitorDeleteOnExitList s @ owned_output s"
  by (simp add: owned_def owned_output_def)

lemma owned_output_same:
  "m_output s' = m_output s \<Longrightarrow> m_userSetOutput s' = m_userSetOutput s \<Longrightarrow> owned_output s' = owned_output s"
  by (simp add: owned_output_def)

lemma own_switch_owns:
  assumes "owns U s"
  shows "\<exists>s'. own_switch s = (Inr (), s') \<and> owns U s' \<and> m_output s' = m_output s \<and> m_userSetOutput s' = m_userSetOutput s"
proof -
  let ?n = "m_next s"
  let ?s' = "s\<lparr>m_live := m_live s @ [?n, Suc ?n], m_next := Suc (Suc ?n),
     m_argDeleteOnExitList := m_argDeleteOnExitList s @ [Suc ?n],
     m_visitorDeleteOnExitList := m_visitorDeleteOnExitList s @ [?n]\<rparr>"
  have parts: "owned ?s' = (m_argDeleteOnExitList s @ [Suc ?n]) @ (m_visitorDeleteOnExitList s @ [?n]) @ owned_output s"
    by (simp add: owned_parts owned_output_def)
  have below: "\<forall>p\<in>set U \<union> set (owned s). p < ?n" and all: "set (m_live s) = set U \<union> set (owned s)"
    using assms by (simp_all add: owns_def)
  let ?o = "m_argDeleteOnExitList s @ m_visitorDeleteOnExitList s @ owned_output s"
  have old: "distinct ?o" "set ?o \<inter> set U = {}" using assms by (simp_all only: owns_def owned_parts)
  have "p < ?n" if "p \<in> set U \<union> set ?o" for p using below that unfolding owned_parts by blast
  from this [of ?n] this [of "Suc ?n"] have new: "?n \<notin> set U \<union> set ?o" "Suc ?n \<notin> set U \<union> set ?o"
    by linarith+
  have "distinct (owned ?s')" unfolding parts using old(1) new by auto
  moreover have "set (owned ?s') \<inter> set U = {}" unfolding parts using old(2) new by auto
  moreover have "set (m_live ?s') = set U \<union> set (owned ?s')"
    unfolding parts using all [unfolded owned_parts] by auto
  moreover have "\<forall>p\<in>set (m_live ?s'). p < m_next ?s'" using below unfolding all [symmetric] by (auto intro: less_SucI)
  ultimately have "owns U ?s'" by (simp only: owns_def)
  with own_switch_run [of s] show ?thesis by auto
qed

lemma construct_owns:
  assumes "set (m_live s) = set U" and "\<forall>p\<in>set (m_live s). p < m_next s"
  shows "\<exists>s'. construct help s = (Inr (), s') \<and> owns U s' \<and> \<not> m_userSetOutput s'"
proof -
  let ?s = "s\<lparr>m_argDeleteOnExitList := [], m_visitorDeleteOnExitList := [], m_userSetOutput := False,
      m_live := m_live s @ [m_next s], m_next := Suc (m_next s), m_output := Some (m_next s)\<rparr>"
  have start: "construct help s = seq (do_if help (seq own_switch own_switch)) own_switch ?s"
    by (simp add: construct_def alloc_def act_simps)
  have 0: "owns U ?s" "\<not> m_userSetOutput ?s" using assms by (auto simp: owns_def owned_def)
  obtain s1 where 1: "own_switch ?s = (Inr (), s1)" "owns U s1" "\<not> m_userSetOutput s1"
    using own_switch_owns [OF 0(1)] 0(2) by auto
  obtain s2 where 2: "own_switch s1 = (Inr (), s2)" "owns U s2" "\<not> m_userSetOutput s2"
    using own_switch_owns [OF 1(2)] 1(3) by auto
  obtain s3 where 3: "own_switch s2 = (Inr (), s3)" "owns U s3" "\<not> m_userSetOutput s3"
    using own_switch_owns [OF 2(2)] 2(3) by auto
  show ?thesis using start 1 2 3 by (cases "help") (simp_all add: seq_apply do_if_apply skip_apply)
qed

lemma setOutput_owns:
  assumes "owns U s"
  shows "\<exists>s'. setOutput co s = (Inr (), s') \<and> owns U s'"
proof (cases "owned_output s")
  case Nil
  then have idle: "m_userSetOutput s \<or> m_output s = None" by (auto simp: owned_output_def split: if_splits option.splits)
  let ?t = "s\<lparr>m_userSetOutput := True, m_output := co\<rparr>"
  have "owned ?t = owned s" using Nil by (simp add: owned_parts) (simp add: owned_output_def)
  then have "owns U ?t" using assms by (simp add: owns_def)
  moreover have "setOutput co s = (Inr (), ?t)" using idle by (auto simp: setOutput_def DelPtr_def act_simps)
  ultimately show ?thesis by blast
next
  case (Cons p ps)
  then have p: "m_output s = Some p" "\<not> m_userSetOutput s" "ps = []"
    by (auto simp: owned_output_def split: if_splits option.splits)
  let ?t = "s\<lparr>m_live := removeAll p (m_live s), m_userSetOutput := True, m_output := co\<rparr>"
  have "owned s = owned ?t @ [p]" using Cons p by (simp add: owned_parts) (simp add: owned_output_def)
  then have "owns U ?t" "p \<in> set (m_live s)" using assms by (auto simp: owns_def)
  then show ?thesis using p by (auto simp: setOutput_def DelPtr_def act_simps)
qed

lemma destroy_frees:
  assumes "owns U s"
  shows "\<exists>s'. destroy s = (Inr (), s') \<and> set (m_live s') = set U"
proof -
  let ?a = "m_argDeleteOnExitList s" and ?v = "m_visitorDeleteOnExitList s"
  let ?live = "filter (\<lambda>p. p \<notin> set ?v) (filter (\<lambda>p. p \<notin> set ?a) (m_live s))"
  have d: "distinct ?a" "distinct ?v" "set ?a \<inter> set ?v = {}" "set ?a \<subseteq> set (m_live s)" "set ?v \<subseteq> set (m_live s)"
    using assms by (auto simp: owns_def owned_def)
  let ?s1 = "s\<lparr>m_live := filter (\<lambda>p. p \<notin> set ?a) (m_live s)\<rparr>"
  have first: "ClearContainer ?a s = (Inr (), ?s1)" by (rule ClearContainer_run [OF d(1,4)])
  have "set ?v \<subseteq> set (m_live ?s1)" using d by auto
  from ClearContainer_run [OF d(2) this] have second: "ClearContainer ?v ?s1 = (Inr (), s\<lparr>m_live := ?live\<rparr>)" by simp
  have live: "set (m_live s) = set U \<union> (set ?a \<union> set ?v \<union> set (owned_output s))"
    and U: "set U \<inter> (set ?a \<union> set ?v \<union> set (owned_output s)) = {}"
    and out: "set (owned_output s) \<inter> (set ?a \<union> set ?v) = {}"
    using assms by (auto simp: owns_def owned_parts)
  show ?thesis
  proof (cases "m_userSetOutput s \<or> m_output s = None")
    case True
    then have "set ?live = set U" using live U by (auto simp: owned_output_def split: option.splits)
    with True show ?thesis by (auto simp: destroy_def act_simps first second DelPtr_def)
  next
    case False
    then obtain p where p: "m_output s = Some p" "\<not> m_userSetOutput s" by auto
    then have "owned_output s = [p]" by (simp add: owned_output_def)
    with live U out have "p \<in> set ?live" "set (removeAll p ?live) = set U" by auto
    with p show ?thesis by (auto simp: destroy_def act_simps first second DelPtr_def)
  qed
qed

section \<open>Property\<close>

text \<open>
  C38. A command line frees what it has allocated, once, and nothing else: for every sequence of output
  objects that the client sets, constructing, setting and destroying runs without deleting a dead
  object, and afterwards the client's objects, the output objects included, are live and nothing else.
\<close>

theorem command_line_frees_its_own:
  assumes "\<forall>p\<in>set (m_live s). p < m_next s"
  shows "\<exists>s'. seq (construct help) (seq (for_each cos setOutput) destroy) s = (Inr (), s') \<and>
    set (m_live s') = set (m_live s)"
proof -
  have all: "owns U t \<Longrightarrow> \<exists>s'. for_each cos setOutput t = (Inr (), s') \<and> owns U s'" for U t
  proof (induction cos arbitrary: t)
    case (Cons co cos)
    obtain t' where "setOutput co t = (Inr (), t')" "owns U t'" using setOutput_owns [OF Cons.prems] by blast
    with Cons.IH [of t'] show ?case by (auto simp: seq_apply)
  qed (simp add: act_simps)
  obtain t where t: "construct help s = (Inr (), t)" "owns (m_live s) t"
    using construct_owns [OF refl assms] by blast
  obtain u where u: "for_each cos setOutput t = (Inr (), u)" "owns (m_live s) u" using all [OF t(2)] by blast
  from destroy_frees [OF u(2)] t(1) u(1) show ?thesis by (auto simp: seq_apply)
qed

theorem command_line_frees_its_own_witness:
  "\<exists>s'. seq (construct True) (seq (for_each [Some 0, None, Some 0] setOutput) destroy)
      \<lparr>m_live = [0], m_next = 1, m_argDeleteOnExitList = [], m_visitorDeleteOnExitList = [], m_output = None,
       m_userSetOutput = False\<rparr> = (Inr (), s') \<and> set (m_live s') = {0}"
  using command_line_frees_its_own
    [of "\<lparr>m_live = [0], m_next = 1, m_argDeleteOnExitList = [], m_visitorDeleteOnExitList = [], m_output = None,
       m_userSetOutput = False\<rparr>" True "[Some 0, None, Some 0]"] by simp

end
