(* ===== verification/Event_Base.thy ===== *)
theory Event_Base
  imports Rc2_Prelude
begin

text \<open>
  \<open>common/Event.{hpp,cpp}\<close> and \<open>common/EventBase.{hpp,cpp}\<close>: owning wrappers for libevent's events
  and event base. Objects live on two heaps and are addressed by their position; \<open>_alive\<close> is whether
  the object still exists, which is what \<open>weak_ptr::lock\<close> asks. libevent, and the functions stored as
  handlers, are a parameter; a handle of libevent is a number, \<open>None\<close> the null pointer.
\<close>

section \<open>libevent\<close>

record 'w libevent =
  le_config_new :: "'w \<Rightarrow> nat \<times> 'w"
  le_require_fds :: "nat \<Rightarrow> 'w \<Rightarrow> 'w"
  le_base_new :: "nat \<Rightarrow> 'w \<Rightarrow> nat option \<times> 'w"
  le_config_free :: "nat \<Rightarrow> 'w \<Rightarrow> 'w"
  le_priority_init :: "nat option \<Rightarrow> int \<Rightarrow> 'w \<Rightarrow> 'w"
  le_base_free :: "nat \<Rightarrow> 'w \<Rightarrow> 'w"
  le_event_new :: "nat option \<Rightarrow> int \<Rightarrow> int \<Rightarrow> nat \<Rightarrow> 'w \<Rightarrow> nat option \<times> 'w"
  le_event_add :: "nat \<Rightarrow> 'w \<Rightarrow> 'w"
  le_event_del :: "nat \<Rightarrow> 'w \<Rightarrow> 'w"
  le_event_free :: "nat \<Rightarrow> 'w \<Rightarrow> 'w"
  le_call :: "nat \<Rightarrow> int \<Rightarrow> int \<Rightarrow> nat \<Rightarrow> 'w \<Rightarrow> 'w"

section \<open>State\<close>

record event_obj =
  eo_event :: "nat option"
  eo_base :: nat
  eo_handler :: nat
  eo_description :: string
  eo_alive :: bool

record base_obj =
  bo_events :: "nat list"
  bo_base :: "nat option"
  bo_alive :: bool

text \<open>The static log stream is \<open>None\<close> for the null stream; \<open>es_log\<close> is what reached a stream.\<close>

record 'w ev_state =
  es_world :: 'w
  es_events :: "event_obj list"
  es_bases :: "base_obj list"
  es_logStream :: "nat option"
  es_log :: "(nat \<times> string) list"

definition event_at :: "nat \<Rightarrow> ('w ev_state, event_obj) act" where
  "event_at p =
     bind (gets es_events) (\<lambda>es.
     if p < length es \<and> eo_alive (es ! p) then ret (es ! p) else throw (UB ''dangling Event''))"

definition base_at :: "nat \<Rightarrow> ('w ev_state, base_obj) act" where
  "base_at b =
     bind (gets es_bases) (\<lambda>bs.
     if b < length bs \<and> bo_alive (bs ! b) then ret (bs ! b) else throw (UB ''dangling EventBase''))"

definition put_event :: "nat \<Rightarrow> event_obj \<Rightarrow> ('w ev_state, unit) act" where
  "put_event p e = modify (\<lambda>s. s\<lparr>es_events := (es_events s)[p := e]\<rparr>)"

definition put_base :: "nat \<Rightarrow> base_obj \<Rightarrow> ('w ev_state, unit) act" where
  "put_base b e = modify (\<lambda>s. s\<lparr>es_bases := (es_bases s)[b := e]\<rparr>)"

definition le_do :: "('w \<Rightarrow> 'a \<times> 'w) \<Rightarrow> ('w ev_state, 'a) act" where
  "le_do f s = (case f (es_world s) of (a, w) \<Rightarrow> (Inr a, s\<lparr>es_world := w\<rparr>))"

definition le_upd :: "('w \<Rightarrow> 'w) \<Rightarrow> ('w ev_state, unit) act" where
  "le_upd f = modify (\<lambda>s. s\<lparr>es_world := f (es_world s)\<rparr>)"

text \<open>libevent dereferences the event it is given.\<close>

definition with_event :: "nat option \<Rightarrow> (nat \<Rightarrow> 'w \<Rightarrow> 'w) \<Rightarrow> ('w ev_state, unit) act" where
  "with_event ev f = bind (unwrap (UB ''null struct event'') ev) (\<lambda>h. le_upd (f h))"

section \<open>EventBase\<close>

definition add_base :: "base_obj \<Rightarrow> ('w ev_state, nat) act" where
  "add_base obj = bind (gets (\<lambda>s. length (es_bases s))) (\<lambda>b.
     seq (modify (\<lambda>s. s\<lparr>es_bases := es_bases s @ [obj]\<rparr>)) (ret b))"

definition new_EventBase :: "'w libevent \<Rightarrow> ('w ev_state, nat) act" where
  "new_EventBase le =
     bind (le_do (le_config_new le)) (\<lambda>config.
     seq (le_upd (le_require_fds le config))
     (bind (le_do (le_base_new le config)) (\<lambda>base.
      seq (le_upd (le_config_free le config))
      (seq (le_upd (le_priority_init le base 4))
      (add_base \<lparr>bo_events = [], bo_base = base, bo_alive = True\<rparr>)))))"

definition adopt_EventBase :: "nat option \<Rightarrow> ('w ev_state, nat) act" where
  "adopt_EventBase eb = add_base \<lparr>bo_events = [], bo_base = eb, bo_alive = True\<rparr>"

text \<open>The set of events is not moved.\<close>

definition move_EventBase :: "nat \<Rightarrow> ('w ev_state, nat) act" where
  "move_EventBase that =
     bind (base_at that) (\<lambda>t.
     seq (put_base that (t\<lparr>bo_base := None\<rparr>))
     (add_base \<lparr>bo_events = [], bo_base = bo_base t, bo_alive = True\<rparr>))"

text \<open>The assignment operator ends without the return statement that its type requires.\<close>

definition assign_EventBase :: "nat \<Rightarrow> nat \<Rightarrow> ('w ev_state, unit) act" where
  "assign_EventBase this that =
     bind (base_at this) (\<lambda>obj.
     bind (base_at that) (\<lambda>t.
     seq (put_base this (obj\<lparr>bo_base := bo_base t\<rparr>))
     (bind (base_at that) (\<lambda>t.
      seq (put_base that (t\<lparr>bo_base := None\<rparr>))
      (throw (UB ''operator= returns no value''))))))"

definition delete_EventBase :: "'w libevent \<Rightarrow> nat \<Rightarrow> ('w ev_state, unit) act" where
  "delete_EventBase le b =
     bind (base_at b) (\<lambda>obj.
     seq (case bo_base obj of None \<Rightarrow> skip | Some h \<Rightarrow> le_upd (le_base_free le h))
     (put_base b (obj\<lparr>bo_alive := False\<rparr>)))"

definition eventCount :: "nat \<Rightarrow> ('w ev_state, nat) act" where
  "eventCount b = bind (base_at b) (\<lambda>obj. ret (length (bo_events obj)))"

definition setLogger :: "nat option \<Rightarrow> ('w ev_state, unit) act" where
  "setLogger ostream = modify (\<lambda>s. s\<lparr>es_logStream := ostream\<rparr>)"

definition base_logMessage :: "string \<Rightarrow> ('w ev_state, unit) act" where
  "base_logMessage message =
     modify (\<lambda>s. case es_logStream s of
         None \<Rightarrow> s
       | Some os \<Rightarrow> s\<lparr>es_log := es_log s @ [(os, message @ [CHR 0x0A])]\<rparr>)"

text \<open>
  With a time other than 0, \<open>event_add\<close> reads the local \<open>timeval\<close>, which nobody has set. The set of
  weak pointers is ordered by owner: an event is in it once.
\<close>

definition addEvent :: "'w libevent \<Rightarrow> nat \<Rightarrow> nat \<Rightarrow> int \<Rightarrow> ('w ev_state, unit) act" where
  "addEvent le b p milliseconds =
     bind (event_at p) (\<lambda>e.
     if milliseconds \<noteq> 0 then throw (UB ''uninitialised timeval'')
     else
       seq (with_event (eo_event e) (le_event_add le))
       (bind (base_at b) (\<lambda>obj.
        seq (put_base b (obj\<lparr>bo_events := (if p \<in> set (bo_events obj) then bo_events obj else bo_events obj @ [p])\<rparr>))
        (base_logMessage (''added event '' @ eo_description e)))))"

definition removeEvent :: "'w libevent \<Rightarrow> nat \<Rightarrow> nat \<Rightarrow> ('w ev_state, unit) act" where
  "removeEvent le b p =
     bind (event_at p) (\<lambda>e.
     seq (with_event (eo_event e) (le_event_del le))
     (bind (base_at b) (\<lambda>obj.
      seq (put_base b (obj\<lparr>bo_events := removeAll p (bo_events obj)\<rparr>))
      (base_logMessage (''removed event '' @ eo_description e)))))"

section \<open>Event\<close>

text \<open>\<open>_base.lock()\<close>\<close>

definition lock_base :: "nat \<Rightarrow> ('w ev_state, base_obj option) act" where
  "lock_base b = gets (\<lambda>s.
     if b < length (es_bases s) \<and> bo_alive (es_bases s ! b) then Some (es_bases s ! b) else None)"

definition ev_logMessage :: "nat \<Rightarrow> string \<Rightarrow> ('w ev_state, unit) act" where
  "ev_logMessage p message =
     bind (event_at p) (\<lambda>e.
     bind (lock_base (eo_base e)) (\<lambda>strongBase.
     case strongBase of None \<Rightarrow> skip | Some _ \<Rightarrow> base_logMessage message))"

text \<open>libevent is given the address of the new object.\<close>

definition new_Event :: "'w libevent \<Rightarrow> nat \<Rightarrow> int \<Rightarrow> int \<Rightarrow> nat \<Rightarrow> ('w ev_state, nat) act" where
  "new_Event le b fd flags handler =
     bind (lock_base b) (\<lambda>strongBase.
     case strongBase of
       None \<Rightarrow> throw (RuntimeError ''invalid EventBase'')
     | Some base \<Rightarrow>
         bind (gets (\<lambda>s. length (es_events s))) (\<lambda>this.
         bind (le_do (le_event_new le (bo_base base) fd flags this)) (\<lambda>ev.
         seq (modify (\<lambda>s. s\<lparr>es_events := es_events s @
                [\<lparr>eo_event = ev, eo_base = b, eo_handler = handler, eo_description = ''<event>'', eo_alive = True\<rparr>]\<rparr>))
         (ret this))))"

text \<open>The description is not moved.\<close>

definition move_Event :: "nat \<Rightarrow> ('w ev_state, nat) act" where
  "move_Event rhs =
     bind (event_at rhs) (\<lambda>r.
     bind (gets (\<lambda>s. length (es_events s))) (\<lambda>this.
     seq (put_event rhs (r\<lparr>eo_event := None\<rparr>))
     (seq (modify (\<lambda>s. s\<lparr>es_events := es_events s @
             [\<lparr>eo_event = eo_event r, eo_base = eo_base r, eo_handler = eo_handler r, eo_description = [], eo_alive = True\<rparr>]\<rparr>))
     (ret this))))"

definition delete_Event :: "'w libevent \<Rightarrow> nat \<Rightarrow> ('w ev_state, unit) act" where
  "delete_Event le p =
     bind (event_at p) (\<lambda>e.
     seq (with_event (eo_event e) (le_event_free le))
     (put_event p (e\<lparr>eo_alive := False\<rparr>)))"

definition setDescription :: "nat \<Rightarrow> string \<Rightarrow> ('w ev_state, unit) act" where
  "setDescription p desc = bind (event_at p) (\<lambda>e. put_event p (e\<lparr>eo_description := desc\<rparr>))"

definition handleCallback :: "'w libevent \<Rightarrow> int \<Rightarrow> int \<Rightarrow> nat \<Rightarrow> ('w ev_state, unit) act" where
  "handleCallback le fd flags arg =
     bind (event_at arg) (\<lambda>event.
     seq (ev_logMessage arg (''event '' @ eo_description event @ '' fired''))
     (bind (event_at arg) (\<lambda>event. le_upd (le_call le (eo_handler event) fd flags arg))))"

section \<open>Properties\<close>

text \<open>
  Moving an event leaves an object that can no longer be destroyed: after the move constructor
  the old object holds the null pointer, and its destructor passes that to \<open>event_free\<close>. The address that
  libevent calls back stays that of the old object.
\<close>

theorem moved_event_cannot_be_destroyed:
  assumes "new_Event le b fd flags handler s = (Inr p, s1)" and "move_Event p s1 = (Inr q, s2)"
  shows "delete_Event le p s2 = (Inl (UB ''null struct event''), s2) \<and> q \<noteq> p \<and>
    eo_event (es_events s2 ! q) = fst (le_event_new le (bo_base (es_bases s ! b)) fd flags p (es_world s))"
  using assms
  by (auto simp: new_Event_def lock_base_def move_Event_def delete_Event_def event_at_def put_event_def with_event_def
      le_do_def act_simps nth_append split: if_splits option.splits prod.splits)

text \<open>
  Adding an event without a time and removing it restores the set of events of its base, and the
  event is counted in between; with any other time the call is undefined.
\<close>

theorem added_event_is_counted:
  assumes "b < length (es_bases s)" and "bo_alive (es_bases s ! b)" and "p < length (es_events s)"
    and "eo_alive (es_events s ! p)" and "eo_event (es_events s ! p) = Some h" and "p \<notin> set (bo_events (es_bases s ! b))"
  shows "(\<exists>s1 s2. addEvent le b p 0 s = (Inr (), s1) \<and> removeEvent le b p s1 = (Inr (), s2) \<and>
      fst (eventCount b s1) = Inr (Suc (length (bo_events (es_bases s ! b)))) \<and> es_bases s2 = es_bases s) \<and>
    (ms \<noteq> 0 \<longrightarrow> addEvent le b p ms s = (Inl (UB ''uninitialised timeval''), s))"
  using assms
  by (auto simp: addEvent_def removeEvent_def eventCount_def event_at_def base_at_def put_base_def with_event_def
      le_upd_def base_logMessage_def act_simps removeAll_id split: option.splits)

text \<open>A libevent whose world is the number of handles it has given out.\<close>

definition counting :: "nat libevent" where
  "counting = \<lparr>le_config_new = (\<lambda>w. (w, Suc w)), le_require_fds = (\<lambda>c w. w), le_base_new = (\<lambda>c w. (Some w, Suc w)),
     le_config_free = (\<lambda>c w. w), le_priority_init = (\<lambda>b n w. w), le_base_free = (\<lambda>b w. w),
     le_event_new = (\<lambda>b fd flags arg w. (Some w, Suc w)), le_event_add = (\<lambda>e w. w), le_event_del = (\<lambda>e w. w),
     le_event_free = (\<lambda>e w. w), le_call = (\<lambda>h fd flags arg w. w)\<rparr>"

definition one_base :: "nat ev_state" where
  "one_base = snd (new_EventBase counting
     \<lparr>es_world = 0, es_events = [], es_bases = [], es_logStream = None, es_log = []\<rparr>)"

definition one_event :: "nat ev_state" where
  "one_event = snd (new_Event counting 0 5 2 9 one_base)"

theorem moved_event_cannot_be_destroyed_witness:
  "fst (delete_Event counting 0 (snd (move_Event 0 one_event))) = Inl (UB ''null struct event'')"
proof -
  have "new_Event counting 0 5 2 9 one_base = (Inr 0, one_event)"
    by (simp add: one_event_def one_base_def new_EventBase_def new_Event_def lock_base_def add_base_def le_do_def le_upd_def
        counting_def act_simps)
  moreover have "move_Event 0 one_event = (Inr 1, snd (move_Event 0 one_event))"
    by (simp add: one_event_def one_base_def new_EventBase_def new_Event_def lock_base_def add_base_def le_do_def le_upd_def
        counting_def act_simps move_Event_def event_at_def put_event_def)
  ultimately show ?thesis
    using moved_event_cannot_be_destroyed [of counting 0 5 2 9 one_base 0 one_event 1] by simp
qed

theorem added_event_is_counted_witness:
  "\<exists>s1. addEvent counting 0 0 0 one_event = (Inr (), s1) \<and> fst (eventCount 0 s1) = Inr 1"
proof -
  have "es_bases one_event = [\<lparr>bo_events = [], bo_base = Some 1, bo_alive = True\<rparr>]"
    "es_events one_event = [\<lparr>eo_event = Some 2, eo_base = 0, eo_handler = 9, eo_description = ''<event>'', eo_alive = True\<rparr>]"
    by (simp_all add: one_event_def one_base_def new_EventBase_def new_Event_def lock_base_def add_base_def le_do_def
        le_upd_def counting_def act_simps)
  then show ?thesis
    using added_event_is_counted [of 0 one_event 0 2 counting 1] by auto
qed

end
