(* ===== verification/Result_Ownership.thy ===== *)
theory Result_Ownership
  imports Rc2_Prelude "HOL-Library.Multiset"
begin

text \<open>
  Who clears which result in \<open>common/PostgresUtils.hpp\<close>. A \<open>PGresult\<close> is the address that libpq handed
  out. \<open>r_obj\<close> maps the \<open>DBResult\<close> objects that exist to their member \<open>res\<close>, \<open>None\<close> for the null pointer, and
  \<open>r_cleared\<close> lists the calls of \<open>PQclear\<close>. What \<open>PQexec\<close> returns is an argument. \<open>Pg_Connection\<close> takes
  results as values; this theory shows that no object ever holds a cleared one.
\<close>

record result_memory =
  r_cleared :: "nat option list"
  r_obj :: "nat \<rightharpoonup> nat option"

definition PQclear_call :: "nat option \<Rightarrow> (result_memory, unit) act" where
  "PQclear_call res = modify (\<lambda>s. s\<lparr>r_cleared := r_cleared s @ [res]\<rparr>)"

definition read_res :: "nat \<Rightarrow> (result_memory, nat option) act" where
  "read_res x = bind (gets (\<lambda>s. r_obj s x)) (unwrap (UB ''use of a dead DBResult''))"

definition write_res :: "nat \<Rightarrow> nat option \<Rightarrow> (result_memory, unit) act" where
  "write_res x res = modify (\<lambda>s. s\<lparr>r_obj := (r_obj s)(x \<mapsto> res)\<rparr>)"

section \<open>The members of DBResult\<close>

definition DBResult_pointer :: "nat \<Rightarrow> nat option \<Rightarrow> (result_memory, unit) act" where
  "DBResult_pointer this inRes = write_res this inRes"

text \<open>\<open>res\<close> is the answer of \<open>PQexec(con, query)\<close>.\<close>

definition DBResult_query :: "nat \<Rightarrow> nat option \<Rightarrow> (result_memory, unit) act" where
  "DBResult_query this res = write_res this res"

definition DBResult_move :: "nat \<Rightarrow> nat \<Rightarrow> (result_memory, unit) act" where
  "DBResult_move this other =
     bind (read_res other) (\<lambda>res.
     seq (write_res this res)
     (write_res other None))"

definition DBResult_destroy :: "nat \<Rightarrow> (result_memory, unit) act" where
  "DBResult_destroy this =
     bind (read_res this) (\<lambda>res.
     seq (PQclear_call res)
     (modify (\<lambda>s. s\<lparr>r_obj := (r_obj s)(this := None)\<rparr>)))"

text \<open>The member of \<open>other\<close> is read after the old result was cleared; the two may be one object.\<close>

definition DBResult_assign :: "nat \<Rightarrow> nat \<Rightarrow> (result_memory, unit) act" where
  "DBResult_assign this other =
     bind (read_res this) (\<lambda>old.
     seq (do_if (old \<noteq> None) (PQclear_call old))
     (bind (read_res other) (\<lambda>res.
      seq (write_res this res)
      (write_res other None))))"

section \<open>Programs\<close>

text \<open>What a function does with its results, the answers of libpq included.\<close>

datatype result_op = Query nat "nat option" | Pointer nat "nat option" | Move nat nat | Assign nat nat | Destroy nat

definition result_step :: "result_op \<Rightarrow> (result_memory, unit) act" where
  "result_step a =
     (case a of
        Query x res \<Rightarrow> DBResult_query x res
      | Pointer x res \<Rightarrow> DBResult_pointer x res
      | Move x y \<Rightarrow> DBResult_move x y
      | Assign x y \<Rightarrow> DBResult_assign x y
      | Destroy x \<Rightarrow> DBResult_destroy x)"

definition no_results :: result_memory where
  "no_results = \<lparr>r_cleared = [], r_obj = (\<lambda>x. None)\<rparr>"

text \<open>The rules of C++ on lifetimes: one constructs objects that do not exist and uses those that do.\<close>

fun alive_after :: "result_op \<Rightarrow> nat list \<Rightarrow> nat list" where
  "alive_after (Query x res) A = x # A"
| "alive_after (Pointer x res) A = x # A"
| "alive_after (Move x y) A = x # A"
| "alive_after (Assign x y) A = A"
| "alive_after (Destroy x) A = removeAll x A"

fun allowed :: "result_op \<Rightarrow> nat list \<Rightarrow> bool" where
  "allowed (Query x res) A = (x \<notin> set A)"
| "allowed (Pointer x res) A = (x \<notin> set A)"
| "allowed (Move x y) A = (x \<notin> set A \<and> y \<in> set A)"
| "allowed (Assign x y) A = (x \<in> set A \<and> y \<in> set A)"
| "allowed (Destroy x) A = (x \<in> set A)"

primrec lifetimes :: "result_op list \<Rightarrow> nat list \<Rightarrow> bool" where
  "lifetimes [] A = True"
| "lifetimes (a # as) A = (allowed a A \<and> lifetimes as (alive_after a A))"

primrec alive_at_end :: "result_op list \<Rightarrow> nat list \<Rightarrow> nat list" where
  "alive_at_end [] A = A"
| "alive_at_end (a # as) A = alive_at_end as (alive_after a A)"

text \<open>The results that libpq hands out.\<close>

definition pointers :: "nat option \<Rightarrow> nat list" where
  "pointers r = (case r of None \<Rightarrow> [] | Some p \<Rightarrow> [p])"

fun issued_by :: "result_op \<Rightarrow> nat list" where
  "issued_by (Query x res) = pointers res"
| "issued_by (Pointer x res) = pointers res"
| "issued_by _ = []"

definition issued :: "result_op list \<Rightarrow> nat list" where
  "issued as = concat (map issued_by as)"

definition cleared :: "result_memory \<Rightarrow> nat list" where
  "cleared s = concat (map pointers (r_cleared s))"

section \<open>Every result has one owner\<close>

definition owners :: "result_memory \<Rightarrow> (nat \<times> nat) set" where
  "owners s = {(x, p). r_obj s x = Some (Some p)}"

text \<open>Of the results \<open>I\<close> that were issued, each is either cleared, once, or held by one object.\<close>

definition results_owned :: "nat list \<Rightarrow> result_memory \<Rightarrow> bool" where
  "results_owned I s \<longleftrightarrow> inj_on snd (owners s) \<and> distinct (cleared s) \<and>
     set (cleared s) \<inter> snd ` owners s = {} \<and> set I = set (cleared s) \<union> snd ` owners s"

lemma owners_without:
  assumes "results_owned I s" and "r_obj s x = Some (Some p)"
  shows "snd ` (owners s - {(x, p)}) = snd ` owners s - {p}" and "inj_on snd (owners s - {(x, p)})" and "p \<in> snd ` owners s"
proof -
  have own: "(x, p) \<in> owners s" and inj: "inj_on snd (owners s)"
    using assms by (simp_all add: owners_def results_owned_def)
  then show "snd ` (owners s - {(x, p)}) = snd ` owners s - {p}" by (simp add: inj_on_image_set_diff [OF inj])
  show "inj_on snd (owners s - {(x, p)})" using inj by (rule inj_on_diff)
  show "p \<in> snd ` owners s" using own by force
qed

text \<open>An object is given a result that was just issued; it gives its result up; it hands it over.\<close>

lemma owned_new:
  assumes "results_owned I s" and "r_obj s x \<in> {None, Some None}" and "set (pointers res) \<inter> set I = {}"
    and "s' = s\<lparr>r_obj := (r_obj s)(x \<mapsto> res)\<rparr>"
  shows "results_owned (I @ pointers res) s'"
proof (cases res)
  case None
  then have "owners s' = owners s" using assms(2,4) by (auto simp: owners_def split: if_splits)
  with None assms(1,4) show ?thesis by (simp add: results_owned_def pointers_def cleared_def)
next
  case (Some p)
  then have "owners s' = insert (x, p) (owners s)" using assms(2,4) by (auto simp: owners_def split: if_splits)
  with Some assms show ?thesis by (auto simp: results_owned_def pointers_def cleared_def inj_on_insert)
qed

lemma owned_clear:
  assumes "results_owned I s" and "r_obj s x = Some res" and "r \<in> {None, Some None}"
    and "s' = s\<lparr>r_cleared := cs, r_obj := (r_obj s)(x := r)\<rparr>" and "concat (map pointers cs) = cleared s @ pointers res"
  shows "results_owned I s'"
proof (cases res)
  case None
  then have "owners s' = owners s" using assms(2-4) by (auto simp: owners_def split: if_splits)
  with None assms show ?thesis by (simp add: results_owned_def pointers_def cleared_def)
next
  case (Some p)
  then have p: "r_obj s x = Some (Some p)" using assms(2) by simp
  have "owners s' = owners s - {(x, p)}" using p assms(3,4) by (auto simp: owners_def split: if_splits)
  moreover have "cleared s' = cleared s @ [p]" using assms(4,5) Some by (simp add: cleared_def pointers_def)
  moreover note without = owners_without [OF assms(1) p]
  moreover have "p \<notin> set (cleared s)" "set I = insert p (set (cleared s)) \<union> (snd ` owners s - {p})"
    "insert p (set (cleared s)) \<inter> (snd ` owners s - {p}) = {}"
    using without(3) assms(1) unfolding results_owned_def by blast+
  ultimately show ?thesis using assms(1) by (simp add: results_owned_def)
qed

lemma owned_move:
  assumes "results_owned I s" and "r_obj s y = Some res" and "r_obj s x \<in> {None, Some None}" and "x \<noteq> y"
    and "s' = s\<lparr>r_obj := (r_obj s)(x \<mapsto> res, y \<mapsto> None)\<rparr>"
  shows "results_owned I s'"
proof (cases res)
  case None
  then have "owners s' = owners s" using assms(2-5) by (auto simp: owners_def split: if_splits)
  with assms(1,5) show ?thesis by (simp add: results_owned_def cleared_def)
next
  case (Some p)
  then have p: "r_obj s y = Some (Some p)" using assms(2) by simp
  have "owners s' = insert (x, p) (owners s - {(y, p)})"
    using p Some assms(3-5) by (auto simp: owners_def split: if_splits)
  moreover note without = owners_without [OF assms(1) p]
  moreover have "insert p (snd ` owners s - {p}) = snd ` owners s" using without(3) by blast
  moreover have "p \<notin> snd ` (owners s - {(y, p)} - {(x, p)})" using without(1) by blast
  ultimately show ?thesis using assms(1,5) by (simp add: results_owned_def cleared_def inj_on_insert)
qed

section \<open>The members keep the ownership\<close>

lemmas result_simps = read_res_def write_res_def PQclear_call_def unwrap_apply act_simps

lemma step_owned:
  assumes "results_owned I s" and "dom (r_obj s) = set A" and "allowed a A" and "set (issued_by a) \<inter> set I = {}"
  shows "\<exists>s'. result_step a s = (Inr (), s') \<and> results_owned (I @ issued_by a) s' \<and> dom (r_obj s') = set (alive_after a A)"
proof (cases a)
  case (Query x res)
  then have "r_obj s x = None" using assms(2,3) by auto
  with owned_new [OF assms(1) _ _ refl, of x res] assms(2,4) Query show ?thesis
    by (auto simp: result_step_def DBResult_query_def result_simps)
next
  case (Pointer x res)
  then have "r_obj s x = None" using assms(2,3) by auto
  with owned_new [OF assms(1) _ _ refl, of x res] assms(2,4) Pointer show ?thesis
    by (auto simp: result_step_def DBResult_pointer_def result_simps)
next
  case (Move x y)
  then have x: "r_obj s x = None" "x \<noteq> y" and "y \<in> dom (r_obj s)" using assms(2,3) by auto
  then obtain res where y: "r_obj s y = Some res" by auto
  from owned_move [OF assms(1) y _ x(2) refl] x assms(2) y Move show ?thesis
    by (auto simp: result_step_def DBResult_move_def result_simps)
next
  case (Destroy x)
  then have "x \<in> dom (r_obj s)" using assms(2,3) by auto
  then obtain res where x: "r_obj s x = Some res" by auto
  from owned_clear [OF assms(1) x _ refl, of None "r_cleared s @ [res]"] x assms(2) Destroy show ?thesis
    by (auto simp: result_step_def DBResult_destroy_def result_simps cleared_def)
next
  case (Assign x y)
  then have "x \<in> dom (r_obj s)" "y \<in> dom (r_obj s)" using assms(2,3) by auto
  then obtain old res where x: "r_obj s x = Some old" and y: "r_obj s y = Some res" by auto
  let ?cs = "if old = None then r_cleared s else r_cleared s @ [old]"
  let ?s1 = "s\<lparr>r_cleared := ?cs, r_obj := (r_obj s)(x \<mapsto> None)\<rparr>"
  let ?s2 = "?s1\<lparr>r_obj := (r_obj s)(x \<mapsto> res, y \<mapsto> None)\<rparr>"
  have s1: "results_owned I ?s1"
    by (rule owned_clear [OF assms(1) x _ refl]) (auto simp: cleared_def pointers_def)
  have "results_owned I ?s2"
  proof (cases "x = y")
    case False
    with owned_move [OF s1, of y res x ?s2] y show ?thesis by simp
  qed (use s1 in simp)
  moreover have "result_step a s = (Inr (), ?s2)"
    using x y Assign by (simp add: result_step_def DBResult_assign_def result_simps)
  ultimately show ?thesis using x y assms(2) Assign by auto
qed

lemma steps_owned:
  "results_owned I s \<Longrightarrow> dom (r_obj s) = set A \<Longrightarrow> lifetimes as A \<Longrightarrow> distinct (I @ issued as) \<Longrightarrow>
    \<exists>s'. for_each as result_step s = (Inr (), s') \<and> results_owned (I @ issued as) s' \<and> dom (r_obj s') = set (alive_at_end as A)"
proof (induction as arbitrary: s A I)
  case (Cons a as)
  then have new: "set (issued_by a) \<inter> set I = {}" by (auto simp: issued_def)
  from Cons.prems obtain s1 where s1: "result_step a s = (Inr (), s1)" "results_owned (I @ issued_by a) s1" "dom (r_obj s1) = set (alive_after a A)"
    using step_owned [OF Cons.prems(1,2) _ new] by auto
  with Cons.IH [of "I @ issued_by a" s1 "alive_after a A"] Cons.prems show ?case by (auto simp: seq_apply issued_def)
qed (simp add: act_simps issued_def)

section \<open>Property\<close>

text \<open>
  C37. Every result of libpq is cleared exactly once. Take any sequence of constructions, moves, assignments
  (to itself too) and destructions of \<open>DBResult\<close> objects that respects their lifetimes, libpq handing out
  different results. It runs through, no result is cleared twice, those handed out are the cleared ones and those still held,
  none is both, each is held by one object, and when all objects are gone exactly the results handed out were cleared.
\<close>

theorem results_cleared_once:
  assumes "lifetimes as []" and "distinct (issued as)"
  shows "\<exists>s. for_each as result_step no_results = (Inr (), s) \<and> distinct (cleared s) \<and>
    (\<forall>p. p \<in> set (issued as) \<longleftrightarrow> (p \<in> set (cleared s)) \<noteq> (\<exists>x. r_obj s x = Some (Some p))) \<and>
    (\<forall>x y p. r_obj s x = Some (Some p) \<and> r_obj s y = Some (Some p) \<longrightarrow> x = y) \<and>
    (alive_at_end as [] = [] \<longrightarrow> mset (cleared s) = mset (issued as))"
proof -
  have "results_owned [] no_results" "dom (r_obj no_results) = set []"
    by (simp_all add: results_owned_def owners_def cleared_def no_results_def)
  from steps_owned [OF this assms(1)] assms(2) obtain s
    where run: "for_each as result_step no_results = (Inr (), s)" and s: "results_owned (issued as) s" "dom (r_obj s) = set (alive_at_end as [])"
    by auto
  have held: "snd ` owners s = {p. \<exists>x. r_obj s x = Some (Some p)}" by (force simp: owners_def)
  have "inj_on snd (owners s)" using s(1) by (simp add: results_owned_def)
  then have one: "r_obj s x = Some (Some p) \<Longrightarrow> r_obj s y = Some (Some p) \<Longrightarrow> x = y" for x y p
    using inj_onD [of snd "owners s" "(x, p)" "(y, p)"] by (simp add: owners_def)
  have "distinct (cleared s)" and parts: "p \<in> set (issued as) \<longleftrightarrow> (p \<in> set (cleared s)) \<noteq> (\<exists>x. r_obj s x = Some (Some p))" for p
    using s(1) unfolding results_owned_def held by blast+
  moreover have "mset (cleared s) = mset (issued as)" if "alive_at_end as [] = []"
  proof -
    have "\<not> (\<exists>x. r_obj s x = Some (Some p))" for p using that s(2) by auto
    with parts have "set (cleared s) = set (issued as)" by blast
    with \<open>distinct (cleared s)\<close> assms(2) show ?thesis by (simp add: set_eq_iff_mset_eq_distinct)
  qed
  ultimately show ?thesis using run one by blast
qed

text \<open>A result is returned through a temporary, assigned over an older one, and assigned to itself; a query fails.\<close>

definition example_results :: "result_op list" where
  "example_results = [Query 0 (Some 10), Query 1 (Some 11), Move 2 1, Destroy 1, Assign 0 2, Destroy 2, Assign 0 0,
     Pointer 1 None, Destroy 1, Destroy 0]"

theorem results_cleared_once_witness:
  "\<exists>s. for_each example_results result_step no_results = (Inr (), s) \<and> mset (cleared s) = {#10, 11#}"
proof -
  have "lifetimes example_results []" "distinct (issued example_results)" "alive_at_end example_results [] = []"
    "mset (issued example_results) = {#10, 11#}"
    by (simp_all add: example_results_def issued_def pointers_def)
  with results_cleared_once [of example_results] show ?thesis by auto
qed

end
