(* ===== verification/Spec2Isabelle.thy ===== *)
theory Spec2Isabelle
  imports Db_Sync_Behaviour Env_Watcher_Laws Session_Request Server_Behaviour Tclap_Formats Tclap_Ownership Event_Base Result_Ownership
begin

text \<open>
  Verification of rc2compute, the compute server of Rc2: a server process accepts clients and runs
  one session process for each; a session embeds R, executes the commands that its client sends as
  framed JSON messages, mirrors the files of a workspace between a PostgreSQL database and a working
  directory, and reports output, images and variables back.

  \<^item> The parts and how they interact.

  \<open>src/RServer.cpp\<close> accepts a connection and executes a session process, handing over the socket
  in a command line that TCLAP (\<open>tclap/\<close>) reads again. \<open>src/RSession.cpp\<close> owns everything else in
  that process: bytes arrive in \<open>src/InputBufferManager.cpp\<close>, which cuts them into messages; a message
  becomes a \<open>JsonCommand\<close> (\<open>src/JsonCommand.hpp\<close>, on the values of \<open>vendor/json.hpp\<close>); the handler
  of the command evaluates R code, whose console output comes back through \<open>RSessionCallbacks\<close>, asks
  \<open>src/EnvironmentWatcher.cpp\<close> for the variables, and \<open>src/FileManager.cpp\<close> for files and images. The
  file manager follows the directory with inotify and the database with notifications, and keeps the two
  in step through \<open>src/DBFileSource.cpp\<close>, which uses the client library of \<open>common/\<close>. Commands that
  run code schedule a timer, which acknowledges them when R's files have been looked after.

  \<^item> Conventions.

  A function that changes state is an action (\<open>Rc2_Prelude\<close>): it maps a state to a value or an
  exception, and the state reached so far, so every \<open>throw\<close>, early return and destructor of the
  source is in the model. C++ exceptions, \<open>exit\<close>, aborts and undefined behaviour are constructors of
  one type; undefined behaviour is caught by no handler. States are records, each extending that of the
  component it owns: \<open>hw\<close> (the world), \<open>pg\<close>, \<open>db_source\<close>, \<open>fm\<close>, \<open>session\<close>. Machine integers are
  words, or integers reduced explicitly (\<open>to_int32\<close>, \<open>to_uint32\<close>). Shared objects live on heaps and
  pointers are positions, \<open>None\<close> being the null pointer.

  Code that is not in the repository is a parameter: the records \<open>'w sys\<close> (\<open>Host_System\<close>: file
  system, inotify, libpq, the R interpreter), \<open>'w rapi\<close> (\<open>Env_Watcher\<close>: R's accessors), \<open>'w env\<close>
  (\<open>R_Session\<close>: \<open>strtod\<close>, the printing of floating-point numbers and parts of RInside) and \<open>'w host\<close>
  (\<open>R_Server\<close>: sockets and processes). What a theorem needs of them is a named hypothesis
  (\<open>pg_laws\<close>, \<open>fs_laws\<close>, \<open>file_laws\<close>, \<open>server_laws\<close>,
  \<open>calls_keep_files\<close>, \<open>help_ok\<close>, \<open>strtod_integers\<close>, \<open>strtod_lines\<close>), and \<open>Sample_Host\<close> is a concrete host that satisfies these
  laws, on which the examples are evaluated.

  \<^item> The theories.

  \<open>Rc2_Prelude\<close>: exceptions, actions and the judgements \<open>keeps\<close>, \<open>ensures\<close> and \<open>safe\<close> with one
  rule per control structure. \<open>Std_Map\<close>: \<open>std::map\<close> as a sorted list of entries, with its contract,
  the locale \<open>ordered_map\<close>. \<open>Cpp_String\<close>: string and number functions of the C++ library and the quoting helpers.
  \<open>Scope_Guards\<close>, \<open>Rc2_Utils\<close>: \<open>common/ScopeGuard.hpp\<close>, \<open>common/RC2Utils.cpp\<close> and the guards that
  set a flag for a scope.

  \<open>Wire_Protocol\<close>: both ends of the framing. Round trip for any cutting of the frames into blocks, the
  exact condition under which the size check is passed by a length that wraps around, and what happens
  to bytes after a frame and to a wrong magic number.

  \<open>Pg_Connection\<close>, \<open>Db_File_Source\<close>, \<open>Db_Cache_View\<close>: connections and transactions, the cache of files and
  its mirror. Inserting, updating and saving are atomic in the database and in the cache; loading makes
  directory and cache agree with the rows; the cache implements a partial map from ids to versions and names.
  \<open>Result_Ownership\<close> shows of \<open>DBResult\<close> that every result of libpq is cleared exactly once, which is why the
  other theories may take results as values.

  \<open>File_Manager\<close>, \<open>File_Manager_Laws\<close>, \<open>File_Manager_Behaviour\<close>: watches, pending images,
  notifications and the suppression of events. The invariant is proved of every operation and of every
  state that the callbacks reach in any order; then the decoding of notifications, image batches, and
  the exceptions that leave a callback.

  \<open>Db_Sync\<close>, \<open>Db_Sync_Behaviour\<close>: the three of them together. \<open>database\<close> is the abstract state, the
  rows of the workspace, and \<open>in_sync\<close> says that cache and directory show it. Setting the manager up brings the session in
  step with the rows it was given; a burst of notifications that are sound for the database brings a session
  that is behind in step again; and a notification for a file that is gone dereferences a null pointer. The
  lemma \<open>processDBNotification_follows\<close> is the step, \<open>notification_loop_follows\<close> the induction over the queue.

  \<open>Json_Value\<close>, \<open>Json_Reader\<close>, \<open>Json_Reader_Laws\<close>, \<open>Json_Round_Trip\<close>, \<open>Json_Stream\<close>: JSON values with their writer and the
  escaping of strings (round trip, exactness of the in-place loop), then the scanner and the recursive-descent
  parser that read requests. Parsing ends for every text and raises only the documented exceptions; what the
  writer wrote is read back, up to what is lost because every number goes through a double
  (\<open>Cpp_Double\<close>: the bits of a double and its conversions). Requests come from a stream: \<open>Json_Stream\<close> is the
  lexer with its buffer, the refills line by line and the markers, and shows that its tokens are those of the whole text
  (a locale states when the parser cannot tell two scanners apart). \<open>env_parse\<close> of the session is the parser of the stream.

  \<open>Json_Command\<close>, \<open>Env_Watcher\<close>, \<open>Env_Watcher_Laws\<close>: requests, captures of R's variables and their
  differences, and the serialiser of R objects. The serialiser follows environments without a bound; \<open>env_depth\<close> is
  the stack depth that is left, and one theorem shows that an environment containing itself uses up any depth.

  \<open>R_Session\<close>, \<open>Session_Commands\<close>, \<open>Session_Loop\<close>: the session, its handlers, and the event loop as a
  step relation on what libevent delivers. \<open>Session_Laws\<close> proves once (locale \<open>session_invariant\<close>)
  that every handler keeps an invariant which survives its elementary effects, and interprets the locale
  on the framing of the output, on the file manager's tables and on the open state; \<open>Session_Flags\<close>
  adds the three flags that redirect output. \<open>Session_Output\<close>, \<open>Session_Behaviour\<close>,
  \<open>Session_Liveness\<close> and \<open>Session_Request\<close> state what the client receives: invariants of every reachable
  session, the answers to requests and to errors, that every scheduled acknowledgement can be delivered, and
  the whole way of script requests from the blocks in which they arrive to their acknowledgements.

  \<open>Tclap_Arg\<close>, \<open>Tclap_Output\<close>, \<open>Tclap_Cmd_Line\<close>, \<open>Tclap_Laws\<close>: the command line parser, its usage
  text and its line breaker. The loop over the words has a fuel, and as many steps as there are words
  are proved to be enough. \<open>Tclap_Formats\<close> is the DocBook page and the completion function
  for zsh, with what their in-place loops over a string compute (one of them, a partial function, need
  not end); \<open>Tclap_Ownership\<close> shows that a command line frees what it allocated, once, and nothing else.

  \<open>R_Server\<close>, \<open>Server_Behaviour\<close>: the two \<open>main\<close> functions, accepting clients, and the theorem
  that the client the server accepts is the one the session it starts serves.

  \<open>Event_Base\<close>: the wrappers of libevent's events and event base in \<open>common/\<close>, which only the
  tests use so far: owners, moves, the set of weak pointers, and the callback.

  \<^item> Bounds.

  \<open>notification_loop\<close> runs with a fuel, the number of notifications libpq has queued: the code loops
  until \<open>PQnotifies\<close> answers null, which is up to the server. \<open>parse_loop\<close> is bounded by the number of
  words and \<open>parse_internal\<close> by twice the length of the text (both proved enough), \<open>valueToJson\<close> by the stack depth (see above). All other recursions are
  structural or have a measure.

  \<^item> Not modelled.

  Logging (\<open>src/RC2Logging.h\<close> and the \<open>LOG\<close> statements): output only, and no control flow depends on it.
  The rest of \<open>vendor/json.hpp\<close> (a vendored library: iterators, comparison, patches, the callback of the
  parser), which the program does not use. The destructor of a connection, after which it is not used. In TCLAP the
  destructors and the copy operations that the classes forbid. Signal handlers and the glue of
  \<open>main\<close> that installs log sinks. The R package, the unit tests and the build files.
\<close>

end
